(* ===== verification/Py_Prelude.thy ===== *)
theory Py_Prelude
  imports Complex_Main "HOL-Library.AList" "HOL-Library.Char_ord"
    "HOL-Library.List_Lexorder" "HOL-Library.Product_Lexorder"
begin

text \<open>
  The Python values and containers every component of the model shares.

  \<^item> \<open>json\<close>: a value of the open dictionaries that travel in frames and manifests
    (\<open>params\<close>, \<open>counters\<close>, a manifest). A float carries its exact value and the text
    \<open>repr\<close> prints for it, since the sources only compare floats and print them.
  \<^item> A Python \<open>dict\<close> is an association list: its order is the insertion order, an
    assignment to an existing key keeps the key's place (\<open>AList.update\<close>), and
    \<open>map_of\<close> is the lookup.
  \<^item> An exception is the left side of a sum.
  \<^item> \<open>sorted (key = f)\<close> is \<open>sort_key f\<close>, which is stable, as Python's sort is; strings
    compare by \<open>List_Lexorder\<close> over \<open>Char_ord\<close>, tuples by \<open>Product_Lexorder\<close>.
\<close>

section \<open>Values\<close>

datatype json =
    JNull
  | JBool bool
  | JInt int
  | JFloat rat string
  | JStr string
  | JArr "json list"
  | JObj "(string \<times> json) list"

type_synonym pdict = "(string \<times> json) list"

text \<open>\<open>bool(v)\<close>.\<close>

fun truthy :: "json \<Rightarrow> bool" where
  "truthy JNull = False"
| "truthy (JBool b) = b"
| "truthy (JInt i) = (i \<noteq> 0)"
| "truthy (JFloat r t) = (r \<noteq> 0)"
| "truthy (JStr s) = (s \<noteq> [])"
| "truthy (JArr xs) = (xs \<noteq> [])"
| "truthy (JObj d) = (d \<noteq> [])"

text \<open>\<open>d.get(k)\<close> and \<open>v or w\<close>.\<close>

definition pget :: "pdict \<Rightarrow> string \<Rightarrow> json" where
  "pget d k = (case map_of d k of None \<Rightarrow> JNull | Some v \<Rightarrow> v)"

definition py_or :: "json \<Rightarrow> json \<Rightarrow> json" where
  "py_or v w = (if truthy v then v else w)"

text \<open>\<open>s or t\<close> on strings, where the empty string is false.\<close>

definition str_or :: "string \<Rightarrow> string \<Rightarrow> string" where
  "str_or s t = (if s = [] then t else s)"

text \<open>\<open>v == n\<close> for an integer \<open>n\<close>: \<open>True == 1\<close> and \<open>1.0 == 1\<close> hold in Python.\<close>

fun py_eq_int :: "json \<Rightarrow> int \<Rightarrow> bool" where
  "py_eq_int (JInt i) n = (i = n)"
| "py_eq_int (JBool b) n = ((if b then 1 else 0) = n)"
| "py_eq_int (JFloat r t) n = (r = of_int n)"
| "py_eq_int _ n = False"

section \<open>Text\<close>

definition digit :: "nat \<Rightarrow> char" where
  "digit n = char_of (48 + n)"

fun dec_nat :: "nat \<Rightarrow> string" where
  "dec_nat n = (if n < 10 then [digit n] else dec_nat (n div 10) @ [digit (n mod 10)])"

declare dec_nat.simps [simp del]

definition dec_int :: "int \<Rightarrow> string" where
  "dec_int i = (if i < 0 then ''-'' @ dec_nat (nat (- i)) else dec_nat (nat i))"

fun join :: "string \<Rightarrow> string list \<Rightarrow> string" where
  "join sep [] = []"
| "join sep [x] = x"
| "join sep (x # y # ys) = x @ sep @ join sep (y # ys)"

text \<open>\<open>repr\<close> of a string: single quotes unless it holds one and no double quote.\<close>

definition repr_char :: "char \<Rightarrow> char \<Rightarrow> string" where
  "repr_char q c =
     (if c = q \<or> c = CHR 0x5C then [CHR 0x5C, c]
      else if c = CHR 0x0A then [CHR 0x5C, CHR ''n'']
      else if c = CHR 0x0D then [CHR 0x5C, CHR ''r'']
      else if c = CHR 0x09 then [CHR 0x5C, CHR ''t'']
      else [c])"

definition repr_str :: "string \<Rightarrow> string" where
  "repr_str s =
     (let q = (if CHR 0x27 \<in> set s \<and> CHR 0x22 \<notin> set s then CHR 0x22 else CHR 0x27)
      in [q] @ concat (map (repr_char q) s) @ [q])"

fun py_repr :: "json \<Rightarrow> string" where
  "py_repr JNull = ''None''"
| "py_repr (JBool b) = (if b then ''True'' else ''False'')"
| "py_repr (JInt i) = dec_int i"
| "py_repr (JFloat r t) = t"
| "py_repr (JStr s) = repr_str s"
| "py_repr (JArr xs) = ''['' @ join '', '' (map py_repr xs) @ '']''"
| "py_repr (JObj d) =
     ''{'' @ join '', '' (map (\<lambda>kv. repr_str (fst kv) @ '': '' @ py_repr (snd kv)) d) @ ''}''"

text \<open>\<open>str(v)\<close>: the text itself for a string, \<open>repr\<close> for everything else.\<close>

definition py_str :: "json \<Rightarrow> string" where
  "py_str v = (case v of JStr s \<Rightarrow> s | _ \<Rightarrow> py_repr v)"

text \<open>\<open>s.strip()\<close> over the ASCII white space, and \<open>int(v)\<close>: \<open>None\<close> stands for the
  \<open>ValueError\<close> or \<open>TypeError\<close> it raises. Text is an optional sign and digits, which
  single underscores may separate; a float is truncated towards zero.\<close>

definition is_space :: "char \<Rightarrow> bool" where
  "is_space c \<longleftrightarrow> c \<in> {CHR '' '', CHR 0x09, CHR 0x0A, CHR 0x0B, CHR 0x0C, CHR 0x0D}"

definition strip :: "string \<Rightarrow> string" where
  "strip s = rev (dropWhile is_space (rev (dropWhile is_space s)))"

definition is_digit :: "char \<Rightarrow> bool" where
  "is_digit c \<longleftrightarrow> 48 \<le> (of_char c :: nat) \<and> (of_char c :: nat) \<le> 57"

fun digits_value :: "nat \<Rightarrow> string \<Rightarrow> nat option" where
  "digits_value acc [] = Some acc"
| "digits_value acc (c # cs) =
     (if is_digit c then digits_value (10 * acc + (of_char c - 48)) cs
      else if c = CHR ''_'' then
        (case cs of
           [] \<Rightarrow> None
         | d # ds \<Rightarrow> if is_digit d then digits_value (10 * acc + (of_char d - 48)) ds else None)
      else None)"

definition nat_text :: "string \<Rightarrow> nat option" where
  "nat_text s = (case s of [] \<Rightarrow> None | c # _ \<Rightarrow> if is_digit c then digits_value 0 s else None)"

definition int_text :: "string \<Rightarrow> int option" where
  "int_text s =
     (case strip s of
        [] \<Rightarrow> None
      | c # cs \<Rightarrow>
          if c = CHR ''-'' then map_option (\<lambda>n. - int n) (nat_text cs)
          else if c = CHR ''+'' then map_option int (nat_text cs)
          else map_option int (nat_text (c # cs)))"

definition trunc_rat :: "rat \<Rightarrow> int" where
  "trunc_rat r = (if r < 0 then - \<lfloor>- r\<rfloor> else \<lfloor>r\<rfloor>)"

fun py_int :: "json \<Rightarrow> int option" where
  "py_int (JInt i) = Some i"
| "py_int (JBool b) = Some (if b then 1 else 0)"
| "py_int (JFloat r t) = Some (trunc_rat r)"
| "py_int (JStr s) = int_text s"
| "py_int _ = None"

text \<open>\<open>t in s\<close> on strings.\<close>

fun contains :: "string \<Rightarrow> string \<Rightarrow> bool" where
  "contains pat [] = (pat = [])"
| "contains pat (c # cs) = (take (length pat) (c # cs) = pat \<or> contains pat cs)"

section \<open>Dictionaries\<close>

text \<open>\<open>d.get(k, v)\<close>.\<close>

definition pget_or :: "pdict \<Rightarrow> string \<Rightarrow> json \<Rightarrow> json" where
  "pget_or d k v = (case map_of d k of None \<Rightarrow> v | Some w \<Rightarrow> w)"

text \<open>\<open>d[k] = v\<close>, \<open>d.setdefault(k, v)\<close>, \<open>d.pop(k, None)\<close> and \<open>dict(d, **e)\<close>.\<close>

abbreviation dput :: "'k \<Rightarrow> 'v \<Rightarrow> ('k \<times> 'v) list \<Rightarrow> ('k \<times> 'v) list" where
  "dput \<equiv> AList.update"

abbreviation dpop :: "'k \<Rightarrow> ('k \<times> 'v) list \<Rightarrow> ('k \<times> 'v) list" where
  "dpop \<equiv> AList.delete"

definition dsetdefault :: "'k \<Rightarrow> 'v \<Rightarrow> ('k \<times> 'v) list \<Rightarrow> ('k \<times> 'v) list" where
  "dsetdefault k v d = (case map_of d k of None \<Rightarrow> d @ [(k, v)] | Some _ \<Rightarrow> d)"

fun dmerge :: "('k \<times> 'v) list \<Rightarrow> ('k \<times> 'v) list \<Rightarrow> ('k \<times> 'v) list" where
  "dmerge d [] = d"
| "dmerge d ((k, v) # e) = dmerge (dput k v d) e"

definition keys :: "('k \<times> 'v) list \<Rightarrow> 'k list" where
  "keys d = map fst d"

definition vals :: "('k \<times> 'v) list \<Rightarrow> 'v list" where
  "vals d = map snd d"

text \<open>\<open>dict.fromkeys(xs)\<close>: the distinct elements in order of first appearance.\<close>

fun uniq :: "'a list \<Rightarrow> 'a list" where
  "uniq [] = []"
| "uniq (x # xs) = x # filter (\<lambda>y. y \<noteq> x) (uniq xs)"

definition sum_bind :: "'e + 'a \<Rightarrow> ('a \<Rightarrow> 'e + 'b) \<Rightarrow> 'e + 'b" where
  "sum_bind r f = (case r of Inl e \<Rightarrow> Inl e | Inr x \<Rightarrow> f x)"

text \<open>\<open>max(xs, key=f)\<close>: the first element with the largest key.\<close>

definition first_max :: "('a \<Rightarrow> 'b :: linorder) \<Rightarrow> 'a \<Rightarrow> 'a list \<Rightarrow> 'a" where
  "first_max f x xs = fold (\<lambda>y m. if f m < f y then y else m) xs x"

section \<open>Lemmas\<close>

named_theorems dict_simps \<open>lookups and key sets of updated dictionaries\<close>

lemma keys_dput [dict_simps]:
  "keys (dput k v d) = (if k \<in> set (keys d) then keys d else keys d @ [k])"
  by (simp add: keys_def update_keys)

lemma distinct_keys_dput [intro, simp]: "distinct (keys d) \<Longrightarrow> distinct (keys (dput k v d))"
  by (simp add: keys_dput)

lemma map_of_dput [simp]: "map_of (dput k v d) = (map_of d)(k \<mapsto> v)"
  by (simp add: update_conv')

lemma map_of_dpop [simp]: "map_of (dpop k d) = (map_of d)(k := None)"
  by (simp add: delete_conv')

lemma keys_dpop [dict_simps]: "keys (dpop k d) = removeAll k (keys d)"
  by (simp add: keys_def delete_keys)

lemma distinct_keys_dpop [intro, simp]: "distinct (keys d) \<Longrightarrow> distinct (keys (dpop k d))"
  by (simp add: keys_dpop distinct_removeAll)

lemma map_of_keys_None [dict_simps]: "map_of d k = None \<longleftrightarrow> k \<notin> set (keys d)"
  by (simp add: keys_def map_of_eq_None_iff)

lemma map_of_keys_Some: "map_of d k = Some v \<Longrightarrow> k \<in> set (keys d)"
  by (metis map_of_keys_None option.distinct(1))

lemma map_of_dsetdefault [simp]:
  "map_of (dsetdefault k v d) = (if k \<in> dom (map_of d) then map_of d else (map_of d)(k \<mapsto> v))"
  by (auto simp: dsetdefault_def map_add_def fun_eq_iff split: option.splits)

lemma keys_dsetdefault [dict_simps]:
  "keys (dsetdefault k v d) = (if k \<in> set (keys d) then keys d else keys d @ [k])"
  by (auto simp: dsetdefault_def map_of_keys_None keys_def split: option.splits
      dest!: map_of_SomeD intro: image_eqI [where x = "(_, _)"])

lemma keys_append [simp]: "keys (d @ e) = keys d @ keys e"
  by (simp add: keys_def)

lemma set_dput_subset: "set (dput k v d) \<subseteq> insert (k, v) (set d)"
  by (induction d) auto

lemma set_dput_distinct:
  "distinct (keys d) \<Longrightarrow> set (dput k v d) = insert (k, v) {p \<in> set d. fst p \<noteq> k}"
  by (induction d) (auto simp: keys_def image_iff)

lemma distinct_map_of_iff:
  "distinct (keys d) \<Longrightarrow> (k, v) \<in> set d \<longleftrightarrow> map_of d k = Some v"
  by (simp add: keys_def)

lemma vals_iff_lookup:
  "distinct (keys d) \<Longrightarrow> v \<in> set (vals d) \<longleftrightarrow> (\<exists>k. map_of d k = Some v)"
  by (force simp: vals_def keys_def)

lemma uniq_set [simp]: "set (uniq xs) = set xs"
  by (induction xs) auto

lemma uniq_distinct [simp]: "distinct (uniq xs)"
  by (induction xs) auto

lemma pget_dput [simp]: "pget (dput k v d) j = (if j = k then v else pget d j)"
  by (simp add: pget_def)

lemma py_or_JNull [simp]: "py_or JNull w = w"
  by (simp add: py_or_def)

lemma py_str_JStr [simp]: "py_str (JStr s) = s"
  by (simp add: py_str_def)

lemma str_or_Nil [simp]: "str_or [] t = t" and str_or_self [simp]: "str_or s [] = s"
  by (simp_all add: str_or_def)

lemma sum_bind_simps [simp]: "sum_bind (Inl e) f = Inl e" "sum_bind (Inr x) f = f x"
  by (simp_all add: sum_bind_def)

lemma sum_bind_InrE:
  assumes "sum_bind r f = Inr y"
  obtains x where "r = Inr x" and "f x = Inr y"
  using assms by (cases r) auto

lemma contains_iff: "contains pat xs \<longleftrightarrow> (\<exists>us vs. xs = us @ pat @ vs)"
proof (induction xs)
  case (Cons c cs)
  have "take (length pat) (c # cs) = pat \<longleftrightarrow> (\<exists>vs. c # cs = pat @ vs)"
    by (metis append_eq_conv_conj)
  then show ?case
    using Cons.IH by (auto simp: Cons_eq_append_conv)
qed auto

lemma first_max_fold:
  "first_max f x xs \<in> insert x (set xs) \<and> (\<forall>y \<in> insert x (set xs). f y \<le> f (first_max f x xs))"
proof (induction xs arbitrary: x)
  case Nil
  then show ?case by (simp add: first_max_def)
next
  case (Cons y ys)
  let ?x = "if f x < f y then y else x"
  have "first_max f x (y # ys) = first_max f ?x ys"
    by (simp add: first_max_def)
  then show ?case
    using Cons.IH [of ?x] by (auto split: if_splits)
qed

text \<open>Decimal text: never empty, digits only, and injective on the numbers it prints.\<close>

lemma dec_nat_nonempty: "dec_nat n \<noteq> []"
  by (subst dec_nat.simps) simp

lemma digit_inject: "a < 10 \<Longrightarrow> b < 10 \<Longrightarrow> digit a = digit b \<longleftrightarrow> a = b"
  by (auto simp: digit_def dest!: arg_cong [where f = "of_char :: char \<Rightarrow> nat"])

lemma dec_nat_inject: "dec_nat m = dec_nat n \<Longrightarrow> m = n"
proof (induction m arbitrary: n rule: dec_nat.induct)
  case (1 m)
  show ?case
  proof (cases "m < 10 \<or> n < 10")
    case True
    with "1.prems" show ?thesis
      by (auto simp: dec_nat.simps [of m] dec_nat.simps [of n] dec_nat_nonempty dec_nat_nonempty [symmetric]
          digit_inject
          split: if_splits)
  next
    case False
    with "1.prems" have "dec_nat (m div 10) = dec_nat (n div 10)" and "m mod 10 = n mod 10"
      by (auto simp: dec_nat.simps [of m] dec_nat.simps [of n] digit_inject)
    moreover from this False have "m div 10 = n div 10"
      using "1.IH" by simp
    ultimately show ?thesis
      by (metis div_mult_mod_eq)
  qed
qed

end
