(* ===== verification/Wire_Protocol.thy ===== *)
theory Wire_Protocol
  imports Run_State
begin

text \<open>
  The node/admin wire protocol (services/admin/src/mec_cast_admin/protocol.py): the node
  types and the run profile each serves, what a node reports of its middleware, the payloads,
  and \<open>parse\<close>, which accepts a frame or says why not.

  The pydantic models that validate an envelope and a payload are third-party code. They are the
  arguments \<open>ve\<close> and \<open>vp\<close> of \<open>parse\<close>: each answers with the validated value or with the
  text of its complaint.
\<close>

section \<open>Node types and profiles\<close>

datatype node_type = Client | Edge | Gnb | Xapp | Render | Relay | Sender | Receiver

fun node_type_str :: "node_type \<Rightarrow> string" where
  "node_type_str Client = ''client''"
| "node_type_str Edge = ''edge''"
| "node_type_str Gnb = ''gnb''"
| "node_type_str Xapp = ''xapp''"
| "node_type_str Render = ''render''"
| "node_type_str Relay = ''relay''"
| "node_type_str Sender = ''sender''"
| "node_type_str Receiver = ''receiver''"

definition node_types :: "node_type list" where
  "node_types = [Client, Edge, Gnb, Xapp, Render, Relay, Sender, Receiver]"

definition node_type_of :: "string \<Rightarrow> node_type option" where
  "node_type_of t = find (\<lambda>n. node_type_str n = t) node_types"

definition middleware_node_types :: "node_type set" where
  "middleware_node_types = {Client, Edge, Render}"

definition media_node_types :: "node_type set" where
  "media_node_types = {Relay, Sender, Receiver}"

definition media_params :: "string list" where
  "media_params = [''stream'', ''video'', ''libwebrtc'', ''relay_url'', ''public_addr'']"

definition profiles :: "string list" where
  "profiles = [''robotics'', ''media'']"

definition default_profile :: string where
  "default_profile = ''robotics''"

fun node_profile :: "node_type \<Rightarrow> string option" where
  "node_profile Client = Some ''robotics''"
| "node_profile Edge = Some ''robotics''"
| "node_profile Render = Some ''robotics''"
| "node_profile Relay = Some ''media''"
| "node_profile Sender = Some ''media''"
| "node_profile Receiver = Some ''media''"
| "node_profile Gnb = None"
| "node_profile Xapp = None"

definition profile_of :: "pdict \<Rightarrow> string" where
  "profile_of params = py_str (py_or (pget params ''profile'') (JStr default_profile))"

definition serves :: "string \<Rightarrow> string \<Rightarrow> bool" where
  "serves t profile =
     (case node_type_of t of
        None \<Rightarrow> False
      | Some n \<Rightarrow> (case node_profile n of None \<Rightarrow> True | Some own \<Rightarrow> own = profile))"

definition middleware_rmw :: "(string \<times> string) list" where
  "middleware_rmw = [(''zenoh'', ''rmw_zenoh_cpp''), (''dds'', ''rmw_fastrtps_cpp'')]"

definition codecs :: "string list" where
  "codecs = [''none'', ''gpcc'']"

definition middleware_of :: "pdict \<Rightarrow> string option" where
  "middleware_of params =
     (let name = py_str (py_or (pget params ''middleware'') (JStr []));
          link = py_str (py_or (pget params ''transport'') (JStr []))
      in if name = [] then None
         else Some (if link \<noteq> [] then name @ ''/'' @ link else name))"

definition node_id_of :: "string \<Rightarrow> string \<Rightarrow> int \<Rightarrow> string" where
  "node_id_of node_type host inst = node_type @ ''-'' @ host @ ''-'' @ dec_int inst"

section \<open>Messages\<close>

datatype message_type =
  Hello | Status | Ack | Pong | Goodbye | Welcome | Command | Ping | Error

definition node_to_admin :: "message_type set" where
  "node_to_admin = {Hello, Status, Ack, Pong, Goodbye}"

definition admin_to_node :: "message_type set" where
  "admin_to_node = {Welcome, Command, Ping, Error}"

datatype command_type =
  Run_Start | Run_Stop | Stream_Start | Stream_Stop | Status_Report | Ran_Policy

datatype node_state = Idle | Node_Running | Node_Error

definition protocol_version :: int where
  "protocol_version = 1"

record hello_payload =
  hp_node_type :: node_type
  hp_node_id :: string
  hp_host :: string
  hp_zone :: string
  hp_pid :: int
  hp_version_sha :: string
  hp_version_tag :: string
  hp_state :: node_state
  hp_run_id :: "string option"
  hp_autostart :: bool
  hp_params :: pdict

record status_payload =
  sp_node_type :: node_type
  sp_state :: node_state
  sp_run_id :: "string option"
  sp_streaming :: bool
  sp_subscribed :: bool
  sp_peers :: "pdict list"
  sp_params :: pdict
  sp_counters :: "(string \<times> int) list"
  sp_autostart :: bool
  sp_last_error :: "string option"
  sp_report :: pdict

record ack_payload =
  ap_in_reply_to :: string
  ap_ok :: bool
  ap_error :: "string option"

record goodbye_payload =
  gp_reason :: string
  gp_run_id :: "string option"
  gp_final_report :: pdict

record active_run_info =
  ar_run_id :: string
  ar_label :: string
  ar_params :: pdict

record welcome_payload =
  wp_keepalive :: rat
  wp_offline_timeout :: rat
  wp_active_run :: "active_run_info option"

record command_payload =
  cp_command :: command_type
  cp_target :: "node_type option"
  cp_run_id :: "string option"
  cp_args :: pdict

record error_payload =
  ep_code :: string
  ep_message :: string

datatype payload =
    P_Hello hello_payload
  | P_Status status_payload
  | P_Ack ack_payload
  | P_Goodbye goodbye_payload
  | P_Welcome welcome_payload
  | P_Command command_payload
  | P_Error error_payload

text \<open>\<open>_PAYLOAD_MODELS\<close>: pong and ping carry no payload.\<close>

fun has_payload_model :: "message_type \<Rightarrow> bool" where
  "has_payload_model Pong = False"
| "has_payload_model Ping = False"
| "has_payload_model _ = True"

record envelope =
  ev_type :: message_type
  ev_msg_id :: string
  ev_ts_ns :: int
  ev_node_id :: "string option"
  ev_payload :: pdict

datatype protocol_error =
    Not_An_Object
  | Unsupported_Version json
  | Malformed_Envelope string
  | Malformed_Payload message_type string

definition parse ::
  "(json \<Rightarrow> string + envelope) \<Rightarrow> (message_type \<Rightarrow> pdict \<Rightarrow> string + payload) \<Rightarrow>
   json \<Rightarrow> protocol_error + envelope \<times> payload option" where
  "parse ve vp raw =
     (case raw of
        JObj d \<Rightarrow>
          (if \<not> py_eq_int (pget d ''v'') protocol_version
           then Inl (Unsupported_Version (pget d ''v''))
           else
             (case ve raw of
                Inl msg \<Rightarrow> Inl (Malformed_Envelope msg)
              | Inr env \<Rightarrow>
                  (if \<not> has_payload_model (ev_type env) then Inr (env, None)
                   else
                     (case vp (ev_type env) (ev_payload env) of
                        Inl msg \<Rightarrow> Inl (Malformed_Payload (ev_type env) msg)
                      | Inr p \<Rightarrow> Inr (env, Some p)))))
      | _ \<Rightarrow> Inl Not_An_Object)"

section \<open>Lemmas\<close>

lemma node_type_of_str [simp]: "node_type_of (node_type_str n) = Some n"
  by (cases n) (simp_all add: node_type_of_def node_types_def)

lemma node_type_str_inject [simp]: "node_type_str m = node_type_str n \<longleftrightarrow> m = n"
  by (metis node_type_of_str option.inject)

lemma node_type_of_Some: "node_type_of t = Some n \<Longrightarrow> t = node_type_str n"
  by (auto simp: node_type_of_def node_types_def split: if_splits)

lemma serves_iff:
  "serves (node_type_str n) profile \<longleftrightarrow> node_profile n = None \<or> node_profile n = Some profile"
  by (auto simp: serves_def split: option.splits)

lemma ran_sources_serve_all: "n \<in> {Gnb, Xapp} \<Longrightarrow> serves (node_type_str n) profile"
  by (auto simp: serves_iff)

text \<open>The two directions split the message types: every frame has exactly one.\<close>

lemma directions_partition:
  "node_to_admin \<inter> admin_to_node = {}" "node_to_admin \<union> admin_to_node = UNIV"
  by (auto simp: node_to_admin_def admin_to_node_def) (metis message_type.exhaust)

lemma profile_of_no_profile [simp]: "pget params ''profile'' = JNull \<Longrightarrow> profile_of params = default_profile"
  by (simp add: profile_of_def)

lemma middleware_of_None: "middleware_of params = None \<longleftrightarrow> py_str (py_or (pget params ''middleware'') (JStr [])) = []"
  by (simp add: middleware_of_def Let_def)

end
