(* ===== verification/Topology_Spec.thy ===== *)
theory Topology_Spec
  imports Wire_Protocol "HOL-Library.Multiset"
begin

text \<open>
  The expected fleet (services/admin/src/mec_cast_admin/topology.py): the role rules every
  deployment has, the nodes an operator declared, the parser of a topology file and the
  flowchart drawn from it. The YAML reader is third-party code: \<open>load_topology\<close> takes what it
  returned. An exception is the left side of a sum; \<open>Bad_Int\<close> is the \<open>ValueError\<close> or
  \<open>TypeError\<close> of an \<open>int()\<close> that fails.
\<close>

section \<open>Data\<close>

definition default_zone :: string where
  "default_zone = ''default''"

record role_spec =
  rs_role :: node_type
  rs_required :: bool
  rs_absence :: "string option"
  rs_min_per_zone :: int
  rs_max_per_zone :: json

definition role_spec_serves :: "role_spec \<Rightarrow> string \<Rightarrow> bool" where
  "role_spec_serves s profile \<longleftrightarrow>
     (case node_profile (rs_role s) of None \<Rightarrow> True | Some own \<Rightarrow> own = profile)"

definition mk_role :: "node_type \<Rightarrow> bool \<Rightarrow> string option \<Rightarrow> int \<Rightarrow> json \<Rightarrow> role_spec" where
  "mk_role r req absence lo hi =
     \<lparr>rs_role = r, rs_required = req, rs_absence = absence, rs_min_per_zone = lo,
      rs_max_per_zone = hi\<rparr>"

definition default_roles :: "role_spec list" where
  "default_roles =
     [mk_role Client True (Some ''error'') 1 JNull,
      mk_role Edge True (Some ''error'') 1 (JInt 1),
      mk_role Gnb False (Some ''warn'') 0 (JInt 1),
      mk_role Render False None 0 JNull,
      mk_role Xapp False None 0 (JInt 1),
      mk_role Relay True (Some ''error'') 1 (JInt 1),
      mk_role Sender True (Some ''error'') 1 JNull,
      mk_role Receiver True (Some ''error'') 1 JNull]"

record node_spec =
  ns_node_id :: string
  ns_role :: node_type
  ns_host :: string
  ns_zone :: string
  ns_instance :: int
  ns_ue :: "(string \<times> int) list option"

record topology_spec =
  ts_roles :: "role_spec list"
  ts_nodes :: "node_spec list"
  ts_source :: string

definition default_topology :: topology_spec where
  "default_topology = \<lparr>ts_roles = default_roles, ts_nodes = [], ts_source = []\<rparr>"

section \<open>Questions\<close>

definition topo_role :: "topology_spec \<Rightarrow> node_type \<Rightarrow> role_spec option" where
  "topo_role t r = find (\<lambda>s. rs_role s = r) (ts_roles t)"

definition roles_for :: "topology_spec \<Rightarrow> string \<Rightarrow> role_spec list" where
  "roles_for t profile = filter (\<lambda>s. role_spec_serves s profile) (ts_roles t)"

definition required_roles_for :: "topology_spec \<Rightarrow> string \<Rightarrow> node_type list" where
  "required_roles_for t profile = map rs_role (filter rs_required (roles_for t profile))"

definition declared :: "topology_spec \<Rightarrow> bool" where
  "declared t \<longleftrightarrow> ts_nodes t \<noteq> []"

definition zones_seen :: "node_spec list \<Rightarrow> string list" where
  "zones_seen ns = fold (\<lambda>n seen. if ns_zone n \<in> set seen then seen else seen @ [ns_zone n]) ns []"

definition topo_zones :: "topology_spec \<Rightarrow> string list" where
  "topo_zones t = (let z = zones_seen (ts_nodes t) in if z = [] then [default_zone] else z)"

definition nodes_in :: "topology_spec \<Rightarrow> string \<Rightarrow> node_spec list" where
  "nodes_in t z = filter (\<lambda>n. ns_zone n = z) (ts_nodes t)"

definition topo_find :: "topology_spec \<Rightarrow> string \<Rightarrow> node_spec option" where
  "topo_find t nid = find (\<lambda>n. ns_node_id n = nid) (ts_nodes t)"

section \<open>Parsing a topology file\<close>

datatype topology_error =
    Nodes_Not_List
  | Node_Not_Mapping nat
  | Unknown_Role nat string
  | Host_Required nat
  | Duplicate_Node nat string
  | Ue_Not_On_Client nat
  | Ue_Not_Mapping nat
  | Ue_Unknown_Key nat string
  | Ue_Not_Natural nat string
  | Roles_Not_Mapping
  | Role_Unknown string
  | Role_Not_Mapping string
  | Role_Bad_Absence string
  | Not_Yaml
  | Not_A_Mapping
  | Bad_Int

definition ue_keys :: "string list" where
  "ue_keys = [''e2_ue_id'', ''rnti'']"

fun parse_ue_items :: "nat \<Rightarrow> pdict \<Rightarrow> topology_error + (string \<times> int) list" where
  "parse_ue_items i [] = Inr []"
| "parse_ue_items i ((k, v) # rest) =
     (if k \<notin> set ue_keys then Inl (Ue_Unknown_Key i k)
      else
        (case v of
           JInt n \<Rightarrow>
             (if n < 0 then Inl (Ue_Not_Natural i k)
              else sum_bind (parse_ue_items i rest) (\<lambda>out. Inr ((k, n) # out)))
         | _ \<Rightarrow> Inl (Ue_Not_Natural i k)))"

definition parse_ue :: "nat \<Rightarrow> string \<Rightarrow> json \<Rightarrow> topology_error + (string \<times> int) list option" where
  "parse_ue i role raw =
     (if raw = JNull then Inr None
      else if role \<noteq> node_type_str Client then Inl (Ue_Not_On_Client i)
      else
        (case raw of
           JObj d \<Rightarrow>
             (if d = [] then Inl (Ue_Not_Mapping i)
              else sum_bind (parse_ue_items i d) (\<lambda>out. Inr (Some out)))
         | _ \<Rightarrow> Inl (Ue_Not_Mapping i)))"

definition parse_node :: "nat \<Rightarrow> string list \<Rightarrow> json \<Rightarrow> topology_error + node_spec" where
  "parse_node i seen entry =
     (case entry of
        JObj e \<Rightarrow>
          (let role = strip (py_str (pget_or e ''role'' (JStr [])));
               host = strip (py_str (pget_or e ''host'' (JStr [])))
           in case node_type_of role of
                None \<Rightarrow> Inl (Unknown_Role i role)
              | Some r \<Rightarrow>
                  (if host = [] then Inl (Host_Required i)
                   else
                     (case py_int (pget_or e ''instance'' (JInt 0)) of
                        None \<Rightarrow> Inl Bad_Int
                      | Some inst \<Rightarrow>
                          (let zone = str_or (strip (py_str (pget_or e ''zone'' (JStr default_zone))))
                                        default_zone;
                               nid = str_or (strip (py_str (pget_or e ''node_id'' (JStr []))))
                                       (node_id_of role host inst)
                           in if nid \<in> set seen then Inl (Duplicate_Node i nid)
                              else
                                sum_bind (parse_ue i role (pget e ''ue''))
                                  (\<lambda>ue. Inr \<lparr>ns_node_id = nid, ns_role = r, ns_host = host,
                                             ns_zone = zone, ns_instance = inst, ns_ue = ue\<rparr>)))))
      | _ \<Rightarrow> Inl (Node_Not_Mapping i))"

text \<open>The loop over the entries: \<open>i\<close> is the index, \<open>seen\<close> the ids declared so far.\<close>

fun parse_entries :: "nat \<Rightarrow> string list \<Rightarrow> json list \<Rightarrow> topology_error + node_spec list" where
  "parse_entries i seen [] = Inr []"
| "parse_entries i seen (x # xs) =
     sum_bind (parse_node i seen x)
       (\<lambda>n. sum_bind (parse_entries (Suc i) (ns_node_id n # seen) xs) (\<lambda>ns. Inr (n # ns)))"

definition parse_nodes :: "json \<Rightarrow> topology_error + node_spec list" where
  "parse_nodes raw =
     (case raw of
        JNull \<Rightarrow> Inr []
      | JArr xs \<Rightarrow> parse_entries 0 [] xs
      | _ \<Rightarrow> Inl Nodes_Not_List)"

definition absence_of :: "json \<Rightarrow> string option option" where
  "absence_of v =
     (case v of
        JNull \<Rightarrow> Some None
      | JStr s \<Rightarrow> (if s \<in> {''error'', ''warn''} then Some (Some s) else None)
      | _ \<Rightarrow> None)"

definition absence_json :: "string option \<Rightarrow> json" where
  "absence_json a = (case a of None \<Rightarrow> JNull | Some s \<Rightarrow> JStr s)"

definition override_role :: "string \<Rightarrow> pdict \<Rightarrow> role_spec \<Rightarrow> topology_error + role_spec" where
  "override_role role d base =
     (case absence_of (pget_or d ''absence'' (absence_json (rs_absence base))) of
        None \<Rightarrow> Inl (Role_Bad_Absence role)
      | Some absence \<Rightarrow>
          (case py_int (pget_or d ''min_per_zone'' (JInt (rs_min_per_zone base))) of
             None \<Rightarrow> Inl Bad_Int
           | Some lo \<Rightarrow>
               Inr (mk_role (rs_role base)
                      (truthy (pget_or d ''required'' (JBool (rs_required base))))
                      absence lo (pget_or d ''max_per_zone'' (rs_max_per_zone base)))))"

text \<open>\<open>by_role\<close>, the dictionary the overrides are merged onto, is the list of role rules itself:
  its keys are the roles, one rule each.\<close>

fun apply_overrides :: "role_spec list \<Rightarrow> pdict \<Rightarrow> topology_error + role_spec list" where
  "apply_overrides roles [] = Inr roles"
| "apply_overrides roles ((key, v) # rest) =
     (let role = strip key
      in case node_type_of role of
           None \<Rightarrow> Inl (Role_Unknown role)
         | Some r \<Rightarrow>
             (case v of
                JObj d \<Rightarrow>
                  (case find (\<lambda>s. rs_role s = r) roles of
                     None \<Rightarrow> Inl (Role_Unknown role)
                   | Some base \<Rightarrow>
                       sum_bind (override_role role d base)
                         (\<lambda>new. apply_overrides
                                  (map (\<lambda>s. if rs_role s = r then new else s) roles) rest))
              | _ \<Rightarrow> Inl (Role_Not_Mapping role)))"

definition parse_roles :: "json \<Rightarrow> topology_error + role_spec list" where
  "parse_roles raw =
     (case raw of
        JNull \<Rightarrow> Inr default_roles
      | JObj d \<Rightarrow> apply_overrides default_roles d
      | _ \<Rightarrow> Inl Roles_Not_Mapping)"

text \<open>\<open>load\<close>: \<open>None\<close> for no path or no file, \<open>Some (Inl _)\<close> for a file that is not YAML.\<close>

definition load_topology ::
  "string \<Rightarrow> (unit + json) option \<Rightarrow> topology_error + topology_spec" where
  "load_topology path file =
     (case file of
        None \<Rightarrow> Inr default_topology
      | Some (Inl _) \<Rightarrow> Inl Not_Yaml
      | Some (Inr v) \<Rightarrow>
          (case py_or v (JObj []) of
             JObj d \<Rightarrow>
               sum_bind (parse_roles (pget d ''roles''))
                 (\<lambda>roles. sum_bind (parse_nodes (pget d ''nodes''))
                    (\<lambda>nodes. Inr \<lparr>ts_roles = roles, ts_nodes = nodes, ts_source = path\<rparr>))
           | _ \<Rightarrow> Inl Not_A_Mapping))"

section \<open>The flowchart\<close>

definition is_alnum :: "char \<Rightarrow> bool" where
  "is_alnum c \<longleftrightarrow>
     (let n = (of_char c :: nat) in (48 \<le> n \<and> n \<le> 57) \<or> (65 \<le> n \<and> n \<le> 90) \<or> (97 \<le> n \<and> n \<le> 122))"

definition mermaid_id :: "string \<Rightarrow> string" where
  "mermaid_id nid = ''N_'' @ map (\<lambda>c. if is_alnum c then c else CHR ''_'') nid"

definition ids_of_role :: "node_spec list \<Rightarrow> node_type \<Rightarrow> string list" where
  "ids_of_role ns r = map (\<lambda>n. mermaid_id (ns_node_id n)) (filter (\<lambda>n. ns_role n = r) ns)"

text \<open>The links of one zone, each a source, a target and whether it is dotted.\<close>

definition zone_links :: "node_spec list \<Rightarrow> (string \<times> string \<times> bool) list" where
  "zone_links ns =
     (let clients = ids_of_role ns Client; gnbs = ids_of_role ns Gnb;
          edges = ids_of_role ns Edge; renders = ids_of_role ns Render;
          uplink_target = (if gnbs \<noteq> [] then gnbs else edges)
      in [(c, t, False). c \<leftarrow> clients, t \<leftarrow> uplink_target]
         @ [(g, e, False). g \<leftarrow> gnbs, e \<leftarrow> edges]
         @ [(e, r, True). e \<leftarrow> edges, r \<leftarrow> renders])"

definition link_line :: "string \<times> string \<times> bool \<Rightarrow> string" where
  "link_line l = (case l of (a, b, dotted) \<Rightarrow>
     ''  '' @ a @ (if dotted then '' -.-> '' else '' --> '') @ b)"

definition zone_lines :: "topology_spec \<Rightarrow> nat \<times> string \<Rightarrow> string list" where
  "zone_lines t iz = (case iz of (i, z) \<Rightarrow>
     [''  subgraph ZONE'' @ dec_nat i @ ''['' @ [CHR 0x22] @ z @ [CHR 0x22] @ '']'',
      ''    direction LR'']
     @ map (\<lambda>n. ''    '' @ mermaid_id (ns_node_id n) @ ''['' @ [CHR 0x22]
                 @ node_type_str (ns_role n) @ ''<br/>'' @ ns_host n @ [CHR 0x22] @ '']'')
         (nodes_in t z)
     @ [''  end''])"

definition to_mermaid :: "topology_spec \<Rightarrow> string" where
  "to_mermaid t =
     (if \<not> declared t then []
      else
        join [CHR 0x0A]
          ([''flowchart LR'']
           @ concat (map (zone_lines t) (enumerate 0 (topo_zones t)))
           @ concat (map (\<lambda>z. map link_line (zone_links (nodes_in t z))) (topo_zones t))))"

section \<open>Lemmas\<close>

definition node_types_in_role_order :: "node_type list" where
  "node_types_in_role_order = [Client, Edge, Gnb, Render, Xapp, Relay, Sender, Receiver]"

text \<open>What the parser guarantees of a declared node, as the file's comments promise it.\<close>

definition node_spec_wf :: "node_spec \<Rightarrow> bool" where
  "node_spec_wf n \<longleftrightarrow>
     ns_node_id n \<noteq> [] \<and> ns_host n \<noteq> [] \<and> ns_zone n \<noteq> []
     \<and> (case ns_ue n of
          None \<Rightarrow> True
        | Some ue \<Rightarrow> ns_role n = Client \<and> ue \<noteq> []
            \<and> (\<forall>(k, v) \<in> set ue. k \<in> set ue_keys \<and> 0 \<le> v))"

lemma default_zone_nonempty [simp]: "default_zone \<noteq> []"
  by (simp add: default_zone_def)

lemma node_id_of_nonempty [simp]: "node_id_of r h i \<noteq> []"
  by (simp add: node_id_of_def)

lemma str_or_nonempty [simp]: "str_or s t = [] \<longleftrightarrow> s = [] \<and> t = []"
  by (simp add: str_or_def)

lemma parse_ue_items_wf:
  "parse_ue_items i d = Inr out \<Longrightarrow>
     length out = length d \<and> (\<forall>(k, v) \<in> set out. k \<in> set ue_keys \<and> 0 \<le> v)"
proof (induction i d arbitrary: out rule: parse_ue_items.induct)
  case (1 i)
  then show ?case by simp
next
  case (2 i k v rest)
  from "2.prems" obtain n more where k: "k \<in> set ue_keys" and v: "v = JInt n" and n: "\<not> n < 0"
    and more: "parse_ue_items i rest = Inr more" and out: "out = (k, n) # more"
    by (auto split: if_splits json.splits elim!: sum_bind_InrE)
  from "2.IH" [of n more] k v n more show ?case
    by (simp add: out)
qed

lemma parse_ue_wf:
  "parse_ue i role raw = Inr (Some ue) \<Longrightarrow>
     role = node_type_str Client \<and> ue \<noteq> [] \<and> (\<forall>(k, v) \<in> set ue. k \<in> set ue_keys \<and> 0 \<le> v)"
  by (auto simp: parse_ue_def split: if_splits json.splits elim!: sum_bind_InrE
      dest!: parse_ue_items_wf)

lemma node_type_str_client [simp]: "node_type_str r = ''client'' \<longleftrightarrow> r = Client"
  by (cases r) simp_all

lemma parse_node_wf:
  assumes "parse_node i seen entry = Inr n"
  shows "node_spec_wf n \<and> ns_node_id n \<notin> set seen"
proof -
  from assms obtain e role host zone nid inst r ue where
    r: "node_type_of role = Some r" and host: "host \<noteq> []" and zone: "zone \<noteq> []" and nid: "nid \<noteq> []"
    and fresh: "nid \<notin> set seen" and ue: "parse_ue i role (pget e ''ue'') = Inr ue"
    and n: "n = \<lparr>ns_node_id = nid, ns_role = r, ns_host = host, ns_zone = zone,
                ns_instance = inst, ns_ue = ue\<rparr>"
    by (auto simp: parse_node_def Let_def split: json.splits if_splits option.splits
        elim!: sum_bind_InrE)
  have "ns_ue n = None \<or> (\<exists>u. ns_ue n = Some u \<and> r = Client \<and> u \<noteq> []
          \<and> (\<forall>(k, v) \<in> set u. k \<in> set ue_keys \<and> 0 \<le> v))"
    using ue parse_ue_wf [of i role "pget e ''ue''"] node_type_of_Some [OF r]
    by (cases ue) (auto simp: n)
  with host zone nid fresh show ?thesis
    by (auto simp: node_spec_wf_def n)
qed

lemma parse_entries_wf:
  "parse_entries i seen xs = Inr ns \<Longrightarrow>
     distinct (map ns_node_id ns) \<and> set (map ns_node_id ns) \<inter> set seen = {}
     \<and> (\<forall>n \<in> set ns. node_spec_wf n) \<and> length ns = length xs"
proof (induction i seen xs arbitrary: ns rule: parse_entries.induct)
  case (1 i seen)
  then show ?case by simp
next
  case (2 i seen x xs)
  from "2.prems" obtain n rest where n: "parse_node i seen x = Inr n"
    and rest: "parse_entries (Suc i) (ns_node_id n # seen) xs = Inr rest" and ns: "ns = n # rest"
    by (auto elim!: sum_bind_InrE)
  from "2.IH" [OF rest] parse_node_wf [OF n] show ?case
    by (auto simp: ns)
qed

lemma override_role_keeps:
  "override_role role d base = Inr new \<Longrightarrow> rs_role new = rs_role base"
  by (auto simp: override_role_def mk_role_def split: option.splits)

lemma apply_overrides_roles:
  "apply_overrides roles d = Inr out \<Longrightarrow> map rs_role out = map rs_role roles"
proof (induction roles d arbitrary: out rule: apply_overrides.induct)
  case (1 roles)
  then show ?case by simp
next
  case (2 roles key v rest)
  from "2.prems" obtain r d base new where
    r: "node_type_of (strip key) = Some r" and v: "v = JObj d"
    and base: "find (\<lambda>s. rs_role s = r) roles = Some base"
    and new: "override_role (strip key) d base = Inr new"
    and rest: "apply_overrides (map (\<lambda>s. if rs_role s = r then new else s) roles) rest = Inr out"
    by (auto simp: Let_def split: option.splits json.splits elim!: sum_bind_InrE)
  have "rs_role new = r"
    using base override_role_keeps [OF new] by (auto simp: find_Some_iff)
  then have "map rs_role (map (\<lambda>s. if rs_role s = r then new else s) roles) = map rs_role roles"
    by auto
  with "2.IH" [OF refl r v base rest] show ?case by simp
qed

lemma zones_seen_invariant:
  "distinct acc \<Longrightarrow>
     distinct (fold (\<lambda>n seen. if ns_zone n \<in> set seen then seen else seen @ [ns_zone n]) ns acc)
     \<and> set (fold (\<lambda>n seen. if ns_zone n \<in> set seen then seen else seen @ [ns_zone n]) ns acc)
         = set acc \<union> ns_zone ` set ns"
  by (induction ns arbitrary: acc) auto

lemma zones_seen_facts [simp]:
  "distinct (zones_seen ns)" "set (zones_seen ns) = ns_zone ` set ns"
  using zones_seen_invariant [of "[]" ns] by (simp_all add: zones_seen_def)

lemma zones_seen_empty [simp]: "zones_seen ns = [] \<longleftrightarrow> ns = []"
  using zones_seen_facts(2) [of ns] by (metis image_is_empty set_empty)

lemma topo_zones_facts:
  "distinct (topo_zones t)" "topo_zones t \<noteq> []"
  "ts_nodes t \<noteq> [] \<Longrightarrow> set (topo_zones t) = ns_zone ` set (ts_nodes t)"
  by (simp_all add: topo_zones_def Let_def)

lemma nodes_by_zone:
  "set (map ns_zone ns) \<subseteq> set zs \<Longrightarrow> distinct zs \<Longrightarrow>
     mset (concat (map (\<lambda>z. filter (\<lambda>n. ns_zone n = z) ns) zs)) = mset ns"
proof (induction zs arbitrary: ns)
  case Nil
  then show ?case by simp
next
  case (Cons z zs)
  let ?rest = "filter (\<lambda>n. ns_zone n \<noteq> z) ns" and ?at = "\<lambda>z. filter (\<lambda>n. ns_zone n = z)"
  have same: "?at z' ?rest = ?at z' ns" if "z' \<in> set zs" for z'
    using Cons.prems(2) that by (auto intro: filter_cong)
  have "mset (concat (map (\<lambda>z'. ?at z' ?rest) zs)) = mset ?rest"
    using Cons.prems by (intro Cons.IH) auto
  moreover have "map (\<lambda>z'. ?at z' ?rest) zs = map (\<lambda>z'. ?at z' ns) zs"
    by (rule map_cong [OF refl same])
  ultimately have rest: "mset (concat (map (\<lambda>z'. ?at z' ns) zs)) = mset ?rest"
    by (simp only:)
  have "mset ns = mset (?at z ns) + mset ?rest"
    using multiset_partition [of "mset ns" "\<lambda>n. ns_zone n = z"] by simp
  then show ?case
    by (simp only: list.map concat.simps mset_append rest)
qed

lemma topo_find_Some: "topo_find t nid = Some n \<Longrightarrow> n \<in> set (ts_nodes t) \<and> ns_node_id n = nid"
  by (auto simp: topo_find_def find_Some_iff)

lemma default_roles_once: "distinct (map rs_role default_roles)"
  by (simp add: default_roles_def mk_role_def)

lemma parse_roles_keeps: "parse_roles raw = Inr roles \<Longrightarrow> map rs_role roles = map rs_role default_roles"
  by (auto simp: parse_roles_def dest: apply_overrides_roles split: json.splits)

lemma parse_nodes_wf:
  "parse_nodes raw = Inr ns \<Longrightarrow> distinct (map ns_node_id ns) \<and> (\<forall>n \<in> set ns. node_spec_wf n)"
  by (auto simp: parse_nodes_def dest: parse_entries_wf split: json.splits)

lemma load_topology_cases:
  assumes "load_topology path file = Inr t"
  obtains "t = default_topology"
  | d where "parse_roles (pget d ''roles'') = Inr (ts_roles t)"
      and "parse_nodes (pget d ''nodes'') = Inr (ts_nodes t)"
  using assms
  by (auto simp: load_topology_def split: option.splits sum.splits json.splits elim!: sum_bind_InrE)

section \<open>Properties\<close>

text \<open>C40. A topology file that loads is one the rest of the service can rely on: the role rules are the
  eight default roles, once each and in the default order, whatever the file overrides; the declared node
  ids are distinct; and every declared node has an id, a host and a zone, and a radio identity only on a
  client, of known keys and natural numbers.\<close>

theorem load_topology_wf:
  assumes "load_topology path file = Inr t"
  shows "map rs_role (ts_roles t) = node_types_in_role_order
         \<and> distinct (map ns_node_id (ts_nodes t))
         \<and> (\<forall>n \<in> set (ts_nodes t). node_spec_wf n)"
  using assms
proof (cases rule: load_topology_cases)
  case 1
  then show ?thesis
    by (simp add: default_topology_def default_roles_def mk_role_def node_types_in_role_order_def)
next
  case (2 d)
  then show ?thesis
    using parse_roles_keeps [OF 2(1)] parse_nodes_wf [OF 2(2)]
    by (simp add: default_roles_def mk_role_def node_types_in_role_order_def)
qed

theorem load_topology_wf_witness:
  "\<exists>t. load_topology ''t.yaml''
      (Some (Inr (JObj [(''roles'', JObj [(''gnb'', JObj [(''required'', JBool True)])]),
                        (''nodes'', JArr [JObj [(''role'', JStr ''client''), (''host'', JStr ''h'')]])])))
      = Inr t \<and> map ns_node_id (ts_nodes t) = [''client-h-0'']
      \<and> map rs_role (ts_roles t) = node_types_in_role_order"
proof -
  let ?f = "Some (Inr (JObj [(''roles'', JObj [(''gnb'', JObj [(''required'', JBool True)])]),
                        (''nodes'', JArr [JObj [(''role'', JStr ''client''), (''host'', JStr ''h'')]])]))"
  have "case load_topology ''t.yaml'' ?f of
          Inl _ \<Rightarrow> False | Inr t \<Rightarrow> map ns_node_id (ts_nodes t) = [''client-h-0'']"
    by code_simp
  then obtain t where t: "load_topology ''t.yaml'' ?f = Inr t"
      and ids: "map ns_node_id (ts_nodes t) = [''client-h-0'']"
    by (auto split: sum.splits)
  show ?thesis
    by (intro exI [of _ t] conjI t ids load_topology_wf [OF t, THEN conjunct1])
qed

text \<open>The zones are disjoint and cover the fleet: they are distinct, and listing the nodes zone by
  zone, as the page and every per-zone check do, lists each declared node exactly as often as it was
  declared.\<close>

theorem zones_partition_nodes:
  "distinct (topo_zones t) \<and> topo_zones t \<noteq> []
   \<and> mset (concat (map (nodes_in t) (topo_zones t))) = mset (ts_nodes t)"
proof (cases "ts_nodes t = []")
  case True
  then show ?thesis
    by (simp add: topo_zones_facts topo_zones_def zones_seen_def nodes_in_def)
next
  case False
  then have "mset (concat (map (nodes_in t) (topo_zones t))) = mset (ts_nodes t)"
    using nodes_by_zone [of "ts_nodes t" "topo_zones t"]
    by (simp add: topo_zones_facts nodes_in_def [abs_def])
  then show ?thesis
    by (simp add: topo_zones_facts)
qed

end
