(* ===== verification/Run_Store.thy ===== *)
theory Run_Store
  imports Wire_Protocol "HOL-Library.Word"
begin

text \<open>
  Run identity and persistence (services/admin/src/mec_cast_admin/store.py): \<open>uuid7\<close>, the
  \<open>Run\<close> record and its manifest, and \<open>JsonRunStore\<close>, manifests on disk plus a journal of
  transitions.

  A file is what \<open>json.loads\<close> made of its text: \<open>Inl ()\<close> when it cannot be read or is not
  JSON. The time of day, the host name and \<open>os.urandom\<close> are arguments. Values that nodes
  send inside \<open>participants\<close> are compared structurally. A manifest field that does not have the
  type the dataclass declares for it is \<open>Ill_Typed\<close>: the code would load it and fail later,
  where the model says so at once.
\<close>

unbundle bit_operations_syntax

section \<open>Run ids\<close>

type_synonym byte = "8 word"

record uuid_state =
  u_last_ms :: nat
  u_counter :: nat

definition uuid_start :: uuid_state where
  "uuid_start = \<lparr>u_last_ms = 0, u_counter = 0\<rparr>"

text \<open>The critical section of \<open>uuid7\<close>: the time stamp and counter of the next id.\<close>

definition uuid_tick :: "nat \<Rightarrow> uuid_state \<Rightarrow> (nat \<times> nat) \<times> uuid_state" where
  "uuid_tick clock_ms s =
     (if clock_ms = u_last_ms s then
        (if 0x0FFF < u_counter s + 1 then
           ((clock_ms + 1, 0), \<lparr>u_last_ms = clock_ms + 1, u_counter = 0\<rparr>)
         else ((clock_ms, u_counter s + 1), s\<lparr>u_counter := u_counter s + 1\<rparr>))
      else
        (let ts = (if clock_ms < u_last_ms s then u_last_ms s else clock_ms)
         in ((ts, 0), \<lparr>u_last_ms = ts, u_counter = 0\<rparr>)))"

text \<open>\<open>n.to_bytes(k, 'big')\<close>; \<open>None\<close> is its \<open>OverflowError\<close>.\<close>

fun be_bytes :: "nat \<Rightarrow> nat \<Rightarrow> byte list" where
  "be_bytes 0 n = []"
| "be_bytes (Suc k) n = word_of_nat (n div 256 ^ k) # be_bytes k (n mod 256 ^ k)"

definition to_bytes :: "nat \<Rightarrow> nat \<Rightarrow> byte list option" where
  "to_bytes k n = (if n < 256 ^ k then Some (be_bytes k n) else None)"

definition hex_digit :: "nat \<Rightarrow> char" where
  "hex_digit n = (if n < 10 then char_of (48 + n) else char_of (87 + n))"

definition hex_byte :: "byte \<Rightarrow> string" where
  "hex_byte b = [hex_digit (unat b div 16), hex_digit (unat b mod 16)]"

text \<open>\<open>str(uuid.UUID(bytes=..))\<close>: hexadecimal, a hyphen before bytes 4, 6, 8 and 10.\<close>

fun uuid_text :: "nat \<Rightarrow> byte list \<Rightarrow> string" where
  "uuid_text i [] = []"
| "uuid_text i (b # bs) =
     (if i \<in> {4, 6, 8, 10} then ''-'' else []) @ hex_byte b @ uuid_text (Suc i) bs"

definition uuid_bytes :: "nat \<Rightarrow> nat \<Rightarrow> byte list \<Rightarrow> byte list option" where
  "uuid_bytes ts counter random =
     map_option
       (\<lambda>six. let raw = six @ random;
                 raw = raw[6 := 0x70 OR word_of_nat (counter div 256)];
                 raw = raw[7 := word_of_nat (counter mod 256)]
             in raw[8 := ((raw ! 8) AND 0x3F) OR 0x80])
       (to_bytes 6 ts)"

definition uuid7 :: "nat \<Rightarrow> byte list \<Rightarrow> uuid_state \<Rightarrow> string option \<times> uuid_state" where
  "uuid7 clock_ms random s =
     (case uuid_tick clock_ms s of
        ((ts, counter), s') \<Rightarrow> (map_option (uuid_text 0) (uuid_bytes ts counter random), s'))"

section \<open>A run\<close>

type_synonym node_dicts = "(string \<times> pdict) list"

record run =
  r_id :: string
  r_seq :: int
  r_label :: string
  r_state :: run_state
  r_source :: string
  r_zone :: string
  r_created :: string
  r_started :: "string option"
  r_stopped :: "string option"
  r_params :: pdict
  r_participants :: node_dicts
  r_sites :: node_dicts
  r_reports :: node_dicts
  r_findings :: "pdict list"
  r_removed :: bool
  r_ue_map :: "(string \<times> (string \<times> int) list) list"

definition run_profile :: "run \<Rightarrow> string" where
  "run_profile r = profile_of (r_params r)"

text \<open>\<open>middleware\<close>: the (name, link) pairs the participants reported.\<close>

definition middleware_seen :: "run \<Rightarrow> (json \<times> json) list" where
  "middleware_seen r =
     uniq (map (\<lambda>q. (pget q ''middleware'', py_or (pget q ''transport'') (JStr [])))
             (filter (\<lambda>q. truthy (pget q ''middleware'')) (vals (r_participants r))))"

definition rmw_of :: "json \<Rightarrow> json" where
  "rmw_of name =
     (case name of
        JStr s \<Rightarrow> (case map_of middleware_rmw s of None \<Rightarrow> JNull | Some t \<Rightarrow> JStr t)
      | _ \<Rightarrow> JNull)"

definition run_middleware :: "run \<Rightarrow> json" where
  "run_middleware r =
     (case middleware_seen r of
        [] \<Rightarrow> JNull
      | [(name, link)] \<Rightarrow>
          JObj [(''name'', name), (''rmw'', rmw_of name), (''link'', py_or link JNull)]
      | _ \<Rightarrow> JObj [(''name'', JStr ''mixed''), (''rmw'', JNull), (''link'', JNull)])"

definition role_in :: "pdict \<Rightarrow> string list \<Rightarrow> bool" where
  "role_in q roles = (case pget q ''role'' of JStr s \<Rightarrow> s \<in> set roles | _ \<Rightarrow> False)"

definition agreed_values :: "run \<Rightarrow> string \<Rightarrow> string list \<Rightarrow> json list" where
  "agreed_values r key roles =
     fold (\<lambda>q vs. if role_in q roles \<and> pget q key \<noteq> JNull \<and> pget q key \<notin> set vs
                  then vs @ [pget q key] else vs)
       (vals (r_participants r)) []"

definition agreed :: "run \<Rightarrow> string \<Rightarrow> string list \<Rightarrow> json" where
  "agreed r key roles =
     (case agreed_values r key roles of [] \<Rightarrow> JNull | [v] \<Rightarrow> v | vs \<Rightarrow> JArr vs)"

definition run_media :: "run \<Rightarrow> json" where
  "run_media r =
     (if run_profile r \<noteq> ''media'' then JNull
      else JObj [(''stream'', agreed r ''stream'' [''sender'', ''receiver'']),
                 (''video'', agreed r ''video'' [''sender'']),
                 (''libwebrtc'', agreed r ''libwebrtc'' [''sender'', ''receiver'']),
                 (''relay'', agreed r ''public_addr'' [''relay''])])"

section \<open>The manifest\<close>

definition json_opt :: "string option \<Rightarrow> json" where
  "json_opt x = (case x of None \<Rightarrow> JNull | Some s \<Rightarrow> JStr s)"

definition json_dicts :: "node_dicts \<Rightarrow> json" where
  "json_dicts ds = JObj (map (\<lambda>(k, d). (k, JObj d)) ds)"

definition json_ue :: "(string \<times> int) list \<Rightarrow> json" where
  "json_ue u = JObj (map (\<lambda>(k, n). (k, JInt n)) u)"

definition json_ue_map :: "(string \<times> (string \<times> int) list) list \<Rightarrow> json" where
  "json_ue_map m = JObj (map (\<lambda>(k, u). (k, json_ue u)) m)"

definition started_or_created :: "run \<Rightarrow> string" where
  "started_or_created r = (case r_started r of None \<Rightarrow> r_created r | Some s \<Rightarrow> str_or s (r_created r))"

definition to_manifest :: "string \<Rightarrow> run \<Rightarrow> pdict" where
  "to_manifest host r =
     [(''run_id'', JStr (r_id r)),
      (''tag'', JStr (r_label r)),
      (''started_utc'', JStr (started_or_created r)),
      (''host'', JStr host),
      (''workload'',
        JObj [(''num_points'', pget (r_params r) ''num_points''),
              (''rate_hz'', pget (r_params r) ''rate_hz''),
              (''seed'', pget (r_params r) ''seed''),
              (''modality'', JStr (if run_profile r = ''media'' then ''video'' else ''pointcloud''))]),
      (''seq'', JInt (r_seq r)),
      (''label'', JStr (r_label r)),
      (''zone'', JStr (r_zone r)),
      (''source'', JStr (r_source r)),
      (''state'', JStr (run_state_str (r_state r))),
      (''created_utc'', JStr (r_created r)),
      (''stopped_utc'', json_opt (r_stopped r)),
      (''params'', JObj (r_params r)),
      (''participants'', json_dicts (r_participants r)),
      (''sites'', json_dicts (r_sites r)),
      (''reports'', json_dicts (r_reports r)),
      (''findings'', JArr (map JObj (r_findings r))),
      (''removed'', JBool (r_removed r)),
      (''ue_map'', json_ue_map (r_ue_map r)),
      (''middleware'', run_middleware r),
      (''profile'', JStr (run_profile r)),
      (''media'', run_media r)]"

text \<open>What loading a manifest can raise: \<open>Bad_Value\<close> a \<open>ValueError\<close>, \<open>Missing_Key\<close> a
  \<open>KeyError\<close>, \<open>Bad_Type\<close> a \<open>TypeError\<close> or \<open>AttributeError\<close>, which \<open>load\<close> does not catch.\<close>

datatype manifest_error = Bad_Value | Missing_Key | Bad_Type | Ill_Typed

fun map_sum_list :: "('a \<Rightarrow> 'e + 'b) \<Rightarrow> 'a list \<Rightarrow> 'e + 'b list" where
  "map_sum_list f [] = Inr []"
| "map_sum_list f (x # xs) =
     sum_bind (f x) (\<lambda>y. sum_bind (map_sum_list f xs) (\<lambda>ys. Inr (y # ys)))"

definition as_str :: "json \<Rightarrow> manifest_error + string" where
  "as_str v = (case v of JStr s \<Rightarrow> Inr s | _ \<Rightarrow> Inl Ill_Typed)"

definition as_str_opt :: "json \<Rightarrow> manifest_error + string option" where
  "as_str_opt v = (case v of JNull \<Rightarrow> Inr None | JStr s \<Rightarrow> Inr (Some s) | _ \<Rightarrow> Inl Ill_Typed)"

definition as_dict :: "json \<Rightarrow> manifest_error + pdict" where
  "as_dict v = (case v of JObj d \<Rightarrow> Inr d | _ \<Rightarrow> Inl Ill_Typed)"

definition as_int :: "json \<Rightarrow> manifest_error + int" where
  "as_int v = (case v of JInt n \<Rightarrow> Inr n | _ \<Rightarrow> Inl Ill_Typed)"

definition as_keyed :: "(json \<Rightarrow> manifest_error + 'a) \<Rightarrow> json \<Rightarrow> manifest_error + (string \<times> 'a) list" where
  "as_keyed f v =
     sum_bind (as_dict v) (map_sum_list (\<lambda>(k, w). sum_bind (f w) (\<lambda>x. Inr (k, x))))"

definition as_dicts :: "json \<Rightarrow> manifest_error + pdict list" where
  "as_dicts v = (case v of JArr xs \<Rightarrow> map_sum_list as_dict xs | _ \<Rightarrow> Inl Ill_Typed)"

definition manifest_state :: "pdict \<Rightarrow> manifest_error + run_state" where
  "manifest_state data =
     (let raw = pget data ''state''
      in if \<not> truthy raw then Inr Stopped
         else (case raw of
                 JStr t \<Rightarrow> (case run_state_of t of None \<Rightarrow> Inl Bad_Value | Some s \<Rightarrow> Inr s)
               | _ \<Rightarrow> Inl Bad_Value))"

definition manifest_params :: "pdict \<Rightarrow> manifest_error + pdict" where
  "manifest_params data =
     (let params = pget data ''params''
      in if truthy params then as_dict params
         else (case py_or (pget data ''workload'') (JObj []) of
                 JObj w \<Rightarrow> Inr (filter (\<lambda>(k, v). v \<noteq> JNull) w)
               | _ \<Rightarrow> Inl Bad_Type))"

definition manifest_seq :: "pdict \<Rightarrow> manifest_error + int" where
  "manifest_seq data =
     (let v = pget_or data ''seq'' (JInt 0)
      in case py_int v of
           Some n \<Rightarrow> Inr n
         | None \<Rightarrow> (case v of JStr _ \<Rightarrow> Inl Bad_Value | _ \<Rightarrow> Inl Bad_Type))"

definition from_manifest :: "string \<Rightarrow> json \<Rightarrow> manifest_error + run" where
  "from_manifest now raw =
     (case raw of
        JObj data \<Rightarrow>
          (case map_of data ''run_id'' of
             None \<Rightarrow> Inl Missing_Key
           | Some rid \<Rightarrow>
               sum_bind (manifest_state data) (\<lambda>state.
               sum_bind (manifest_params data) (\<lambda>params.
               sum_bind (manifest_seq data) (\<lambda>seq.
               sum_bind (as_str rid) (\<lambda>run_id.
               sum_bind (as_str (pget_or data ''source'' (JStr ''script''))) (\<lambda>source.
               sum_bind (as_str (py_or (pget data ''label'') (py_or (pget data ''tag'') (JStr [])))) (\<lambda>label.
               sum_bind (as_str (py_or (pget data ''zone'') (JStr ''default''))) (\<lambda>zone.
               sum_bind (as_str (py_or (pget data ''created_utc'')
                                   (py_or (pget data ''started_utc'') (JStr now)))) (\<lambda>created.
               sum_bind (as_str_opt (pget data ''started_utc'')) (\<lambda>started.
               sum_bind (as_str_opt (pget data ''stopped_utc'')) (\<lambda>stopped.
               sum_bind (as_keyed as_dict (py_or (pget data ''participants'') (JObj []))) (\<lambda>participants.
               sum_bind (as_keyed as_dict (py_or (pget data ''sites'') (JObj []))) (\<lambda>sites.
               sum_bind (as_keyed as_dict (py_or (pget data ''reports'') (JObj []))) (\<lambda>reports.
               sum_bind (as_dicts (py_or (pget data ''findings'') (JArr []))) (\<lambda>findings.
               sum_bind (as_keyed (as_keyed as_int) (py_or (pget data ''ue_map'') (JObj []))) (\<lambda>ue_map.
               Inr \<lparr>r_id = run_id, r_seq = seq, r_label = label, r_state = state, r_source = source,
                    r_zone = zone, r_created = created, r_started = started, r_stopped = stopped,
                    r_params = params, r_participants = participants, r_sites = sites,
                    r_reports = reports, r_findings = findings,
                    r_removed = truthy (pget_or data ''removed'' (JBool False)),
                    r_ue_map = ue_map\<rparr>))))))))))))))))
      | _ \<Rightarrow> Inl Bad_Type)"

definition run_to_dict :: "run \<Rightarrow> pdict" where
  "run_to_dict r =
     [(''run_id'', JStr (r_id r)), (''seq'', JInt (r_seq r)), (''label'', JStr (r_label r)),
      (''state'', JStr (run_state_str (r_state r))), (''source'', JStr (r_source r)),
      (''zone'', JStr (r_zone r)), (''created_utc'', JStr (r_created r)),
      (''started_utc'', json_opt (r_started r)), (''stopped_utc'', json_opt (r_stopped r)),
      (''params'', JObj (r_params r)), (''participants'', json_dicts (r_participants r)),
      (''sites'', json_dicts (r_sites r)), (''reports'', json_dicts (r_reports r)),
      (''findings'', JArr (map JObj (r_findings r))), (''removed'', JBool (r_removed r)),
      (''ue_map'', json_ue_map (r_ue_map r)), (''profile'', JStr (run_profile r))]"

section \<open>The store on disk\<close>

text \<open>\<open>runs/\<close>: a manifest per directory name, and the lines of the journal. A blank line is
  \<open>None\<close>. No \<open>runs/\<close> directory is the empty disk.\<close>

record disk =
  dk_manifests :: "(string \<times> (unit + json)) list"
  dk_journal :: "(unit + json) option list"

definition empty_disk :: disk where
  "empty_disk = \<lparr>dk_manifests = [], dk_journal = []\<rparr>"

fun load_manifests ::
  "string \<Rightarrow> (string \<times> (unit + json)) list \<Rightarrow> manifest_error + (string \<times> run) list" where
  "load_manifests now [] = Inr []"
| "load_manifests now ((dir, f) # fs) =
     (case f of
        Inl _ \<Rightarrow> load_manifests now fs
      | Inr v \<Rightarrow>
          (case from_manifest now v of
             Inl e \<Rightarrow> (if e = Bad_Value \<or> e = Missing_Key then load_manifests now fs else Inl e)
           | Inr r \<Rightarrow> sum_bind (load_manifests now fs) (\<lambda>rs. Inr ((dir, r) # rs))))"

definition replay_line ::
  "(unit + json) option \<Rightarrow> (string \<times> run) list \<Rightarrow> manifest_error + (string \<times> run) list" where
  "replay_line line runs =
     (case line of
        None \<Rightarrow> Inr runs
      | Some (Inl _) \<Rightarrow> Inr runs
      | Some (Inr (JObj entry)) \<Rightarrow>
          (let state = pget entry ''to''
           in case pget_or entry ''run_id'' (JStr []) of
                JArr _ \<Rightarrow> Inl Bad_Type
              | JObj _ \<Rightarrow> Inl Bad_Type
              | JStr rid \<Rightarrow>
                  (case map_of runs rid of
                     None \<Rightarrow> Inr runs
                   | Some r \<Rightarrow>
                       (case state of
                          JStr t \<Rightarrow>
                            (case run_state_of t of
                               None \<Rightarrow> Inr runs
                             | Some s \<Rightarrow> Inr (dput rid (r\<lparr>r_state := s\<rparr>) runs))
                        | _ \<Rightarrow> Inr runs))
              | _ \<Rightarrow> Inr runs)
      | Some (Inr _) \<Rightarrow> Inl Bad_Type)"

fun replay_journal ::
  "(unit + json) option list \<Rightarrow> (string \<times> run) list \<Rightarrow> manifest_error + (string \<times> run) list" where
  "replay_journal [] runs = Inr runs"
| "replay_journal (l # ls) runs = sum_bind (replay_line l runs) (replay_journal ls)"

definition store_load :: "string \<Rightarrow> disk \<Rightarrow> manifest_error + (string \<times> run) list" where
  "store_load now d =
     sum_bind (load_manifests now (sort_key fst (dk_manifests d))) (replay_journal (dk_journal d))"

definition store_save :: "string \<Rightarrow> run \<Rightarrow> disk \<Rightarrow> disk" where
  "store_save host r d =
     d\<lparr>dk_manifests := dput (r_id r) (Inr (JObj (to_manifest host r))) (dk_manifests d)\<rparr>"

definition store_journal :: "string \<Rightarrow> string \<Rightarrow> string \<Rightarrow> pdict \<Rightarrow> disk \<Rightarrow> disk" where
  "store_journal now rid event detail d =
     d\<lparr>dk_journal := dk_journal d
          @ [Some (Inr (JObj (dmerge [(''ts'', JStr now), (''run_id'', JStr rid),
                                      (''event'', JStr event)] detail)))]\<rparr>"

text \<open>A transition as the orchestrator commits it: the manifest, then the journal entry.\<close>

definition commit_run :: "string \<Rightarrow> string \<Rightarrow> string \<Rightarrow> run \<Rightarrow> disk \<Rightarrow> disk" where
  "commit_run now host event r d =
     store_journal now (r_id r) event [(''to'', JStr (run_state_str (r_state r)))] (store_save host r d)"

section \<open>What the lemmas talk about\<close>

text \<open>The stamps and the ids of a sequence of calls; what a manifest preserves of a run; what a line
  of the journal records; the disks that load.\<close>

fun uuid_ticks :: "nat list \<Rightarrow> uuid_state \<Rightarrow> (nat \<times> nat) list" where
  "uuid_ticks [] s = []"
| "uuid_ticks (c # cs) s = (case uuid_tick c s of (stamp, s') \<Rightarrow> stamp # uuid_ticks cs s')"

fun uuid_sequence :: "(nat \<times> byte list) list \<Rightarrow> uuid_state \<Rightarrow> string option list" where
  "uuid_sequence [] s = []"
| "uuid_sequence ((c, r) # calls) s = (case uuid7 c r s of (i, s') \<Rightarrow> i # uuid_sequence calls s')"

definition restored :: "run \<Rightarrow> run" where
  "restored r =
     r\<lparr>r_started := Some (started_or_created r),
       r_params := (if r_params r = [] then [(''modality'', JStr ''pointcloud'')] else r_params r)\<rparr>"

definition savable :: "run \<Rightarrow> bool" where
  "savable r \<longleftrightarrow> r_zone r \<noteq> [] \<and> r_created r \<noteq> []"

definition line_state :: "(unit + json) option \<Rightarrow> (string \<times> run_state) option" where
  "line_state line =
     (case line of
        Some (Inr (JObj entry)) \<Rightarrow>
          (case (pget_or entry ''run_id'' (JStr []), pget entry ''to'') of
             (JStr rid, JStr t) \<Rightarrow> map_option (Pair rid) (run_state_of t)
           | _ \<Rightarrow> None)
      | _ \<Rightarrow> None)"

definition line_ok :: "(unit + json) option \<Rightarrow> bool" where
  "line_ok line =
     (case line of
        Some (Inr (JObj entry)) \<Rightarrow>
          (case pget_or entry ''run_id'' (JStr []) of JArr _ \<Rightarrow> False | JObj _ \<Rightarrow> False | _ \<Rightarrow> True)
      | Some (Inr _) \<Rightarrow> False
      | _ \<Rightarrow> True)"

fun last_recorded :: "(unit + json) option list \<Rightarrow> string \<Rightarrow> run_state option" where
  "last_recorded [] rid = None"
| "last_recorded (l # ls) rid =
     (case last_recorded ls rid of
        Some s \<Rightarrow> Some s
      | None \<Rightarrow> (case line_state l of
                  Some (rid', s) \<Rightarrow> if rid' = rid then Some s else None
                | None \<Rightarrow> None))"

definition in_state :: "run_state option \<Rightarrow> run \<Rightarrow> run" where
  "in_state s r = (case s of None \<Rightarrow> r | Some s' \<Rightarrow> r\<lparr>r_state := s'\<rparr>)"

definition manifest_ok :: "string \<Rightarrow> unit + json \<Rightarrow> bool" where
  "manifest_ok now f =
     (case f of
        Inl _ \<Rightarrow> True
      | Inr v \<Rightarrow> (case from_manifest now v of Inl e \<Rightarrow> e = Bad_Value \<or> e = Missing_Key | Inr _ \<Rightarrow> True))"

definition manifest_run :: "string \<Rightarrow> unit + json \<Rightarrow> run option" where
  "manifest_run now f =
     (case f of
        Inl _ \<Rightarrow> None
      | Inr v \<Rightarrow> (case from_manifest now v of Inl e \<Rightarrow> None | Inr r \<Rightarrow> Some r))"

definition disk_ok :: "string \<Rightarrow> disk \<Rightarrow> bool" where
  "disk_ok now d \<longleftrightarrow>
     distinct (keys (dk_manifests d)) \<and> (\<forall>(dir, f) \<in> set (dk_manifests d). manifest_ok now f)
     \<and> list_all line_ok (dk_journal d)"

definition store_lookup :: "string \<Rightarrow> disk \<Rightarrow> string \<Rightarrow> run option" where
  "store_lookup now d = (case store_load now d of Inl _ \<Rightarrow> Map.empty | Inr runs \<Rightarrow> map_of runs)"

definition journal_state :: "string \<Rightarrow> string \<Rightarrow> string \<Rightarrow> run_state \<Rightarrow> disk \<Rightarrow> disk" where
  "journal_state now event rid s = store_journal now rid event [(''to'', JStr (run_state_str s))]"

definition example_run :: "string \<Rightarrow> run_state \<Rightarrow> run" where
  "example_run rid s =
     \<lparr>r_id = rid, r_seq = 1, r_label = ''label'', r_state = s, r_source = ''admin'', r_zone = ''default'',
      r_created = ''2025-01-01T00:00:00Z'', r_started = None, r_stopped = None,
      r_params = [(''rate_hz'', JInt 10)], r_participants = [], r_sites = [], r_reports = [],
      r_findings = [], r_removed = False, r_ue_map = []\<rparr>"

section \<open>Lemmas: run ids\<close>

lemma be_bytes_length [simp]: "length (be_bytes k n) = k"
  by (induction k arbitrary: n) simp_all

lemma word_byte_less:
  "a < 256 \<Longrightarrow> b < 256 \<Longrightarrow> (word_of_nat a :: byte) < word_of_nat b \<longleftrightarrow> a < b"
  by (simp add: word_less_nat_alt unat_of_nat)

lemma word_byte_eq:
  "a < 256 \<Longrightarrow> b < 256 \<Longrightarrow> (word_of_nat a :: byte) = word_of_nat b \<longleftrightarrow> a = b"
  by (auto simp: word_unat_eq_iff unat_of_nat)

lemma be_bytes_mono: "m < n \<Longrightarrow> n < 256 ^ k \<Longrightarrow> be_bytes k m < be_bytes k n"
proof (induction k arbitrary: m n)
  case 0
  then show ?case by simp
next
  case (Suc k)
  let ?b = "256 ^ k :: nat"
  have lt: "m div ?b < 256" "n div ?b < 256"
    using Suc.prems by (simp_all add: less_mult_imp_div_less)
  have le: "m div ?b \<le> n div ?b"
    using Suc.prems by (simp add: div_le_mono)
  show ?case
  proof (cases "m div ?b = n div ?b")
    case True
    have "m mod ?b < n mod ?b"
      using Suc.prems(1) True by (metis div_mult_mod_eq nat_add_left_cancel_less)
    then show ?thesis
      using Suc.IH [of "m mod ?b" "n mod ?b"] True by simp
  next
    case False
    then show ?thesis
      using le lt by (simp add: word_byte_less)
  qed
qed

lemma hex_digit_mono: "a < b \<Longrightarrow> b < 16 \<Longrightarrow> hex_digit a < hex_digit b"
  by (auto simp: hex_digit_def less_char_def)

lemma hex_byte_mono: "a < b \<Longrightarrow> hex_byte a @ xs < hex_byte b @ ys"
proof -
  assume "a < b"
  then have ab: "unat a < unat b" and b: "unat b < 256"
    using unsigned_less [where w = b and 'a = nat] by (simp_all add: word_less_nat_alt)
  show ?thesis
  proof (cases "unat a div 16 = unat b div 16")
    case True
    then have "unat a mod 16 < unat b mod 16"
      using ab by (metis div_mult_mod_eq nat_add_left_cancel_less)
    with True show ?thesis
      by (simp add: hex_byte_def hex_digit_mono)
  next
    case False
    then have "unat a div 16 < unat b div 16" "unat b div 16 < 16"
      using div_le_mono [of "unat a" "unat b" 16] ab b by linarith+
    then show ?thesis
      by (simp add: hex_byte_def hex_digit_mono)
  qed
qed

lemma append_left_less: "(us :: 'a :: linorder list) @ xs < us @ ys \<longleftrightarrow> xs < ys"
  by (induction us) simp_all

lemma append_less_prefix:
  "length xs = length ys \<Longrightarrow> (xs :: 'a :: linorder list) < ys \<Longrightarrow> xs @ us < ys @ vs"
  by (induction xs ys rule: list_induct2) auto

lemma uuid_text_mono: "length xs = length ys \<Longrightarrow> xs < ys \<Longrightarrow> uuid_text i xs < uuid_text i ys"
proof (induction xs ys arbitrary: i rule: list_induct2)
  case Nil
  then show ?case by simp
next
  case (Cons x xs y ys)
  then consider "x < y" | "x = y" "xs < ys"
    by auto
  then show ?case
    using Cons.IH hex_byte_mono by cases (simp_all only: uuid_text.simps append_left_less)
qed

lemma version_byte: "k < 16 \<Longrightarrow> (0x70 OR word_of_nat k :: byte) = word_of_nat (112 + k)"
proof -
  have "list_all (\<lambda>k. (0x70 OR word_of_nat k :: byte) = word_of_nat (112 + k)) [0..<16]"
    by code_simp
  then show "k < 16 \<Longrightarrow> ?thesis"
    by (simp add: list_all_iff)
qed

lemma version_byte_order:
  assumes "k < 16" and "l < 16"
  shows "(0x70 OR word_of_nat k :: byte) < 0x70 OR word_of_nat l \<longleftrightarrow> k < l"
    and "(0x70 OR word_of_nat k :: byte) = 0x70 OR word_of_nat l \<longleftrightarrow> k = l"
  unfolding version_byte [OF assms(1)] version_byte [OF assms(2)]
  using assms word_byte_less [of "112 + k" "112 + l"] word_byte_eq [of "112 + k" "112 + l"]
  by simp_all

lemma uuid_bytes_eq:
  assumes "length random = 10" and "ts < 256 ^ 6"
  shows "uuid_bytes ts c random =
    Some (be_bytes 6 ts @ (0x70 OR word_of_nat (c div 256)) # word_of_nat (c mod 256)
          # ((random ! 2 AND 0x3F) OR 0x80) # drop 3 random)"
proof -
  obtain a b t rest where r: "random = a # b # t # rest"
    using assms(1) by (auto simp: numeral_eq_Suc length_Suc_conv)
  show ?thesis
    using assms(2)
    by (simp add: uuid_bytes_def to_bytes_def r list_update_append nth_append Let_def)
qed

text \<open>Two stamps in order give two id texts in order, whatever the random bytes.\<close>

lemma uuid_bytes_mono:
  assumes "(ts, c) < (ts', c')" and "c < 4096" and "c' < 4096" and "ts' < 256 ^ 6"
    and "length r = 10" and "length r' = 10"
    and "uuid_bytes ts c r = Some b" and "uuid_bytes ts' c' r' = Some b'"
  shows "uuid_text 0 b < uuid_text 0 b'"
proof -
  have ts: "ts < 256 ^ 6"
    using assms(1,4) by auto
  have len: "length b = length b'"
    using assms ts by (auto simp: uuid_bytes_eq)
  have "b < b'"
  proof (cases "ts < ts'")
    case True
    then show ?thesis
      using assms ts by (auto simp: uuid_bytes_eq intro!: append_less_prefix be_bytes_mono)
  next
    case False
    then have eq: "ts = ts'" and cc: "c < c'"
      using assms(1) by auto
    have d: "c div 256 < 16" "c' div 256 < 16" "c div 256 \<le> c' div 256"
      using assms cc by (simp_all add: div_le_mono less_mult_imp_div_less)
    have "c mod 256 < c' mod 256" if "c div 256 = c' div 256"
      using cc that by (metis div_mult_mod_eq nat_add_left_cancel_less)
    then show ?thesis
      using assms ts eq d
      by (auto simp: uuid_bytes_eq append_left_less version_byte_order word_byte_less word_byte_eq)
  qed
  then show ?thesis
    by (rule uuid_text_mono [OF len])
qed


lemma uuid_ticks_ordered:
  assumes "sorted cs" and "\<forall>c \<in> set cs. u_last_ms s \<le> c"
    and "count_list cs (u_last_ms s) + u_counter s \<le> 4095"
    and "\<forall>c. count_list cs c \<le> 4096"
  shows "sorted_wrt (<) (uuid_ticks cs s)
    \<and> (\<forall>(ts, c) \<in> set (uuid_ticks cs s).
          (u_last_ms s, u_counter s) < (ts, c) \<and> c < 4096 \<and> ts \<in> set cs)"
  using assms
proof (induction cs arbitrary: s)
  case Nil
  then show ?case by simp
next
  case (Cons c cs)
  obtain stamp s' where t: "uuid_tick c s = (stamp, s')"
    by fastforce
  have s': "stamp = (u_last_ms s', u_counter s')" "u_last_ms s' = c" "u_counter s' < 4096"
    and up: "(u_last_ms s, u_counter s) < stamp"
    and room: "u_counter s' = 0 \<or> c = u_last_ms s \<and> u_counter s' = u_counter s + 1"
    using t Cons.prems(2,3) by (auto simp: uuid_tick_def Let_def split: if_splits)
  have "count_list cs c + u_counter s' \<le> 4095"
    using room Cons.prems(3) Cons.prems(4) [rule_format, of c] by auto
  moreover have "\<forall>d. count_list cs d \<le> 4096"
    using Cons.prems(4) by (metis count_list.simps(2) le_add1 le_trans)
  ultimately have "sorted_wrt (<) (uuid_ticks cs s')
      \<and> (\<forall>(ts, c) \<in> set (uuid_ticks cs s').
          (u_last_ms s', u_counter s') < (ts, c) \<and> c < 4096 \<and> ts \<in> set cs)"
    using Cons.IH [of s'] Cons.prems(1) s'(2) by auto
  with s' up show ?case
    by (auto simp: t intro: order.strict_trans)
qed

lemma uuid_sequence_stamps:
  "uuid_sequence calls s =
     map2 (\<lambda>(ts, c) r. map_option (uuid_text 0) (uuid_bytes ts c r))
       (uuid_ticks (map fst calls) s) (map snd calls)"
  by (induction calls s rule: uuid_sequence.induct) (auto simp: uuid7_def split: prod.splits)

lemma uuid_ticks_length [simp]: "length (uuid_ticks cs s) = length cs"
  by (induction cs arbitrary: s) (auto split: prod.splits)

lemma uuid_bytes_some:
  "length random = 10 \<Longrightarrow> ts < 256 ^ 6 \<Longrightarrow> \<exists>b. uuid_bytes ts c random = Some b"
  by (simp add: uuid_bytes_eq)

section \<open>Lemmas: manifests and the journal\<close>

lemma map_sum_list_inverse:
  "(\<And>x. x \<in> set xs \<Longrightarrow> f (g x) = Inr x) \<Longrightarrow> map_sum_list f (map g xs) = Inr xs"
  by (induction xs) auto

lemma as_keyed_inverse:
  assumes "\<And>x. f (g x) = Inr x"
  shows "as_keyed f (JObj (map (\<lambda>(k, x). (k, g x)) kvs)) = Inr kvs"
  using assms by (auto simp: as_keyed_def as_dict_def intro!: map_sum_list_inverse)

lemma json_dicts_inverse [simp]: "as_keyed as_dict (json_dicts ds) = Inr ds"
  using as_keyed_inverse [of as_dict JObj ds] by (simp add: json_dicts_def as_dict_def)

lemma json_ue_inverse [simp]: "as_keyed as_int (json_ue u) = Inr u"
  using as_keyed_inverse [of as_int JInt u] by (simp add: json_ue_def as_int_def)

lemma json_ue_map_inverse [simp]: "as_keyed (as_keyed as_int) (json_ue_map m) = Inr m"
  using as_keyed_inverse [of "as_keyed as_int" json_ue m] by (simp add: json_ue_map_def)

lemma as_dicts_inverse [simp]: "as_dicts (JArr (map JObj ds)) = Inr ds"
  by (auto simp: as_dicts_def as_dict_def intro: map_sum_list_inverse)

lemma json_opt_inverse [simp]: "as_str_opt (json_opt x) = Inr x"
  by (cases x) (simp_all add: as_str_opt_def json_opt_def)

lemma as_str_JStr [simp]: "as_str (JStr s) = Inr s" "as_str_opt (JStr s) = Inr (Some s)"
  by (simp_all add: as_str_def as_str_opt_def)

lemma in_state_None [simp]: "in_state None = (\<lambda>r. r)"
  by (simp add: in_state_def fun_eq_iff)

lemma in_state_twice: "in_state (Some s) (in_state t r) = in_state (Some s) r"
  by (simp add: in_state_def split: option.splits)

lemma py_or_encoded [simp]:
  "py_or (json_dicts ds) (JObj []) = json_dicts ds"
  "py_or (json_ue_map m) (JObj []) = json_ue_map m"
  "py_or (JArr xs) (JArr []) = JArr xs"
  "py_or (JStr s) (JStr []) = JStr s"
  "s \<noteq> [] \<Longrightarrow> py_or (JStr s) v = JStr s"
  "py_or (JStr s) (JStr s) = JStr s"
  by (auto simp: py_or_def json_dicts_def json_ue_map_def)

lemma started_or_created_nonempty: "r_created r \<noteq> [] \<Longrightarrow> started_or_created r \<noteq> []"
  by (simp add: started_or_created_def str_or_def split: option.splits)

lemma manifest_params_restored:
  "manifest_params (to_manifest host r) = Inr (r_params (restored r))"
  by (cases "r_params r")
     (simp_all add: manifest_params_def to_manifest_def restored_def as_dict_def py_or_def
       run_profile_def profile_of_def default_profile_def pget_def)

lemma manifest_fields:
  "manifest_state (to_manifest host r) = Inr (r_state r)"
  "manifest_seq (to_manifest host r) = Inr (r_seq r)"
  by (simp_all add: manifest_state_def manifest_seq_def to_manifest_def pget_def pget_or_def Let_def)

lemma manifest_lookups:
  "map_of (to_manifest host r) ''run_id'' = Some (JStr (r_id r))"
  "pget_or (to_manifest host r) ''source'' v = JStr (r_source r)"
  "pget_or (to_manifest host r) ''removed'' v = JBool (r_removed r)"
  "pget (to_manifest host r) ''label'' = JStr (r_label r)"
  "pget (to_manifest host r) ''tag'' = JStr (r_label r)"
  "pget (to_manifest host r) ''zone'' = JStr (r_zone r)"
  "pget (to_manifest host r) ''created_utc'' = JStr (r_created r)"
  "pget (to_manifest host r) ''started_utc'' = JStr (started_or_created r)"
  "pget (to_manifest host r) ''stopped_utc'' = json_opt (r_stopped r)"
  "pget (to_manifest host r) ''participants'' = json_dicts (r_participants r)"
  "pget (to_manifest host r) ''sites'' = json_dicts (r_sites r)"
  "pget (to_manifest host r) ''reports'' = json_dicts (r_reports r)"
  "pget (to_manifest host r) ''findings'' = JArr (map JObj (r_findings r))"
  "pget (to_manifest host r) ''ue_map'' = json_ue_map (r_ue_map r)"
  by (simp_all add: to_manifest_def pget_def pget_or_def)

lemma from_to_manifest:
  "savable r \<Longrightarrow> from_manifest now (JObj (to_manifest host r)) = Inr (restored r)"
  using started_or_created_nonempty [of r]
  by (simp add: from_manifest_def manifest_params_restored manifest_fields savable_def
      manifest_lookups) (simp add: restored_def)

lemma replay_line_result:
  assumes "line_ok l"
  shows "replay_line l runs =
    Inr (case line_state l of
           None \<Rightarrow> runs
         | Some (rid, s) \<Rightarrow>
             (case map_of runs rid of None \<Rightarrow> runs | Some r \<Rightarrow> dput rid (r\<lparr>r_state := s\<rparr>) runs))"
  using assms
  by (auto simp: replay_line_def line_ok_def line_state_def Let_def
      split: option.splits sum.splits json.splits)

lemma replay_line_lookup:
  assumes "line_ok l"
  obtains runs' where "replay_line l runs = Inr runs'"
    and "\<And>rid. map_of runs' rid =
          map_option (in_state (case line_state l of
                        Some (rid', s) \<Rightarrow> if rid' = rid then Some s else None
                      | None \<Rightarrow> None)) (map_of runs rid)"
proof
  show "replay_line l runs = Inr (case line_state l of
           None \<Rightarrow> runs
         | Some (rid, s) \<Rightarrow>
             (case map_of runs rid of None \<Rightarrow> runs | Some r \<Rightarrow> dput rid (r\<lparr>r_state := s\<rparr>) runs))"
    by (rule replay_line_result [OF assms])
qed (auto simp: in_state_def [of "Some _"] option.map_ident split: option.splits prod.splits)

lemma replay_journal_lookup:
  "list_all line_ok ls \<Longrightarrow> \<exists>runs'. replay_journal ls runs = Inr runs'
     \<and> (\<forall>rid. map_of runs' rid = map_option (in_state (last_recorded ls rid)) (map_of runs rid))"
proof (induction ls arbitrary: runs)
  case Nil
  then show ?case
    by (simp add: option.map_ident)
next
  case (Cons l ls)
  obtain mid where mid: "replay_line l runs = Inr mid"
    and l: "\<And>rid. map_of mid rid =
          map_option (in_state (case line_state l of
                        Some (rid', s) \<Rightarrow> if rid' = rid then Some s else None
                      | None \<Rightarrow> None)) (map_of runs rid)"
    using Cons.prems by (auto elim: replay_line_lookup [of l runs])
  from Cons obtain runs' where "replay_journal ls mid = Inr runs'"
    and "\<And>rid. map_of runs' rid = map_option (in_state (last_recorded ls rid)) (map_of mid rid)"
    by fastforce
  with mid show ?case
    by (auto simp: l option.map_comp comp_def in_state_twice option.map_ident split: option.splits
        intro!: exI [of _ runs'] option.map_cong)
qed

lemma set_own_state: "s = r_state r \<Longrightarrow> r\<lparr>r_state := s\<rparr> = r"
  by simp

section \<open>The interface of a run store\<close>

text \<open>What the orchestrator may rely on, for any \<open>RunStore\<close>: \<open>look\<close> is what \<open>load\<close> would
  return for an id, \<open>jot\<close> a journal entry that names the new state, \<open>final\<close> the last state
  recorded for a run, \<open>norm\<close> what a manifest preserves of a run.\<close>

locale run_store =
  fixes ok :: "'d \<Rightarrow> bool" and look :: "'d \<Rightarrow> string \<Rightarrow> run option"
    and save :: "run \<Rightarrow> 'd \<Rightarrow> 'd" and jot :: "string \<Rightarrow> run_state \<Rightarrow> 'd \<Rightarrow> 'd"
    and final :: "'d \<Rightarrow> string \<Rightarrow> run_state option"
    and norm :: "run \<Rightarrow> run" and fits :: "run \<Rightarrow> bool"
  assumes ok_save: "ok d \<Longrightarrow> fits r \<Longrightarrow> ok (save r d)"
    and ok_jot: "ok d \<Longrightarrow> ok (jot rid s d)"
    and final_save: "final (save r d) = final d"
    and final_jot: "final (jot rid s d) = (final d)(rid \<mapsto> s)"
    and look_save: "ok d \<Longrightarrow> fits r \<Longrightarrow>
          look (save r d) = (look d)(r_id r \<mapsto> in_state (final d (r_id r)) (norm r))"
    and look_jot: "ok d \<Longrightarrow>
          look (jot rid s d) = (look d)(rid := map_option (in_state (Some s)) (look d rid))"
    and norm_state: "r_state (norm r) = r_state r"
begin

lemma in_own_state: "in_state (Some (r_state r)) (norm r) = norm r"
  using norm_state [of r] by (simp add: in_state_def set_own_state)

text \<open>A completed transition, its manifest written and then its journal entry, is what a
  restart finds; an interrupted one leaves the last journaled state.\<close>

lemma recorded_transition:
  assumes "ok d" and "fits r"
  shows "look (jot (r_id r) (r_state r) (save r d)) = (look d)(r_id r \<mapsto> norm r)"
  using assms by (simp add: look_jot look_save ok_save in_state_twice in_own_state)

lemma interrupted_transition:
  assumes "ok d" and "fits r" and "final d (r_id r) = Some s"
  shows "look (save r d) (r_id r) = Some ((norm r)\<lparr>r_state := s\<rparr>)"
  using assms by (simp add: look_save in_state_def)

text \<open>After any sequence of completed transitions, every run is found as its last one left it.\<close>

definition record_run :: "run \<Rightarrow> 'd \<Rightarrow> 'd" where
  "record_run r d = jot (r_id r) (r_state r) (save r d)"

lemma record_runs:
  assumes "ok d" and "\<forall>r \<in> set rs. fits r"
  shows "ok (fold record_run rs d)
         \<and> look (fold record_run rs d) = look d ++ map_of (rev (map (\<lambda>r. (r_id r, norm r)) rs))"
  using assms
proof (induction rs arbitrary: d)
  case Nil
  then show ?case by simp
next
  case (Cons r rs)
  have "ok (record_run r d)" "look (record_run r d) = (look d)(r_id r \<mapsto> norm r)"
    using Cons.prems by (simp_all add: record_run_def recorded_transition ok_jot ok_save)
  with Cons.IH [of "record_run r d"] Cons.prems(2) show ?case
    by (auto simp: map_add_def fun_eq_iff split: option.splits)
qed

end

section \<open>The JSON store implements it\<close>

lemma map_of_sort_key:
  fixes d :: "(string \<times> 'a) list"
  assumes "distinct (keys d)"
  shows "map_of (sort_key fst d) = map_of d"
proof -
  have "distinct (map fst (sort_key fst d))"
    using assms by (metis distinct_map keys_def distinct_sort set_sort)
  then show ?thesis
    using assms by (intro map_of_inject_set [THEN iffD2]) (simp_all add: keys_def)
qed

lemma load_manifests_lookup:
  "(\<forall>(dir, f) \<in> set fs. manifest_ok now f) \<Longrightarrow> distinct (keys fs) \<Longrightarrow>
     \<exists>runs. load_manifests now fs = Inr runs \<and> set (keys runs) \<subseteq> set (keys fs)
       \<and> (\<forall>rid. map_of runs rid = Option.bind (map_of fs rid) (manifest_run now))"
proof (induction fs)
  case Nil
  then show ?case by (simp add: keys_def)
next
  case (Cons p fs)
  obtain dir f where p: "p = (dir, f)"
    by fastforce
  have fresh: "dir \<notin> set (keys fs)" and f: "manifest_ok now f" and fs: "distinct (keys fs)"
    using Cons.prems by (auto simp: keys_def p)
  obtain runs where runs: "load_manifests now fs = Inr runs" "set (keys runs) \<subseteq> set (keys fs)"
    and look: "\<And>rid. map_of runs rid = Option.bind (map_of fs rid) (manifest_run now)"
    using Cons.IH Cons.prems(1) fs by auto
  have none: "map_of fs dir = None"
    using fresh by (simp add: map_of_keys_None)
  show ?case
  proof (cases "manifest_run now f")
    case None
    then have "load_manifests now ((dir, f) # fs) = Inr runs"
      using f runs by (auto simp: manifest_run_def manifest_ok_def split: sum.splits)
    with None runs show ?thesis
      by (auto simp: look none keys_def p)
  next
    case (Some r)
    then have "load_manifests now ((dir, f) # fs) = Inr ((dir, r) # runs)"
      using f runs by (auto simp: manifest_run_def manifest_ok_def split: sum.splits)
    with Some runs show ?thesis
      by (auto simp: look keys_def p)
  qed
qed

lemma disk_ok_loads:
  assumes "disk_ok now d"
  shows "\<exists>runs. store_load now d = Inr runs
    \<and> (\<forall>rid. map_of runs rid = map_option (in_state (last_recorded (dk_journal d) rid))
      (Option.bind (map_of (dk_manifests d) rid) (manifest_run now)))"
proof -
  let ?fs = "sort_key fst (dk_manifests d)"
  have "distinct (keys ?fs)"
    using assms by (metis disk_ok_def distinct_map distinct_sort keys_def set_sort)
  then obtain runs where l: "load_manifests now ?fs = Inr runs"
    and r: "\<And>rid. map_of runs rid = Option.bind (map_of ?fs rid) (manifest_run now)"
    using load_manifests_lookup [of ?fs now] assms by (auto simp: disk_ok_def)
  obtain runs' where "replay_journal (dk_journal d) runs = Inr runs'"
    and "\<And>rid. map_of runs' rid = map_option (in_state (last_recorded (dk_journal d) rid)) (map_of runs rid)"
    using replay_journal_lookup [of "dk_journal d" runs] assms by (auto simp: disk_ok_def)
  then show ?thesis
    using assms by (simp add: store_load_def l r map_of_sort_key disk_ok_def)
qed

lemma store_lookup_eq:
  assumes "disk_ok now d"
  shows "store_lookup now d rid =
    map_option (in_state (last_recorded (dk_journal d) rid))
      (Option.bind (map_of (dk_manifests d) rid) (manifest_run now))"
  using disk_ok_loads [OF assms] by (auto simp: store_lookup_def)

lemma last_recorded_append:
  "last_recorded (ls @ [l]) rid =
     (case line_state l of
        Some (rid', s) \<Rightarrow> if rid' = rid then Some s else last_recorded ls rid
      | None \<Rightarrow> last_recorded ls rid)"
  by (induction ls) (auto split: option.splits)

lemma journal_line:
  "dk_journal (journal_state now event rid s d) = dk_journal d @
     [Some (Inr (JObj [(''ts'', JStr now), (''run_id'', JStr rid), (''event'', JStr event),
                       (''to'', JStr (run_state_str s))]))]"
  "dk_manifests (journal_state now event rid s d) = dk_manifests d"
  by (simp_all add: journal_state_def store_journal_def)

interpretation json_store: run_store
  "disk_ok now" "store_lookup now" "store_save host" "journal_state stamp event"
  "\<lambda>d. last_recorded (dk_journal d)" restored savable
  for now host stamp event
proof unfold_locales
  fix d r rid s
  show save: "disk_ok now d \<Longrightarrow> savable r \<Longrightarrow> disk_ok now (store_save host r d)"
    using set_dput_subset [of "r_id r" "Inr (JObj (to_manifest host r))" "dk_manifests d"]
    by (auto simp: disk_ok_def store_save_def manifest_ok_def from_to_manifest)
  show ok: "disk_ok now d \<Longrightarrow> disk_ok now (journal_state stamp event rid s d)"
    by (simp add: disk_ok_def journal_line line_ok_def pget_or_def)
  show "last_recorded (dk_journal (store_save host r d)) = last_recorded (dk_journal d)"
    by (simp add: store_save_def)
  show last: "last_recorded (dk_journal (journal_state stamp event rid s d))
      = (last_recorded (dk_journal d))(rid \<mapsto> s)"
    by (auto simp: fun_eq_iff journal_line last_recorded_append line_state_def pget_def pget_or_def)
  show "disk_ok now d \<Longrightarrow> savable r \<Longrightarrow> store_lookup now (store_save host r d) =
      (store_lookup now d)(r_id r \<mapsto> in_state (last_recorded (dk_journal d) (r_id r)) (restored r))"
    using save by (auto simp: store_lookup_eq fun_eq_iff store_save_def manifest_run_def from_to_manifest)
  show "disk_ok now d \<Longrightarrow> store_lookup now (journal_state stamp event rid s d) =
      (store_lookup now d)(rid := map_option (in_state (Some s)) (store_lookup now d rid))"
    using ok last by (auto simp: store_lookup_eq fun_eq_iff journal_line option.map_comp comp_def
        in_state_twice)
  show "r_state (restored r) = r_state r"
    by (simp add: restored_def)
qed

section \<open>Properties\<close>

text \<open>C39. Run ids sort in the order they were issued: for any calls whose clock does not go backwards and
  does not read one millisecond more than 4096 times, every call returns an id and the texts strictly
  increase, whatever the random bytes are.\<close>

theorem uuid7_time_ordered:
  assumes "sorted (map fst calls)" and "u_counter s \<le> 0xFFF"
    and "\<forall>(clock, random) \<in> set calls. u_last_ms s < clock \<and> clock < 256 ^ 6 \<and> length random = 10"
    and "\<forall>c. count_list (map fst calls) c \<le> 4096"
  shows "\<exists>ids. uuid_sequence calls s = map Some ids \<and> sorted_wrt (<) ids"
proof -
  let ?t = "uuid_ticks (map fst calls) s" and ?r = "map snd calls"
  let ?f = "\<lambda>i. uuid_bytes (fst (?t ! i)) (snd (?t ! i)) (?r ! i)"
  define ids where "ids = map (\<lambda>i. uuid_text 0 (the (?f i))) [0..<length calls]"
  have "u_last_ms s \<notin> set (map fst calls)"
    using assms(3) by auto
  then have "sorted_wrt (<) ?t \<and> (\<forall>(ts, c) \<in> set ?t. (u_last_ms s, u_counter s) < (ts, c)
      \<and> c < 4096 \<and> ts \<in> set (map fst calls))"
    using assms by (intro uuid_ticks_ordered) (auto simp: count_list_0_iff less_imp_le)
  then have ordered: "sorted_wrt (<) ?t" and stamps: "\<forall>(ts, c) \<in> set ?t. c < 4096 \<and> ts < 256 ^ 6"
    using assms(3) by fastforce+
  have some: "?f i = Some (the (?f i)) \<and> snd (?t ! i) < 4096 \<and> fst (?t ! i) < 256 ^ 6
      \<and> length (?r ! i) = 10" if i: "i < length calls" for i
  proof -
    have "?t ! i \<in> set ?t"
      using i by simp
    moreover have "\<exists>c. (c, ?r ! i) \<in> set calls"
      using i by (metis nth_map nth_mem prod.collapse)
    ultimately show ?thesis
      using stamps assms(3) uuid_bytes_some [of "?r ! i" "fst (?t ! i)" "snd (?t ! i)"] by fastforce
  qed
  have "uuid_sequence calls s = map Some ids"
    unfolding uuid_sequence_stamps
  proof (rule nth_equalityI)
    fix i assume "i < length (map2 (\<lambda>(ts, c) r. map_option (uuid_text 0) (uuid_bytes ts c r)) ?t ?r)"
    then have i: "i < length calls"
      by simp
    then have "map2 (\<lambda>(ts, c) r. map_option (uuid_text 0) (uuid_bytes ts c r)) ?t ?r ! i
        = map_option (uuid_text 0) (?f i)"
      by (simp add: case_prod_beta)
    also have "\<dots> = map Some ids ! i"
      using i conjunct1 [OF some [OF i]] by (auto simp: ids_def)
    finally show "map2 (\<lambda>(ts, c) r. map_option (uuid_text 0) (uuid_bytes ts c r)) ?t ?r ! i
        = map Some ids ! i" .
  qed (simp add: ids_def)
  moreover have "sorted_wrt (<) ids"
    unfolding sorted_wrt_iff_nth_less
  proof (intro allI impI)
    fix i j assume ij: "i < j" "j < length ids"
    then have i: "i < length calls" and j: "j < length calls"
      by (simp_all add: ids_def)
    have "?t ! i < ?t ! j"
      using ordered ij(1) j by (simp add: sorted_wrt_iff_nth_less)
    then show "ids ! i < ids ! j"
      using some [OF i] some [OF j] i j uuid_bytes_mono [of "fst (?t ! i)" "snd (?t ! i)" "fst (?t ! j)" "snd (?t ! j)" "?r ! i" "?r ! j"]
      by (simp add: ids_def)
  qed
  ultimately show ?thesis
    by blast
qed

theorem uuid7_time_ordered_witness:
  "\<exists>ids. uuid_sequence [(5, replicate 10 255), (5, replicate 10 0), (6, replicate 10 0)] uuid_start
        = map Some ids \<and> sorted_wrt (<) ids"
  by (rule uuid7_time_ordered) (auto simp: uuid_start_def)

text \<open>The order is lost when the clock goes backwards: every call that reads a clock behind the last
  issued time stamp gets the same time stamp and the counter zero, so two such ids differ only in their
  random bytes, and the second can sort before the first.\<close>

theorem uuid7_backwards_repeats:
  assumes "c < u_last_ms s" and "c' < u_last_ms s"
  shows "uuid_ticks [c, c'] s = [(u_last_ms s, 0), (u_last_ms s, 0)]"
  using assms by (simp add: uuid_tick_def Let_def)

theorem uuid7_backwards_repeats_witness:
  "uuid_ticks [3, 4] \<lparr>u_last_ms = 5, u_counter = 2\<rparr> = [(5, 0), (5, 0)]"
  using uuid7_backwards_repeats [of 3 "\<lparr>u_last_ms = 5, u_counter = 2\<rparr>" 4] by simp

text \<open>A manifest reads back as the run it was written from: every field survives, except that a run
  never started reads back as started when it was created, and an empty parameter set as the workload's
  modality.\<close>

theorem manifest_roundtrip:
  "savable r \<Longrightarrow> from_manifest now (JObj (to_manifest host r)) = Inr (restored r)"
  by (rule from_to_manifest)

theorem manifest_roundtrip_witness:
  "from_manifest ''later'' (JObj (to_manifest ''h'' (example_run ''r1'' Running)))
     = Inr (restored (example_run ''r1'' Running))"
  by (rule manifest_roundtrip) (simp add: savable_def example_run_def)

text \<open>C11. Restarting finds every run as it was last written, as far as a manifest tells: after any
  sequence of committed transitions, a manifest and then a journal entry each, the store loads, and its
  table is the old one with each run's last version in it. That version is the run itself where it had
  been started and has parameters; else it reads back as started when it was created and, without any
  parameters, with those of the default modality. The disk was one that loads: of its other files, a
  manifest may be unreadable, no JSON or without its fields, and a journal line cut short, but no
  journal line is JSON of another shape than an object with a run's id. The runs have a zone and a
  time of creation.\<close>

theorem restart_finds_runs:
  assumes "disk_ok now d" and "\<forall>r \<in> set rs. savable r"
  shows "(\<exists>runs. store_load now (fold (commit_run stamp host event) rs d) = Inr runs)
    \<and> store_lookup now (fold (commit_run stamp host event) rs d)
         = store_lookup now d ++ map_of (rev (map (\<lambda>r. (r_id r, restored r)) rs))
    \<and> (\<forall>r \<in> set rs. (\<exists>t. r_started r = Some t \<and> t \<noteq> []) \<and> r_params r \<noteq> [] \<longrightarrow> restored r = r)"
proof -
  have "disk_ok now (fold (commit_run stamp host event) rs d)
      \<and> store_lookup now (fold (commit_run stamp host event) rs d)
         = store_lookup now d ++ map_of (rev (map (\<lambda>r. (r_id r, restored r)) rs))"
    using json_store.record_runs [OF assms, of host stamp event]
    by (simp add: commit_run_def [abs_def] json_store.record_run_def [abs_def] journal_state_def)
  moreover have "restored r = r" if "r_started r = Some t" "t \<noteq> []" "r_params r \<noteq> []" for r t
    using that by (simp add: restored_def started_or_created_def str_or_def)
  ultimately show ?thesis
    using disk_ok_loads by blast
qed

theorem restart_finds_runs_witness:
  "store_lookup ''now'' (fold (commit_run ''t'' ''h'' ''auto'')
      [example_run ''r1'' Running, example_run ''r1'' Stopped] empty_disk) ''r1''
   = Some (restored (example_run ''r1'' Stopped))"
  using restart_finds_runs [of "''now''" empty_disk
      "[example_run ''r1'' Running, example_run ''r1'' Stopped]" "''t''" "''h''" "''auto''"]
  by (simp add: disk_ok_def empty_disk_def keys_def savable_def example_run_def)

text \<open>What \<open>load\<close> returns, for any disk it can load: every directory whose manifest decodes, and no
  other, each with the last state the journal recorded for it, so a truncated manifest or a half-written
  journal line hides no other run.\<close>

theorem load_complete:
  assumes "disk_ok now d"
  shows "store_lookup now d rid =
    map_option (in_state (last_recorded (dk_journal d) rid))
      (Option.bind (map_of (dk_manifests d) rid) (manifest_run now))"
  using assms by (rule store_lookup_eq)

theorem load_complete_witness:
  "store_lookup ''now'' \<lparr>dk_manifests = [(''cut'', Inl ()),
       (''r1'', Inr (JObj (to_manifest ''h'' (example_run ''r1'' Running))))],
     dk_journal = [Some (Inl ())]\<rparr> ''r1'' = Some (restored (example_run ''r1'' Running))"
  by (subst load_complete)
     (simp_all add: disk_ok_def keys_def manifest_ok_def line_ok_def line_state_def manifest_run_def
       from_to_manifest savable_def example_run_def)

text \<open>One manifest can stop the service: a manifest whose sequence number is null makes the whole load
  raise, since the \<open>TypeError\<close> of \<open>int(None)\<close> is not among the exceptions that skip a manifest.\<close>

theorem null_seq_stops_load:
  "store_load now \<lparr>dk_manifests = [(dir, Inr (JObj [(''run_id'', JStr rid), (''seq'', JNull)]))],
                   dk_journal = j\<rparr> = Inl Bad_Type"
  by (simp add: store_load_def from_manifest_def manifest_state_def manifest_params_def manifest_seq_def
      pget_def pget_or_def py_or_def)

end
