(* ===== verification/Node_Registry.thy ===== *)
theory Node_Registry
  imports Wire_Protocol
begin

text \<open>
  The registry of nodes (services/admin/src/mec_cast_admin/registry.py): one record per node id,
  what each frame writes to it, and the liveness questions asked of it. \<open>_now()\<close>, the monotonic
  clock in seconds, is the argument \<open>now\<close> of every operation that reads it.

  Every operation on a known node rewrites one record and keeps its id; the locale
  \<open>node_update\<close> proves from that alone that the registry stays well formed and that no other
  node's record moves, and each operation is an interpretation of it.
\<close>

section \<open>State\<close>

record node_record =
  nr_id :: string
  nr_type :: node_type
  nr_host :: string
  nr_zone :: string
  nr_pid :: int
  nr_version_sha :: string
  nr_version_tag :: string
  nr_autostart :: bool
  nr_state :: node_state
  nr_run_id :: "string option"
  nr_streaming :: bool
  nr_subscribed :: bool
  nr_peers :: "pdict list"
  nr_params :: pdict
  nr_counters :: "(string \<times> int) list"
  nr_last_error :: "string option"
  nr_address :: string
  nr_connected :: bool
  nr_last_seen :: rat
  nr_first_seen :: rat
  nr_streaming_since :: "rat option"
  nr_departed :: bool
  nr_previous_counters :: "(string \<times> int) list"
  nr_clock_offset_ns :: "int option"

record registry =
  rg_nodes :: "(string \<times> node_record) list"
  rg_offline_timeout :: rat

definition new_registry :: "rat \<Rightarrow> registry" where
  "new_registry timeout = \<lparr>rg_nodes = [], rg_offline_timeout = timeout\<rparr>"

text \<open>\<open>NodeRecord(node_id=.., node_type=..)\<close> with its defaults.\<close>

definition fresh_record :: "rat \<Rightarrow> string \<Rightarrow> node_type \<Rightarrow> node_record" where
  "fresh_record now nid t =
     \<lparr>nr_id = nid, nr_type = t, nr_host = [], nr_zone = [], nr_pid = 0,
      nr_version_sha = [], nr_version_tag = [], nr_autostart = False,
      nr_state = Idle, nr_run_id = None, nr_streaming = False, nr_subscribed = False,
      nr_peers = [], nr_params = [], nr_counters = [], nr_last_error = None,
      nr_address = [], nr_connected = True, nr_last_seen = now, nr_first_seen = now,
      nr_streaming_since = None, nr_departed = False, nr_previous_counters = [],
      nr_clock_offset_ns = None\<rparr>"

definition is_online :: "rat \<Rightarrow> rat \<Rightarrow> node_record \<Rightarrow> bool" where
  "is_online timeout now r \<longleftrightarrow> nr_connected r \<and> now - nr_last_seen r \<le> timeout"

definition streaming_for :: "rat \<Rightarrow> rat \<Rightarrow> node_record \<Rightarrow> bool" where
  "streaming_for now seconds r =
     (case nr_streaming_since r of None \<Rightarrow> False | Some t \<Rightarrow> seconds \<le> now - t)"

section \<open>What each frame writes to a record\<close>

definition hello_update :: "rat \<Rightarrow> hello_payload \<Rightarrow> node_record \<Rightarrow> node_record" where
  "hello_update now h r =
     r\<lparr>nr_type := hp_node_type h, nr_host := hp_host h, nr_zone := hp_zone h,
       nr_pid := hp_pid h, nr_version_sha := hp_version_sha h,
       nr_version_tag := hp_version_tag h, nr_state := hp_state h, nr_run_id := hp_run_id h,
       nr_autostart := hp_autostart h, nr_params := hp_params h, nr_connected := True,
       nr_departed := False, nr_last_seen := now\<rparr>"

definition status_update :: "rat \<Rightarrow> status_payload \<Rightarrow> node_record \<Rightarrow> node_record" where
  "status_update now s r =
     r\<lparr>nr_state := sp_state s, nr_run_id := sp_run_id s,
       nr_streaming_since :=
         (if sp_streaming s \<and> \<not> nr_streaming r then Some now
          else if \<not> sp_streaming s then None
          else nr_streaming_since r),
       nr_streaming := sp_streaming s, nr_subscribed := sp_subscribed s,
       nr_peers := sp_peers s,
       nr_params := (if sp_params s \<noteq> [] then sp_params s else nr_params r),
       nr_counters := sp_counters s, nr_last_error := sp_last_error s,
       nr_last_seen := now\<rparr>"

definition clock_update :: "int \<Rightarrow> int \<Rightarrow> node_record \<Rightarrow> node_record" where
  "clock_update node_ts_ns admin_ns r =
     (if node_ts_ns \<noteq> 0 then r\<lparr>nr_clock_offset_ns := Some (admin_ns - node_ts_ns)\<rparr> else r)"

definition touch_update :: "rat \<Rightarrow> node_record \<Rightarrow> node_record" where
  "touch_update now r = r\<lparr>nr_last_seen := now\<rparr>"

definition goodbye_update :: "rat \<Rightarrow> node_record \<Rightarrow> node_record" where
  "goodbye_update now r =
     r\<lparr>nr_connected := False, nr_departed := True, nr_state := Idle, nr_streaming := False,
       nr_subscribed := False, nr_last_seen := now\<rparr>"

definition disconnect_update :: "node_record \<Rightarrow> node_record" where
  "disconnect_update r = r\<lparr>nr_connected := False\<rparr>"

section \<open>The operations\<close>

definition get_node :: "registry \<Rightarrow> string \<Rightarrow> node_record option" where
  "get_node R nid = map_of (rg_nodes R) nid"

definition put_node :: "node_record \<Rightarrow> string \<Rightarrow> registry \<Rightarrow> registry" where
  "put_node r nid R = R\<lparr>rg_nodes := dput nid r (rg_nodes R)\<rparr>"

definition update_node :: "string \<Rightarrow> (node_record \<Rightarrow> node_record) \<Rightarrow> registry \<Rightarrow> registry" where
  "update_node nid f R =
     (case get_node R nid of None \<Rightarrow> R | Some r \<Rightarrow> put_node (f r) nid R)"

definition reg_on_hello :: "rat \<Rightarrow> hello_payload \<Rightarrow> registry \<Rightarrow> registry" where
  "reg_on_hello now h R =
     (let nid = hp_node_id h;
          r = (case get_node R nid of
                 None \<Rightarrow> fresh_record now nid (hp_node_type h)
               | Some r \<Rightarrow> r)
      in put_node (hello_update now h r) nid R)"

definition reg_on_status :: "rat \<Rightarrow> string \<Rightarrow> status_payload \<Rightarrow> registry \<Rightarrow> registry" where
  "reg_on_status now nid s = update_node nid (status_update now s)"

definition note_clock :: "string \<Rightarrow> int \<Rightarrow> int \<Rightarrow> registry \<Rightarrow> registry" where
  "note_clock nid node_ts_ns admin_ns = update_node nid (clock_update node_ts_ns admin_ns)"

definition touch :: "rat \<Rightarrow> string \<Rightarrow> registry \<Rightarrow> registry" where
  "touch now nid = update_node nid (touch_update now)"

definition reg_on_goodbye :: "rat \<Rightarrow> string \<Rightarrow> registry \<Rightarrow> registry" where
  "reg_on_goodbye now nid = update_node nid (goodbye_update now)"

definition on_disconnect :: "string \<Rightarrow> registry \<Rightarrow> registry" where
  "on_disconnect nid = update_node nid disconnect_update"

definition forget :: "string \<Rightarrow> registry \<Rightarrow> registry" where
  "forget nid R = R\<lparr>rg_nodes := dpop nid (rg_nodes R)\<rparr>"

definition snapshot_counters :: "registry \<Rightarrow> registry" where
  "snapshot_counters R =
     R\<lparr>rg_nodes :=
         map (\<lambda>(nid, r). (nid, r\<lparr>nr_previous_counters := nr_counters r\<rparr>)) (rg_nodes R)\<rparr>"

section \<open>The questions\<close>

definition all_nodes :: "registry \<Rightarrow> node_record list" where
  "all_nodes R = sort_key nr_id (vals (rg_nodes R))"

definition online :: "rat \<Rightarrow> node_type option \<Rightarrow> registry \<Rightarrow> node_record list" where
  "online now t R =
     filter (\<lambda>r. is_online (rg_offline_timeout R) now r
                 \<and> (case t of None \<Rightarrow> True | Some t' \<Rightarrow> nr_type r = t')) (all_nodes R)"

definition offline :: "rat \<Rightarrow> registry \<Rightarrow> node_record list" where
  "offline now R = filter (\<lambda>r. \<not> is_online (rg_offline_timeout R) now r) (all_nodes R)"

definition participants_of :: "registry \<Rightarrow> string \<Rightarrow> node_record list" where
  "participants_of R rid = filter (\<lambda>r. nr_run_id r = Some rid) (all_nodes R)"

section \<open>Well-formedness\<close>

definition reg_wf :: "registry \<Rightarrow> bool" where
  "reg_wf R \<longleftrightarrow>
     distinct (keys (rg_nodes R)) \<and> (\<forall>(nid, r) \<in> set (rg_nodes R). nr_id r = nid)"

text \<open>Every change the service makes to the registry.\<close>

inductive reg_step :: "registry \<Rightarrow> registry \<Rightarrow> bool" where
  reg_hello: "reg_step R (reg_on_hello now h R)"
| reg_status: "reg_step R (reg_on_status now nid s R)"
| reg_clock: "reg_step R (note_clock nid ts adm R)"
| reg_touch: "reg_step R (touch now nid R)"
| reg_goodbye: "reg_step R (reg_on_goodbye now nid R)"
| reg_disconnect: "reg_step R (on_disconnect nid R)"
| reg_forget: "reg_step R (forget nid R)"
| reg_snapshot: "reg_step R (snapshot_counters R)"

inductive reg_reachable :: "rat \<Rightarrow> registry \<Rightarrow> bool" where
  reg_new: "reg_reachable timeout (new_registry timeout)"
| reg_next: "reg_reachable timeout R \<Longrightarrow> reg_step R R' \<Longrightarrow> reg_reachable timeout R'"

section \<open>Lemmas\<close>

lemmas record_updates =
  hello_update_def status_update_def clock_update_def touch_update_def goodbye_update_def
  disconnect_update_def

lemma get_put_node [simp]: "get_node (put_node r nid R) n = (if n = nid then Some r else get_node R n)"
  by (simp add: get_node_def put_node_def)

lemma put_node_timeout [simp]: "rg_offline_timeout (put_node r nid R) = rg_offline_timeout R"
  by (simp add: put_node_def)

lemma update_node_timeout [simp]: "rg_offline_timeout (update_node nid f R) = rg_offline_timeout R"
  by (simp add: update_node_def split: option.splits)

lemma get_update_node [simp]:
  "get_node (update_node nid f R) n = (if n = nid then map_option f (get_node R n) else get_node R n)"
  by (auto simp: update_node_def split: option.splits)

lemma reg_wf_put: "reg_wf R \<Longrightarrow> nr_id r = nid \<Longrightarrow> reg_wf (put_node r nid R)"
  using set_dput_subset [of nid r "rg_nodes R"] by (auto simp: reg_wf_def put_node_def)

lemma reg_wf_get: "reg_wf R \<Longrightarrow> get_node R nid = Some r \<Longrightarrow> nr_id r = nid"
  by (auto simp: reg_wf_def get_node_def dest!: map_of_SomeD)

lemma set_all_nodes: "set (all_nodes R) = set (vals (rg_nodes R))"
  by (simp add: all_nodes_def)

lemma map_nr_id_vals: "reg_wf R \<Longrightarrow> map nr_id (vals (rg_nodes R)) = keys (rg_nodes R)"
  by (auto simp: reg_wf_def vals_def keys_def)

lemma all_nodes_mem: "reg_wf R \<Longrightarrow> r \<in> set (all_nodes R) \<longleftrightarrow> get_node R (nr_id r) = Some r"
  by (metis get_node_def reg_wf_def reg_wf_get set_all_nodes vals_iff_lookup)

lemma all_nodes_distinct: "reg_wf R \<Longrightarrow> distinct (map nr_id (all_nodes R))"
proof -
  assume wf: "reg_wf R"
  then have "distinct (map nr_id (vals (rg_nodes R)))"
    by (simp add: map_nr_id_vals) (simp add: reg_wf_def)
  then show ?thesis
    by (simp add: all_nodes_def distinct_map)
qed

lemma all_nodes_sorted: "sorted (map nr_id (all_nodes R))"
  by (simp add: all_nodes_def)

lemma online_mem:
  "r \<in> set (online now t R) \<longleftrightarrow>
     r \<in> set (all_nodes R) \<and> is_online (rg_offline_timeout R) now r
     \<and> (case t of None \<Rightarrow> True | Some t' \<Rightarrow> nr_type r = t')"
  by (auto simp: online_def)

text \<open>The contract of an operation on one known record: it keeps the record's id.\<close>

locale node_update =
  fixes f :: "node_record \<Rightarrow> node_record"
  assumes keeps_id: "nr_id (f r) = nr_id r"
begin

lemma wf: "reg_wf R \<Longrightarrow> reg_wf (update_node nid f R)"
  by (auto simp: update_node_def keeps_id reg_wf_get intro: reg_wf_put split: option.splits)

lemma others: "n \<noteq> nid \<Longrightarrow> get_node (update_node nid f R) n = get_node R n"
  by simp

lemma known_ids: "keys (rg_nodes (update_node nid f R)) = keys (rg_nodes R)"
  by (auto simp: update_node_def put_node_def get_node_def keys_dput map_of_keys_Some
      split: option.splits)

end

interpretation hello: node_update "hello_update now h" for now h
  by unfold_locales (simp add: record_updates)

interpretation status: node_update "status_update now s" for now s
  by unfold_locales (simp add: record_updates)

interpretation clock: node_update "clock_update ts adm" for ts adm
  by unfold_locales (simp add: record_updates)

interpretation touching: node_update "touch_update now" for now
  by unfold_locales (simp add: record_updates)

interpretation goodbye: node_update "goodbye_update now" for now
  by unfold_locales (simp add: record_updates)

interpretation disconnect: node_update disconnect_update
  by unfold_locales (simp add: record_updates)

lemma reg_wf_hello: "reg_wf R \<Longrightarrow> reg_wf (reg_on_hello now h R)"
  by (auto simp: reg_on_hello_def Let_def hello.keeps_id fresh_record_def reg_wf_get
      intro!: reg_wf_put split: option.splits)

lemma reg_wf_forget: "reg_wf R \<Longrightarrow> reg_wf (forget nid R)"
proof -
  assume wf: "reg_wf R"
  then have "distinct (keys (rg_nodes (forget nid R)))"
    by (simp add: reg_wf_def forget_def)
  moreover have "set (rg_nodes (forget nid R)) \<subseteq> set (rg_nodes R)"
    by (auto simp: forget_def AList.delete_eq)
  ultimately show ?thesis
    using wf by (auto simp: reg_wf_def)
qed

lemma reg_wf_snapshot: "reg_wf R \<Longrightarrow> reg_wf (snapshot_counters R)"
proof -
  assume wf: "reg_wf R"
  have "keys (rg_nodes (snapshot_counters R)) = keys (rg_nodes R)"
    by (auto simp: snapshot_counters_def keys_def)
  with wf show ?thesis
    by (auto simp: reg_wf_def snapshot_counters_def)
qed

lemma reg_step_wf: "reg_step R R' \<Longrightarrow> reg_wf R \<Longrightarrow> reg_wf R'"
  by (induction rule: reg_step.induct)
     (auto simp: reg_on_status_def note_clock_def touch_def reg_on_goodbye_def on_disconnect_def
       intro: reg_wf_hello reg_wf_forget reg_wf_snapshot status.wf clock.wf touching.wf goodbye.wf
         disconnect.wf)

lemma reg_step_timeout: "reg_step R R' \<Longrightarrow> rg_offline_timeout R' = rg_offline_timeout R"
  by (induction rule: reg_step.induct)
     (simp_all add: reg_on_hello_def Let_def reg_on_status_def note_clock_def touch_def
       reg_on_goodbye_def on_disconnect_def forget_def snapshot_counters_def)

lemma reg_reachable_wf: "reg_reachable timeout R \<Longrightarrow> reg_wf R \<and> rg_offline_timeout R = timeout"
proof (induction rule: reg_reachable.induct)
  case (reg_new timeout)
  show ?case
    by (simp add: new_registry_def reg_wf_def keys_def)
next
  case (reg_next timeout R R')
  then show ?case
    by (auto simp: reg_step_timeout intro: reg_step_wf)
qed

end
