(* ===== verification/Workflow.thy ===== *)
theory Workflow
  imports Node_Registry Topology_Spec Run_Store
begin

text \<open>
  Detecting that the workflow is not established (services/admin/src/mec_cast_admin/workflow.py):
  \<open>diagnose\<close> derives, on every pass and from the registry alone, everything that is wrong, worst
  first. Each block of the function is one definition here, in the order the source has them; a
  block's loop is a \<open>concat (map ..)\<close> or a list comprehension over the list it walks.

  A finding keeps its code, severity, subject and zone. Its message and remedy are text for the
  operator and are not modelled. Ratios of counters are exact rationals.
\<close>

section \<open>Findings\<close>

record finding =
  f_code :: string
  f_severity :: string
  f_subject :: string
  f_zone :: string

definition mk_finding :: "string \<Rightarrow> string \<Rightarrow> string \<Rightarrow> string \<Rightarrow> finding" where
  "mk_finding code sev subject zone =
     \<lparr>f_code = code, f_severity = sev, f_subject = subject, f_zone = zone\<rparr>"

definition finding_to_dict :: "finding \<Rightarrow> pdict" where
  "finding_to_dict f =
     [(''code'', JStr (f_code f)), (''severity'', JStr (f_severity f)),
      (''subject'', JStr (f_subject f)), (''zone'', JStr (f_zone f))]"

definition severity_order :: "string \<Rightarrow> nat" where
  "severity_order s =
     (case map_of [(''error'', 0), (''warn'', 1), (''info'', 2)] s of None \<Rightarrow> 3 | Some n \<Rightarrow> n)"

definition finding_key :: "finding \<Rightarrow> nat \<times> string \<times> string" where
  "finding_key f = (severity_order (f_severity f), f_code f, f_subject f)"

section \<open>What a pass looks at\<close>

text \<open>The arguments of \<open>diagnose\<close> with the two lists it takes from the registry.\<close>

record pass =
  pa_online :: "node_record list"
  pa_participants :: "node_record list"
  pa_run :: "run option"
  pa_sha :: string
  pa_topology :: topology_spec
  pa_clock_warn :: int
  pa_now :: rat

definition mk_pass ::
  "rat \<Rightarrow> registry \<Rightarrow> run option \<Rightarrow> string \<Rightarrow> topology_spec option \<Rightarrow> int \<Rightarrow> pass" where
  "mk_pass now R r sha topo warn =
     \<lparr>pa_online = online now None R,
      pa_participants = (case r of None \<Rightarrow> [] | Some x \<Rightarrow> participants_of R (r_id x)),
      pa_run = r, pa_sha = sha,
      pa_topology = (case topo of None \<Rightarrow> default_topology | Some t \<Rightarrow> t),
      pa_clock_warn = warn, pa_now = now\<rparr>"

definition peer_grace :: rat where
  "peer_grace = 10"

definition ran_parity_tolerance :: rat where
  "ran_parity_tolerance = 1 / 4"

definition ran_parity_floor :: int where
  "ran_parity_floor = 100000"

definition rising :: "node_record \<Rightarrow> string \<Rightarrow> bool option" where
  "rising r key =
     (case (map_of (nr_counters r) key, map_of (nr_previous_counters r) key) of
        (Some after, Some before) \<Rightarrow> (if after < before then None else Some (before < after))
      | _ \<Rightarrow> None)"

definition zone_of :: "node_record \<Rightarrow> string" where
  "zone_of r = str_or (nr_zone r) default_zone"

definition pass_zones :: "pass \<Rightarrow> string list" where
  "pass_zones p =
     (let seen = sort (uniq (map zone_of (pa_online p)));
          zones = (if seen = [] then [default_zone] else seen)
      in case pa_run p of
           None \<Rightarrow> zones
         | Some r \<Rightarrow>
             (if r_zone r = [] then zones
              else (let mine = filter (\<lambda>c. c = r_zone r) zones
                    in if mine = [] then [r_zone r] else mine)))"

definition of_type :: "node_type \<Rightarrow> pass \<Rightarrow> node_record list" where
  "of_type t p = filter (\<lambda>r. nr_type r = t) (pa_online p)"

definition run_is_active :: "pass \<Rightarrow> bool" where
  "run_is_active p =
     (case pa_run p of None \<Rightarrow> False | Some r \<Rightarrow> r_state r \<in> {Starting, Running, Degraded})"

definition upper_char :: "char \<Rightarrow> char" where
  "upper_char c =
     (let n = (of_char c :: nat) in if 97 \<le> n \<and> n \<le> 122 then char_of (n - 32) else c)"

section \<open>The checks\<close>

definition has_absence_prose :: "node_type \<Rightarrow> bool" where
  "has_absence_prose t \<longleftrightarrow> t \<in> {Edge, Client, Xapp, Relay, Sender, Receiver, Gnb}"

definition absent_role :: "pass \<Rightarrow> string \<Rightarrow> role_spec \<Rightarrow> finding list" where
  "absent_role p zone s =
     (case rs_absence s of
        None \<Rightarrow> []
      | Some severity \<Rightarrow>
          (if (\<exists>r \<in> set (pa_online p). zone_of r = zone \<and> nr_type r = rs_role s) then []
           else if \<not> run_is_active p then []
           else if \<not> has_absence_prose (rs_role s) then []
           else [mk_finding (''WF_'' @ map upper_char (node_type_str (rs_role s)) @ ''_ABSENT'') severity
                   (if length (pass_zones p) = 1 then node_type_str (rs_role s)
                    else zone @ ''/'' @ node_type_str (rs_role s))
                   zone]))"

definition check_absent :: "pass \<Rightarrow> finding list" where
  "check_absent p =
     concat (map (\<lambda>zone. concat (map (absent_role p zone)
        (case pa_run p of
           None \<Rightarrow> ts_roles (pa_topology p)
         | Some r \<Rightarrow> roles_for (pa_topology p) (profile_of (r_params r))))) (pass_zones p))"

definition check_declared :: "pass \<Rightarrow> finding list" where
  "check_declared p =
     (let t = pa_topology p
      in if \<not> declared t then []
         else
           concat (map (\<lambda>r.
             (case topo_find t (nr_id r) of
                Some n \<Rightarrow>
                  (if nr_zone r \<noteq> [] \<and> nr_zone r \<noteq> ns_zone n
                   then [mk_finding ''WF_TOPOLOGY_ZONE_MISMATCH'' ''warn'' (nr_id r) []] else [])
              | None \<Rightarrow> [mk_finding ''WF_TOPOLOGY_UNDECLARED'' ''warn'' (nr_id r) []]))
             (pa_online p))
           @ (if run_is_active p
              then map (\<lambda>n. mk_finding ''WF_TOPOLOGY_MISSING'' ''warn'' (ns_node_id n) [])
                     (filter (\<lambda>n. ns_node_id n \<notin> nr_id ` set (pa_online p)) (ts_nodes t))
              else []))"

definition check_render_starved :: "pass \<Rightarrow> finding list" where
  "check_render_starved p =
     concat (map (\<lambda>r.
       if \<not> run_is_active p \<or> \<not> nr_subscribed r then []
       else if (\<exists>e \<in> set (of_type Edge p). rising e ''frames'' = Some True)
               \<and> rising r ''frames'' \<noteq> Some True
       then [mk_finding ''WF_RENDER_STARVED'' ''error'' (nr_id r) []]
       else []) (of_type Render p))"

text \<open>What the middleware nodes of one zone reported, a dictionary by node id, and the kind the
  zone is held to: the most common one, \<open>preferred\<close> breaking a tie.\<close>

definition majority_kind :: "string \<Rightarrow> (string \<times> string) list \<Rightarrow> string option" where
  "majority_kind preferred reported =
     (case sort (uniq (vals reported)) of
        k # l # ks \<Rightarrow>
          Some (first_max (\<lambda>x. (count_list (vals reported) x, x = preferred)) k (l # ks))
      | _ \<Rightarrow> None)"

definition middleware_reports :: "pass \<Rightarrow> string \<Rightarrow> (string \<times> string) list" where
  "middleware_reports p zone =
     dmerge [] (concat (map (\<lambda>r.
       if zone_of r = zone \<and> nr_type r \<in> middleware_node_types
       then (case middleware_of (nr_params r) of None \<Rightarrow> [] | Some mw \<Rightarrow> [(nr_id r, mw)])
       else []) (pa_online p)))"

definition check_transport :: "pass \<Rightarrow> finding list" where
  "check_transport p =
     concat (map (\<lambda>zone.
       (case majority_kind ''zenoh/tcp'' (middleware_reports p zone) of
          None \<Rightarrow> []
        | Some majority \<Rightarrow>
            map (\<lambda>(nid, kind). mk_finding ''WF_TRANSPORT_MISMATCH'' ''error'' nid zone)
              (filter (\<lambda>(nid, kind). kind \<noteq> majority) (sort (middleware_reports p zone)))))
       (pass_zones p))"

definition codec_nodes :: "pass \<Rightarrow> string \<Rightarrow> node_record list" where
  "codec_nodes p zone =
     filter (\<lambda>r. zone_of r = zone \<and> nr_type r \<in> middleware_node_types
               \<and> truthy (pget (nr_params r) ''codec'')) (pa_online p)"

definition codec_of :: "node_record \<Rightarrow> string" where
  "codec_of r = py_str (pget (nr_params r) ''codec'')"

definition check_codec :: "pass \<Rightarrow> finding list" where
  "check_codec p =
     concat (map (\<lambda>zone.
       (let nodes = codec_nodes p zone;
            running = (\<exists>r \<in> set nodes. nr_state r = Node_Running)
        in case majority_kind ''none'' (map (\<lambda>r. (nr_id r, codec_of r)) nodes) of
             None \<Rightarrow> []
           | Some majority \<Rightarrow>
               map (\<lambda>r. mk_finding ''WF_CODEC_MISMATCH'' (if running then ''error'' else ''warning'')
                          (nr_id r) zone)
                 (filter (\<lambda>r. codec_of r \<noteq> majority) (sort_key nr_id nodes))))
       (pass_zones p))"

definition check_clock_offset :: "pass \<Rightarrow> finding list" where
  "check_clock_offset p =
     (if pa_clock_warn p = 0 then []
      else
        map (\<lambda>r. mk_finding ''WF_CLOCK_OFFSET'' ''error'' (nr_id r) (zone_of r))
          (filter (\<lambda>r. case nr_clock_offset_ns r of
                         None \<Rightarrow> False | Some off \<Rightarrow> pa_clock_warn p < \<bar>off\<bar>) (pa_online p)))"

definition check_clock_skew :: "pass \<Rightarrow> finding list" where
  "check_clock_skew p =
     map (\<lambda>r. mk_finding ''WF_CLOCK_SKEW'' ''error'' (nr_id r) (zone_of r))
       (filter (\<lambda>r. map_of (nr_counters r) ''negative_delays'' \<notin> {None, Some 0}) (pa_online p))"

definition check_cross_host :: "pass \<Rightarrow> finding list" where
  "check_cross_host p =
     (let client_hosts = map nr_host (of_type Client p)
      in map (\<lambda>r. mk_finding ''WF_RENDER_CROSS_HOST'' ''warn'' (nr_id r) [])
           (filter (\<lambda>r. run_is_active p \<and> nr_state r = Node_Running
                      \<and> client_hosts \<noteq> [] \<and> nr_host r \<notin> set client_hosts) (of_type Render p)))"

definition check_edge_idle :: "pass \<Rightarrow> finding list" where
  "check_edge_idle p =
     map (\<lambda>r. mk_finding ''WF_EDGE_IDLE'' ''error'' (nr_id r) [])
       (filter (\<lambda>r. run_is_active p \<and> \<not> nr_subscribed r) (of_type Edge p))"

definition link_findings :: "pass \<Rightarrow> node_record \<Rightarrow> node_record \<Rightarrow> finding list" where
  "link_findings p client edge =
     (if zone_of edge \<noteq> zone_of client then []
      else if \<not> nr_subscribed edge then []
      else
        (let subject = nr_id client @ '' -> '' @ nr_id edge;
             cr = pget (nr_params client) ''reliability'';
             er = pget (nr_params edge) ''reliability''
         in if truthy cr \<and> truthy er \<and> cr \<noteq> er
            then [mk_finding ''WF_QOS_MISMATCH'' ''error'' subject (zone_of client)]
            else if nr_peers edge = [] \<and> streaming_for (pa_now p) peer_grace client
            then [mk_finding ''WF_NO_PEER'' ''error'' subject (zone_of client)]
            else if rising client ''frames_published'' = Some True \<and> rising edge ''frames'' = Some False
            then [mk_finding ''WF_NO_FRAMES'' ''error'' subject (zone_of client)]
            else []))"

definition check_links :: "pass \<Rightarrow> finding list" where
  "check_links p =
     concat (map (\<lambda>client. concat (map (link_findings p client) (of_type Edge p)))
       (filter nr_streaming (of_type Client p)))"

definition check_media_connection :: "pass \<Rightarrow> finding list" where
  "check_media_connection p =
     map (\<lambda>c. mk_finding ''WF_MEDIA_NOT_CONNECTED'' ''error'' (nr_id c) (zone_of c))
       (filter (\<lambda>c. run_is_active p \<and> nr_state c = Node_Running
                  \<and> pget (nr_params c) ''connection'' \<in> {JStr ''failed'', JStr ''disconnected''})
          (of_type Sender p @ of_type Receiver p))"

definition check_stream :: "pass \<Rightarrow> finding list" where
  "check_stream p =
     concat (map (\<lambda>rcv.
       if \<not> run_is_active p \<or> nr_state rcv \<noteq> Node_Running then []
       else
         (let wanted = pget (nr_params rcv) ''stream'';
              published = map (\<lambda>s. pget (nr_params s) ''stream'')
                (filter (\<lambda>s. zone_of s = zone_of rcv \<and> nr_state s = Node_Running) (of_type Sender p))
          in if truthy wanted \<and> published \<noteq> [] \<and> wanted \<notin> set published
             then [mk_finding ''WF_STREAM_MISMATCH'' ''error'' (nr_id rcv) (zone_of rcv)]
             else [])) (of_type Receiver p))"

definition check_media_frames :: "pass \<Rightarrow> finding list" where
  "check_media_frames p =
     concat (map (\<lambda>relay.
       if \<not> run_is_active p then []
       else
         (let senders = filter (\<lambda>s. zone_of s = zone_of relay) (of_type Sender p);
              receivers = filter (\<lambda>c. zone_of c = zone_of relay) (of_type Receiver p);
              relay_up = rising relay ''frames''
          in if (\<exists>s \<in> set senders. rising s ''frames'' = Some True) \<and> relay_up = Some False
             then [mk_finding ''WF_MEDIA_NO_FRAMES'' ''error'' (nr_id relay) (zone_of relay)]
             else if relay_up = Some True
             then map (\<lambda>rcv. mk_finding ''WF_MEDIA_NO_FRAMES'' ''error'' (nr_id rcv) (zone_of rcv))
                    (filter (\<lambda>rcv. nr_state rcv = Node_Running \<and> rising rcv ''frames'' = Some False)
                       receivers)
             else [])) (of_type Relay p))"

definition check_gnb :: "pass \<Rightarrow> finding list" where
  "check_gnb p =
     map (\<lambda>g. mk_finding ''WF_GNB_SILENT'' ''warn'' (nr_id g) [])
       (filter (\<lambda>g. rising g ''datagrams'' = Some False) (of_type Gnb p))"

definition check_xapp :: "pass \<Rightarrow> finding list" where
  "check_xapp p =
     concat (map (\<lambda>x.
       if pget (nr_params x) ''e2_connected'' = JBool False
       then [mk_finding ''WF_XAPP_NO_E2'' ''warn'' (nr_id x) (zone_of x)]
       else if nr_state x = Node_Running \<and> rising x ''indications'' = Some False
       then [mk_finding ''WF_KPM_SILENT'' ''warn'' (nr_id x) (zone_of x)]
       else []) (of_type Xapp p))"

definition check_policy :: "pass \<Rightarrow> finding list" where
  "check_policy p =
     map (\<lambda>x. mk_finding ''WF_POLICY_NOT_APPLIED'' ''error'' (nr_id x) (zone_of x))
       (filter (\<lambda>x. pget (nr_params x) ''policy_state'' = JStr ''failed'') (of_type Xapp p))"

definition sources_disagree :: "node_record \<Rightarrow> node_record \<Rightarrow> string \<Rightarrow> bool" where
  "sources_disagree gnb xapp direction =
     (let key = ''ue_'' @ direction @ ''_throughput_bps''
      in case (map_of (nr_counters gnb) key, map_of (nr_counters xapp) key) of
           (Some a, Some b) \<Rightarrow>
             (let hi = max a b; lo = min a b
              in \<not> hi < ran_parity_floor
                 \<and> ran_parity_tolerance < of_int (hi - lo) / of_int hi)
         | _ \<Rightarrow> False)"

definition same_run :: "node_record \<Rightarrow> node_record \<Rightarrow> bool" where
  "same_run g x = (case nr_run_id g of None \<Rightarrow> False | Some i \<Rightarrow> i \<noteq> [] \<and> nr_run_id x = Some i)"

definition check_sources :: "pass \<Rightarrow> finding list" where
  "check_sources p =
     concat (map (\<lambda>x. concat (map (\<lambda>g.
       if zone_of g \<noteq> zone_of x \<or> \<not> same_run g x then []
       else map (\<lambda>d. mk_finding ''WF_RAN_SOURCES_DISAGREE'' ''warn'' (nr_id x) (zone_of x))
              (filter (sources_disagree g x) [''dl'', ''ul''])) (of_type Gnb p))) (of_type Xapp p))"

definition check_run_mismatch :: "pass \<Rightarrow> finding list" where
  "check_run_mismatch p =
     (case pa_run p of
        None \<Rightarrow> []
      | Some run \<Rightarrow>
          map (\<lambda>r. mk_finding ''WF_RUN_MISMATCH'' ''error'' (nr_id r) (zone_of r))
            (filter (\<lambda>r. zone_of r = str_or (r_zone run) default_zone
                       \<and> (case nr_run_id r of None \<Rightarrow> False | Some i \<Rightarrow> i \<noteq> [] \<and> i \<noteq> r_id run))
               (pa_online p)))"

definition check_version :: "pass \<Rightarrow> finding list" where
  "check_version p =
     (if pa_sha p = [] then []
      else map (\<lambda>r. mk_finding ''WF_VERSION_SKEW'' ''warn'' (nr_id r) [])
             (filter (\<lambda>r. nr_version_sha r \<noteq> [] \<and> nr_version_sha r \<noteq> pa_sha p) (pa_online p)))"

definition check_logging :: "pass \<Rightarrow> finding list" where
  "check_logging p =
     map (\<lambda>r. mk_finding ''WF_LOGGING_UNREACHABLE'' ''warn'' (nr_id r) [])
       (filter (\<lambda>r. rising r ''post_failures'' = Some True) (pa_online p))"

definition check_participants :: "pass \<Rightarrow> finding list" where
  "check_participants p =
     (if \<not> run_is_active p then []
      else map (\<lambda>r. mk_finding ''WF_PARTICIPANT_LOST'' ''error'' (nr_id r) [])
             (filter (\<lambda>r. \<not> (is_online 30 (pa_now p) r \<or> nr_departed r)) (pa_participants p)))"

definition checks :: "(pass \<Rightarrow> finding list) list" where
  "checks =
     [check_absent, check_declared, check_render_starved, check_transport, check_codec,
      check_clock_offset, check_clock_skew, check_cross_host, check_edge_idle, check_links,
      check_media_connection, check_stream, check_media_frames, check_gnb, check_xapp, check_policy,
      check_sources, check_run_mismatch, check_version, check_logging, check_participants]"

definition diagnose :: "pass \<Rightarrow> finding list" where
  "diagnose p = sort_key finding_key (concat (map (\<lambda>check. check p) checks))"

section \<open>What the lemmas talk about\<close>

text \<open>A pass that sees one zone only, the findings about one zone, the codes that rest on a counter's
  growth and the codes only a run can raise.\<close>

definition in_zone :: "string \<Rightarrow> pass \<Rightarrow> pass" where
  "in_zone z p = p\<lparr>pa_online := filter (\<lambda>r. zone_of r = z) (pa_online p)\<rparr>"

definition about :: "string \<Rightarrow> finding list \<Rightarrow> finding list" where
  "about z fs = filter (\<lambda>f. f_zone f = z) fs"

definition rate_codes :: "string list" where
  "rate_codes = [''WF_RENDER_STARVED'', ''WF_NO_FRAMES'', ''WF_MEDIA_NO_FRAMES'', ''WF_GNB_SILENT'',
                 ''WF_KPM_SILENT'', ''WF_LOGGING_UNREACHABLE'']"

definition run_codes :: "string list" where
  "run_codes = [''WF_TOPOLOGY_MISSING'', ''WF_RENDER_STARVED'', ''WF_RENDER_CROSS_HOST'', ''WF_EDGE_IDLE'',
                ''WF_MEDIA_NOT_CONNECTED'', ''WF_STREAM_MISMATCH'', ''WF_MEDIA_NO_FRAMES'',
                ''WF_PARTICIPANT_LOST'']"

text \<open>A pass over given nodes for the witnesses: one zone, the default topology.\<close>

definition example_pass :: "run option \<Rightarrow> node_record list \<Rightarrow> pass" where
  "example_pass r nodes =
     \<lparr>pa_online = nodes, pa_participants = [], pa_run = r, pa_sha = ''a'',
      pa_topology = default_topology, pa_clock_warn = 0, pa_now = 100\<rparr>"

definition example_node :: "string \<Rightarrow> node_type \<Rightarrow> pdict \<Rightarrow> node_record" where
  "example_node nid t params =
     (fresh_record 90 nid t)\<lparr>nr_params := params, nr_zone := default_zone\<rparr>"

section \<open>Lemmas\<close>

lemma mk_finding_zone [simp]:
  "f_zone (mk_finding c s n z) = z" "f_code (mk_finding c s n z) = c"
  "f_severity (mk_finding c s n z) = s" "f_subject (mk_finding c s n z) = n"
  by (simp_all add: mk_finding_def)

lemma about_simps [simp]:
  "about z [] = []"
  "about z (fs @ gs) = about z fs @ about z gs"
  "about z (f # fs) = (if f_zone f = z then f # about z fs else about z fs)"
  by (simp_all add: about_def)

lemma about_if [simp]: "about z (if b then fs else gs) = (if b then about z fs else about z gs)"
  by simp

lemma about_concat: "about z (concat (map g xs)) = concat (map (\<lambda>x. about z (g x)) xs)"
  by (induction xs) simp_all

lemma about_map_fleet: "z \<noteq> [] \<Longrightarrow> about z (map (\<lambda>x. mk_finding c s (n x) []) xs) = []"
  by (induction xs) auto



lemma in_zone_simps [simp]:
  "pa_online (in_zone z p) = filter (\<lambda>r. zone_of r = z) (pa_online p)"
  "pa_run (in_zone z p) = pa_run p" "pa_topology (in_zone z p) = pa_topology p"
  "pa_clock_warn (in_zone z p) = pa_clock_warn p" "pa_now (in_zone z p) = pa_now p"
  "run_is_active (in_zone z p) = run_is_active p"
  "of_type t (in_zone z p) = filter (\<lambda>r. zone_of r = z) (of_type t p)"
  by (simp_all add: in_zone_def run_is_active_def of_type_def conj_commute)

lemma filter_eq_distinct:
  "distinct xs \<Longrightarrow> filter (\<lambda>c. c = z) xs = (if z \<in> set xs then [z] else [])"
  by (induction xs) (auto simp: filter_empty_conv)


lemma pass_zones_run:
  assumes "pa_run p = Some r" and "r_zone r \<noteq> []"
  shows "pass_zones p = [r_zone r]"
  using assms by (simp add: pass_zones_def Let_def filter_eq_distinct)








lemma link_findings_in_zone [simp]: "link_findings (in_zone z p) = link_findings p"
  by (intro ext) (simp only: link_findings_def in_zone_simps)








text \<open>What each check can report.\<close>

lemma absent_code_not_rate:
  "''WF_'' @ map upper_char (node_type_str t) @ ''_ABSENT'' \<notin> set rate_codes"
  by (cases t) (simp_all add: rate_codes_def upper_char_def Let_def)

lemma check_absent_codes: "f \<in> set (check_absent p) \<Longrightarrow> f_code f \<notin> set rate_codes"
  using absent_code_not_rate
  by (fastforce simp: check_absent_def absent_role_def split: option.splits if_splits)

lemmas check_defs =
  check_declared_def check_render_starved_def check_transport_def check_codec_def
  check_clock_offset_def check_clock_skew_def check_cross_host_def check_edge_idle_def
  check_links_def link_findings_def check_media_connection_def check_stream_def
  check_media_frames_def check_gnb_def check_xapp_def check_policy_def check_sources_def
  check_run_mismatch_def check_version_def check_logging_def check_participants_def

lemma set_diagnose: "set (diagnose p) = (\<Union>check \<in> set checks. set (check p))"
  by (simp add: diagnose_def)

lemma mem_diagnose:
  "f \<in> set (diagnose p) \<longleftrightarrow>
     f \<in> set (check_absent p) \<or> f \<in> set (check_declared p) \<or>
     f \<in> set (check_render_starved p) \<or> f \<in> set (check_transport p) \<or>
     f \<in> set (check_codec p) \<or> f \<in> set (check_clock_offset p) \<or>
     f \<in> set (check_clock_skew p) \<or> f \<in> set (check_cross_host p) \<or>
     f \<in> set (check_edge_idle p) \<or> f \<in> set (check_links p) \<or>
     f \<in> set (check_media_connection p) \<or> f \<in> set (check_stream p) \<or>
     f \<in> set (check_media_frames p) \<or> f \<in> set (check_gnb p) \<or>
     f \<in> set (check_xapp p) \<or> f \<in> set (check_policy p) \<or>
     f \<in> set (check_sources p) \<or> f \<in> set (check_run_mismatch p) \<or>
     f \<in> set (check_version p) \<or> f \<in> set (check_logging p) \<or>
     f \<in> set (check_participants p)"
  unfolding set_diagnose checks_def by (simp only: list.set UN_insert UN_empty Un_iff empty_iff simp_thms)

lemma diagnose_sorted: "sorted (map finding_key (diagnose p))"
  by (simp add: diagnose_def)

lemma of_type_online: "r \<in> set (of_type t p) \<longleftrightarrow> r \<in> set (pa_online p) \<and> nr_type r = t"
  by (auto simp: of_type_def)

lemma rising_first_sample [simp]: "nr_previous_counters r = [] \<Longrightarrow> rising r key = None"
  by (simp add: rising_def split: option.splits)

text \<open>The codes each check can report, in the order of \<open>checks\<close>.\<close>

lemma check_codes:
  "f \<in> set (check_declared p) \<Longrightarrow> f_code f \<in> {''WF_TOPOLOGY_ZONE_MISMATCH'', ''WF_TOPOLOGY_UNDECLARED'', ''WF_TOPOLOGY_MISSING''}"
  "f \<in> set (check_render_starved p) \<Longrightarrow> f_code f \<in> {''WF_RENDER_STARVED''}"
  "f \<in> set (check_transport p) \<Longrightarrow> f_code f \<in> {''WF_TRANSPORT_MISMATCH''}"
  "f \<in> set (check_codec p) \<Longrightarrow> f_code f \<in> {''WF_CODEC_MISMATCH''}"
  "f \<in> set (check_clock_offset p) \<Longrightarrow> f_code f \<in> {''WF_CLOCK_OFFSET''}"
  "f \<in> set (check_clock_skew p) \<Longrightarrow> f_code f \<in> {''WF_CLOCK_SKEW''}"
  "f \<in> set (check_cross_host p) \<Longrightarrow> f_code f \<in> {''WF_RENDER_CROSS_HOST''}"
  "f \<in> set (check_edge_idle p) \<Longrightarrow> f_code f \<in> {''WF_EDGE_IDLE''}"
  "f \<in> set (check_links p) \<Longrightarrow> f_code f \<in> {''WF_QOS_MISMATCH'', ''WF_NO_PEER'', ''WF_NO_FRAMES''}"
  "f \<in> set (check_media_connection p) \<Longrightarrow> f_code f \<in> {''WF_MEDIA_NOT_CONNECTED''}"
  "f \<in> set (check_stream p) \<Longrightarrow> f_code f \<in> {''WF_STREAM_MISMATCH''}"
  "f \<in> set (check_media_frames p) \<Longrightarrow> f_code f \<in> {''WF_MEDIA_NO_FRAMES''}"
  "f \<in> set (check_gnb p) \<Longrightarrow> f_code f \<in> {''WF_GNB_SILENT''}"
  "f \<in> set (check_xapp p) \<Longrightarrow> f_code f \<in> {''WF_XAPP_NO_E2'', ''WF_KPM_SILENT''}"
  "f \<in> set (check_policy p) \<Longrightarrow> f_code f \<in> {''WF_POLICY_NOT_APPLIED''}"
  "f \<in> set (check_sources p) \<Longrightarrow> f_code f \<in> {''WF_RAN_SOURCES_DISAGREE''}"
  "f \<in> set (check_run_mismatch p) \<Longrightarrow> f_code f \<in> {''WF_RUN_MISMATCH''}"
  "f \<in> set (check_version p) \<Longrightarrow> f_code f \<in> {''WF_VERSION_SKEW''}"
  "f \<in> set (check_logging p) \<Longrightarrow> f_code f \<in> {''WF_LOGGING_UNREACHABLE''}"
  "f \<in> set (check_participants p) \<Longrightarrow> f_code f \<in> {''WF_PARTICIPANT_LOST''}"
  subgoal by (auto simp: check_declared_def Let_def split: if_splits option.splits)
  subgoal by (auto simp: check_render_starved_def Let_def split: if_splits option.splits)
  subgoal by (auto simp: check_transport_def Let_def split: if_splits option.splits)
  subgoal by (auto simp: check_codec_def Let_def split: if_splits option.splits)
  subgoal by (auto simp: check_clock_offset_def Let_def split: if_splits option.splits)
  subgoal by (auto simp: check_clock_skew_def Let_def split: if_splits option.splits)
  subgoal by (auto simp: check_cross_host_def Let_def split: if_splits option.splits)
  subgoal by (auto simp: check_edge_idle_def Let_def split: if_splits option.splits)
  subgoal by (auto simp: check_links_def link_findings_def Let_def split: if_splits option.splits)
  subgoal by (auto simp: check_media_connection_def Let_def split: if_splits option.splits)
  subgoal by (auto simp: check_stream_def Let_def split: if_splits option.splits)
  subgoal by (auto simp: check_media_frames_def Let_def split: if_splits option.splits)
  subgoal by (auto simp: check_gnb_def Let_def split: if_splits option.splits)
  subgoal by (auto simp: check_xapp_def Let_def split: if_splits option.splits)
  subgoal by (auto simp: check_policy_def Let_def split: if_splits option.splits)
  subgoal by (auto simp: check_sources_def Let_def split: if_splits option.splits)
  subgoal by (auto simp: check_run_mismatch_def Let_def split: if_splits option.splits)
  subgoal by (auto simp: check_version_def Let_def split: if_splits option.splits)
  subgoal by (auto simp: check_logging_def Let_def split: if_splits option.splits)
  subgoal by (auto simp: check_participants_def Let_def split: if_splits option.splits)
  done

lemma rate_checks_quiet:
  assumes "\<forall>r \<in> set (pa_online p). nr_previous_counters r = []"
  shows "check_render_starved p = []" "check_media_frames p = []" "check_gnb p = []"
    "check_logging p = []"
    "f \<in> set (check_links p) \<Longrightarrow> f_code f \<in> {''WF_QOS_MISMATCH'', ''WF_NO_PEER''}"
    "f \<in> set (check_xapp p) \<Longrightarrow> f_code f = ''WF_XAPP_NO_E2''"
proof -
  have r: "rising r key = None" if "r \<in> set (of_type t p)" for r t key
    using assms(1) that by (simp add: of_type_online)
  have o: "rising r key = None" if "r \<in> set (pa_online p)" for r key
    using assms(1) that by simp
  show "check_render_starved p = []" "check_gnb p = []" "check_logging p = []"
    by (auto simp: check_render_starved_def check_gnb_def check_logging_def r o)
  show "check_media_frames p = []"
    by (auto simp: check_media_frames_def Let_def r)
  show "f \<in> set (check_links p) \<Longrightarrow> f_code f \<in> {''WF_QOS_MISMATCH'', ''WF_NO_PEER''}"
    by (auto simp: check_links_def link_findings_def Let_def r split: if_splits)
  show "f \<in> set (check_xapp p) \<Longrightarrow> f_code f = ''WF_XAPP_NO_E2''"
    by (auto simp: check_xapp_def r split: if_splits)
qed

lemma inactive_checks_quiet:
  assumes "\<not> run_is_active p"
  shows "check_absent p = []" "check_render_starved p = []" "check_cross_host p = []"
    "check_edge_idle p = []" "check_media_connection p = []" "check_stream p = []"
    "check_media_frames p = []" "check_participants p = []"
    "f \<in> set (check_declared p) \<Longrightarrow> f_code f \<in> {''WF_TOPOLOGY_ZONE_MISMATCH'', ''WF_TOPOLOGY_UNDECLARED''}"
  using assms
  by (auto simp: check_absent_def absent_role_def check_render_starved_def check_cross_host_def
      check_edge_idle_def check_media_connection_def check_stream_def check_media_frames_def
      check_participants_def check_declared_def Let_def split: option.splits if_splits)

lemma first_pass_quiet_check:
  assumes "\<forall>r \<in> set (pa_online p). nr_previous_counters r = []" and "f \<in> set (diagnose p)"
  shows "f_code f \<notin> set rate_codes"
proof -
  note quiet = rate_checks_quiet [OF assms(1)]
  show ?thesis
    using assms(2) unfolding mem_diagnose
    by (elim disjE)
       (auto simp: quiet(1-4) rate_codes_def
         dest!: check_absent_codes quiet(5,6) check_codes(1,3-8,10,11,15-18,20))
qed

lemma inactive_quiet_check:
  assumes "\<not> run_is_active p" and "f \<in> set (diagnose p)"
  shows "f_code f \<notin> set run_codes"
proof -
  note quiet = inactive_checks_quiet [OF assms(1)]
  show ?thesis
    using assms(2) unfolding mem_diagnose
    by (elim disjE)
       (auto simp: quiet(1-8) run_codes_def dest!: quiet(9) check_codes(3-6,9,13-19))
qed

text \<open>The majority of what a zone's nodes reported.\<close>

lemma uniq_singleton: "uniq xs = [k] \<Longrightarrow> \<forall>x \<in> set xs. x = k"
  by (metis empty_iff empty_set set_ConsD uniq_set)

lemma majority_kind_None:
  "majority_kind pref reported = None \<longleftrightarrow> (\<forall>a \<in> set (vals reported). \<forall>b \<in> set (vals reported). a = b)"
proof -
  let ?s = "sort (uniq (vals reported))"
  have s: "set ?s = set (vals reported)" "distinct ?s"
    by simp_all
  show ?thesis
    unfolding majority_kind_def s(1) [symmetric]
    using s(2) by (cases ?s rule: remdups_adj.cases) auto
qed

lemma majority_kind_Some:
  assumes "majority_kind pref reported = Some m"
  shows "m \<in> set (vals reported)"
    and "k \<in> set (vals reported) \<Longrightarrow>
           (count_list (vals reported) k, k = pref) \<le> (count_list (vals reported) m, m = pref)"
proof -
  let ?s = "sort (uniq (vals reported))" and ?f = "\<lambda>x. (count_list (vals reported) x, x = pref)"
  from assms obtain k l ks where s: "?s = k # l # ks" and m: "m = first_max ?f k (l # ks)"
    by (auto simp: majority_kind_def split: list.splits)
  have set_s: "insert k (set (l # ks)) = set (vals reported)"
    using arg_cong [OF s, of set] by simp
  show "m \<in> set (vals reported)"
    and "k' \<in> set (vals reported) \<Longrightarrow> ?f k' \<le> ?f m" for k'
    using first_max_fold [of ?f k "l # ks"] unfolding m set_s by auto
qed


lemma link_findings_some:
  assumes "zone_of edge = zone_of client" and "nr_subscribed edge"
    and "(let c = pget (nr_params client) ''reliability''; e = pget (nr_params edge) ''reliability''
          in truthy c \<and> truthy e \<and> c \<noteq> e)
         \<or> nr_peers edge = [] \<and> streaming_for (pa_now p) peer_grace client
         \<or> rising client ''frames_published'' = Some True \<and> rising edge ''frames'' = Some False"
  shows "\<exists>code \<in> {''WF_QOS_MISMATCH'', ''WF_NO_PEER'', ''WF_NO_FRAMES''}. link_findings p client edge
     = [mk_finding code ''error'' (nr_id client @ '' -> '' @ nr_id edge) (zone_of client)]"
  using assms by (auto simp: link_findings_def Let_def)

section \<open>Properties\<close>

text \<open>Findings without a zone: those about one node alone, and those that compare nodes of the whole
  fleet.\<close>

definition own_codes :: "string list" where
  "own_codes = [''WF_TOPOLOGY_ZONE_MISMATCH'', ''WF_TOPOLOGY_UNDECLARED'', ''WF_EDGE_IDLE'', ''WF_GNB_SILENT'',
                ''WF_VERSION_SKEW'', ''WF_LOGGING_UNREACHABLE'']"


definition own_findings :: "pass \<Rightarrow> node_record \<Rightarrow> finding set" where
  "own_findings p n =
     {f \<in> set (check_declared (p\<lparr>pa_online := [n]\<rparr>)) \<union> set (check_edge_idle (p\<lparr>pa_online := [n]\<rparr>))
        \<union> set (check_gnb (p\<lparr>pa_online := [n]\<rparr>)) \<union> set (check_version (p\<lparr>pa_online := [n]\<rparr>))
        \<union> set (check_logging (p\<lparr>pa_online := [n]\<rparr>)). f_code f \<in> set own_codes}"



lemma own_findings_nodes [simp]: "own_findings (p\<lparr>pa_online := ns\<rparr>) n = own_findings p n"
proof -
  have "p\<lparr>pa_online := ns, pa_online := [n]\<rparr> = p\<lparr>pa_online := [n]\<rparr>"
    by simp
  then show ?thesis
    by (simp only: own_findings_def)
qed




lemma zone_of_nonempty [simp]: "zone_of r \<noteq> []"
  by (simp add: zone_of_def str_or_def default_zone_def)





text \<open>A link that carries nothing is never silent: for every streaming client and every subscribed
  edge of its zone, a reliability mismatch, an edge without a peer after the grace period, or frames
  leaving the client while the edge's count stands still, each puts exactly one error about that pair
  into the findings of the pair.\<close>

theorem silent_link_reported:
  assumes "client \<in> set (pa_online p)" and "nr_type client = Client" and "nr_streaming client"
    and "edge \<in> set (pa_online p)" and "nr_type edge = Edge" and "nr_subscribed edge"
    and "zone_of edge = zone_of client"
    and "(let c = pget (nr_params client) ''reliability''; e = pget (nr_params edge) ''reliability''
          in truthy c \<and> truthy e \<and> c \<noteq> e)
         \<or> nr_peers edge = [] \<and> streaming_for (pa_now p) peer_grace client
         \<or> rising client ''frames_published'' = Some True \<and> rising edge ''frames'' = Some False"
  shows "\<exists>f. link_findings p client edge = [f] \<and> f \<in> set (diagnose p) \<and> f_severity f = ''error''
           \<and> f_subject f = nr_id client @ '' -> '' @ nr_id edge \<and> f_zone f = zone_of client"
proof -
  obtain code where f: "link_findings p client edge
      = [mk_finding code ''error'' (nr_id client @ '' -> '' @ nr_id edge) (zone_of client)]"
    using link_findings_some [OF assms(7,6,8)] by blast
  have "set (link_findings p client edge) \<subseteq> set (check_links p)"
    using assms(1-5) unfolding check_links_def by (force simp: of_type_online)
  then show ?thesis
    using f by (auto simp: mem_diagnose)
qed

theorem silent_link_reported_witness:
  "\<exists>f. f \<in> set (diagnose (example_pass None
        [(example_node ''c'' Client [])\<lparr>nr_streaming := True, nr_counters := [(''frames_published'', 5)],
            nr_previous_counters := [(''frames_published'', 3)]\<rparr>,
         (example_node ''e'' Edge [])\<lparr>nr_subscribed := True, nr_peers := [[]],
            nr_counters := [(''frames'', 7)], nr_previous_counters := [(''frames'', 7)]\<rparr>]))
     \<and> f_subject f = ''c -> e''"
proof -
  let ?c = "(example_node ''c'' Client [])\<lparr>nr_streaming := True, nr_counters := [(''frames_published'', 5)],
            nr_previous_counters := [(''frames_published'', 3)]\<rparr>"
  let ?e = "(example_node ''e'' Edge [])\<lparr>nr_subscribed := True, nr_peers := [[]],
            nr_counters := [(''frames'', 7)], nr_previous_counters := [(''frames'', 7)]\<rparr>"
  have "rising ?c ''frames_published'' = Some True" "rising ?e ''frames'' = Some False"
    by (simp_all add: rising_def)
  then obtain f where "f \<in> set (diagnose (example_pass None [?c, ?e]))"
    and "f_subject f = nr_id ?c @ '' -> '' @ nr_id ?e"
    using silent_link_reported [of ?c "example_pass None [?c, ?e]" ?e]
    by (auto simp: example_pass_def example_node_def fresh_record_def zone_of_def)
  then show ?thesis
    by (auto simp: example_node_def fresh_record_def)
qed

text \<open>The odd ones out, not the zone, are accused of a transport mismatch: with a run as the subject
  the check is silent exactly when the middleware nodes of the run's zone all report the same transport,
  and a node it accuses reported one that no more nodes report than the one it is held to.\<close>

theorem transport_minority_accused:
  assumes "pa_run p = Some r" and "r_zone r \<noteq> []"
  shows "(check_transport p = [] \<longleftrightarrow>
            (\<forall>a b. {a, b} \<subseteq> set (vals (middleware_reports p (r_zone r))) \<longrightarrow> a = b))
         \<and> list_all (\<lambda>f. \<exists>kind majority. (f_subject f, kind) \<in> set (middleware_reports p (r_zone r))
              \<and> kind \<noteq> majority
              \<and> count_list (vals (middleware_reports p (r_zone r))) kind
                  \<le> count_list (vals (middleware_reports p (r_zone r))) majority) (check_transport p)"
proof -
  let ?R = "middleware_reports p (r_zone r)" and ?z = "r_zone r"
  have check: "check_transport p =
      (case majority_kind ''zenoh/tcp'' ?R of
         None \<Rightarrow> []
       | Some m \<Rightarrow> map (\<lambda>(nid, kind). mk_finding ''WF_TRANSPORT_MISMATCH'' ''error'' nid ?z)
                     (filter (\<lambda>(nid, kind). kind \<noteq> m) (sort ?R)))"
    using assms by (simp add: check_transport_def pass_zones_run)
  show ?thesis
  proof (cases "majority_kind ''zenoh/tcp'' ?R")
    case None
    then show ?thesis
      using majority_kind_None [THEN iffD1, OF None] by (simp add: check None)
  next
    case (Some m)
    note m = majority_kind_Some [OF Some]
    have "\<exists>k. k \<in> set (vals ?R) \<and> k \<noteq> m"
      using Some majority_kind_None [of "''zenoh/tcp''" ?R] by (metis option.distinct(1))
    then have "check_transport p \<noteq> []" and "\<not> (\<forall>a b. {a, b} \<subseteq> set (vals ?R) \<longrightarrow> a = b)"
      using m(1) by (auto simp: check Some filter_empty_conv vals_def)
    moreover have "count_list (vals ?R) kind \<le> count_list (vals ?R) m" if "(nid, kind) \<in> set ?R" for nid kind
      using m(2) [of kind] that by (force simp: vals_def)
    ultimately show ?thesis
      by (fastforce simp: check Some list_all_iff)
  qed
qed

theorem transport_minority_accused_witness:
  "check_transport (example_pass (Some (example_run ''r'' Running))
      [example_node ''c'' Client [(''middleware'', JStr ''dds'')],
       example_node ''e'' Edge [(''middleware'', JStr ''zenoh'')]]) \<noteq> []"
proof -
  let ?p = "example_pass (Some (example_run ''r'' Running))
      [example_node ''c'' Client [(''middleware'', JStr ''dds'')],
       example_node ''e'' Edge [(''middleware'', JStr ''zenoh'')]]"
  have "vals (middleware_reports ?p (r_zone (example_run ''r'' Running))) = [''dds'', ''zenoh'']"
    by (simp add: middleware_reports_def example_pass_def example_node_def example_run_def fresh_record_def
        zone_of_def str_or_def default_zone_def middleware_node_types_def middleware_of_def pget_def
        py_or_def vals_def)
  then show ?thesis
    using transport_minority_accused [of ?p "example_run ''r'' Running"]
    by (auto simp: example_pass_def example_run_def)
qed

text \<open>The first pass after the fleet connects raises no finding that rests on a rate: with no previous
  sample of any node, no counter is read as standing still or as growing.\<close>

theorem first_pass_raises_no_rate_finding:
  assumes "\<forall>r \<in> set (pa_online p). nr_previous_counters r = []" and "f \<in> set (diagnose p)"
  shows "f_code f \<notin> set rate_codes"
  using assms by (rule first_pass_quiet_check)

theorem first_pass_raises_no_rate_finding_witness:
  "mk_finding ''WF_EDGE_ABSENT'' ''error'' ''edge'' ''default''
     \<in> set (diagnose (example_pass (Some (example_run ''r'' Running)) [example_node ''c'' Client []]))
   \<and> f_code (mk_finding ''WF_EDGE_ABSENT'' ''error'' ''edge'' ''default'') \<notin> set rate_codes"
proof -
  have m: "mk_finding ''WF_EDGE_ABSENT'' ''error'' ''edge'' ''default''
     \<in> set (diagnose (example_pass (Some (example_run ''r'' Running)) [example_node ''c'' Client []]))"
    by code_simp
  then show ?thesis
    using first_pass_raises_no_rate_finding [OF _ m]
    by (simp add: example_pass_def example_node_def fresh_record_def)
qed

text \<open>With no active run, nothing is reported that only a run makes wrong: no role or declared node
  missing, no starved or misplaced renderer, no idle edge, no media fault, no lost participant.\<close>

theorem idle_raises_no_run_finding:
  assumes "\<not> run_is_active p" and "f \<in> set (diagnose p)"
  shows "f_code f \<notin> set run_codes \<and> f \<notin> set (check_absent p)"
  using inactive_quiet_check [OF assms] inactive_checks_quiet(1) [OF assms(1)] by simp

theorem idle_raises_no_run_finding_witness:
  "mk_finding ''WF_VERSION_SKEW'' ''warn'' ''c'' []
     \<in> set (diagnose (example_pass None [(example_node ''c'' Client [])\<lparr>nr_version_sha := ''b''\<rparr>]))
   \<and> f_code (mk_finding ''WF_VERSION_SKEW'' ''warn'' ''c'' []) \<notin> set run_codes"
proof -
  have m: "mk_finding ''WF_VERSION_SKEW'' ''warn'' ''c'' []
     \<in> set (diagnose (example_pass None [(example_node ''c'' Client [])\<lparr>nr_version_sha := ''b''\<rparr>]))"
    by code_simp
  then show ?thesis
    using idle_raises_no_run_finding [OF _ m] by (simp add: example_pass_def run_is_active_def)
qed

text \<open>A codec disagreement among idle nodes is listed after everything else: its severity
  \<open>warning\<close> is none of the three the order knows, so no error, warning or note follows it.\<close>

theorem idle_codec_mismatch_sorts_last:
  assumes "f \<in> set (check_codec p)" and "f_severity f \<noteq> ''error''" and "diagnose p = before @ f # after"
  shows "\<forall>g \<in> set after. f_severity g \<notin> {''error'', ''warn'', ''info''}"
proof -
  have w: "f_severity f = ''warning''"
    using assms(1,2) by (auto simp: check_codec_def Let_def split: option.splits if_splits)
  have "\<forall>g \<in> set after. finding_key f \<le> finding_key g"
    using diagnose_sorted [of p] by (simp add: assms(3) sorted_append)
  then have "\<forall>g \<in> set after. 3 \<le> severity_order (f_severity g)"
    using w by (fastforce simp: finding_key_def severity_order_def)
  then show ?thesis
    by (auto simp: severity_order_def)
qed

theorem idle_codec_mismatch_sorts_last_witness:
  "\<exists>f. diagnose (example_pass None [example_node ''c'' Client [(''codec'', JStr ''none'')],
        (example_node ''e'' Edge [(''codec'', JStr ''gpcc'')])\<lparr>nr_version_sha := ''b''\<rparr>])
      = [mk_finding ''WF_VERSION_SKEW'' ''warn'' ''e'' [], f]
    \<and> f \<in> set (check_codec (example_pass None [example_node ''c'' Client [(''codec'', JStr ''none'')],
        (example_node ''e'' Edge [(''codec'', JStr ''gpcc'')])\<lparr>nr_version_sha := ''b''\<rparr>]))
    \<and> (\<forall>g \<in> set ([] :: finding list). f_severity g \<notin> {''error'', ''warn'', ''info''})"
proof -
  let ?p = "example_pass None [example_node ''c'' Client [(''codec'', JStr ''none'')],
        (example_node ''e'' Edge [(''codec'', JStr ''gpcc'')])\<lparr>nr_version_sha := ''b''\<rparr>]"
  let ?f = "mk_finding ''WF_CODEC_MISMATCH'' ''warning'' ''e'' ''default''"
  have d: "diagnose ?p = [mk_finding ''WF_VERSION_SKEW'' ''warn'' ''e'' [], ?f]" and c: "check_codec ?p = [?f]"
    by code_simp+
  have "\<forall>g \<in> set ([] :: finding list). f_severity g \<notin> {''error'', ''warn'', ''info''}"
    by (rule idle_codec_mismatch_sorts_last
        [of ?f ?p "[mk_finding ''WF_VERSION_SKEW'' ''warn'' ''e'' []]" "[]"])
       (simp_all add: c d)
  then show ?thesis
    using c d by auto
qed

end
