(* ===== verification/Ran_Policy.thy ===== *)
theory Ran_Policy
  imports Topology_Spec
begin

text \<open>
  The \<open>ran_policy\<close> run parameter, checked twice: by the admin before it reaches a RIC
  (services/admin/src/mec_cast_admin/ranpolicy.py) and by the xApp that applies it (\<open>parse_policy\<close>
  of ran/xapp/src/mec_cast_xapp/capabilities/rc_control.py). The files say the two checks must agree;
  the lemmas show in which direction they do.

  The admin's check is a pydantic model. What pydantic itself does to one field, the conversion to
  the annotated type, is third-party code: the record \<open>pydantic\<close> of functions, each \<open>None\<close> when
  it refuses. The bounds, defaults, forbidden keys and validators are the source's own. The xApp's
  \<open>float(text)\<close> is the argument \<open>ft\<close>.
\<close>

section \<open>Quotas\<close>

record quota =
  q_min :: int
  q_max :: int
  q_ded :: int

definition default_quota :: quota where
  "default_quota = \<lparr>q_min = 0, q_max = 100, q_ded = 100\<rparr>"

definition quota_wf :: "quota \<Rightarrow> bool" where
  "quota_wf q \<longleftrightarrow>
     0 \<le> q_min q \<and> q_min q \<le> q_max q \<and> q_max q \<le> 100 \<and> 0 \<le> q_ded q \<and> q_ded q \<le> 100"

section \<open>The admin's check\<close>

record pydantic =
  pd_int :: "json \<Rightarrow> int option"
  pd_float :: "json \<Rightarrow> (rat \<times> string) option"
  pd_str :: "json \<Rightarrow> string option"
  pd_ue :: "json \<Rightarrow> (int + string) option"

record policy_step =
  ps_t :: "rat \<times> string"
  ps_min :: "int option"
  ps_max :: "int option"
  ps_ded :: "int option"

record ran_policy =
  rp_ue :: "int + string"
  rp_ue_node :: "string option"
  rp_min :: int
  rp_max :: int
  rp_ded :: int
  rp_schedule :: "policy_step list"

definition step_keys :: "string list" where
  "step_keys = [''t_s'', ''min_prb_ratio'', ''max_prb_ratio'', ''dedicated_prb_ratio'']"

definition policy_keys :: "string list" where
  "policy_keys = [''type'', ''ue'', ''ue_node'', ''min_prb_ratio'', ''max_prb_ratio'',
                  ''dedicated_prb_ratio'', ''schedule'']"

definition percent :: "int option \<Rightarrow> int option" where
  "percent n = (case n of None \<Rightarrow> None | Some v \<Rightarrow> if 0 \<le> v \<and> v \<le> 100 then Some v else None)"

definition percent_field :: "pydantic \<Rightarrow> pdict \<Rightarrow> string \<Rightarrow> int \<Rightarrow> int option" where
  "percent_field pd d k base =
     (case map_of d k of None \<Rightarrow> Some base | Some v \<Rightarrow> percent (pd_int pd v))"

text \<open>An optional percentage: \<open>Some None\<close> when absent or null.\<close>

definition percent_opt :: "pydantic \<Rightarrow> pdict \<Rightarrow> string \<Rightarrow> int option option" where
  "percent_opt pd d k =
     (if pget d k = JNull then Some None else map_option Some (percent (pd_int pd (pget d k))))"

definition validate_step :: "pydantic \<Rightarrow> json \<Rightarrow> policy_step option" where
  "validate_step pd v =
     (case v of
        JObj d \<Rightarrow>
          (if \<not> set (keys d) \<subseteq> set step_keys then None
           else
             (case (Option.bind (map_of d ''t_s'') (pd_float pd), percent_opt pd d ''min_prb_ratio'',
                    percent_opt pd d ''max_prb_ratio'', percent_opt pd d ''dedicated_prb_ratio'') of
                (Some t, Some lo, Some hi, Some ded) \<Rightarrow>
                  (if fst t < 0 then None
                   else Some \<lparr>ps_t = t, ps_min = lo, ps_max = hi, ps_ded = ded\<rparr>)
              | _ \<Rightarrow> None))
      | _ \<Rightarrow> None)"

fun map_opt_list :: "('a \<Rightarrow> 'b option) \<Rightarrow> 'a list \<Rightarrow> 'b list option" where
  "map_opt_list f [] = Some []"
| "map_opt_list f (x # xs) =
     (case f x of None \<Rightarrow> None | Some y \<Rightarrow> map_option (\<lambda>ys. y # ys) (map_opt_list f xs))"

text \<open>The validators of \<open>ue\<close>: the prefix, the digits, then pydantic's \<open>int | str\<close>, then the sign.\<close>

definition e2_prefix :: "json \<Rightarrow> json option" where
  "e2_prefix v =
     (case v of
        JStr s \<Rightarrow>
          (let s = strip s; s = (if take 3 s = ''e2:'' then drop 3 s else s)
           in if s \<noteq> [] \<and> list_all is_digit s then map_option (\<lambda>n. JInt (int n)) (digits_value 0 s)
              else if s = [] then None else Some (JStr s))
      | _ \<Rightarrow> Some v)"

definition validate_ue :: "pydantic \<Rightarrow> pdict \<Rightarrow> (int + string) option" where
  "validate_ue pd d =
     (case map_of d ''ue'' of
        None \<Rightarrow> Some (Inl 0)
      | Some v \<Rightarrow>
          (case Option.bind (e2_prefix v) (pd_ue pd) of
             Some (Inl n) \<Rightarrow> (if n < 0 then None else Some (Inl n))
           | u \<Rightarrow> u))"

text \<open>The loop of \<open>_consistent\<close> over the schedule: \<open>prev\<close>, \<open>lo\<close> and \<open>hi\<close> are its variables.\<close>

fun consistent_steps :: "rat \<Rightarrow> int \<Rightarrow> int \<Rightarrow> policy_step list \<Rightarrow> bool" where
  "consistent_steps prev lo hi [] = True"
| "consistent_steps prev lo hi (s # ss) =
     (if fst (ps_t s) \<le> prev then False
      else
        (let lo' = (case ps_min s of Some v \<Rightarrow> v | None \<Rightarrow> lo);
             hi' = (case ps_max s of Some v \<Rightarrow> v | None \<Rightarrow> hi)
         in if lo' > hi' then False else consistent_steps (fst (ps_t s)) lo' hi' ss))"

definition policy_consistent :: "ran_policy \<Rightarrow> bool" where
  "policy_consistent p \<longleftrightarrow>
     \<not> rp_min p > rp_max p \<and> consistent_steps (- 1) (rp_min p) (rp_max p) (rp_schedule p)"

definition validate_schedule :: "pydantic \<Rightarrow> pdict \<Rightarrow> policy_step list option" where
  "validate_schedule pd d =
     (case map_of d ''schedule'' of
        None \<Rightarrow> Some []
      | Some (JArr xs) \<Rightarrow> map_opt_list (validate_step pd) xs
      | _ \<Rightarrow> None)"

definition validate_ran_policy :: "pydantic \<Rightarrow> json \<Rightarrow> ran_policy option" where
  "validate_ran_policy pd raw =
     (case raw of
        JObj d \<Rightarrow>
          (if \<not> set (keys d) \<subseteq> set policy_keys then None
           else if (case map_of d ''type'' of None \<Rightarrow> False | Some v \<Rightarrow> pd_str pd v \<noteq> Some ''prb_quota'')
           then None
           else
             (case (validate_ue pd d,
                    (if pget d ''ue_node'' = JNull then Some None
                     else map_option Some (pd_str pd (pget d ''ue_node''))),
                    percent_field pd d ''min_prb_ratio'' 0, percent_field pd d ''max_prb_ratio'' 100,
                    percent_field pd d ''dedicated_prb_ratio'' 100, validate_schedule pd d) of
                (Some ue, Some ue_node, Some lo, Some hi, Some ded, Some sched) \<Rightarrow>
                  (let p = \<lparr>rp_ue = ue, rp_ue_node = ue_node, rp_min = lo, rp_max = hi, rp_ded = ded,
                            rp_schedule = sched\<rparr>
                   in if policy_consistent p then Some p else None)
              | _ \<Rightarrow> None))
      | _ \<Rightarrow> None)"

text \<open>\<open>model_dump(exclude_none=True)\<close>.\<close>

definition opt_entry :: "string \<Rightarrow> json option \<Rightarrow> pdict" where
  "opt_entry k v = (case v of None \<Rightarrow> [] | Some w \<Rightarrow> [(k, w)])"

definition dump_step :: "policy_step \<Rightarrow> json" where
  "dump_step s =
     JObj ([(''t_s'', JFloat (fst (ps_t s)) (snd (ps_t s)))]
           @ opt_entry ''min_prb_ratio'' (map_option JInt (ps_min s))
           @ opt_entry ''max_prb_ratio'' (map_option JInt (ps_max s))
           @ opt_entry ''dedicated_prb_ratio'' (map_option JInt (ps_ded s)))"

definition ue_json :: "int + string \<Rightarrow> json" where
  "ue_json u = (case u of Inl n \<Rightarrow> JInt n | Inr s \<Rightarrow> JStr s)"

definition dump_policy :: "ran_policy \<Rightarrow> pdict" where
  "dump_policy p =
     [(''type'', JStr ''prb_quota''), (''ue'', ue_json (rp_ue p))]
     @ opt_entry ''ue_node'' (map_option JStr (rp_ue_node p))
     @ [(''min_prb_ratio'', JInt (rp_min p)), (''max_prb_ratio'', JInt (rp_max p)),
        (''dedicated_prb_ratio'', JInt (rp_ded p)), (''schedule'', JArr (map dump_step (rp_schedule p)))]"

section \<open>The xApp's check\<close>

text \<open>\<open>Policy_Error\<close> is the exception \<open>parse_policy\<close> raises; \<open>Other_Error\<close> any other that
  escapes it, of an \<open>int()\<close>, a \<open>float()\<close> or a step that is not a mapping.\<close>

datatype policy_error = Policy_Error | Other_Error

record parsed_policy =
  xp_ue :: int
  xp_first :: quota
  xp_schedule :: "(rat \<times> quota) list"

definition ratio_field :: "pdict \<Rightarrow> string \<Rightarrow> int \<Rightarrow> policy_error + int" where
  "ratio_field d k base =
     (case map_of d k of
        None \<Rightarrow> Inr base
      | Some v \<Rightarrow>
          (case py_int v of
             None \<Rightarrow> Inl Other_Error
           | Some n \<Rightarrow> if 0 \<le> n \<and> n \<le> 100 then Inr n else Inl Policy_Error))"

definition ratios :: "pdict \<Rightarrow> quota \<Rightarrow> policy_error + quota" where
  "ratios d base =
     sum_bind (ratio_field d ''min_prb_ratio'' (q_min base)) (\<lambda>lo.
     sum_bind (ratio_field d ''max_prb_ratio'' (q_max base)) (\<lambda>hi.
     sum_bind (ratio_field d ''dedicated_prb_ratio'' (q_ded base)) (\<lambda>ded.
       if lo > hi then Inl Policy_Error else Inr \<lparr>q_min = lo, q_max = hi, q_ded = ded\<rparr>)))"

definition py_float :: "(string \<Rightarrow> rat option) \<Rightarrow> json \<Rightarrow> rat option" where
  "py_float ft v =
     (case v of
        JInt n \<Rightarrow> Some (of_int n)
      | JBool b \<Rightarrow> Some (if b then 1 else 0)
      | JFloat r t \<Rightarrow> Some r
      | JStr s \<Rightarrow> ft s
      | _ \<Rightarrow> None)"

fun parse_steps ::
  "(string \<Rightarrow> rat option) \<Rightarrow> rat \<Rightarrow> quota \<Rightarrow> json list \<Rightarrow> policy_error + (rat \<times> quota) list" where
  "parse_steps ft prev cur [] = Inr []"
| "parse_steps ft prev cur (s # ss) =
     (case s of
        JObj d \<Rightarrow>
          (case py_float ft (pget_or d ''t_s'' (JInt (- 1))) of
             None \<Rightarrow> Inl Other_Error
           | Some t \<Rightarrow>
               (if t \<le> prev then Inl Policy_Error
                else sum_bind (ratios d cur) (\<lambda>q.
                     sum_bind (parse_steps ft t q ss) (\<lambda>rest. Inr ((t, q) # rest)))))
      | _ \<Rightarrow> Inl Other_Error)"

definition policy_ue :: "pdict \<Rightarrow> int option" where
  "policy_ue d =
     py_int (case pget_or d ''ue'' (JInt 0) of
               JStr s \<Rightarrow> JStr (if take 3 s = ''e2:'' then drop 3 s else s) | v \<Rightarrow> v)"

definition parse_policy :: "(string \<Rightarrow> rat option) \<Rightarrow> json \<Rightarrow> policy_error + parsed_policy" where
  "parse_policy ft raw =
     (case raw of
        JObj d \<Rightarrow>
          (if pget_or d ''type'' (JStr ''prb_quota'') \<noteq> JStr ''prb_quota'' then Inl Policy_Error
           else
             (case policy_ue d of
                None \<Rightarrow> Inl Policy_Error
              | Some ue \<Rightarrow>
                  sum_bind (ratios d default_quota) (\<lambda>first.
                    (case py_or (pget d ''schedule'') (JArr []) of
                       JArr steps \<Rightarrow>
                         sum_bind (parse_steps ft (- 1) first steps)
                           (\<lambda>sched. Inr \<lparr>xp_ue = ue, xp_first = first, xp_schedule = sched\<rparr>)
                     | _ \<Rightarrow> Inl Other_Error))))
      | _ \<Rightarrow> Inl Policy_Error)"

section \<open>What the two checks agree on\<close>

text \<open>The effective quota after each step of a validated schedule.\<close>

fun effective_steps :: "quota \<Rightarrow> policy_step list \<Rightarrow> (rat \<times> quota) list" where
  "effective_steps q [] = []"
| "effective_steps q (s # ss) =
     (let q' = \<lparr>q_min = (case ps_min s of Some v \<Rightarrow> v | None \<Rightarrow> q_min q),
                q_max = (case ps_max s of Some v \<Rightarrow> v | None \<Rightarrow> q_max q),
                q_ded = (case ps_ded s of Some v \<Rightarrow> v | None \<Rightarrow> q_ded q)\<rparr>
      in (fst (ps_t s), q') # effective_steps q' ss)"

definition effective_policy :: "int \<Rightarrow> ran_policy \<Rightarrow> parsed_policy" where
  "effective_policy ue p =
     (let first = \<lparr>q_min = rp_min p, q_max = rp_max p, q_ded = rp_ded p\<rparr>
      in \<lparr>xp_ue = ue, xp_first = first, xp_schedule = effective_steps first (rp_schedule p)\<rparr>)"

definition opt_percent :: "int option \<Rightarrow> bool" where
  "opt_percent x = (case x of None \<Rightarrow> True | Some v \<Rightarrow> 0 \<le> v \<and> v \<le> 100)"

definition step_wf :: "policy_step \<Rightarrow> bool" where
  "step_wf s \<longleftrightarrow> 0 \<le> fst (ps_t s) \<and> opt_percent (ps_min s) \<and> opt_percent (ps_max s) \<and> opt_percent (ps_ded s)"

definition policy_wf :: "ran_policy \<Rightarrow> bool" where
  "policy_wf p \<longleftrightarrow>
     opt_percent (Some (rp_min p)) \<and> opt_percent (Some (rp_max p)) \<and> opt_percent (Some (rp_ded p))
     \<and> list_all step_wf (rp_schedule p) \<and> policy_consistent p"

text \<open>Pydantic on the values themselves, for the witnesses: an integer is an integer, a number a
  number, text is text.\<close>

definition strict_pydantic :: pydantic where
  "strict_pydantic =
     \<lparr>pd_int = (\<lambda>v. case v of JInt n \<Rightarrow> Some n | _ \<Rightarrow> None),
      pd_float = (\<lambda>v. case v of JInt n \<Rightarrow> Some (of_int n, dec_int n @ ''.0'') | JFloat r t \<Rightarrow> Some (r, t) | _ \<Rightarrow> None),
      pd_str = (\<lambda>v. case v of JStr s \<Rightarrow> Some s | _ \<Rightarrow> None),
      pd_ue = (\<lambda>v. case v of JInt n \<Rightarrow> Some (Inl n) | JStr s \<Rightarrow> Some (Inr s) | _ \<Rightarrow> None)\<rparr>"

section \<open>Lemmas\<close>

lemma percent_Some: "percent x = Some v \<Longrightarrow> 0 \<le> v \<and> v \<le> 100"
  by (auto simp: percent_def split: option.splits if_splits)

lemma percent_opt_wf: "percent_opt pd d k = Some x \<Longrightarrow> opt_percent x"
  by (auto simp: percent_opt_def opt_percent_def dest: percent_Some split: if_splits option.splits)

lemma percent_field_wf:
  "percent_field pd d k b = Some v \<Longrightarrow> 0 \<le> b \<and> b \<le> 100 \<Longrightarrow> opt_percent (Some v)"
  by (auto simp: percent_field_def opt_percent_def dest: percent_Some split: option.splits)

lemma validate_step_wf: "validate_step pd v = Some s \<Longrightarrow> step_wf s"
  by (auto simp: validate_step_def step_wf_def dest!: percent_opt_wf
      split: json.splits if_splits option.splits)

lemma map_opt_list_wf:
  "map_opt_list f xs = Some ys \<Longrightarrow> (\<And>x y. f x = Some y \<Longrightarrow> P y) \<Longrightarrow> list_all P ys"
  by (induction xs arbitrary: ys) (auto split: option.splits)

lemma validate_schedule_wf: "validate_schedule pd d = Some ss \<Longrightarrow> list_all step_wf ss"
  by (auto simp: validate_schedule_def split: option.splits json.splits
      elim: map_opt_list_wf intro: validate_step_wf)

lemma validate_ran_policy_wf: "validate_ran_policy pd raw = Some p \<Longrightarrow> policy_wf p"
  by (auto simp: validate_ran_policy_def policy_wf_def Let_def intro: validate_schedule_wf percent_field_wf
      split: json.splits if_splits option.splits)

lemma validate_ue_natural: "validate_ue pd d = Some (Inl n) \<Longrightarrow> 0 \<le> n"
  by (auto simp: validate_ue_def split: option.splits sum.splits if_splits)

lemma validate_ran_policy_ue:
  "validate_ran_policy pd raw = Some p \<Longrightarrow> rp_ue p = Inl n \<Longrightarrow> 0 \<le> n"
  by (auto simp: validate_ran_policy_def Let_def dest: validate_ue_natural
      split: json.splits if_splits option.splits)

lemma dump_step_lookups:
  assumes "dump_step s = JObj d"
  shows "pget_or d ''t_s'' v = JFloat (fst (ps_t s)) (snd (ps_t s))"
    and "map_of d ''min_prb_ratio'' = map_option JInt (ps_min s)"
    and "map_of d ''max_prb_ratio'' = map_option JInt (ps_max s)"
    and "map_of d ''dedicated_prb_ratio'' = map_option JInt (ps_ded s)"
  using assms by (auto simp: dump_step_def opt_entry_def pget_or_def split: option.splits)

lemma ratio_field_int:
  "map_of d k = map_option JInt x \<Longrightarrow> opt_percent x \<Longrightarrow>
     ratio_field d k b = Inr (case x of None \<Rightarrow> b | Some v \<Rightarrow> v)"
  by (auto simp: ratio_field_def opt_percent_def split: option.splits)

lemma parse_dumped_steps:
  "consistent_steps prev (q_min q) (q_max q) ss \<Longrightarrow> list_all step_wf ss \<Longrightarrow>
     parse_steps ft prev q (map dump_step ss) = Inr (effective_steps q ss)"
proof (induction ss arbitrary: prev q)
  case Nil
  then show ?case by simp
next
  case (Cons s ss)
  obtain d where d: "dump_step s = JObj d"
    by (simp add: dump_step_def)
  let ?q = "\<lparr>q_min = (case ps_min s of Some v \<Rightarrow> v | None \<Rightarrow> q_min q),
             q_max = (case ps_max s of Some v \<Rightarrow> v | None \<Rightarrow> q_max q),
             q_ded = (case ps_ded s of Some v \<Rightarrow> v | None \<Rightarrow> q_ded q)\<rparr>"
  have wf: "opt_percent (ps_min s)" "opt_percent (ps_max s)" "opt_percent (ps_ded s)"
    using Cons.prems(2) by (simp_all add: step_wf_def)
  have t: "prev < fst (ps_t s)" and ok: "q_min ?q \<le> q_max ?q"
    and rest: "consistent_steps (fst (ps_t s)) (q_min ?q) (q_max ?q) ss"
    using Cons.prems(1) by (auto simp: Let_def split: if_splits)
  have "ratios d q = Inr ?q"
    using ok by (simp add: ratios_def ratio_field_int [OF dump_step_lookups(2) [OF d] wf(1)]
        ratio_field_int [OF dump_step_lookups(3) [OF d] wf(2)]
        ratio_field_int [OF dump_step_lookups(4) [OF d] wf(3)])
  moreover have "parse_steps ft (fst (ps_t s)) ?q (map dump_step ss) = Inr (effective_steps ?q ss)"
    using Cons.IH [OF rest] Cons.prems(2) by simp
  ultimately show ?case
    using t by (simp add: d dump_step_lookups(1) [OF d] py_float_def Let_def)
qed

lemma dump_policy_lookups:
  "pget_or (dump_policy p) ''type'' v = JStr ''prb_quota''"
  "pget_or (dump_policy p) ''ue'' v = ue_json (rp_ue p)"
  "map_of (dump_policy p) ''min_prb_ratio'' = map_option JInt (Some (rp_min p))"
  "map_of (dump_policy p) ''max_prb_ratio'' = map_option JInt (Some (rp_max p))"
  "map_of (dump_policy p) ''dedicated_prb_ratio'' = map_option JInt (Some (rp_ded p))"
  "pget (dump_policy p) ''schedule'' = JArr (map dump_step (rp_schedule p))"
  by (simp_all add: dump_policy_def pget_or_def pget_def opt_entry_def split: option.splits)

lemma parse_dumped_policy:
  assumes "policy_wf p" and "rp_ue p = Inl n"
  shows "parse_policy ft (JObj (dump_policy p)) = Inr (effective_policy n p)"
proof -
  let ?q = "\<lparr>q_min = rp_min p, q_max = rp_max p, q_ded = rp_ded p\<rparr>"
  have wf: "opt_percent (Some (rp_min p))" "opt_percent (Some (rp_max p))" "opt_percent (Some (rp_ded p))"
    and s: "list_all step_wf (rp_schedule p)" and c: "policy_consistent p"
    using assms(1) by (simp_all add: policy_wf_def)
  have "ratios (dump_policy p) default_quota = Inr ?q"
    using c by (simp add: ratios_def policy_consistent_def
        ratio_field_int [OF dump_policy_lookups(3) wf(1)] ratio_field_int [OF dump_policy_lookups(4) wf(2)]
        ratio_field_int [OF dump_policy_lookups(5) wf(3)])
  moreover have "parse_steps ft (- 1) ?q (map dump_step (rp_schedule p))
      = Inr (effective_steps ?q (rp_schedule p))"
    using c s by (intro parse_dumped_steps) (simp_all add: policy_consistent_def)
  moreover have "py_or (JArr (map dump_step (rp_schedule p))) (JArr []) = JArr (map dump_step (rp_schedule p))"
    by (simp add: py_or_def)
  ultimately show ?thesis
    using assms(2)
    by (simp add: parse_policy_def dump_policy_lookups policy_ue_def ue_json_def effective_policy_def Let_def)
qed

text \<open>What the xApp's parser guarantees of any policy it accepts.\<close>

lemma ratio_field_bounds:
  "ratio_field d k b = Inr n \<Longrightarrow> 0 \<le> b \<and> b \<le> 100 \<Longrightarrow> 0 \<le> n \<and> n \<le> 100"
  by (auto simp: ratio_field_def split: option.splits if_splits)

lemma ratios_wf:
  assumes "ratios d b = Inr q" and "quota_wf b"
  shows "quota_wf q"
proof -
  from assms(1) obtain lo hi ded where
    "ratio_field d ''min_prb_ratio'' (q_min b) = Inr lo"
    "ratio_field d ''max_prb_ratio'' (q_max b) = Inr hi"
    "ratio_field d ''dedicated_prb_ratio'' (q_ded b) = Inr ded"
    and "lo \<le> hi" "q = \<lparr>q_min = lo, q_max = hi, q_ded = ded\<rparr>"
    by (auto simp: ratios_def elim!: sum_bind_InrE split: if_splits)
  with assms(2) show ?thesis
    by (auto simp: quota_wf_def dest!: ratio_field_bounds)
qed

lemma parse_steps_wf:
  "parse_steps ft prev q ss = Inr out \<Longrightarrow> quota_wf q \<Longrightarrow>
     sorted_wrt (<) (prev # map fst out) \<and> list_all (\<lambda>(t, q). quota_wf q) out"
proof (induction ss arbitrary: prev q out)
  case Nil
  then show ?case by simp
next
  case (Cons s ss)
  from Cons.prems(1) obtain d t q' rest where "prev < t" and q': "ratios d q = Inr q'"
    and rest: "parse_steps ft t q' ss = Inr rest" and "out = (t, q') # rest"
    by (auto split: json.splits option.splits if_splits elim!: sum_bind_InrE)
  with Cons.IH [OF rest ratios_wf [OF q' Cons.prems(2)]] ratios_wf [OF q' Cons.prems(2)] show ?case
    by auto
qed

section \<open>Properties\<close>

text \<open>C17. A policy the admin lets through is never refused by the xApp: whatever a request sent, if the
  admin's check accepts it for an E2 UE id, the xApp parses the dictionary the admin sends on into the
  same quota and the same schedule of effective quotas.\<close>

theorem admin_accepted_xapp_accepts:
  assumes "validate_ran_policy pd raw = Some p" and "rp_ue p = Inl n"
  shows "parse_policy ft (JObj (dump_policy p)) = Inr (effective_policy n p)"
  using assms by (intro parse_dumped_policy validate_ran_policy_wf)

theorem admin_accepted_xapp_accepts_witness:
  "\<exists>p. validate_ran_policy strict_pydantic
        (JObj [(''ue'', JStr ''e2:3''), (''max_prb_ratio'', JInt 30),
               (''schedule'', JArr [JObj [(''t_s'', JInt 30), (''max_prb_ratio'', JInt 100)]])]) = Some p
     \<and> parse_policy (\<lambda>_. None) (JObj (dump_policy p)) = Inr (effective_policy 3 p)"
proof -
  let ?raw = "JObj [(''ue'', JStr ''e2:3''), (''max_prb_ratio'', JInt 30),
               (''schedule'', JArr [JObj [(''t_s'', JInt 30), (''max_prb_ratio'', JInt 100)]])]"
  have "case validate_ran_policy strict_pydantic ?raw of None \<Rightarrow> False | Some p \<Rightarrow> rp_ue p = Inl 3"
    by code_simp
  then obtain p where "validate_ran_policy strict_pydantic ?raw = Some p" "rp_ue p = Inl 3"
    by (auto split: option.splits)
  then show ?thesis
    using admin_accepted_xapp_accepts by blast
qed

text \<open>What the xApp applies is always a quota the cell can have, at times that only increase: the
  first quota and every step's are percentages with the minimum at most the maximum.\<close>

theorem parsed_policy_sound:
  assumes "parse_policy ft raw = Inr p"
  shows "quota_wf (xp_first p) \<and> list_all (\<lambda>(t, q). quota_wf q) (xp_schedule p)
         \<and> sorted_wrt (<) (map fst (xp_schedule p))"
proof -
  have dflt: "quota_wf default_quota"
    by (simp add: quota_wf_def default_quota_def)
  from assms obtain d steps where first: "ratios d default_quota = Inr (xp_first p)"
    and steps: "parse_steps ft (- 1) (xp_first p) steps = Inr (xp_schedule p)"
    by (auto simp: parse_policy_def split: json.splits if_splits option.splits elim!: sum_bind_InrE)
  show ?thesis
    using ratios_wf [OF first dflt] parse_steps_wf [OF steps ratios_wf [OF first dflt]] by simp
qed

theorem parsed_policy_sound_witness:
  "\<exists>p. parse_policy (\<lambda>_. None) (JObj [(''ue'', JInt 1), (''max_prb_ratio'', JInt 30)]) = Inr p
     \<and> quota_wf (xp_first p)"
proof -
  have "case parse_policy (\<lambda>_. None) (JObj [(''ue'', JInt 1), (''max_prb_ratio'', JInt 30)]) of
          Inl _ \<Rightarrow> False | Inr p \<Rightarrow> True"
    by code_simp
  then obtain p where p: "parse_policy (\<lambda>_. None) (JObj [(''ue'', JInt 1), (''max_prb_ratio'', JInt 30)]) = Inr p"
    by (auto split: sum.splits)
  show ?thesis
    using parsed_policy_sound [OF p] p by blast
qed

text \<open>The two checks do not agree the other way: the xApp accepts a negative UE id and a step half a
  second before the policy starts, each of which the admin refuses, whatever pydantic makes of a field
  as long as it leaves integers and floats alone.\<close>

theorem xapp_accepts_more:
  assumes "\<And>n. pd_ue pd (JInt n) = Some (Inl n)" and "\<And>r t. pd_float pd (JFloat r t) = Some (r, t)"
  shows "validate_ran_policy pd (JObj [(''ue'', JInt (- 1))]) = None
    \<and> validate_ran_policy pd (JObj [(''schedule'', JArr [JObj [(''t_s'', JFloat (- 1 / 2) ''-0.5'')]])]) = None
    \<and> (\<exists>p. parse_policy ft (JObj [(''ue'', JInt (- 1))]) = Inr p \<and> xp_ue p < 0)
    \<and> (\<exists>p. parse_policy ft (JObj [(''schedule'', JArr [JObj [(''t_s'', JFloat (- 1 / 2) ''-0.5'')]])]) = Inr p)"
  using assms
  by (simp add: validate_ran_policy_def keys_def policy_keys_def validate_ue_def e2_prefix_def
      validate_schedule_def validate_step_def step_keys_def parse_policy_def pget_or_def pget_def policy_ue_def
      ratios_def ratio_field_def default_quota_def py_or_def py_float_def percent_opt_def percent_field_def)

theorem xapp_accepts_more_witness:
  "validate_ran_policy strict_pydantic (JObj [(''ue'', JInt (- 1))]) = None"
  using xapp_accepts_more [of strict_pydantic "\<lambda>_. None"] by (simp add: strict_pydantic_def)

end
