(* ===== verification/Orchestrator.thy ===== *)
theory Orchestrator
  imports Workflow Ran_Policy
begin

text \<open>
  The orchestrator (services/admin/src/mec_cast_admin/orchestrator.py): the table of runs, the
  sockets of the nodes, the commands, the inbound frames and the supervise pass. The state is the
  object's attributes; an operation takes a state and returns one, with an error or a result beside
  it where the code raises, since an exception leaves the mutations made before it in place.

  A run is mutated in place in the code; here \<open>put_run\<close> writes it back under its id. \<open>config\<close>
  holds what is fixed for the process, \<open>env\<close> what one operation reads of the world: the
  monotonic and the wall clock, the free disk space, whether a socket accepts a frame. Each
  operation is atomic and reads one clock value; the event log and the page's sockets are output
  only and are added in \<open>Admin_Page\<close>.
\<close>

section \<open>State\<close>

record config =
  cf_keepalive :: rat
  cf_offline_timeout :: rat
  cf_start_timeout :: rat
  cf_stop_timeout :: rat
  cf_max_duration :: rat
  cf_min_free_start :: rat
  cf_min_free_abort :: rat
  cf_clock_warn :: int
  cf_sha :: string
  cf_host :: string
  cf_topology :: topology_spec
  cf_float :: "json \<Rightarrow> (rat \<times> string) option"

record env =
  en_mono :: rat
  en_utc :: string
  en_elapsed :: "string \<Rightarrow> rat option"
  en_free :: "rat option"
  en_ms :: nat
  en_random :: "byte list"
  en_socket_ok :: "nat \<Rightarrow> bool"

datatype frame = Command_Frame command_payload | Ping_Frame | Welcome_Frame welcome_payload

record admin =
  ad_runs :: "(string \<times> run) list"
  ad_registry :: registry
  ad_sockets :: "(string \<times> nat) list"
  ad_starting :: "(string \<times> rat) list"
  ad_stopping :: "(string \<times> rat) list"
  ad_late_stops :: "(string \<times> string) list"
  ad_findings :: "finding list"
  ad_disk :: disk
  ad_outbox :: "(string \<times> frame) list"
  ad_uuid :: uuid_state

text \<open>\<open>OrchestratorError\<close> with its reason, and the other exceptions that can escape.\<close>

datatype orch_error =
    No_Run string
  | Slot_Taken string
  | Not_Allowed transition_error
  | Low_Disk
  | Unknown_Zone string
  | Unknown_Profile string
  | Ue_Undeclared string
  | Ue_Not_Client string
  | Ue_Other_Zone string
  | Ue_No_Hint string
  | Run_Not_Active string
  | No_Xapp string
  | Escaped_Transition transition_error
  | Value_Error

section \<open>The table of runs\<close>

definition get_run_any :: "admin \<Rightarrow> string \<Rightarrow> run option" where
  "get_run_any s rid = map_of (ad_runs s) rid"

definition put_run :: "run \<Rightarrow> admin \<Rightarrow> admin" where
  "put_run r s = s\<lparr>ad_runs := dput (r_id r) r (ad_runs s)\<rparr>"

definition active_runs :: "admin \<Rightarrow> run list" where
  "active_runs s = filter (\<lambda>r. occupies_slot (r_state r)) (vals (ad_runs s))"

definition active_run_in :: "admin \<Rightarrow> string \<Rightarrow> run option" where
  "active_run_in s zone = find (\<lambda>r. occupies_slot (r_state r) \<and> r_zone r = zone) (vals (ad_runs s))"

definition active_run :: "admin \<Rightarrow> run option" where
  "active_run s = (case active_runs s of [] \<Rightarrow> None | r # _ \<Rightarrow> Some r)"

text \<open>\<open>sorted(.., reverse=True)\<close> keeps the order of equal keys, as the reverse of a stable sort
  of the reverse does.\<close>

definition all_runs :: "admin \<Rightarrow> run list" where
  "all_runs s = rev (sort_key (\<lambda>r. (r_created r, r_id r)) (rev (vals (ad_runs s))))"

definition visible_runs :: "admin \<Rightarrow> run list" where
  "visible_runs s = filter (\<lambda>r. \<not> r_removed r) (all_runs s)"

definition get_run :: "string \<Rightarrow> admin \<Rightarrow> orch_error + run" where
  "get_run rid s =
     (case get_run_any s rid of
        None \<Rightarrow> Inl (No_Run rid)
      | Some r \<Rightarrow> if r_removed r then Inl (No_Run rid) else Inr r)"

definition recording_seconds :: "env \<Rightarrow> run \<Rightarrow> rat option" where
  "recording_seconds e r =
     (case r_started r of None \<Rightarrow> None | Some t \<Rightarrow> if t = [] then None else en_elapsed e t)"

definition save_run :: "config \<Rightarrow> run \<Rightarrow> admin \<Rightarrow> admin" where
  "save_run c r s = s\<lparr>ad_disk := store_save (cf_host c) r (ad_disk s)\<rparr>"

definition journal :: "env \<Rightarrow> string \<Rightarrow> string \<Rightarrow> pdict \<Rightarrow> admin \<Rightarrow> admin" where
  "journal e rid event detail s = s\<lparr>ad_disk := store_journal (en_utc e) rid event detail (ad_disk s)\<rparr>"

definition persist :: "config \<Rightarrow> env \<Rightarrow> run \<Rightarrow> string \<Rightarrow> pdict \<Rightarrow> admin \<Rightarrow> admin" where
  "persist c e r event detail s = journal e (r_id r) event detail (save_run c r s)"

text \<open>\<open>start\<close>: load the table and fail what was mid-flight.\<close>

definition fail_interrupted :: "config \<Rightarrow> run \<Rightarrow> admin \<Rightarrow> admin" where
  "fail_interrupted c r s =
     (if occupies_slot (r_state r)
      then (let r' = r\<lparr>r_state := Failed\<rparr> in save_run c r' (put_run r' s))
      else s)"

definition new_admin :: "config \<Rightarrow> disk \<Rightarrow> uuid_state \<Rightarrow> admin" where
  "new_admin c d u =
     \<lparr>ad_runs = [], ad_registry = new_registry (cf_offline_timeout c), ad_sockets = [],
      ad_starting = [], ad_stopping = [], ad_late_stops = [], ad_findings = [], ad_disk = d,
      ad_outbox = [], ad_uuid = u\<rparr>"

definition orch_start :: "config \<Rightarrow> env \<Rightarrow> admin \<Rightarrow> (manifest_error + unit) \<times> admin" where
  "orch_start c e s =
     (case store_load (en_utc e) (ad_disk s) of
        Inl err \<Rightarrow> (Inl err, s)
      | Inr runs \<Rightarrow> (Inr (), fold (fail_interrupted c) (vals runs) (s\<lparr>ad_runs := runs\<rparr>)))"

section \<open>Sending\<close>

definition send :: "env \<Rightarrow> string \<Rightarrow> frame \<Rightarrow> admin \<Rightarrow> bool \<times> admin" where
  "send e nid f s =
     (case map_of (ad_sockets s) nid of
        None \<Rightarrow> (False, s)
      | Some sock \<Rightarrow>
          if en_socket_ok e sock then (True, s\<lparr>ad_outbox := ad_outbox s @ [(nid, f)]\<rparr>) else (False, s))"

definition command_targets ::
  "env \<Rightarrow> run option \<Rightarrow> bool \<Rightarrow> node_type option \<Rightarrow> admin \<Rightarrow> string list" where
  "command_targets e run by_membership t s =
     (let on = online (en_mono e) t (ad_registry s);
          on = (case t of None \<Rightarrow> on | Some t' \<Rightarrow> filter (\<lambda>r. nr_type r = t') on)
      in case run of
           None \<Rightarrow> map nr_id on
         | Some x \<Rightarrow>
             (let in_zone = filter (\<lambda>r. zone_of r = r_zone x
                                \<and> serves (node_type_str (nr_type r)) (profile_of (r_params x))) on
              in if \<not> by_membership then map nr_id in_zone
                 else map nr_id (filter (\<lambda>r. nr_run_id r = Some (r_id x) \<or> nr_run_id r \<in> {None, Some []})
                                   in_zone)))"

fun send_all :: "env \<Rightarrow> frame \<Rightarrow> string list \<Rightarrow> admin \<Rightarrow> nat \<times> admin" where
  "send_all e f [] s = (0, s)"
| "send_all e f (nid # ns) s =
     (case send e nid f s of
        (ok, s') \<Rightarrow> (case send_all e f ns s' of (n, s'') \<Rightarrow> ((if ok then Suc n else n), s'')))"

definition broadcast_command ::
  "env \<Rightarrow> command_type \<Rightarrow> string option \<Rightarrow> node_type option \<Rightarrow> pdict \<Rightarrow> run option \<Rightarrow> bool \<Rightarrow>
   admin \<Rightarrow> nat \<times> admin" where
  "broadcast_command e cmd rid t args run by_membership s =
     send_all e
       (Command_Frame \<lparr>cp_command = cmd, cp_target = t, cp_run_id = rid, cp_args = args\<rparr>)
       (command_targets e run by_membership t s) s"

section \<open>Operator actions\<close>

definition resolve_ran_policy :: "config \<Rightarrow> pdict \<Rightarrow> string \<Rightarrow> orch_error + pdict" where
  "resolve_ran_policy c policy zone =
     (case pget_or policy ''ue'' (JInt 0) of
        JStr ue \<Rightarrow>
          (case topo_find (cf_topology c) ue of
             None \<Rightarrow> Inl (Ue_Undeclared ue)
           | Some n \<Rightarrow>
               (if ns_role n \<noteq> Client then Inl (Ue_Not_Client ue)
                else if ns_zone n \<noteq> str_or zone default_zone then Inl (Ue_Other_Zone ue)
                else
                  (case map_of (case ns_ue n of None \<Rightarrow> [] | Some u \<Rightarrow> u) ''e2_ue_id'' of
                     None \<Rightarrow> Inl (Ue_No_Hint ue)
                   | Some e2 \<Rightarrow> Inr (dmerge policy [(''ue'', JInt e2), (''ue_node'', JStr ue)]))))
      | _ \<Rightarrow> Inr policy)"

definition resolve_params :: "config \<Rightarrow> pdict \<Rightarrow> string \<Rightarrow> orch_error + pdict" where
  "resolve_params c params zone =
     (if \<not> truthy (pget params ''ran_policy'') then Inr params
      else
        (case pget params ''ran_policy'' of
           JObj policy \<Rightarrow>
             sum_bind (resolve_ran_policy c policy zone)
               (\<lambda>p. Inr (dput ''ran_policy'' (JObj p) params))
         | _ \<Rightarrow> Inl Value_Error))"

definition next_seq :: "admin \<Rightarrow> int" where
  "next_seq s = (case map r_seq (vals (ad_runs s)) of [] \<Rightarrow> 0 | n # ns \<Rightarrow> fold max ns n) + 1"

definition create_run ::
  "config \<Rightarrow> env \<Rightarrow> string \<Rightarrow> pdict \<Rightarrow> string \<Rightarrow> admin \<Rightarrow> (orch_error + run) \<times> admin" where
  "create_run c e label params zone s =
     (if declared (cf_topology c) \<and> zone \<notin> set (topo_zones (cf_topology c))
      then (Inl (Unknown_Zone zone), s)
      else if profile_of params \<notin> set profiles then (Inl (Unknown_Profile (profile_of params)), s)
      else
        (case resolve_params c params zone of
           Inl err \<Rightarrow> (Inl err, s)
         | Inr params' \<Rightarrow>
             (case uuid7 (en_ms e) (en_random e) (ad_uuid s) of
                (None, u) \<Rightarrow> (Inl Value_Error, s\<lparr>ad_uuid := u\<rparr>)
              | (Some rid, u) \<Rightarrow>
                  (let r = \<lparr>r_id = rid, r_seq = next_seq s, r_label = label, r_state = Draft,
                            r_source = ''admin'', r_zone = str_or zone default_zone,
                            r_created = en_utc e, r_started = None, r_stopped = None,
                            r_params = params', r_participants = [], r_sites = [], r_reports = [],
                            r_findings = [], r_removed = False, r_ue_map = []\<rparr>
                   in (Inr r, persist c e r ''created'' [(''to'', JStr (run_state_str Draft))]
                                (put_run r (s\<lparr>ad_uuid := u\<rparr>)))))))"

definition headroom_ok :: "config \<Rightarrow> env \<Rightarrow> bool" where
  "headroom_ok c e \<longleftrightarrow>
     cf_min_free_start c = 0
     \<or> (case en_free e of None \<Rightarrow> True | Some free \<Rightarrow> \<not> free < cf_min_free_start c)"

definition frozen_ue_map :: "config \<Rightarrow> run \<Rightarrow> (string \<times> (string \<times> int) list) list" where
  "frozen_ue_map c r =
     dmerge [] (concat (map (\<lambda>n.
       if ns_role n = Client then
         (case ns_ue n of None \<Rightarrow> [] | Some u \<Rightarrow> if u = [] then [] else [(ns_node_id n, u)])
       else []) (nodes_in (cf_topology c) (r_zone r))))"

definition slot_free :: "string \<Rightarrow> run \<Rightarrow> admin \<Rightarrow> bool" where
  "slot_free rid r s =
     (case active_run_in s (r_zone r) of None \<Rightarrow> True | Some b \<Rightarrow> r_id b = rid)"

definition act_start :: "config \<Rightarrow> env \<Rightarrow> run \<Rightarrow> admin \<Rightarrow> (orch_error + run) \<times> admin" where
  "act_start c e r s =
     (let r1 = r\<lparr>r_started := Some (en_utc e), r_ue_map := frozen_ue_map c r\<rparr>; s1 = put_run r1 s
      in if \<not> headroom_ok c e then (Inl Low_Disk, s1)
         else
           (let r2 = r1\<lparr>r_participants := []\<rparr>;
                s2 = (put_run r2 s1)\<lparr>ad_starting := dput (r_id r) (en_mono e) (ad_starting s1)\<rparr>
            in (Inr r2, snd (broadcast_command e Run_Start (Some (r_id r)) None (r_params r) (Some r2)
                               False s2))))"

definition act_stop :: "env \<Rightarrow> run \<Rightarrow> admin \<Rightarrow> (orch_error + run) \<times> admin" where
  "act_stop e r s =
     (let s1 = s\<lparr>ad_stopping := dsetdefault (r_id r) (en_mono e) (ad_stopping s)\<rparr>
      in (Inr r, snd (broadcast_command e Run_Stop (Some (r_id r)) None [] (Some r) True s1)))"

definition act_remove :: "run \<Rightarrow> admin \<Rightarrow> (orch_error + run) \<times> admin" where
  "act_remove r s = (let r1 = r\<lparr>r_removed := True\<rparr> in (Inr r1, put_run r1 s))"

definition act :: "config \<Rightarrow> env \<Rightarrow> string \<Rightarrow> run_action \<Rightarrow> admin \<Rightarrow> (orch_error + run) \<times> admin" where
  "act c e rid a s =
     (case get_run rid s of
        Inl err \<Rightarrow> (Inl err, s)
      | Inr r \<Rightarrow>
          (if a = Act_Start \<and> \<not> slot_free rid r s then (Inl (Slot_Taken rid), s)
           else
             (case advance (r_state r) (event_of_action a) of
                Inl te \<Rightarrow> (Inl (Not_Allowed te), s)
              | Inr st \<Rightarrow>
                  (let r1 = r\<lparr>r_state := st\<rparr>; s1 = put_run r1 s
                   in case (case a of
                              Act_Start \<Rightarrow> act_start c e r1 s1
                            | Act_Stop \<Rightarrow> act_stop e r1 s1
                            | Act_Remove \<Rightarrow> act_remove r1 s1) of
                        (Inl err, s2) \<Rightarrow> (Inl err, s2)
                      | (Inr r2, s2) \<Rightarrow>
                          (Inr r2, persist c e r2 (run_action_str a)
                                     [(''to'', JStr (run_state_str st))] s2)))))"

definition set_ran_policy ::
  "config \<Rightarrow> env \<Rightarrow> string \<Rightarrow> pdict \<Rightarrow> admin \<Rightarrow> (orch_error + nat) \<times> admin" where
  "set_ran_policy c e rid policy s =
     (case get_run rid s of
        Inl err \<Rightarrow> (Inl err, s)
      | Inr r \<Rightarrow>
          (if r_state r \<notin> {Starting, Running, Degraded} then (Inl (Run_Not_Active rid), s)
           else
             (case resolve_ran_policy c policy (r_zone r) of
                Inl err \<Rightarrow> (Inl err, s)
              | Inr p \<Rightarrow>
                  (case broadcast_command e Ran_Policy (Some (r_id r)) (Some Xapp)
                          [(''ran_policy'', JObj p)] (Some r) True s of
                     (sent, s1) \<Rightarrow>
                       (if sent = 0 then (Inl (No_Xapp rid), s1)
                        else
                          (let r1 = r\<lparr>r_params := dput ''ran_policy'' (JObj p) (r_params r)\<rparr>
                           in (Inr sent,
                               persist c e r1 ''ran-policy''
                                 [(''ran_policy'', JObj p), (''sent'', JInt (int sent))]
                                 (put_run r1 s1))))))))"

section \<open>Node connections and inbound frames\<close>

definition attach_node :: "string \<Rightarrow> nat \<Rightarrow> admin \<Rightarrow> admin" where
  "attach_node nid sock s = s\<lparr>ad_sockets := dput nid sock (ad_sockets s)\<rparr>"

definition detach_node :: "string \<Rightarrow> nat \<Rightarrow> admin \<Rightarrow> admin" where
  "detach_node nid sock s =
     s\<lparr>ad_sockets := (if map_of (ad_sockets s) nid = Some sock then dpop nid (ad_sockets s) else ad_sockets s),
       ad_registry := on_disconnect nid (ad_registry s)\<rparr>"

definition participant_entry :: "node_record \<Rightarrow> pdict" where
  "participant_entry r =
     [(''role'', JStr (node_type_str (nr_type r))), (''host'', JStr (nr_host r)),
      (''version_sha'', JStr (nr_version_sha r))]"

definition address_update :: "string option \<Rightarrow> node_record \<Rightarrow> node_record" where
  "address_update peer r =
     (case peer of None \<Rightarrow> r | Some h \<Rightarrow> if h = [] then r else r\<lparr>nr_address := h\<rparr>)"

definition on_hello ::
  "config \<Rightarrow> env \<Rightarrow> hello_payload \<Rightarrow> nat \<Rightarrow> string option \<Rightarrow> admin \<Rightarrow> welcome_payload \<times> admin" where
  "on_hello c e h sock peer s =
     (let nid = hp_node_id h;
          R = update_node nid (address_update peer) (reg_on_hello (en_mono e) h (ad_registry s));
          s1 = attach_node nid sock (s\<lparr>ad_registry := R\<rparr>);
          welcome = (\<lambda>active. \<lparr>wp_keepalive = cf_keepalive c, wp_offline_timeout = cf_offline_timeout c,
                               wp_active_run = active\<rparr>)
      in case get_node R nid of
           None \<Rightarrow> (welcome None, s1)
         | Some record \<Rightarrow>
             (case active_run_in s1 (zone_of record) of
                None \<Rightarrow> (welcome None, s1)
              | Some run \<Rightarrow>
                  (if r_state run \<in> accepts_participants
                      \<and> serves (node_type_str (nr_type record)) (profile_of (r_params run))
                   then
                     (welcome (Some \<lparr>ar_run_id = r_id run, ar_label = r_label run, ar_params = r_params run\<rparr>),
                      (if nr_autostart record \<or> nr_type record = Edge
                       then put_run (run\<lparr>r_participants :=
                              dsetdefault nid (participant_entry record) (r_participants run)\<rparr>) s1
                       else s1))
                   else (welcome None, s1))))"

text \<open>What a status adds to the participant's entry. \<open>cf_float\<close> is Python's \<open>float(v)\<close> with the
  text of the result; where it raises, the entry keeps what was written before it.\<close>

definition in_entry :: "string \<Rightarrow> pdict \<Rightarrow> bool" where
  "in_entry k entry \<longleftrightarrow> k \<in> set (keys entry)"

definition entry_middleware :: "node_record \<Rightarrow> pdict \<Rightarrow> pdict" where
  "entry_middleware r entry =
     (let params = nr_params r
      in if nr_type r \<in> middleware_node_types \<and> truthy (pget params ''middleware'')
            \<and> \<not> in_entry ''middleware'' entry
         then
           (let entry1 = dput ''middleware'' (JStr (py_str (pget params ''middleware''))) entry
            in if truthy (pget params ''transport'')
               then dput ''transport'' (JStr (py_str (pget params ''transport''))) entry1 else entry1)
         else entry)"

definition entry_codec :: "config \<Rightarrow> node_record \<Rightarrow> pdict \<Rightarrow> bool \<times> pdict" where
  "entry_codec c r entry =
     (let params = nr_params r
      in if nr_type r \<in> middleware_node_types \<and> nr_state r = Node_Running
            \<and> truthy (pget params ''codec'') \<and> \<not> in_entry ''codec'' entry
         then
           (let entry1 = dput ''codec'' (JStr (py_str (pget params ''codec''))) entry;
                precision = pget params ''codec_precision_m''
            in if pget params ''codec'' \<noteq> JStr ''none'' \<and> precision \<noteq> JNull
               then (case cf_float c precision of
                       None \<Rightarrow> (False, entry1)
                     | Some (x, t) \<Rightarrow> (True, dput ''codec_precision_m'' (JFloat x t) entry1))
               else (True, entry1))
         else (True, entry))"

definition entry_media :: "node_record \<Rightarrow> pdict \<Rightarrow> pdict" where
  "entry_media r entry =
     (if nr_type r \<in> media_node_types \<and> nr_state r = Node_Running
      then fold (\<lambda>k en. if pget (nr_params r) k \<noteq> JNull \<and> \<not> in_entry k en
                         then dput k (pget (nr_params r) k) en else en) media_params entry
      else entry)"

fun default_leaf :: "node_type \<Rightarrow> string" where
  "default_leaf Client = ''pub''"
| "default_leaf Edge = ''edge''"
| "default_leaf Gnb = ''ran''"
| "default_leaf Render = ''render''"
| "default_leaf Xapp = ''ran-kpm''"
| "default_leaf Relay = ''relay''"
| "default_leaf Sender = ''sender''"
| "default_leaf Receiver = ''receiver''"

definition site_entry :: "run \<Rightarrow> node_record \<Rightarrow> pdict" where
  "site_entry run r =
     [(''role'', JStr (node_type_str (nr_type r))), (''host'', JStr (nr_host r)),
      (''path'', JStr (''runs/'' @ r_id run @ ''/''
         @ py_str (py_or (pget (nr_params r) ''out_leaf'') (JStr (default_leaf (nr_type r))))))]"

text \<open>The branch of a node recording the run: its entry, then its site.\<close>

definition note_participant ::
  "config \<Rightarrow> string \<Rightarrow> node_record \<Rightarrow> run \<Rightarrow> (orch_error + unit) \<times> run" where
  "note_participant c nid r run =
     (let entry = (case map_of (r_participants run) nid of None \<Rightarrow> participant_entry r | Some en \<Rightarrow> en)
      in case entry_codec c r (entry_middleware r entry) of
           (False, en) \<Rightarrow> (Inl Value_Error, run\<lparr>r_participants := dput nid en (r_participants run)\<rparr>)
         | (True, en) \<Rightarrow>
             (let run1 = run\<lparr>r_participants := dput nid (entry_media r en) (r_participants run)\<rparr>
              in (Inr (), if nr_state r = Node_Running
                          then run1\<lparr>r_sites := dput nid (site_entry run r) (r_sites run1)\<rparr>
                          else run1)))"

definition id_or_empty :: "string option \<Rightarrow> string" where
  "id_or_empty i = (case i of None \<Rightarrow> [] | Some x \<Rightarrow> x)"

text \<open>The report a status carries, filed under the run it names or the first active one.\<close>

definition file_report :: "config \<Rightarrow> string \<Rightarrow> status_payload \<Rightarrow> admin \<Rightarrow> admin" where
  "file_report c nid st s =
     (if sp_report st = [] then s
      else
        (case (case get_run_any s (id_or_empty (sp_run_id st)) of
                 Some r \<Rightarrow> Some r | None \<Rightarrow> active_run s) of
           None \<Rightarrow> s
         | Some r \<Rightarrow>
             (let r1 = r\<lparr>r_reports := dput nid (sp_report st) (r_reports r)\<rparr>
              in save_run c r1 (put_run r1 s))))"

definition late_stop :: "config \<Rightarrow> env \<Rightarrow> string \<Rightarrow> run \<Rightarrow> admin \<Rightarrow> admin" where
  "late_stop c e nid run s =
     (if (nid, r_id run) \<in> set (ad_late_stops s) then s
      else
        (case send e nid (Command_Frame \<lparr>cp_command = Run_Stop, cp_target = None,
                                          cp_run_id = Some (r_id run), cp_args = []\<rparr>) s of
           (False, s1) \<Rightarrow> s1
         | (True, s1) \<Rightarrow>
             journal e (r_id run) ''late-stop'' [(''node_id'', JStr nid)]
               (s1\<lparr>ad_late_stops := (nid, r_id run) # ad_late_stops s1\<rparr>)))"

definition on_status ::
  "config \<Rightarrow> env \<Rightarrow> string \<Rightarrow> status_payload \<Rightarrow> admin \<Rightarrow> (orch_error + unit) \<times> admin" where
  "on_status c e nid st s =
     (let R = reg_on_status (en_mono e) nid st (ad_registry s); s0 = s\<lparr>ad_registry := R\<rparr>
      in case get_node R nid of
           None \<Rightarrow> (Inr (), s0)
         | Some record \<Rightarrow>
             (let s1 = file_report c nid st s0;
                  run = (case get_run_any s1 (id_or_empty (nr_run_id record)) of
                           Some r \<Rightarrow> Some r | None \<Rightarrow> active_run_in s1 (zone_of record))
              in case run of
                   None \<Rightarrow> (Inr (), s1)
                 | Some r \<Rightarrow>
                     (if nr_run_id record = Some (r_id r) \<and> r_state r \<in> terminal
                         \<and> nr_state record = Node_Running
                      then (Inr (), late_stop c e nid r s1)
                      else if nr_run_id record = Some (r_id r)
                      then (case note_participant c nid record r of (res, r1) \<Rightarrow> (res, put_run r1 s1))
                      else (Inr (), s1))))"

definition on_goodbye :: "config \<Rightarrow> env \<Rightarrow> string \<Rightarrow> goodbye_payload \<Rightarrow> admin \<Rightarrow> admin" where
  "on_goodbye c e nid g s =
     (let R = reg_on_goodbye (en_mono e) nid (ad_registry s); s0 = s\<lparr>ad_registry := R\<rparr>
      in case get_node R nid of
           None \<Rightarrow> s0
         | Some _ \<Rightarrow>
             (case get_run_any s0 (id_or_empty (gp_run_id g)) of
                None \<Rightarrow> s0
              | Some r \<Rightarrow>
                  (if gp_final_report g = [] then s0
                   else (let r1 = r\<lparr>r_reports := dput nid (gp_final_report g) (r_reports r)\<rparr>
                         in save_run c r1 (put_run r1 s0)))))"

section \<open>The periodic passes\<close>

definition keepalive_round :: "env \<Rightarrow> admin \<Rightarrow> admin" where
  "keepalive_round e s = snd (send_all e Ping_Frame (keys (ad_sockets s)) s)"

definition run_pass :: "config \<Rightarrow> env \<Rightarrow> run option \<Rightarrow> admin \<Rightarrow> finding list" where
  "run_pass c e r s =
     diagnose (mk_pass (en_mono e) (ad_registry s) r (cf_sha c) (Some (cf_topology c)) (cf_clock_warn c))"

fun merge_findings :: "(string \<times> string \<times> string) list \<Rightarrow> finding list \<Rightarrow> finding list" where
  "merge_findings seen [] = []"
| "merge_findings seen (f # fs) =
     (let k = (f_code f, f_subject f, f_zone f)
      in if k \<in> set seen then merge_findings seen fs else f # merge_findings (k # seen) fs)"

definition refresh_findings :: "config \<Rightarrow> env \<Rightarrow> admin \<Rightarrow> admin" where
  "refresh_findings c e s =
     (let runs = (if active_runs s = [] then [None] else map Some (active_runs s))
      in s\<lparr>ad_findings := merge_findings [] (concat (map (\<lambda>r. run_pass c e r s) runs))\<rparr>)"

text \<open>\<open>contextlib.suppress(OrchestratorError)\<close> around \<open>act(STOP)\<close>.\<close>

definition auto_stop :: "config \<Rightarrow> env \<Rightarrow> run \<Rightarrow> string \<Rightarrow> admin \<Rightarrow> admin" where
  "auto_stop c e r why s =
     snd (act c e (r_id r) Act_Stop (journal e (r_id r) ''auto-stop'' [(''reason'', JStr why)] s))"

text \<open>The watchdogs: \<open>Some why\<close> when one stops the run. The texts name the limit that was hit.\<close>

definition watchdog :: "config \<Rightarrow> env \<Rightarrow> run \<Rightarrow> string option" where
  "watchdog c e r =
     (if r_state r \<notin> {Running, Degraded} then None
      else if cf_max_duration c \<noteq> 0
              \<and> (case recording_seconds e r of None \<Rightarrow> False | Some t \<Rightarrow> cf_max_duration c < t)
      then Some ''MECADM_MAX_RUN_DURATION_S''
      else if cf_min_free_abort c \<noteq> 0
              \<and> (case en_free e of None \<Rightarrow> False | Some free \<Rightarrow> free < cf_min_free_abort c)
      then Some ''MECADM_MIN_FREE_GB_ABORT''
      else None)"

definition has_quorum :: "config \<Rightarrow> run \<Rightarrow> node_record list \<Rightarrow> bool" where
  "has_quorum c r running \<longleftrightarrow>
     (\<forall>role \<in> set (required_roles_for (cf_topology c) (profile_of (r_params r))).
        \<exists>n \<in> set running. nr_type n = role)"

text \<open>The three judgements of a pass, each the event it raises, if any. \<open>started\<close> and \<open>since\<close>
  are the times the run entered \<open>starting\<close> and \<open>stopping\<close>.\<close>

definition quorum_event :: "config \<Rightarrow> env \<Rightarrow> run_state \<Rightarrow> bool \<Rightarrow> bool \<Rightarrow> rat option \<Rightarrow> rat option \<Rightarrow> run_event option" where
  "quorum_event c e st quorum any_online started since =
     (case st of
        Starting \<Rightarrow>
          (if quorum then Some Quorum_Met
           else if (case started of None \<Rightarrow> False | Some t \<Rightarrow> cf_start_timeout c < en_mono e - t)
           then Some Start_Timeout else None)
      | Running \<Rightarrow> (if \<not> quorum then Some Participant_Lost else None)
      | Degraded \<Rightarrow> (if quorum then Some Participant_Recovered else None)
      | Stopping \<Rightarrow>
          (if \<not> any_online then Some Reports_Complete
           else if cf_stop_timeout c < en_mono e - (case since of None \<Rightarrow> en_mono e | Some t \<Rightarrow> t)
           then Some Stop_Timeout else None)
      | _ \<Rightarrow> None)"

definition offline_event :: "run_state \<Rightarrow> node_record list \<Rightarrow> bool \<Rightarrow> run_event option" where
  "offline_event st participants any_online =
     (if st \<in> {Starting, Running, Degraded} \<and> \<not> any_online \<and> \<not> (st = Starting \<and> participants = [])
      then Some All_Offline else None)"

definition reports_event :: "run_state \<Rightarrow> run \<Rightarrow> node_record list \<Rightarrow> run_event option" where
  "reports_event st r participants =
     (if st = Stopping \<and> (\<forall>n \<in> set participants. nr_id n \<in> set (keys (r_reports r)))
      then Some Reports_Complete else None)"

definition advance_opt :: "run_state \<Rightarrow> run_event option \<Rightarrow> transition_error + run_state" where
  "advance_opt st ev = (case ev of None \<Rightarrow> Inr st | Some x \<Rightarrow> advance st x)"

definition judge ::
  "run \<Rightarrow> node_record list \<Rightarrow> bool \<Rightarrow> run_event option \<Rightarrow> transition_error + run_state" where
  "judge r participants any_online ev =
     sum_bind (advance_opt (r_state r) ev) (\<lambda>st1.
     sum_bind (advance_opt st1 (offline_event st1 participants any_online)) (\<lambda>st2.
     advance_opt st2 (reports_event st2 r participants)))"

definition frozen_findings :: "run \<Rightarrow> finding list \<Rightarrow> pdict list" where
  "frozen_findings r fs = map finding_to_dict (filter (\<lambda>f. f_zone f = [] \<or> f_zone f = r_zone r) fs)"

text \<open>The end of a pass whose judgement changed the state: freeze, persist, and stop the nodes of a
  run that failed.\<close>

definition settle_change :: "config \<Rightarrow> env \<Rightarrow> run_state \<Rightarrow> run \<Rightarrow> admin \<Rightarrow> admin" where
  "settle_change c e before r s =
     (let r1 = (if r_state r \<in> {Stopped, Failed}
                then r\<lparr>r_stopped := Some (en_utc e), r_findings := frozen_findings r (ad_findings s)\<rparr>
                else r);
          s1 = persist c e r1 ''auto'' [(''from'', JStr (run_state_str before)),
                                        (''to'', JStr (run_state_str (r_state r)))] (put_run r1 s)
      in if r_state r = Failed
         then snd (broadcast_command e Run_Stop (Some (r_id r)) None [] (Some r1) True s1)
         else s1)"

text \<open>What a pass reads of a run, the event it raises first, and the bookkeeping it does beside
  the state: the clocks, and the journal line of a stop that timed out.\<close>

definition pass_participants :: "run \<Rightarrow> admin \<Rightarrow> node_record list" where
  "pass_participants r s = participants_of (ad_registry s) (r_id r)"

definition pass_online :: "config \<Rightarrow> env \<Rightarrow> run \<Rightarrow> admin \<Rightarrow> node_record list" where
  "pass_online c e r s = filter (is_online (cf_offline_timeout c) (en_mono e)) (pass_participants r s)"

definition pass_quorum :: "config \<Rightarrow> env \<Rightarrow> run \<Rightarrow> admin \<Rightarrow> bool" where
  "pass_quorum c e r s = has_quorum c r (filter (\<lambda>n. nr_state n = Node_Running) (pass_online c e r s))"

definition pass_event :: "config \<Rightarrow> env \<Rightarrow> run \<Rightarrow> admin \<Rightarrow> run_event option" where
  "pass_event c e r s =
     quorum_event c e (r_state r) (pass_quorum c e r s) (pass_online c e r s \<noteq> [])
       (map_of (ad_starting s) (r_id r)) (map_of (ad_stopping s) (r_id r))"

definition pass_clocks :: "config \<Rightarrow> env \<Rightarrow> run \<Rightarrow> admin \<Rightarrow> admin" where
  "pass_clocks c e r s =
     s\<lparr>ad_starting := (if pass_event c e r s \<in> {Some Quorum_Met, Some Start_Timeout}
                       then dpop (r_id r) (ad_starting s) else ad_starting s),
       ad_stopping := (if r_state r = Stopping \<and> pass_online c e r s \<noteq> []
                       then dsetdefault (r_id r) (en_mono e) (ad_stopping s) else ad_stopping s)\<rparr>"

definition missing_reports :: "run \<Rightarrow> admin \<Rightarrow> json" where
  "missing_reports r s =
     JArr (map (\<lambda>n. JStr (nr_id n))
       (filter (\<lambda>n. nr_id n \<notin> set (keys (r_reports r))) (pass_participants r s)))"

definition pass_bookkeeping :: "config \<Rightarrow> env \<Rightarrow> run \<Rightarrow> admin \<Rightarrow> admin" where
  "pass_bookkeeping c e r s =
     (if pass_event c e r s = Some Stop_Timeout
      then journal e (r_id r) ''stop-timeout'' [(''missing_reports'', missing_reports r s)] (pass_clocks c e r s)
      else pass_clocks c e r s)"

definition pass_left :: "run_state \<Rightarrow> run \<Rightarrow> admin \<Rightarrow> admin" where
  "pass_left st r s =
     (if st \<noteq> Stopping then s\<lparr>ad_stopping := dpop (r_id r) (ad_stopping s)\<rparr> else s)"

definition supervise_run :: "config \<Rightarrow> env \<Rightarrow> run \<Rightarrow> admin \<Rightarrow> (orch_error + unit) \<times> admin" where
  "supervise_run c e r s =
     (case watchdog c e r of
        Some why \<Rightarrow> (Inr (), auto_stop c e r why s)
      | None \<Rightarrow>
          (case judge r (pass_participants r s) (pass_online c e r s \<noteq> []) (pass_event c e r s) of
             Inl te \<Rightarrow> (Inl (Escaped_Transition te), pass_bookkeeping c e r s)
           | Inr st \<Rightarrow>
               (let s1 = pass_left st r (pass_bookkeeping c e r s); r1 = r\<lparr>r_state := st\<rparr>
                in (Inr (), if st = r_state r then s1
                            else settle_change c e (r_state r) r1 (put_run r1 s1)))))"

text \<open>\<open>_supervise_once\<close>: each run that was active at the start, as it is when its turn comes.\<close>

fun supervise_ids :: "config \<Rightarrow> env \<Rightarrow> string list \<Rightarrow> admin \<Rightarrow> (orch_error + unit) \<times> admin" where
  "supervise_ids c e [] s = (Inr (), s)"
| "supervise_ids c e (i # is) s =
     (case get_run_any s i of
        None \<Rightarrow> supervise_ids c e is s
      | Some r \<Rightarrow>
          (case supervise_run c e r s of
             (Inl err, s') \<Rightarrow> (Inl err, s')
           | (Inr _, s') \<Rightarrow> supervise_ids c e is s'))"

definition supervise_once :: "config \<Rightarrow> env \<Rightarrow> admin \<Rightarrow> (orch_error + unit) \<times> admin" where
  "supervise_once c e s = supervise_ids c e (map r_id (active_runs s)) s"

text \<open>One round of \<open>_supervise_loop\<close>; the counters roll forward whatever the pass raised.\<close>

definition supervise_round :: "config \<Rightarrow> env \<Rightarrow> admin \<Rightarrow> admin" where
  "supervise_round c e s =
     (let s' = (case supervise_once c e s of
                  (Inl _, s1) \<Rightarrow> s1 | (Inr _, s1) \<Rightarrow> refresh_findings c e s1)
      in s'\<lparr>ad_registry := snapshot_counters (ad_registry s')\<rparr>)"

definition zone_middleware :: "env \<Rightarrow> admin \<Rightarrow> (string \<times> string) list" where
  "zone_middleware e s =
     (let reported = concat (map (\<lambda>r.
            if nr_type r \<in> middleware_node_types
            then (case middleware_of (nr_params r) of None \<Rightarrow> [] | Some mw \<Rightarrow> [(zone_of r, mw)])
            else []) (online (en_mono e) None (ad_registry s)))
      in map (\<lambda>z. (z, case uniq (map snd (filter (\<lambda>p. fst p = z) reported)) of
                          [k] \<Rightarrow> k | _ \<Rightarrow> ''mixed''))
           (uniq (map fst reported)))"

end
