(* ===== verification/Orchestrator_Inv.thy ===== *)
theory Orchestrator_Inv
  imports Orchestrator
begin

text \<open>
  What holds of the orchestrator in every state it can reach. \<open>table_step\<close> is the abstract
  specification of the table of runs: a run is added as a draft, or one run is rewritten, keeping
  its id and zone, along legal transitions, and takes its zone's slot only when no other run holds
  it. The locale \<open>orch_op\<close> is the contract of one operation, that it changes the table by such
  steps and keeps the registry well formed, and proves what follows from it; every operation of the
  model is an interpretation of it.
\<close>

section \<open>The table of runs, abstractly\<close>

definition no_other :: "(string \<times> run) list \<Rightarrow> string \<Rightarrow> string \<Rightarrow> bool" where
  "no_other t k z \<longleftrightarrow>
     (\<forall>k' r. map_of t k' = Some r \<longrightarrow> k' \<noteq> k \<longrightarrow> r_zone r = z \<longrightarrow> \<not> occupies_slot (r_state r))"

definition table_wf :: "(string \<times> run) list \<Rightarrow> bool" where
  "table_wf t \<longleftrightarrow>
     distinct (keys t) \<and> (\<forall>k r. map_of t k = Some r \<longrightarrow> r_id r = k)
     \<and> (\<forall>k r. map_of t k = Some r \<longrightarrow> occupies_slot (r_state r) \<longrightarrow> no_other t k (r_zone r))"

inductive table_step :: "(string \<times> run) list \<Rightarrow> (string \<times> run) list \<Rightarrow> bool" where
  ts_update:
    "map_of t k = Some r \<Longrightarrow> r_id r' = k \<Longrightarrow> r_zone r' = r_zone r \<Longrightarrow>
     run_path (r_state r) (r_state r') \<Longrightarrow>
     (occupies_slot (r_state r') \<Longrightarrow> \<not> occupies_slot (r_state r) \<Longrightarrow> no_other t k (r_zone r)) \<Longrightarrow>
     table_step t (dput k r' t)"
| ts_add:
    "map_of t k = None \<Longrightarrow> r_id r = k \<Longrightarrow> r_state r = Draft \<Longrightarrow> table_step t (dput k r t)"

definition orch_wf :: "admin \<Rightarrow> bool" where
  "orch_wf s \<longleftrightarrow> table_wf (ad_runs s) \<and> reg_wf (ad_registry s)"

abbreviation table_steps :: "(string \<times> run) list \<Rightarrow> (string \<times> run) list \<Rightarrow> bool" where
  "table_steps \<equiv> table_step\<^sup>*\<^sup>*"

section \<open>Lemmas on the table\<close>

lemma run_path_trans: "run_path t u \<Longrightarrow> run_path s t \<Longrightarrow> run_path s u"
proof (induction rule: run_path.induct)
  case (path_refl t)
  then show ?case .
next
  case (path_step t v e u)
  then show ?case by (blast intro: run_path.path_step)
qed

lemma run_path_advance: "advance s e = Inr s' \<Longrightarrow> run_path s s'"
  by (rule path_step [OF path_refl]) (simp add: run_step_iff)

lemma Draft_not_occupying [simp]: "\<not> occupies_slot Draft"
  by (simp add: state_sets)

lemma no_other_dput:
  "no_other t j z \<Longrightarrow> (k = j \<or> r_zone r \<noteq> z \<or> \<not> occupies_slot (r_state r)) \<Longrightarrow> no_other (dput k r t) j z"
  by (auto simp: no_other_def)

lemma table_wf_dput:
  assumes wf: "table_wf t" and "r_id r = k"
    and slot: "occupies_slot (r_state r) \<Longrightarrow> no_other t k (r_zone r)"
  shows "table_wf (dput k r t)"
proof -
  have "no_other (dput k r t) j (r_zone q)"
    if q: "map_of (dput k r t) j = Some q" "occupies_slot (r_state q)" for j q
  proof (cases "j = k")
    case True
    then show ?thesis
      using q slot by (simp add: no_other_dput)
  next
    case False
    then have "map_of t j = Some q"
      using q(1) by simp
    moreover from this have "no_other t j (r_zone q)"
      using wf q(2) by (simp add: table_wf_def)
    ultimately show ?thesis
      using slot False q(2) by (intro no_other_dput) (auto simp: no_other_def)
  qed
  then show ?thesis
    using wf assms(2) by (auto simp: table_wf_def)
qed

lemma table_step_wf: "table_step t t' \<Longrightarrow> table_wf t \<Longrightarrow> table_wf t'"
proof (induction rule: table_step.induct)
  case (ts_update t k r r')
  show ?case
  proof (rule table_wf_dput)
    assume "occupies_slot (r_state r')"
    then show "no_other t k (r_zone r')"
      using ts_update by (cases "occupies_slot (r_state r)") (auto simp: table_wf_def)
  qed (use ts_update in auto)
next
  case (ts_add t k r)
  then show ?case
    by (intro table_wf_dput) auto
qed

lemma table_steps_wf: "table_steps t t' \<Longrightarrow> table_wf t \<Longrightarrow> table_wf t'"
  by (induction rule: rtranclp_induct) (auto intro: table_step_wf)

lemma table_step_path:
  "table_step t t' \<Longrightarrow> map_of t k = Some r \<Longrightarrow>
     \<exists>r'. map_of t' k = Some r' \<and> r_zone r' = r_zone r \<and> run_path (r_state r) (r_state r')"
proof (induction rule: table_step.induct)
  case (ts_update t j q q')
  then show ?case
    by (cases "k = j") (simp_all add: path_refl)
next
  case (ts_add t j q)
  then show ?case
    by (cases "k = j") (simp_all add: path_refl)
qed

lemma table_steps_path:
  "table_steps t t' \<Longrightarrow> map_of t k = Some r \<Longrightarrow>
     \<exists>r'. map_of t' k = Some r' \<and> r_zone r' = r_zone r \<and> run_path (r_state r) (r_state r')"
proof (induction rule: rtranclp_induct)
  case base
  then show ?case by (auto intro: path_refl)
next
  case (step t' t'')
  then obtain r' where r': "map_of t' k = Some r'" "r_zone r' = r_zone r" "run_path (r_state r) (r_state r')"
    by auto
  obtain r'' where "map_of t'' k = Some r''" "r_zone r'' = r_zone r'" "run_path (r_state r') (r_state r'')"
    using table_step_path [OF step.hyps(2) r'(1)] by auto
  with r' show ?case
    using run_path_trans by auto
qed

lemma table_wf_id: "table_wf t \<Longrightarrow> map_of t k = Some r \<Longrightarrow> r_id r = k"
  by (simp add: table_wf_def)

lemma table_wf_vals: "table_wf t \<Longrightarrow> r \<in> set (vals t) \<longleftrightarrow> map_of t (r_id r) = Some r"
  by (auto simp: table_wf_def vals_iff_lookup)

text \<open>Writing back a run with the same id, zone and state is a step.\<close>

definition same_run_kind :: "run \<Rightarrow> run \<Rightarrow> bool" where
  "same_run_kind r r' \<longleftrightarrow> r_id r' = r_id r \<and> r_zone r' = r_zone r \<and> r_state r' = r_state r"

lemma ts_touch:
  "map_of t (r_id r) = Some r \<Longrightarrow> same_run_kind r r' \<Longrightarrow> table_step t (dput (r_id r') r' t)"
  using ts_update [of t "r_id r" r r'] by (auto simp: same_run_kind_def intro: path_refl)

section \<open>What an operation leaves alone\<close>

lemma ad_runs_unchanged [simp]:
  "ad_runs (save_run c r s) = ad_runs s" "ad_runs (journal e i v d s) = ad_runs s"
  "ad_runs (persist c e r v d s) = ad_runs s" "ad_runs (attach_node n k s) = ad_runs s"
  "ad_runs (detach_node n k s) = ad_runs s"
  by (simp_all add: save_run_def journal_def persist_def attach_node_def detach_node_def)

lemma ad_registry_unchanged [simp]:
  "ad_registry (save_run c r s) = ad_registry s" "ad_registry (journal e i v d s) = ad_registry s"
  "ad_registry (persist c e r v d s) = ad_registry s" "ad_registry (attach_node n k s) = ad_registry s"
  "ad_registry (put_run r s) = ad_registry s"
  by (simp_all add: save_run_def journal_def persist_def attach_node_def put_run_def)

lemma put_run_runs [simp]: "ad_runs (put_run r s) = dput (r_id r) r (ad_runs s)"
  by (simp add: put_run_def)

lemma send_effect:
  "ad_runs (snd (send e n f s)) = ad_runs s" "ad_registry (snd (send e n f s)) = ad_registry s"
  "ad_sockets (snd (send e n f s)) = ad_sockets s" "ad_disk (snd (send e n f s)) = ad_disk s"
  "ad_starting (snd (send e n f s)) = ad_starting s" "ad_stopping (snd (send e n f s)) = ad_stopping s"
  "ad_findings (snd (send e n f s)) = ad_findings s" "ad_late_stops (snd (send e n f s)) = ad_late_stops s"
  by (simp_all add: send_def split: option.splits)

lemma send_all_effect [simp]:
  "ad_runs (snd (send_all e f ns s)) = ad_runs s" "ad_registry (snd (send_all e f ns s)) = ad_registry s"
  "ad_sockets (snd (send_all e f ns s)) = ad_sockets s" "ad_disk (snd (send_all e f ns s)) = ad_disk s"
  "ad_starting (snd (send_all e f ns s)) = ad_starting s" "ad_stopping (snd (send_all e f ns s)) = ad_stopping s"
  "ad_findings (snd (send_all e f ns s)) = ad_findings s"
  by (induction ns arbitrary: s)
     (simp_all add: send_effect case_prod_beta)

lemma broadcast_effect [simp]:
  "ad_runs (snd (broadcast_command e cmd i t a r m s)) = ad_runs s"
  "ad_registry (snd (broadcast_command e cmd i t a r m s)) = ad_registry s"
  "ad_disk (snd (broadcast_command e cmd i t a r m s)) = ad_disk s"
  "ad_starting (snd (broadcast_command e cmd i t a r m s)) = ad_starting s"
  "ad_stopping (snd (broadcast_command e cmd i t a r m s)) = ad_stopping s"
  "ad_findings (snd (broadcast_command e cmd i t a r m s)) = ad_findings s"
  by (simp_all add: broadcast_command_def)

lemma get_run_Inr:
  "get_run rid s = Inr r \<longleftrightarrow> map_of (ad_runs s) rid = Some r \<and> \<not> r_removed r"
  by (auto simp: get_run_def get_run_any_def split: option.splits)

lemma active_run_in_Some:
  assumes "table_wf (ad_runs s)" and "active_run_in s z = Some r"
  shows "map_of (ad_runs s) (r_id r) = Some r" and "occupies_slot (r_state r)" and "r_zone r = z"
  using assms by (auto simp: active_run_in_def find_Some_iff table_wf_vals dest!: nth_mem)

lemma active_run_in_None:
  assumes "table_wf (ad_runs s)" and "active_run_in s z = None"
  shows "map_of (ad_runs s) k = Some r \<Longrightarrow> r_zone r = z \<Longrightarrow> \<not> occupies_slot (r_state r)"
proof -
  assume r: "map_of (ad_runs s) k = Some r" "r_zone r = z"
  then have "r \<in> set (vals (ad_runs s))"
    using assms(1) table_wf_id [OF assms(1) r(1)] by (simp add: table_wf_vals)
  with r assms(2) show ?thesis
    by (auto simp: active_run_in_def find_None_iff)
qed

lemma active_runs_mem:
  assumes "table_wf (ad_runs s)" and "r \<in> set (active_runs s)"
  shows "map_of (ad_runs s) (r_id r) = Some r" and "occupies_slot (r_state r)"
  using assms by (auto simp: active_runs_def table_wf_vals)

lemma active_run_Some: "active_run s = Some r \<Longrightarrow> r \<in> set (active_runs s)"
  by (auto simp: active_run_def split: list.splits)

lemma slot_free_no_other:
  assumes wf: "table_wf (ad_runs s)" and "slot_free k r s"
  shows "no_other (ad_runs s) k (r_zone r)"
proof (cases "active_run_in s (r_zone r)")
  case None
  then show ?thesis
    using active_run_in_None [OF wf None] by (auto simp: no_other_def)
next
  case (Some b)
  note b = active_run_in_Some [OF wf Some]
  have "r_id b = k"
    using assms(2) Some by (simp add: slot_free_def)
  then show ?thesis
    using b wf by (metis table_wf_def)
qed

text \<open>Writing back, in a state, a run that is in its table.\<close>

lemma put_touch:
  "map_of (ad_runs s) (r_id r) = Some r \<Longrightarrow> same_run_kind r r' \<Longrightarrow>
     table_steps (ad_runs s) (ad_runs (put_run r' s))"
  using ts_touch [of "ad_runs s" r r'] by simp

lemma put_run_lookup [simp]: "map_of (ad_runs (put_run r s)) (r_id r) = Some r"
  by simp

section \<open>The contract of an operation\<close>

locale orch_op =
  fixes guard :: "admin \<Rightarrow> bool" and op :: "admin \<Rightarrow> admin"
  assumes table: "orch_wf s \<Longrightarrow> guard s \<Longrightarrow> table_steps (ad_runs s) (ad_runs (op s))"
    and registry: "orch_wf s \<Longrightarrow> guard s \<Longrightarrow> reg_wf (ad_registry (op s))"
begin

lemma wf: "orch_wf s \<Longrightarrow> guard s \<Longrightarrow> orch_wf (op s)"
  using table registry table_steps_wf by (auto simp: orch_wf_def)

lemma evolves:
  assumes "orch_wf s" and "guard s" and "get_run_any s k = Some r"
  obtains r' where "get_run_any (op s) k = Some r'" and "r_zone r' = r_zone r"
    and "run_path (r_state r) (r_state r')"
  using table_steps_path [OF table [OF assms(1,2)], of k r] assms(3) that
  by (auto simp: get_run_any_def)

lemma ended_stays:
  assumes "orch_wf s" and "guard s" and "get_run_any s k = Some r" and "is_terminal (r_state r)"
  shows "\<exists>r'. get_run_any (op s) k = Some r' \<and> is_terminal (r_state r')"
proof -
  obtain r' where "get_run_any (op s) k = Some r'" "run_path (r_state r) (r_state r')"
    using evolves [OF assms(1-3)] by metis
  with assms(4) run_path_progress show ?thesis
    by (fastforce simp: progress_terminal)
qed

end

section \<open>Every operation satisfies it\<close>

lemma act_transition:
  assumes wf: "table_wf (ad_runs s)" and r: "map_of (ad_runs s) rid = Some r"
    and st: "advance (r_state r) (event_of_action a) = Inr st"
    and free: "a = Act_Start \<Longrightarrow> slot_free rid r s"
  shows "table_step (ad_runs s) (ad_runs (put_run (r\<lparr>r_state := st\<rparr>) s))"
proof -
  have id: "r_id r = rid"
    using table_wf_id [OF wf r] .
  have start: "a = Act_Start" if "occupies_slot st" "\<not> occupies_slot (r_state r)"
    using st that by (cases a; cases "r_state r") (simp_all add: state_sets)
  have "table_step (ad_runs s) (dput rid (r\<lparr>r_state := st\<rparr>) (ad_runs s))"
  proof (rule ts_update [OF r])
    show "run_path (r_state r) (r_state (r\<lparr>r_state := st\<rparr>))"
      using st by (simp add: run_path_advance)
    show "no_other (ad_runs s) rid (r_zone r)"
      if "occupies_slot (r_state (r\<lparr>r_state := st\<rparr>))" "\<not> occupies_slot (r_state r)"
      using that start free slot_free_no_other [OF wf] by simp
  qed (simp_all add: id)
  then show ?thesis
    by (simp add: id)
qed

lemma act_start_table: "map_of (ad_runs s) (r_id r) = Some r \<Longrightarrow>
   table_steps (ad_runs s) (ad_runs (snd (act_start c e r s)))"
proof -
  assume r: "map_of (ad_runs s) (r_id r) = Some r"
  let ?r1 = "r\<lparr>r_started := Some (en_utc e), r_ue_map := frozen_ue_map c r\<rparr>"
  have 1: "table_steps (ad_runs s) (ad_runs (put_run ?r1 s))"
    by (rule put_touch [OF r]) (simp add: same_run_kind_def)
  have "table_steps (ad_runs (put_run ?r1 s)) (ad_runs (put_run (?r1\<lparr>r_participants := []\<rparr>) (put_run ?r1 s)))"
    by (rule put_touch [of _ ?r1]) (simp_all add: same_run_kind_def)
  with 1 rtranclp_trans [OF 1 this] show ?thesis
    by (simp add: act_start_def Let_def)
qed

lemma act_table:
  assumes wf: "table_wf (ad_runs s)"
  shows "table_steps (ad_runs s) (ad_runs (snd (act c e rid a s)))"
proof (cases "\<exists>r st. get_run rid s = Inr r \<and> (a = Act_Start \<longrightarrow> slot_free rid r s)
                 \<and> advance (r_state r) (event_of_action a) = Inr st")
  case False
  then have "snd (act c e rid a s) = s"
    by (auto simp: act_def split: sum.splits simp del: advance_Inr)
  then show ?thesis by simp
next
  case True
  then obtain r st where get: "get_run rid s = Inr r" and free: "a = Act_Start \<longrightarrow> slot_free rid r s"
    and st: "advance (r_state r) (event_of_action a) = Inr st"
    by blast
  let ?r1 = "r\<lparr>r_state := st\<rparr>"
  let ?s1 = "put_run ?r1 s"
  let ?res = "case a of Act_Start \<Rightarrow> act_start c e ?r1 ?s1 | Act_Stop \<Rightarrow> act_stop e ?r1 ?s1
                | Act_Remove \<Rightarrow> act_remove ?r1 ?s1"
  have 1: "table_step (ad_runs s) (ad_runs ?s1)"
    using get free by (intro act_transition [OF wf _ st]) (auto simp: get_run_Inr)
  have "table_steps (ad_runs ?s1) (ad_runs (snd ?res))"
  proof (cases a)
    case Act_Start
    then show ?thesis
      using act_start_table [of ?s1 ?r1] by simp
  next
    case Act_Stop
    then show ?thesis by (simp add: act_stop_def Let_def)
  next
    case Act_Remove
    then show ?thesis
      using put_touch [of ?s1 ?r1 "?r1\<lparr>r_removed := True\<rparr>"]
      by (simp add: act_remove_def Let_def same_run_kind_def)
  qed
  moreover have "ad_runs (snd (act c e rid a s)) = ad_runs (snd ?res)"
    using get free st by (auto simp: act_def case_prod_beta Let_def simp del: advance_Inr split: sum.splits run_action.splits)
  ultimately show ?thesis
    using 1 by (metis converse_rtranclp_into_rtranclp)
qed

lemma act_registry: "ad_registry (snd (act c e rid a s)) = ad_registry s"
  by (auto simp: act_def act_start_def act_stop_def act_remove_def Let_def case_prod_beta
      split: sum.splits run_action.splits if_splits)

definition fresh_id :: "env \<Rightarrow> admin \<Rightarrow> bool" where
  "fresh_id e s \<longleftrightarrow>
     (case fst (uuid7 (en_ms e) (en_random e) (ad_uuid s)) of
        None \<Rightarrow> True | Some rid \<Rightarrow> get_run_any s rid = None)"

lemma create_run_table:
  "fresh_id e s \<Longrightarrow> table_steps (ad_runs s) (ad_runs (snd (create_run c e label params zone s)))"
  by (auto simp: create_run_def fresh_id_def get_run_any_def Let_def intro!: r_into_rtranclp ts_add
      split: sum.splits prod.splits option.splits)

lemma create_run_registry: "ad_registry (snd (create_run c e label params zone s)) = ad_registry s"
  by (simp add: create_run_def Let_def split: sum.splits prod.splits option.splits)

lemma set_ran_policy_table:
  assumes "table_wf (ad_runs s)"
  shows "table_steps (ad_runs s) (ad_runs (snd (set_ran_policy c e rid policy s)))"
proof (cases "get_run rid s")
  case (Inl err)
  then show ?thesis by (simp add: set_ran_policy_def)
next
  case (Inr r)
  then have r: "map_of (ad_runs s) (r_id r) = Some r"
    using table_wf_id [OF assms] by (auto simp: get_run_Inr)
  have "table_steps (ad_runs s) (dput (r_id r) (r\<lparr>r_params := p\<rparr>) (ad_runs s))" for p
    using put_touch [OF r, of "r\<lparr>r_params := p\<rparr>"] by (simp add: same_run_kind_def)
  then show ?thesis
    using Inr broadcast_effect(1) [of e Ran_Policy]
    by (auto simp: set_ran_policy_def Let_def case_prod_beta split: sum.splits)
qed

lemma set_ran_policy_registry: "ad_registry (snd (set_ran_policy c e rid policy s)) = ad_registry s"
  by (auto simp: set_ran_policy_def Let_def case_prod_beta split: sum.splits)

interpretation address: node_update "address_update peer" for peer
  by unfold_locales (simp add: address_update_def split: option.splits)

lemma on_hello_table:
  assumes "table_wf (ad_runs s)"
  shows "table_steps (ad_runs s) (ad_runs (snd (on_hello c e h sock peer s)))"
proof -
  let ?s1 = "attach_node (hp_node_id h) sock (s\<lparr>ad_registry := update_node (hp_node_id h)
               (address_update peer) (reg_on_hello (en_mono e) h (ad_registry s))\<rparr>)"
  have "table_steps (ad_runs s) (dput (r_id r) (r\<lparr>r_participants := q\<rparr>) (ad_runs s))"
    if "active_run_in ?s1 z = Some r" for z r q
    using put_touch [OF active_run_in_Some(1) [of ?s1, OF _ that], of "r\<lparr>r_participants := q\<rparr>"] assms
    by (simp add: same_run_kind_def)
  then show ?thesis
    by (auto simp: on_hello_def Let_def split: option.splits)
qed

lemma on_hello_registry:
  "reg_wf (ad_registry s) \<Longrightarrow> reg_wf (ad_registry (snd (on_hello c e h sock peer s)))"
  by (auto simp: on_hello_def Let_def intro!: address.wf reg_wf_hello split: option.splits)

lemma file_report_table:
  assumes "table_wf (ad_runs s)"
  shows "table_steps (ad_runs s) (ad_runs (file_report c nid st s))"
proof -
  have "table_steps (ad_runs s) (dput (r_id r) (r\<lparr>r_reports := q\<rparr>) (ad_runs s))"
    if "get_run_any s k = Some r \<or> active_run s = Some r" for k r q
  proof -
    have "map_of (ad_runs s) (r_id r) = Some r"
      using that table_wf_id [OF assms, of k r] active_runs_mem(1) [OF assms active_run_Some]
      by (auto simp: get_run_any_def)
    then show ?thesis
      using put_touch [of s r "r\<lparr>r_reports := q\<rparr>"] by (simp add: same_run_kind_def)
  qed
  then show ?thesis
    by (auto simp: file_report_def Let_def split: option.splits)
qed

lemma file_report_registry [simp]: "ad_registry (file_report c nid st s) = ad_registry s"
  by (simp add: file_report_def Let_def split: option.splits)

lemma late_stop_effect [simp]:
  "ad_runs (late_stop c e nid r s) = ad_runs s" "ad_registry (late_stop c e nid r s) = ad_registry s"
  by (auto simp: late_stop_def send_def split: option.splits prod.splits)

lemma note_participant_kind: "same_run_kind r (snd (note_participant c nid n r))"
  by (simp add: note_participant_def same_run_kind_def Let_def case_prod_beta split: bool.splits)

lemma on_status_table:
  assumes "table_wf (ad_runs s)"
  shows "table_steps (ad_runs s) (ad_runs (snd (on_status c e nid st s)))"
proof -
  let ?s0 = "s\<lparr>ad_registry := reg_on_status (en_mono e) nid st (ad_registry s)\<rparr>"
  let ?s1 = "file_report c nid st ?s0"
  have 1: "table_steps (ad_runs s) (ad_runs ?s1)"
    using file_report_table [of ?s0] assms by simp
  then have wf: "table_wf (ad_runs ?s1)"
    using assms by (rule table_steps_wf)
  have "table_steps (ad_runs ?s1) (ad_runs (put_run (snd (note_participant c nid n r)) ?s1))"
    if "get_run_any ?s1 k = Some r \<or> active_run_in ?s1 z = Some r" for k z n r
    using that active_run_in_Some(1) [OF wf, of z r] table_wf_id [OF wf, of k r]
    by (intro put_touch [OF _ note_participant_kind]) (auto simp: get_run_any_def)
  then have "table_steps (ad_runs s) (ad_runs (put_run (snd (note_participant c nid n r)) ?s1))"
    if "get_run_any ?s1 k = Some r \<or> active_run_in ?s1 z = Some r" for k z n r
    using that 1 by (meson rtranclp_trans)
  then show ?thesis
    using 1 by (fastforce simp: on_status_def Let_def case_prod_beta simp del: put_run_runs split: option.splits)
qed

lemma on_status_registry:
  "reg_wf (ad_registry s) \<Longrightarrow> reg_wf (ad_registry (snd (on_status c e nid st s)))"
  by (auto simp: on_status_def Let_def case_prod_beta reg_on_status_def status.wf split: option.splits)

lemma on_goodbye_table:
  assumes "table_wf (ad_runs s)"
  shows "table_steps (ad_runs s) (ad_runs (on_goodbye c e nid g s))"
proof -
  have "table_steps (ad_runs s) (dput (r_id r) (r\<lparr>r_reports := q\<rparr>) (ad_runs s))"
    if "map_of (ad_runs s) k = Some r" for k r q
    using put_touch [of s r "r\<lparr>r_reports := q\<rparr>"] that table_wf_id [OF assms that]
    by (simp add: same_run_kind_def)
  then show ?thesis
    by (auto simp: on_goodbye_def get_run_any_def Let_def split: option.splits)
qed

lemma on_goodbye_registry:
  "reg_wf (ad_registry s) \<Longrightarrow> reg_wf (ad_registry (on_goodbye c e nid g s))"
  by (auto simp: on_goodbye_def Let_def reg_on_goodbye_def goodbye.wf split: option.splits)

text \<open>The supervise pass raises only events its state allows, so \<open>advance\<close> never raises there, and
  it never gives a run a slot it did not hold.\<close>

lemma pass_events_legal:
  "quorum_event c e st q up a b = Some ev \<Longrightarrow> ev \<noteq> Ev_Start \<and> (\<exists>st'. advance st ev = Inr st')"
  "offline_event st ps up = Some ev \<Longrightarrow> ev \<noteq> Ev_Start \<and> (\<exists>st'. advance st ev = Inr st')"
  "reports_event st r ps = Some ev \<Longrightarrow> ev \<noteq> Ev_Start \<and> (\<exists>st'. advance st ev = Inr st')"
  by (cases st; auto simp: quorum_event_def offline_event_def reports_event_def split: if_splits)+

lemma advance_keeps_slot:
  "advance st ev = Inr st' \<Longrightarrow> ev \<noteq> Ev_Start \<Longrightarrow> occupies_slot st' \<Longrightarrow> occupies_slot st"
  by (cases st; cases ev) (auto simp: state_sets)

lemma advance_opt_legal:
  assumes "\<And>x. ev = Some x \<Longrightarrow> x \<noteq> Ev_Start \<and> (\<exists>st'. advance st x = Inr st')"
  obtains st' where "advance_opt st ev = Inr st'" and "run_path st st'"
    and "occupies_slot st' \<Longrightarrow> occupies_slot st"
proof (cases ev)
  case None
  then show ?thesis
    using that [of st] by (simp add: advance_opt_def path_refl)
next
  case (Some x)
  then obtain st' where x: "x \<noteq> Ev_Start" and st': "advance st x = Inr st'"
    using assms by blast
  show ?thesis
  proof (rule that [of st'])
    show "advance_opt st ev = Inr st'"
      using Some st' by (simp add: advance_opt_def)
    show "run_path st st'"
      using st' by (rule run_path_advance)
    show "occupies_slot st' \<Longrightarrow> occupies_slot st"
      using advance_keeps_slot [OF st' x] .
  qed
qed

lemma judge_legal:
  assumes ev: "ev = quorum_event c e (r_state r) q up a b"
  obtains st where "judge r ps up' ev = Inr st" and "run_path (r_state r) st"
    and "occupies_slot st \<Longrightarrow> occupies_slot (r_state r)"
proof -
  obtain s1 where 1: "advance_opt (r_state r) ev = Inr s1" "run_path (r_state r) s1"
      "occupies_slot s1 \<Longrightarrow> occupies_slot (r_state r)"
    using pass_events_legal(1) ev by (metis advance_opt_legal)
  obtain s2 where 2: "advance_opt s1 (offline_event s1 ps up') = Inr s2" "run_path s1 s2"
      "occupies_slot s2 \<Longrightarrow> occupies_slot s1"
    using pass_events_legal(2) by (metis advance_opt_legal)
  obtain s3 where 3: "advance_opt s2 (reports_event s2 r ps) = Inr s3" "run_path s2 s3"
      "occupies_slot s3 \<Longrightarrow> occupies_slot s2"
    using pass_events_legal(3) by (metis advance_opt_legal)
  show ?thesis
  proof (rule that [of s3])
    show "judge r ps up' ev = Inr s3"
      using 1(1) 2(1) 3(1) by (simp add: judge_def)
    show "run_path (r_state r) s3"
      using 1(2) 2(2) 3(2) run_path_trans by metis
    show "occupies_slot s3 \<Longrightarrow> occupies_slot (r_state r)"
      using 1(3) 2(3) 3(3) by blast
  qed
qed

lemma settle_change_runs:
  "ad_runs (settle_change c e before r s) = ad_runs (put_run
     (if r_state r \<in> {Stopped, Failed}
      then r\<lparr>r_stopped := Some (en_utc e), r_findings := frozen_findings r (ad_findings s)\<rparr> else r) s)"
  "ad_registry (settle_change c e before r s) = ad_registry s"
  by (simp_all add: settle_change_def Let_def)

lemma pass_bookkeeping_effect [simp]:
  "ad_runs (pass_bookkeeping c e r s) = ad_runs s" "ad_registry (pass_bookkeeping c e r s) = ad_registry s"
  "ad_runs (pass_left st r s) = ad_runs s" "ad_registry (pass_left st r s) = ad_registry s"
  by (simp_all add: pass_bookkeeping_def pass_clocks_def pass_left_def)

text \<open>The whole effect of a pass on the table: nothing, the watchdog's \<open>act(STOP)\<close>, or one
  transition followed by the freeze.\<close>

lemma supervise_run_table:
  assumes wf: "table_wf (ad_runs s)" and r: "map_of (ad_runs s) (r_id r) = Some r"
  shows "table_steps (ad_runs s) (ad_runs (snd (supervise_run c e r s)))
         \<and> ad_registry (snd (supervise_run c e r s)) = ad_registry s
         \<and> (\<exists>u. fst (supervise_run c e r s) = Inr u)"
proof (cases "watchdog c e r")
  case (Some why)
  then show ?thesis
    using act_table [of "journal e (r_id r) ''auto-stop'' [(''reason'', JStr why)] s"] wf
    by (simp add: supervise_run_def auto_stop_def act_registry)
next
  case None
  obtain st where st: "judge r (pass_participants r s) (pass_online c e r s \<noteq> []) (pass_event c e r s) = Inr st"
      "run_path (r_state r) st" "occupies_slot st \<Longrightarrow> occupies_slot (r_state r)"
    using judge_legal [OF pass_event_def] by blast
  let ?r1 = "r\<lparr>r_state := st\<rparr>"
  have 1: "table_step (ad_runs s) (dput (r_id r) ?r1 (ad_runs s))"
    by (rule ts_update [OF r]) (use st in auto)
  have 2: "table_steps (dput (r_id r) ?r1 (ad_runs s)) (dput (r_id r) q (dput (r_id r) ?r1 (ad_runs s)))"
    if "same_run_kind ?r1 q" for q
    using ts_touch [of "dput (r_id r) ?r1 (ad_runs s)" ?r1 q] that by (auto simp: same_run_kind_def)
  let ?s4 = "pass_left st r (pass_bookkeeping c e r s)"
  have s4: "ad_runs ?s4 = ad_runs s" "ad_registry ?s4 = ad_registry s"
    by simp_all
  have out: "supervise_run c e r s = (Inr (), if st = r_state r then ?s4
                else settle_change c e (r_state r) ?r1 (put_run ?r1 ?s4))"
    using None st(1) by (simp add: supervise_run_def Let_def)
  have "table_steps (ad_runs s) (ad_runs (settle_change c e (r_state r) ?r1 (put_run ?r1 ?s4)))"
    using converse_rtranclp_into_rtranclp [OF 1 2] by (simp add: settle_change_runs s4 same_run_kind_def)
  then show ?thesis
    by (simp add: out s4 settle_change_runs)
qed

lemma supervise_ids_table:
  "table_wf (ad_runs s) \<Longrightarrow>
     table_steps (ad_runs s) (ad_runs (snd (supervise_ids c e is s)))
     \<and> ad_registry (snd (supervise_ids c e is s)) = ad_registry s
     \<and> (\<exists>u. fst (supervise_ids c e is s) = Inr u)"
proof (induction "is" arbitrary: s)
  case Nil
  then show ?case by simp
next
  case (Cons i js)
  show ?case
  proof (cases "get_run_any s i")
    case None
    then show ?thesis
      using Cons by simp
  next
    case (Some r)
    then have r: "map_of (ad_runs s) (r_id r) = Some r"
      using table_wf_id [OF Cons.prems] by (auto simp: get_run_any_def)
    obtain u s' where s': "supervise_run c e r s = (Inr u, s')"
      using supervise_run_table [OF Cons.prems r, of c e] by (metis prod.collapse)
    have steps: "table_steps (ad_runs s) (ad_runs s')" "ad_registry s' = ad_registry s"
      using supervise_run_table [OF Cons.prems r, of c e] by (simp_all add: s')
    show ?thesis
      using Cons.IH [OF table_steps_wf [OF steps(1) Cons.prems]] steps
      by (auto simp: Some s' intro: rtranclp_trans)
  qed
qed

lemma supervise_once_table:
  "table_wf (ad_runs s) \<Longrightarrow>
     table_steps (ad_runs s) (ad_runs (snd (supervise_once c e s)))
     \<and> ad_registry (snd (supervise_once c e s)) = ad_registry s
     \<and> (\<exists>u. fst (supervise_once c e s) = Inr u)"
  unfolding supervise_once_def by (rule supervise_ids_table)

lemma supervise_round_table:
  assumes "table_wf (ad_runs s)"
  shows "table_steps (ad_runs s) (ad_runs (supervise_round c e s))"
    and "ad_registry (supervise_round c e s) = snapshot_counters (ad_registry s)"
  using supervise_once_table [OF assms, of c e]
  by (auto simp: supervise_round_def refresh_findings_def Let_def case_prod_beta split: sum.splits)

section \<open>The interpretations\<close>

interpretation creating: orch_op "fresh_id e" "\<lambda>s. snd (create_run c e label params zone s)"
  for c e label params zone
  by unfold_locales (simp_all add: create_run_table create_run_registry orch_wf_def)

interpretation acting: orch_op "\<lambda>s. True" "\<lambda>s. snd (act c e rid a s)" for c e rid a
  by unfold_locales (simp_all add: act_table act_registry orch_wf_def)

interpretation policy: orch_op "\<lambda>s. True" "\<lambda>s. snd (set_ran_policy c e rid p s)" for c e rid p
  by unfold_locales (simp_all add: set_ran_policy_table set_ran_policy_registry orch_wf_def)

interpretation greeting: orch_op "\<lambda>s. True" "\<lambda>s. snd (on_hello c e h sock peer s)" for c e h sock peer
  by unfold_locales (simp_all add: on_hello_table on_hello_registry orch_wf_def)

interpretation reporting: orch_op "\<lambda>s. True" "\<lambda>s. snd (on_status c e nid st s)" for c e nid st
  by unfold_locales (simp_all add: on_status_table on_status_registry orch_wf_def)

interpretation leaving: orch_op "\<lambda>s. True" "on_goodbye c e nid g" for c e nid g
  by unfold_locales (simp_all add: on_goodbye_table on_goodbye_registry orch_wf_def)

interpretation detaching: orch_op "\<lambda>s. True" "detach_node nid sock" for nid sock
  by unfold_locales (simp_all add: orch_wf_def detach_node_def on_disconnect_def disconnect.wf)

interpretation pinging: orch_op "\<lambda>s. True" "keepalive_round e" for e
  by unfold_locales (simp_all add: orch_wf_def keepalive_round_def)

interpretation supervising: orch_op "\<lambda>s. True" "supervise_round c e" for c e
  by unfold_locales (simp_all add: orch_wf_def supervise_round_table reg_wf_snapshot)

text \<open>What a frame does to the registry before it reaches the orchestrator.\<close>

definition note_frame :: "rat \<Rightarrow> string \<Rightarrow> int \<Rightarrow> int \<Rightarrow> admin \<Rightarrow> admin" where
  "note_frame now nid ts adm s =
     s\<lparr>ad_registry := note_clock nid ts adm (touch now nid (ad_registry s))\<rparr>"

interpretation noting: orch_op "\<lambda>s. True" "note_frame now nid ts adm" for now nid ts adm
  by unfold_locales
     (simp_all add: orch_wf_def note_frame_def note_clock_def touch_def clock.wf touching.wf)

text \<open>After a hello the clock alone is noted: the record was created by it.\<close>

definition note_hello :: "string \<Rightarrow> int \<Rightarrow> int \<Rightarrow> admin \<Rightarrow> admin" where
  "note_hello nid ts adm s = s\<lparr>ad_registry := note_clock nid ts adm (ad_registry s)\<rparr>"

interpretation hello_noting: orch_op "\<lambda>s. True" "note_hello nid ts adm" for nid ts adm
  by unfold_locales (simp_all add: orch_wf_def note_hello_def note_clock_def clock.wf)

section \<open>Steps and reachable states\<close>

inductive orch_step :: "config \<Rightarrow> admin \<Rightarrow> admin \<Rightarrow> bool" for c where
  os_create: "fresh_id e s \<Longrightarrow> orch_step c s (snd (create_run c e label params zone s))"
| os_act: "orch_step c s (snd (act c e rid a s))"
| os_policy: "orch_step c s (snd (set_ran_policy c e rid p s))"
| os_hello: "orch_step c s (snd (on_hello c e h sock peer s))"
| os_status: "orch_step c s (snd (on_status c e nid st s))"
| os_goodbye: "orch_step c s (on_goodbye c e nid g s)"
| os_detach: "orch_step c s (detach_node nid sock s)"
| os_note: "orch_step c s (note_frame now nid ts adm s)"
| os_clock: "orch_step c s (note_hello nid ts adm s)"
| os_keepalive: "orch_step c s (keepalive_round e s)"
| os_supervise: "orch_step c s (supervise_round c e s)"

abbreviation orch_steps :: "config \<Rightarrow> admin \<Rightarrow> admin \<Rightarrow> bool" where
  "orch_steps c \<equiv> (orch_step c)\<^sup>*\<^sup>*"

text \<open>A disk whose manifests lie in directories of their own run's name.\<close>

definition disk_keyed :: "string \<Rightarrow> disk \<Rightarrow> bool" where
  "disk_keyed now d \<longleftrightarrow>
     (case store_load now d of
        Inl _ \<Rightarrow> True
      | Inr runs \<Rightarrow> distinct (keys runs) \<and> list_all (\<lambda>(k, r). r_id r = k) runs)"

inductive orch_reachable :: "config \<Rightarrow> admin \<Rightarrow> bool" for c where
  or_start:
    "disk_keyed (en_utc e) d \<Longrightarrow> orch_start c e (new_admin c d u) = (Inr (), s) \<Longrightarrow> orch_reachable c s"
| or_step: "orch_reachable c s \<Longrightarrow> orch_step c s s' \<Longrightarrow> orch_reachable c s'"

lemma orch_step_wf: "orch_step c s s' \<Longrightarrow> orch_wf s \<Longrightarrow> orch_wf s'"
  by (induction rule: orch_step.induct)
     (auto intro: creating.wf acting.wf policy.wf greeting.wf reporting.wf leaving.wf detaching.wf
       noting.wf hello_noting.wf pinging.wf supervising.wf)

lemma orch_step_table: "orch_step c s s' \<Longrightarrow> orch_wf s \<Longrightarrow> table_steps (ad_runs s) (ad_runs s')"
  by (induction rule: orch_step.induct)
     (auto intro: creating.table acting.table policy.table greeting.table reporting.table leaving.table
       detaching.table noting.table hello_noting.table pinging.table supervising.table)

lemma orch_steps_table:
  "orch_steps c s s' \<Longrightarrow> orch_wf s \<Longrightarrow> orch_wf s' \<and> table_steps (ad_runs s) (ad_runs s')"
proof (induction rule: rtranclp_induct)
  case base
  then show ?case by simp
next
  case (step s' s'')
  then show ?case
    using orch_step_wf [OF step.hyps(2)] orch_step_table [OF step.hyps(2)] rtranclp_trans by metis
qed

section \<open>Startup\<close>

lemma fail_interrupted_table:
  assumes "distinct (keys (ad_runs s))" and "\<And>k r. map_of (ad_runs s) k = Some r \<Longrightarrow> r_id r = k"
  shows "distinct (keys (ad_runs (fail_interrupted c q s)))"
    and "map_of (ad_runs (fail_interrupted c q s)) k = Some r \<Longrightarrow> r_id r = k"
    and "ad_registry (fail_interrupted c q s) = ad_registry s"
    and "map_of (ad_runs (fail_interrupted c q s)) k = Some r \<Longrightarrow> occupies_slot (r_state r) \<Longrightarrow>
           map_of (ad_runs s) k = Some r \<and> (occupies_slot (r_state q) \<longrightarrow> k \<noteq> r_id q)"
  using assms
  by (auto simp: fail_interrupted_def Let_def state_sets split: if_splits)

lemma fail_all_table:
  assumes "distinct (keys (ad_runs s))" and "\<And>k r. map_of (ad_runs s) k = Some r \<Longrightarrow> r_id r = k"
  shows "distinct (keys (ad_runs (fold (fail_interrupted c) qs s)))
    \<and> (\<forall>k r. map_of (ad_runs (fold (fail_interrupted c) qs s)) k = Some r \<longrightarrow> r_id r = k)
    \<and> ad_registry (fold (fail_interrupted c) qs s) = ad_registry s
    \<and> (\<forall>k r. map_of (ad_runs (fold (fail_interrupted c) qs s)) k = Some r \<longrightarrow> occupies_slot (r_state r) \<longrightarrow>
           map_of (ad_runs s) k = Some r \<and> (\<forall>q \<in> set qs. occupies_slot (r_state q) \<longrightarrow> k \<noteq> r_id q))"
  using assms
proof (induction qs arbitrary: s)
  case Nil
  then show ?case by simp
next
  case (Cons q qs)
  note step = fail_interrupted_table [OF Cons.prems, where c = c and q = q]
  have "\<And>k r. map_of (ad_runs (fail_interrupted c q s)) k = Some r \<Longrightarrow> r_id r = k"
    by (rule step(2))
  from Cons.IH [OF step(1) this] step(3,4) show ?case
    by (auto simp del: put_run_runs)
qed

lemma orch_start_settled:
  assumes "disk_keyed (en_utc e) d" and "orch_start c e (new_admin c d u) = (Inr (), s)"
  shows "orch_wf s" and "active_runs s = []"
proof -
  from assms obtain runs where load: "store_load (en_utc e) d = Inr runs"
    and s: "s = fold (fail_interrupted c) (vals runs) (new_admin c d u\<lparr>ad_runs := runs\<rparr>)"
    by (auto simp: orch_start_def new_admin_def split: sum.splits)
  let ?s0 = "new_admin c d u\<lparr>ad_runs := runs\<rparr>"
  have keyed: "distinct (keys (ad_runs ?s0))" "\<And>k r. map_of (ad_runs ?s0) k = Some r \<Longrightarrow> r_id r = k"
    using assms(1) load by (auto simp: disk_keyed_def list_all_iff dest!: map_of_SomeD)
  note all = fail_all_table [OF keyed, of c "vals runs", folded s]
  have none: "\<not> occupies_slot (r_state r)" if r: "map_of (ad_runs s) k = Some r" for k r
  proof
    assume occ: "occupies_slot (r_state r)"
    then have "map_of runs k = Some r" "\<forall>q \<in> set (vals runs). occupies_slot (r_state q) \<longrightarrow> k \<noteq> r_id q"
      using all r by auto
    then show False
      using occ keyed by (auto simp: vals_iff_lookup)
  qed
  then show "orch_wf s"
    using all by (auto simp: orch_wf_def table_wf_def no_other_def new_admin_def new_registry_def reg_wf_def keys_def)
  show "active_runs s = []"
    using all none by (auto simp: active_runs_def filter_empty_conv vals_iff_lookup)
qed

lemma orch_reachable_wf: "orch_reachable c s \<Longrightarrow> orch_wf s"
  by (induction rule: orch_reachable.induct) (auto intro: orch_start_settled(1) orch_step_wf)

end
