(* ===== verification/Start_Clock.thy ===== *)
theory Start_Clock
  imports Orchestrator_Inv
begin

text \<open>
  The clock of a starting run: the time the start was accepted stays in \<open>ad_starting\<close> for as long as the
  run is \<open>starting\<close>, whatever else the service does, and the first pass past the timeout ends the wait.
\<close>

text \<open>A run that still waits has its clock; a run that is past waiting never waits again.\<close>

definition clocked :: "string \<Rightarrow> rat \<Rightarrow> admin \<Rightarrow> bool" where
  "clocked rid t s \<longleftrightarrow>
     (\<exists>r. get_run_any s rid = Some r \<and> r_state r \<noteq> Draft
        \<and> (r_state r = Starting \<longrightarrow> map_of (ad_starting s) rid = Some t))"

definition past_start :: "string \<Rightarrow> admin \<Rightarrow> bool" where
  "past_start rid s \<longleftrightarrow> (\<exists>r. get_run_any s rid = Some r \<and> r_state r \<notin> {Draft, Starting})"

lemma past_clocked: "past_start rid s \<Longrightarrow> clocked rid t s"
  by (auto simp: past_start_def clocked_def)

lemma progress_past: "st \<notin> {Draft, Starting} \<longleftrightarrow> progress Starting < progress st"
  by (cases st) simp_all

lemma past_start_table:
  "past_start rid s \<Longrightarrow> table_steps (ad_runs s) (ad_runs s') \<Longrightarrow> past_start rid s'"
proof -
  assume p: "past_start rid s" and t: "table_steps (ad_runs s) (ad_runs s')"
  obtain r where r: "map_of (ad_runs s) rid = Some r" "progress Starting < progress (r_state r)"
    using p unfolding past_start_def get_run_any_def progress_past by blast
  obtain r' where "map_of (ad_runs s') rid = Some r'" "run_path (r_state r) (r_state r')"
    using table_steps_path [OF t r(1)] by blast
  then show ?thesis
    using r(2) run_path_progress less_le_trans unfolding past_start_def get_run_any_def progress_past by blast
qed

lemma clocked_table:
  assumes "clocked rid t s" and "table_steps (ad_runs s) (ad_runs s')"
    and "map_of (ad_starting s') rid = map_of (ad_starting s) rid \<or> past_start rid s'"
  shows "clocked rid t s'"
proof (cases "past_start rid s \<or> past_start rid s'")
  case True
  then show ?thesis
    using past_start_table [OF _ assms(2)] past_clocked by blast
next
  case False
  obtain r where r: "map_of (ad_runs s) rid = Some r" "r_state r = Starting" "map_of (ad_starting s) rid = Some t"
    using assms(1) False by (auto simp: clocked_def past_start_def get_run_any_def)
  obtain r' where r': "map_of (ad_runs s') rid = Some r'" "run_path (r_state r) (r_state r')"
    using table_steps_path [OF assms(2) r(1)] by blast
  have "r_state r' = Starting"
    using False r' run_path_progress [OF r'(2)] r(2)
    by (cases "r_state r'") (auto simp: past_start_def get_run_any_def)
  then show ?thesis
    using r r'(1) assms(3) False by (auto simp: clocked_def get_run_any_def)
qed

section \<open>Who touches the clock\<close>

lemma starting_unchanged [simp]:
  "ad_starting (put_run r s) = ad_starting s" "ad_starting (save_run c r s) = ad_starting s"
  "ad_starting (journal e i v d s) = ad_starting s" "ad_starting (persist c e r v d s) = ad_starting s"
  "ad_starting (attach_node n k s) = ad_starting s" "ad_starting (detach_node n k s) = ad_starting s"
  "ad_starting (pass_left st r s) = ad_starting s" "ad_starting (refresh_findings c e s) = ad_starting s"
  by (simp_all add: put_run_def save_run_def journal_def persist_def attach_node_def detach_node_def pass_left_def
      refresh_findings_def Let_def)

lemma starting_others:
  "ad_starting (snd (create_run c e label params zone s)) = ad_starting s"
  "ad_starting (snd (set_ran_policy c e rid p s)) = ad_starting s"
  "ad_starting (snd (on_hello c e h sock peer s)) = ad_starting s"
  "ad_starting (snd (on_status c e nid st s)) = ad_starting s"
  "ad_starting (on_goodbye c e nid g s) = ad_starting s"
  "ad_starting (note_frame now nid ts adm s) = ad_starting s"
  "ad_starting (note_hello nid ts adm s) = ad_starting s"
  "ad_starting (keepalive_round e s) = ad_starting s"
  "ad_starting (settle_change c e before r s) = ad_starting s"
proof -
  show "ad_starting (snd (create_run c e label params zone s)) = ad_starting s"
    by (auto simp: create_run_def Let_def case_prod_beta split: sum.splits option.splits prod.splits)
  show "ad_starting (snd (set_ran_policy c e rid p s)) = ad_starting s"
    by (auto simp: set_ran_policy_def Let_def case_prod_beta split: sum.splits)
  show "ad_starting (snd (on_hello c e h sock peer s)) = ad_starting s"
    by (auto simp: on_hello_def Let_def split: option.splits)
  show "ad_starting (snd (on_status c e nid st s)) = ad_starting s"
    by (auto simp: on_status_def file_report_def late_stop_def Let_def send_effect case_prod_beta split: option.splits prod.splits bool.splits)
  show "ad_starting (on_goodbye c e nid g s) = ad_starting s"
    by (auto simp: on_goodbye_def Let_def split: option.splits)
qed (simp_all add: note_frame_def note_hello_def keepalive_round_def settle_change_def Let_def)

text \<open>An action on a run touches no other run's clock, and its own only when it starts it.\<close>

lemma act_starting:
  assumes "orch_wf s" and "clocked rid t s"
  shows "map_of (ad_starting (snd (act c e k a s))) rid = map_of (ad_starting s) rid"
proof (cases "k = rid")
  case True
  obtain r where r: "get_run_any s rid = Some r" "r_state r \<noteq> Draft"
    using assms(2) by (auto simp: clocked_def)
  have "\<not> (\<exists>st. advance (r_state r) Ev_Start = Inr st)"
    using r(2) by (cases "r_state r") auto
  then show ?thesis
    using True r by (auto simp: act_def act_stop_def act_remove_def Let_def case_prod_beta get_run_Inr get_run_any_def
        split: sum.splits run_action.splits simp del: advance_Inr)
next
  case False
  then show ?thesis
    using assms(1)
    by (auto simp: act_def act_start_def act_stop_def act_remove_def Let_def case_prod_beta get_run_Inr orch_wf_def
        table_wf_def split: sum.splits run_action.splits simp del: advance_Inr)
qed

section \<open>A pass\<close>

text \<open>A run whose quorum is met, or whose time is up, is past waiting when its pass is over.\<close>

lemma advance_opt_path: "advance_opt st ev = Inr st' \<Longrightarrow> run_path st st'"
  by (cases ev) (auto simp: advance_opt_def path_refl run_path_advance simp del: advance_Inr)

lemma judge_path:
  assumes "judge r ps up ev = Inr st" and "advance_opt (r_state r) ev = Inr st1"
  shows "run_path st1 st"
proof -
  have "sum_bind (advance_opt st1 (offline_event st1 ps up)) (\<lambda>st2. advance_opt st2 (reports_event st2 r ps)) = Inr st"
    using assms by (simp add: judge_def)
  then obtain st2 where "advance_opt st1 (offline_event st1 ps up) = Inr st2"
      "advance_opt st2 (reports_event st2 r ps) = Inr st"
    by (rule sum_bind_InrE)
  then show ?thesis
    using advance_opt_path run_path_trans by blast
qed

lemma advance_opt_None [simp]: "advance_opt st None = Inr st"
  by (simp add: advance_opt_def)

lemma supervise_run_state:
  assumes "watchdog c e r = None"
    and "judge r (pass_participants r s) (pass_online c e r s \<noteq> []) (pass_event c e r s) = Inr st"
    and "st \<noteq> r_state r"
  shows "\<exists>r'. get_run_any (snd (supervise_run c e r s)) (r_id r) = Some r' \<and> r_state r' = st
           \<and> (st \<in> {Stopped, Failed} \<longrightarrow>
                r_stopped r' = Some (en_utc e) \<and> r_findings r' = frozen_findings r (ad_findings s))"
  using assms
  by (simp add: supervise_run_def Let_def get_run_any_def settle_change_runs frozen_findings_def
      pass_left_def pass_bookkeeping_def pass_clocks_def put_run_def journal_def)

lemma supervise_leaves_start:
  assumes "map_of (ad_runs s) (r_id r) = Some r" and "pass_event c e r s \<in> {Some Quorum_Met, Some Start_Timeout}"
  shows "past_start (r_id r) (snd (supervise_run c e r s))"
proof -
  have start: "r_state r = Starting"
    using assms(2) by (auto simp: pass_event_def quorum_event_def split: run_state.splits if_splits)
  then have w: "watchdog c e r = None"
    by (simp add: watchdog_def)
  obtain st where st: "judge r (pass_participants r s) (pass_online c e r s \<noteq> []) (pass_event c e r s) = Inr st"
    using judge_legal [OF pass_event_def] by blast
  obtain st1 where st1: "advance_opt (r_state r) (pass_event c e r s) = Inr st1" "st1 \<in> {Running, Failed}"
    using assms(2) start by (auto simp: advance_opt_def advance_def)
  have "progress st1 \<le> progress st"
    using judge_path [OF st st1(1)] by (rule run_path_progress)
  then have past: "st \<notin> {Draft, Starting}"
    using st1(2) by auto
  then have moved: "st \<noteq> r_state r"
    using start by auto
  show ?thesis
    using supervise_run_state [OF w st moved] past by (auto simp: past_start_def)
qed

lemma supervise_ends_wait:
  assumes "clocked rid t s" and "map_of (ad_runs s) rid = Some r" and "r_id r = rid"
    and "cf_start_timeout c < en_mono e - t" and "table_wf (ad_runs s)"
  shows "past_start rid (snd (supervise_run c e r s))"
proof (cases "r_state r = Starting")
  case True
  then have "map_of (ad_starting s) rid = Some t"
    using assms(1,2) by (auto simp: clocked_def get_run_any_def)
  then have "pass_event c e r s \<in> {Some Quorum_Met, Some Start_Timeout}"
    using True assms(3,4) by (simp add: pass_event_def quorum_event_def)
  then show ?thesis
    using supervise_leaves_start [of s r c e] assms(2,3) by simp
next
  case False
  then have "past_start rid s"
    using assms(1,2) by (auto simp: clocked_def past_start_def get_run_any_def)
  then show ?thesis
    using past_start_table supervise_run_table [of s r c e] assms(2,3,5) by blast
qed

lemma supervise_run_clocked:
  assumes wf: "orch_wf s" and r: "map_of (ad_runs s) (r_id r) = Some r" and "clocked rid t s"
  shows "clocked rid t (snd (supervise_run c e r s))"
proof -
  have table: "table_steps (ad_runs s) (ad_runs (snd (supervise_run c e r s)))"
    using supervise_run_table [of s r c e] wf r by (simp add: orch_wf_def)
  have keep: "map_of (ad_starting (pass_bookkeeping c e r s)) rid = map_of (ad_starting s) rid"
    if "r_id r \<noteq> rid \<or> pass_event c e r s \<notin> {Some Quorum_Met, Some Start_Timeout}"
    using that by (auto simp: pass_bookkeeping_def pass_clocks_def)
  show ?thesis
  proof (cases "watchdog c e r")
    case (Some why)
    let ?s = "journal e (r_id r) ''auto-stop'' [(''reason'', JStr why)] s"
    have "orch_wf ?s" "clocked rid t ?s"
      using wf assms(3) by (simp_all add: orch_wf_def clocked_def get_run_any_def)
    then have "map_of (ad_starting (snd (supervise_run c e r s))) rid = map_of (ad_starting s) rid"
      using act_starting [of ?s rid t c e "r_id r" Act_Stop] by (simp add: supervise_run_def Some auto_stop_def)
    then show ?thesis
      using clocked_table [OF assms(3) table] by blast
  next
    case None
    obtain st where st: "judge r (pass_participants r s) (pass_online c e r s \<noteq> []) (pass_event c e r s) = Inr st"
      using judge_legal [OF pass_event_def] by blast
    have out: "map_of (ad_starting (snd (supervise_run c e r s))) rid = map_of (ad_starting (pass_bookkeeping c e r s)) rid"
      by (simp add: supervise_run_def None st Let_def starting_others)
    show ?thesis
    proof (cases "r_id r \<noteq> rid \<or> pass_event c e r s \<notin> {Some Quorum_Met, Some Start_Timeout}")
      case True
      then show ?thesis
        using clocked_table [OF assms(3) table] keep [OF True] out by simp
    next
      case False
      then have "past_start rid (snd (supervise_run c e r s))"
        using supervise_leaves_start [of s r c e] r by simp
      then show ?thesis
        by (rule past_clocked)
    qed
  qed
qed

lemma supervise_ids_clocked:
  assumes "orch_wf s" and "clocked rid t s"
  shows "orch_wf (snd (supervise_ids c e is s)) \<and> clocked rid t (snd (supervise_ids c e is s))
    \<and> (rid \<in> set is \<and> cf_start_timeout c < en_mono e - t \<longrightarrow> past_start rid (snd (supervise_ids c e is s)))"
  using assms
proof (induction "is" arbitrary: s)
  case Nil
  then show ?case by simp
next
  case (Cons i js)
  show ?case
  proof (cases "get_run_any s i")
    case None
    then have "i \<noteq> rid"
      using Cons.prems(2) by (auto simp: clocked_def)
    then show ?thesis
      using Cons None by simp
  next
    case (Some r)
    then have r: "map_of (ad_runs s) (r_id r) = Some r" and i: "r_id r = i"
      using Cons.prems(1) table_wf_id by (auto simp: get_run_any_def orch_wf_def)
    obtain u s' where s': "supervise_run c e r s = (Inr u, s')"
      using supervise_run_table [of s r c e] Cons.prems(1) r by (metis prod.collapse orch_wf_def)
    have steps: "table_steps (ad_runs s) (ad_runs s')" "ad_registry s' = ad_registry s"
      using supervise_run_table [of s r c e] Cons.prems(1) r by (simp_all add: s' orch_wf_def)
    have wf': "orch_wf s'"
      using steps Cons.prems(1) table_steps_wf by (auto simp: orch_wf_def)
    have c': "clocked rid t s'"
      using supervise_run_clocked [OF Cons.prems(1) r Cons.prems(2), of c e] by (simp add: s')
    have rest: "table_steps (ad_runs s') (ad_runs (snd (supervise_ids c e js s')))"
      using supervise_ids_table [of s' c e js] wf' by (simp add: orch_wf_def)
    have "past_start rid (snd (supervise_ids c e js s'))" if "i = rid" "cf_start_timeout c < en_mono e - t"
    proof -
      have "past_start rid s'"
        using supervise_ends_wait [of rid t s r c e] Cons.prems r i that by (simp add: s' orch_wf_def)
      then show ?thesis
        using past_start_table rest by blast
    qed
    then show ?thesis
      using Cons.IH [OF wf' c'] by (auto simp: Some s')
  qed
qed

lemma supervise_round_clocked:
  assumes "orch_wf s" and "clocked rid t s"
  shows "clocked rid t (supervise_round c e s)"
    and "cf_start_timeout c < en_mono e - t \<Longrightarrow> past_start rid (supervise_round c e s)"
proof -
  let ?s = "snd (supervise_once c e s)"
  have fields: "ad_runs (supervise_round c e s) = ad_runs ?s" "ad_starting (supervise_round c e s) = ad_starting ?s"
    by (simp_all add: supervise_round_def case_prod_beta Let_def refresh_findings_def split: sum.splits)
  have once: "clocked rid t ?s" "rid \<in> set (map r_id (active_runs s)) \<Longrightarrow> cf_start_timeout c < en_mono e - t \<Longrightarrow> past_start rid ?s"
    using supervise_ids_clocked [OF assms, of c e "map r_id (active_runs s)"] by (auto simp: supervise_once_def)
  show "clocked rid t (supervise_round c e s)"
    using once(1) by (simp add: clocked_def get_run_any_def fields)
  assume late: "cf_start_timeout c < en_mono e - t"
  have "past_start rid ?s"
  proof (cases "past_start rid s")
    case True
    then show ?thesis
      using past_start_table supervise_once_table [of s c e] assms(1) by (auto simp: orch_wf_def)
  next
    case False
    then obtain r where "map_of (ad_runs s) rid = Some r" "r_state r = Starting" "r_id r = rid"
      using assms table_wf_id by (auto simp: clocked_def past_start_def get_run_any_def orch_wf_def)
    then have "rid \<in> set (map r_id (active_runs s))"
      using assms(1) by (force simp: active_runs_def table_wf_vals orch_wf_def state_sets)
    then show ?thesis
      using once(2) late by blast
  qed
  then show "past_start rid (supervise_round c e s)"
    by (simp add: past_start_def get_run_any_def fields)
qed

section \<open>Every operation\<close>

lemma orch_step_clocked:
  assumes "orch_step c s s'" and "orch_wf s" and "clocked rid t s"
  shows "clocked rid t s'"
proof -
  note table = orch_step_table [OF assms(1,2)]
  from assms(1) show ?thesis
  proof cases
    case (os_act e k a)
    then show ?thesis
      using clocked_table [OF assms(3) table] act_starting [OF assms(2,3)] by simp
  next
    case (os_supervise e)
    then show ?thesis
      using supervise_round_clocked(1) [OF assms(2,3)] by simp
  qed (use clocked_table [OF assms(3) table] in \<open>simp_all add: starting_others\<close>)
qed

lemma orch_steps_clocked:
  "orch_steps c s s' \<Longrightarrow> orch_wf s \<Longrightarrow> clocked rid t s \<Longrightarrow> orch_wf s' \<and> clocked rid t s'"
proof (induction rule: rtranclp_induct)
  case (step s' s'')
  then show ?case
    using orch_step_clocked orch_step_wf by blast
qed simp

text \<open>An accepted start sets the clock.\<close>

lemma start_clocks:
  assumes "orch_wf s" and "act c e rid Act_Start s = (Inr r, s')"
  shows "orch_wf s'" and "clocked rid (en_mono e) s'"
proof -
  show "orch_wf s'"
    using acting.wf [OF assms(1), of c e rid Act_Start] assms(2) by simp
  obtain q where q: "map_of (ad_runs s) rid = Some q" "r_id q = rid"
    using assms table_wf_id by (auto simp: act_def get_run_Inr orch_wf_def split: sum.splits)
  show "clocked rid (en_mono e) s'"
    using assms(2) q by (cases "r_state q")
    (auto simp: act_def act_start_def Let_def get_run_Inr clocked_def get_run_any_def case_prod_beta
        split: sum.splits if_splits)
qed

end
