(* ===== verification/Orchestrator_Props.thy ===== *)
theory Orchestrator_Props
  imports Start_Clock
begin

text \<open>
  The properties of the orchestrator: one run per zone, runs that stay ended, passes that never
  raise and always end a run that is starting or stopping, commands that reach the nodes of their
  run and no others, what survives a restart, and the cases where the code does less than it says.
\<close>

section \<open>Example states for the witnesses\<close>

definition example_config :: config where
  "example_config =
     \<lparr>cf_keepalive = 5, cf_offline_timeout = 30, cf_start_timeout = 60, cf_stop_timeout = 60,
      cf_max_duration = 0, cf_min_free_start = 5, cf_min_free_abort = 1, cf_clock_warn = 0, cf_sha = [],
      cf_host = ''h'', cf_topology = default_topology, cf_float = (\<lambda>_. None)\<rparr>"

definition example_env :: "rat \<Rightarrow> rat \<Rightarrow> env" where
  "example_env now free =
     \<lparr>en_mono = now, en_utc = ''2025-01-01T00:00:00Z'', en_elapsed = (\<lambda>_. Some 1), en_free = Some free,
      en_ms = 7, en_random = replicate 10 0, en_socket_ok = (\<lambda>_. True)\<rparr>"

definition example_admin :: "run_state \<Rightarrow> node_record list \<Rightarrow> admin" where
  "example_admin st nodes =
     (new_admin example_config empty_disk uuid_start)
       \<lparr>ad_runs := [(''r1'', example_run ''r1'' st)],
        ad_registry := \<lparr>rg_nodes = map (\<lambda>n. (nr_id n, n)) nodes, rg_offline_timeout = 30\<rparr>,
        ad_sockets := map (\<lambda>n. (nr_id n, 1)) nodes\<rparr>"

definition member_node :: "string \<Rightarrow> node_type \<Rightarrow> node_record" where
  "member_node nid t = (example_node nid t [])\<lparr>nr_run_id := Some ''r1'', nr_state := Node_Running\<rparr>"

definition example_hello :: hello_payload where
  "example_hello =
     \<lparr>hp_node_type = Client, hp_node_id = ''c'', hp_host = ''h'', hp_zone = [], hp_pid = 1,
      hp_version_sha = [], hp_version_tag = [], hp_state = Idle, hp_run_id = None, hp_autostart = True,
      hp_params = []\<rparr>"

definition example_status :: status_payload where
  "example_status =
     \<lparr>sp_node_type = Xapp, sp_state = Idle, sp_run_id = None, sp_streaming = False,
      sp_subscribed = False, sp_peers = [], sp_params = [], sp_counters = [], sp_autostart = False,
      sp_last_error = None, sp_report = [(''rows'', JInt 3)]\<rparr>"

text \<open>A service that created and started a run on an empty disk, and one that found a run left
  running by a crash.\<close>

definition fresh_admin :: admin where
  "fresh_admin = new_admin example_config empty_disk uuid_start"

definition created_admin :: admin where
  "created_admin = snd (create_run example_config (example_env 1 100) [] [] [] fresh_admin)"

definition started_admin :: admin where
  "started_admin = snd (act example_config (example_env 2 100) (r_id (hd (vals (ad_runs created_admin))))
     Act_Start created_admin)"

definition interrupted_disk :: disk where
  "interrupted_disk = store_save ''h'' (example_run ''r1'' Running) empty_disk"

definition failed_admin :: admin where
  "failed_admin = snd (orch_start example_config (example_env 1 100)
     (new_admin example_config interrupted_disk uuid_start))"

lemmas example_defs =
  example_config_def example_env_def example_admin_def example_run_def example_node_def member_node_def
  fresh_record_def new_admin_def

section \<open>What is sent to whom\<close>

definition reachable_node :: "env \<Rightarrow> admin \<Rightarrow> string \<Rightarrow> bool" where
  "reachable_node e s nid \<longleftrightarrow>
     (case map_of (ad_sockets s) nid of None \<Rightarrow> False | Some k \<Rightarrow> en_socket_ok e k)"

lemma send_outbox:
  "ad_outbox (snd (send e nid f s)) = ad_outbox s @ (if reachable_node e s nid then [(nid, f)] else [])"
  "fst (send e nid f s) = reachable_node e s nid"
  by (simp_all add: send_def reachable_node_def split: option.splits)

lemma reachable_node_send [simp]: "reachable_node e (snd (send e n f s)) = reachable_node e s"
  by (simp add: reachable_node_def send_effect fun_eq_iff)

lemma send_all_outbox:
  "ad_outbox (snd (send_all e f ns s)) = ad_outbox s @ map (\<lambda>n. (n, f)) (filter (reachable_node e s) ns)"
  "fst (send_all e f ns s) = length (filter (reachable_node e s) ns)"
  by (induction ns arbitrary: s) (simp_all add: send_outbox case_prod_beta)

lemma broadcast_outbox:
  "ad_outbox (snd (broadcast_command e cmd i t a r m s)) = ad_outbox s
     @ map (\<lambda>n. (n, Command_Frame \<lparr>cp_command = cmd, cp_target = t, cp_run_id = i, cp_args = a\<rparr>))
         (filter (reachable_node e s) (command_targets e r m t s))"
  by (simp add: broadcast_command_def send_all_outbox)

text \<open>The nodes a run's lifecycle command may reach.\<close>

definition in_run_scope :: "env \<Rightarrow> run \<Rightarrow> admin \<Rightarrow> node_record \<Rightarrow> bool" where
  "in_run_scope e r s n \<longleftrightarrow>
     get_node (ad_registry s) (nr_id n) = Some n
     \<and> is_online (rg_offline_timeout (ad_registry s)) (en_mono e) n
     \<and> zone_of n = r_zone r \<and> serves (node_type_str (nr_type n)) (profile_of (r_params r))"

definition may_record :: "run \<Rightarrow> node_record \<Rightarrow> bool" where
  "may_record r n \<longleftrightarrow> nr_run_id n = Some (r_id r) \<or> nr_run_id n = None \<or> nr_run_id n = Some []"

lemma command_targets_scope:
  assumes "reg_wf (ad_registry s)"
  shows "nid \<in> set (command_targets e (Some r) m None s) \<longleftrightarrow>
           (\<exists>n. nr_id n = nid \<and> in_run_scope e r s n \<and> (m \<longrightarrow> may_record r n))"
  by (auto simp: command_targets_def Let_def online_mem all_nodes_mem [OF assms] in_run_scope_def
      may_record_def)

section \<open>What a pass decides\<close>

lemma start_times_out:
  assumes "r_state r = Starting" and "\<not> pass_quorum c e r s"
    and "map_of (ad_starting s) (r_id r) = Some t" and "cf_start_timeout c < en_mono e - t"
  shows "\<exists>r'. get_run_any (snd (supervise_run c e r s)) (r_id r) = Some r' \<and> r_state r' = Failed"
proof -
  have "watchdog c e r = None" "pass_event c e r s = Some Start_Timeout"
    using assms by (simp_all add: watchdog_def pass_event_def quorum_event_def)
  moreover from this assms(1)
  have "judge r (pass_participants r s) (pass_online c e r s \<noteq> []) (pass_event c e r s) = Inr Failed"
    by (simp add: judge_def advance_opt_def advance_def offline_event_def reports_event_def)
  ultimately show ?thesis
    using supervise_run_state [of c e r s Failed] assms(1) by auto
qed


section \<open>What an action does\<close>

lemma act_stop_result:
  assumes "get_run rid s = Inr r" and "r_id r = rid" and "advance (r_state r) Ev_Stop = Inr st"
  shows "\<exists>s'. act c e rid Act_Stop s = (Inr (r\<lparr>r_state := st\<rparr>), s')
           \<and> get_run rid s' = Inr (r\<lparr>r_state := st\<rparr>)"
proof -
  let ?r = "r\<lparr>r_state := st\<rparr>"
  have "act c e rid Act_Stop s = (Inr ?r, persist c e ?r ''stop'' [(''to'', JStr (run_state_str st))]
      (snd (act_stop e ?r (put_run ?r s))))"
    using assms by (simp add: act_def act_stop_def Let_def del: advance_Inr)
  moreover have "\<not> r_removed r"
    using assms(1) by (simp add: get_run_Inr)
  ultimately show ?thesis
    using assms(2) by (simp add: get_run_Inr act_stop_def Let_def)
qed

lemma act_success_disk:
  assumes "act c e rid a s = (Inr r, s')"
  shows "\<exists>d. ad_disk s' = commit_run (en_utc e) (cf_host c) (run_action_str a) r d \<and> d = ad_disk s"
proof -
  have "persist c e q ev [(''to'', JStr (run_state_str (r_state q)))] t
        = t\<lparr>ad_disk := commit_run (en_utc e) (cf_host c) ev q (ad_disk t)\<rparr>" for q ev t
    by (simp add: persist_def journal_def save_run_def commit_run_def)
  then show ?thesis
    using assms
    by (auto simp: act_def act_start_def act_stop_def act_remove_def Let_def case_prod_beta put_run_def
        persist_def journal_def save_run_def commit_run_def
        split: sum.splits run_action.splits if_splits simp del: advance_Inr)
qed

lemma active_runs_zones:
  assumes wf: "table_wf (ad_runs s)"
  shows "distinct (map r_zone (active_runs s))"
proof -
  have "map r_id (vals (ad_runs s)) = keys (ad_runs s)"
    using wf by (auto simp: table_wf_def vals_def keys_def)
  then have "distinct (vals (ad_runs s))"
    using wf by (metis distinct_map table_wf_def)
  moreover have "inj_on r_zone (set (active_runs s))"
  proof (rule inj_onI)
    fix q r assume "q \<in> set (active_runs s)" "r \<in> set (active_runs s)" "r_zone q = r_zone r"
    then show "q = r"
      using active_runs_mem [OF wf] wf by (metis no_other_def option.inject table_wf_def)
  qed
  ultimately show ?thesis
    by (simp add: distinct_map active_runs_def)
qed

lemma fresh_admin_reachable: "orch_reachable example_config fresh_admin"
proof (rule or_start)
  show "disk_keyed (en_utc (example_env 0 0)) empty_disk"
    by (simp add: disk_keyed_def store_load_def empty_disk_def keys_def)
  show "orch_start example_config (example_env 0 0) (new_admin example_config empty_disk uuid_start)
      = (Inr (), fresh_admin)"
    by (simp add: orch_start_def store_load_def empty_disk_def fresh_admin_def new_admin_def vals_def)
qed

lemma created_admin_reachable: "orch_reachable example_config created_admin"
proof -
  have "fresh_id (example_env 1 100) fresh_admin"
    by (simp add: fresh_id_def get_run_any_def fresh_admin_def new_admin_def split: option.splits)
  then show ?thesis
    unfolding created_admin_def by (intro or_step [OF fresh_admin_reachable] os_create)
qed

lemma started_admin_reachable: "orch_reachable example_config started_admin"
  unfolding started_admin_def by (rule or_step [OF created_admin_reachable os_act])

lemma created_admin_runs:
  "\<exists>rid r. ad_runs created_admin = [(rid, r)] \<and> r_id r = rid \<and> r_state r = Draft \<and> \<not> r_removed r"
proof -
  have "\<exists>b. uuid_bytes ts n (replicate 10 0) = Some b" if "ts < 256 ^ 6" for ts n
    using that by (intro uuid_bytes_some) simp_all
  then have "\<exists>rid u. uuid7 7 (replicate 10 0) uuid_start = (Some rid, u)"
    by (simp add: uuid7_def uuid_tick_def uuid_start_def)
  then show ?thesis
    by (auto simp: created_admin_def create_run_def fresh_admin_def new_admin_def example_config_def
        example_env_def declared_def default_topology_def profile_of_def pget_def py_or_def profiles_def
        default_profile_def resolve_params_def Let_def)
qed

lemma started_admin_active: "active_runs started_admin \<noteq> []"
proof -
  obtain rid r where r: "ad_runs created_admin = [(rid, r)]" "r_id r = rid" "r_state r = Draft" "\<not> r_removed r"
    using created_admin_runs by blast
  have "slot_free rid r created_admin" "get_run rid created_admin = Inr r"
    using r by (auto simp: slot_free_def active_run_in_def vals_def get_run_Inr)
  then show ?thesis
    using r by (simp add: started_admin_def vals_def act_def act_start_def Let_def advance_def headroom_ok_def
        example_env_def example_config_def active_runs_def state_sets)
qed

lemma interrupted_load:
  "store_load now interrupted_disk = Inr [(''r1'', restored (example_run ''r1'' Running))]"
proof -
  have "savable (example_run ''r1'' Running)"
    by (simp add: savable_def example_run_def)
  then show ?thesis
    by (simp add: interrupted_disk_def store_save_def empty_disk_def store_load_def from_to_manifest)
       (simp add: example_run_def)
qed

lemma interrupted_keyed: "disk_keyed (en_utc (example_env 1 100)) interrupted_disk"
  by (simp add: disk_keyed_def interrupted_load keys_def restored_def example_run_def)

lemma interrupted_start:
  "orch_start example_config (example_env 1 100) (new_admin example_config interrupted_disk uuid_start)
     = (Inr (), failed_admin)"
  by (simp add: failed_admin_def orch_start_def new_admin_def interrupted_load)

lemma failed_admin_reachable: "orch_reachable example_config failed_admin"
  by (rule or_start [OF interrupted_keyed interrupted_start])

lemma failed_admin_run: "\<exists>r. get_run_any failed_admin ''r1'' = Some r \<and> r_state r = Failed"
  by (simp add: failed_admin_def orch_start_def new_admin_def interrupted_load vals_def fail_interrupted_def
      Let_def get_run_any_def restored_def example_run_def state_sets)

section \<open>Properties\<close>

text \<open>C1. One run per zone: in every state the service can reach, whatever operators press, nodes send
  and passes decide, the runs that hold a slot are in pairwise different zones.\<close>

theorem one_run_per_zone:
  assumes "orch_reachable c s"
  shows "distinct (map r_zone (active_runs s))"
  using orch_reachable_wf [OF assms] by (simp add: orch_wf_def active_runs_zones)

theorem one_run_per_zone_witness:
  "distinct (map r_zone (active_runs started_admin)) \<and> active_runs started_admin \<noteq> []"
  using one_run_per_zone [OF started_admin_reachable] started_admin_active by simp

text \<open>C2. A run that has ended never comes back: from any reachable state, after any sequence of
  operations, it is still in the table, in its zone, ended, and holds no slot.\<close>

theorem ended_run_stays_ended:
  assumes "orch_reachable c s" and "orch_steps c s s'"
    and "get_run_any s k = Some r" and "is_terminal (r_state r)"
  shows "\<exists>r'. get_run_any s' k = Some r' \<and> r_zone r' = r_zone r \<and> is_terminal (r_state r')
           \<and> r' \<notin> set (active_runs s')"
proof -
  have wf: "orch_wf s"
    using assms(1) by (rule orch_reachable_wf)
  obtain r' where r': "map_of (ad_runs s') k = Some r'" "r_zone r' = r_zone r"
    and path: "run_path (r_state r) (r_state r')"
    using table_steps_path [of "ad_runs s" "ad_runs s'" k r] orch_steps_table [OF assms(2) wf] assms(3)
    by (auto simp: get_run_any_def)
  have "is_terminal (r_state r')"
    using run_path_progress [OF path] assms(4) by (simp add: progress_terminal)
  with r' show ?thesis
    by (auto simp: get_run_any_def active_runs_def terminal_not_occupying)
qed

theorem ended_run_stays_ended_witness:
  "\<exists>r'. get_run_any (supervise_round example_config (example_env 9 100) failed_admin) ''r1'' = Some r'
     \<and> is_terminal (r_state r')"
  using ended_run_stays_ended [OF failed_admin_reachable, of
      "supervise_round example_config (example_env 9 100) failed_admin" "''r1''"]
    failed_admin_run os_supervise [of example_config failed_admin "example_env 9 100"]
  by (fastforce simp: state_sets)

text \<open>C35. The supervise pass never raises: in every reachable state each event it raises is legal where
  it raises it, so no run can stop the supervision of the others.\<close>

theorem supervise_never_raises:
  assumes "orch_reachable c s"
  shows "\<exists>s'. supervise_once c e s = (Inr (), s')"
  using supervise_once_table [of s c e] orch_reachable_wf [OF assms]
  by (metis orch_wf_def old.unit.exhaust prod.collapse)

theorem supervise_never_raises_witness:
  "\<exists>s'. supervise_once example_config (example_env 9 100) started_admin = (Inr (), s')"
  by (rule supervise_never_raises [OF started_admin_reachable])

text \<open>After a restart no slot is held: a run that was mid-flight when the process died is marked
  failed before anything else happens, so every zone can start a run.\<close>

theorem startup_frees_every_slot:
  assumes "disk_keyed (en_utc e) d" and "orch_start c e (new_admin c d u) = (Inr (), s)"
  shows "active_runs s = [] \<and> orch_wf s"
  using orch_start_settled [OF assms] by simp

theorem startup_frees_every_slot_witness:
  "active_runs failed_admin = [] \<and> orch_wf failed_admin"
  by (rule startup_frees_every_slot [OF interrupted_keyed interrupted_start])

text \<open>C36. An operator can always end a run: a first stop of an active run is never refused and puts it in
  \<open>stopping\<close>, and a second one, at any time, ends it without waiting for the nodes.\<close>

theorem two_stops_end_run:
  assumes "get_run rid s = Inr r" and "r_id r = rid" and "r_state r \<in> {Starting, Running, Degraded}"
  shows "\<exists>s1 s2. act c e rid Act_Stop s = (Inr (r\<lparr>r_state := Stopping\<rparr>), s1)
           \<and> act c e' rid Act_Stop s1 = (Inr (r\<lparr>r_state := Stopped\<rparr>), s2)"
proof -
  have 1: "advance (r_state r) Ev_Stop = Inr Stopping"
    using assms(3) by auto
  obtain s1 where s1: "act c e rid Act_Stop s = (Inr (r\<lparr>r_state := Stopping\<rparr>), s1)"
      "get_run rid s1 = Inr (r\<lparr>r_state := Stopping\<rparr>)"
    using act_stop_result [OF assms(1,2) 1, of c e] by blast
  show ?thesis
    using act_stop_result [OF s1(2), of Stopped c e'] assms(2) s1(1) by auto
qed

theorem two_stops_end_run_witness:
  "\<exists>s1 s2. act example_config (example_env 1 100) ''r1'' Act_Stop (example_admin Running [])
       = (Inr (example_run ''r1'' Stopping), s1)
     \<and> act example_config (example_env 2 100) ''r1'' Act_Stop s1 = (Inr (example_run ''r1'' Stopped), s2)"
  using two_stops_end_run [of "''r1''" "example_admin Running []" "example_run ''r1'' Running" example_config
      "example_env 1 100" "example_env 2 100"]
  by (simp add: example_admin_def get_run_Inr example_run_def)

text \<open>C14. A stop reaches exactly the nodes of its run: the frames an accepted stop sends go to the nodes
  that are online in the run's zone, serve its profile, recorded this run or have not said what they
  record, and whose socket takes the frame. No other zone's nodes hear it.\<close>

theorem stop_reaches_members_only:
  assumes "reg_wf (ad_registry s)" and "act c e rid Act_Stop s = (Inr r, s')" and "r_id r = rid"
  shows "\<exists>sent. ad_outbox s' = ad_outbox s @ sent \<and>
           (\<forall>nid f. (nid, f) \<in> set sent \<longleftrightarrow>
              f = Command_Frame \<lparr>cp_command = Run_Stop, cp_target = None, cp_run_id = Some rid, cp_args = []\<rparr>
              \<and> reachable_node e s nid \<and> (\<exists>n. nr_id n = nid \<and> in_run_scope e r s n \<and> may_record r n))"
proof -
  let ?f = "Command_Frame \<lparr>cp_command = Run_Stop, cp_target = None, cp_run_id = Some rid, cp_args = []\<rparr>"
  have out: "ad_outbox s' = ad_outbox s @ map (\<lambda>n. (n, ?f))
      (filter (reachable_node e s) (command_targets e (Some r) True None s))"
    using assms(2,3)
    by (auto simp: act_def act_stop_def Let_def case_prod_beta broadcast_outbox persist_def journal_def
        save_run_def put_run_def command_targets_def reachable_node_def [abs_def]
        split: sum.splits if_splits simp del: advance_Inr)
  show ?thesis
    unfolding out by (auto simp: command_targets_scope [OF assms(1)])
qed

theorem stop_reaches_members_only_witness:
  "\<exists>r s' sent. act example_config (example_env 91 100) ''r1'' Act_Stop
        (example_admin Running [member_node ''c'' Client]) = (Inr r, s')
     \<and> ad_outbox s' = [] @ sent \<and> fst ` set sent = {''c''}"
proof -
  let ?s = "example_admin Running [member_node ''c'' Client]" and ?e = "example_env 91 100"
  let ?r = "example_run ''r1'' Stopping"
  obtain s' where a: "act example_config ?e ''r1'' Act_Stop ?s = (Inr ?r, s')"
    using act_stop_result [of "''r1''" ?s "example_run ''r1'' Running" Stopping example_config ?e]
    by (auto simp: example_admin_def get_run_Inr example_run_def)
  have wf: "reg_wf (ad_registry ?s)"
    by (simp add: example_admin_def reg_wf_def keys_def)
  obtain sent where sent: "ad_outbox s' = ad_outbox ?s @ sent"
    and mem: "\<And>nid f. (nid, f) \<in> set sent \<longleftrightarrow>
      f = Command_Frame \<lparr>cp_command = Run_Stop, cp_target = None, cp_run_id = Some ''r1'', cp_args = []\<rparr>
      \<and> reachable_node ?e ?s nid \<and> (\<exists>n. nr_id n = nid \<and> in_run_scope ?e ?r ?s n \<and> may_record ?r n)"
    using stop_reaches_members_only [OF wf a] by (auto simp: example_run_def)
  have node: "get_node (ad_registry ?s) nid = (if nid = ''c'' then Some (member_node ''c'' Client) else None)" for nid
    by (simp add: example_admin_def get_node_def member_node_def example_node_def fresh_record_def)
  let ?n = "member_node ''c'' Client"
  have n: "in_run_scope ?e ?r ?s ?n" "may_record ?r ?n" "reachable_node ?e ?s ''c''" "nr_id ?n = ''c''"
    by (simp_all add: in_run_scope_def get_node_def is_online_def example_defs zone_of_def str_or_def
        default_zone_def serves_def node_type_of_def node_types_def profile_of_def pget_def py_or_def
        default_profile_def may_record_def reachable_node_def)
  have only: "n = ?n" if "in_run_scope ?e ?r ?s n" for n
    using that node [of "nr_id n"] by (cases "nr_id n = ''c''") (simp_all add: in_run_scope_def)
  have "fst ` set sent \<subseteq> {''c''}"
  proof clarify
    fix nid f assume "(nid, f) \<in> set sent"
    then obtain m where "nr_id m = nid" "in_run_scope ?e ?r ?s m"
      unfolding mem by blast
    then show "fst (nid, f) = ''c''"
      using only [of m] n(4) by simp
  qed
  moreover have "''c'' \<in> fst ` set sent"
    using n mem [of "''c''"] by (intro image_eqI [where x = "(''c'', _)"]) auto
  ultimately have "fst ` set sent = {''c''}"
    by blast
  with a sent show ?thesis
    by (auto simp: example_admin_def new_admin_def)
qed

text \<open>C37. Starting is bounded, from the start the code accepted: whatever the service does in between (any
  calls, any frames from the nodes, any passes before the timeout), the first pass of the supervisor more
  than the start timeout later leaves the run neither draft nor starting, and a run that is still starting
  and has no quorum when its turn in the pass comes is marked failed there. A start that is refused, such
  as the one refused for a full disk that leaves its run starting without a recorded time, is not an
  accepted one, and the bound does not speak of it.\<close>

theorem starting_is_bounded:
  assumes "orch_reachable c s" and "act c e0 rid Act_Start s = (Inr r0, s1)" and "orch_steps c s1 s2"
    and "cf_start_timeout c < en_mono e - en_mono e0"
  shows "(\<exists>r. get_run_any (supervise_round c e s2) rid = Some r \<and> r_state r \<notin> {Draft, Starting})
    \<and> (\<forall>r. get_run_any s2 rid = Some r \<and> r_state r = Starting \<and> \<not> pass_quorum c e r s2 \<longrightarrow>
          (\<exists>r'. get_run_any (snd (supervise_run c e r s2)) rid = Some r' \<and> r_state r' = Failed))"
proof -
  have s1: "orch_wf s1" "clocked rid (en_mono e0) s1"
    using start_clocks [OF orch_reachable_wf [OF assms(1)] assms(2)] by simp_all
  have s2: "orch_wf s2" "clocked rid (en_mono e0) s2"
    using orch_steps_clocked [OF assms(3) s1] by simp_all
  have "r_id r = rid \<and> map_of (ad_starting s2) rid = Some (en_mono e0)"
    if "get_run_any s2 rid = Some r" "r_state r = Starting" for r
    using that s2 table_wf_id by (auto simp: clocked_def get_run_any_def orch_wf_def)
  then show ?thesis
    using supervise_round_clocked(2) [OF s2 assms(4)] start_times_out assms(4) unfolding past_start_def by metis
qed

theorem starting_is_bounded_witness:
  "\<exists>rid r. get_run_any started_admin rid = Some r \<and> r_state r = Starting
    \<and> (\<exists>r'. get_run_any (supervise_round example_config (example_env 100 100) started_admin) rid = Some r'
          \<and> r_state r' \<notin> {Draft, Starting})"
proof -
  obtain rid r where r: "ad_runs created_admin = [(rid, r)]" "r_id r = rid" "r_state r = Draft" "\<not> r_removed r"
    using created_admin_runs by blast
  have free: "slot_free rid r created_admin" "get_run rid created_admin = Inr r"
    using r by (auto simp: slot_free_def active_run_in_def vals_def get_run_Inr)
  have start: "started_admin = snd (act example_config (example_env 2 100) rid Act_Start created_admin)"
    using r by (simp add: started_admin_def vals_def)
  have "\<exists>r0. fst (act example_config (example_env 2 100) rid Act_Start created_admin) = Inr r0"
    "\<exists>r1. get_run_any started_admin rid = Some r1 \<and> r_state r1 = Starting"
    using r free by (simp_all add: start act_def act_start_def Let_def advance_def headroom_ok_def
        example_env_def example_config_def get_run_any_def)
  moreover from this(1)
  have "\<exists>r'. get_run_any (supervise_round example_config (example_env 100 100) started_admin) rid = Some r'
      \<and> r_state r' \<notin> {Draft, Starting}"
    using starting_is_bounded [OF created_admin_reachable, of "example_env 2 100" rid _ started_admin started_admin
        "example_env 100 100"] start
    by (auto simp: prod_eq_iff example_config_def example_env_def)
  ultimately show ?thesis by blast
qed



text \<open>When the pass fails a run, the nodes recording it are told: every online node of the run's zone
  that serves its profile and may be recording it, and whose socket takes the frame, is sent the stop,
  and the manifest freezes the time and the findings of this zone or of none.\<close>

theorem failed_run_stops_its_nodes:
  assumes "reg_wf (ad_registry s)" and "watchdog c e r = None" and "r_state r \<noteq> Failed"
    and "judge r (pass_participants r s) (pass_online c e r s \<noteq> []) (pass_event c e r s) = Inr Failed"
    and "in_run_scope e r s n" and "may_record r n" and "reachable_node e s (nr_id n)"
  shows "(nr_id n, Command_Frame \<lparr>cp_command = Run_Stop, cp_target = None, cp_run_id = Some (r_id r),
            cp_args = []\<rparr>) \<in> set (ad_outbox (snd (supervise_run c e r s)))
         \<and> (\<exists>r'. get_run_any (snd (supervise_run c e r s)) (r_id r) = Some r' \<and> r_state r' = Failed
              \<and> r_stopped r' = Some (en_utc e) \<and> r_findings r' = frozen_findings r (ad_findings s))"
proof -
  let ?t = "pass_left Failed r (pass_bookkeeping c e r s)"
  let ?r1 = "r\<lparr>r_state := Failed, r_stopped := Some (en_utc e), r_findings := frozen_findings r (ad_findings s)\<rparr>"
  have same: "ad_registry ?t = ad_registry s" "ad_sockets ?t = ad_sockets s" "ad_outbox ?t = ad_outbox s"
    "ad_findings ?t = ad_findings s"
    by (simp_all add: pass_left_def pass_bookkeeping_def pass_clocks_def journal_def)
  define t where "t = persist c e ?r1 ''auto'' [(''from'', JStr (run_state_str (r_state r))),
      (''to'', JStr (run_state_str Failed))] (put_run ?r1 (put_run (r\<lparr>r_state := Failed\<rparr>) ?t))"
  have t: "ad_registry t = ad_registry s" "ad_sockets t = ad_sockets s"
    using same by (simp_all add: t_def persist_def journal_def save_run_def put_run_def)
  have out: "snd (supervise_run c e r s)
      = snd (broadcast_command e Run_Stop (Some (r_id r)) None [] (Some ?r1) True t)"
    using assms(2-4) same
    by (simp add: supervise_run_def settle_change_def Let_def t_def frozen_findings_def put_run_def)
  have "nr_id n \<in> set (command_targets e (Some ?r1) True None t)"
    using assms(1,5,6) t command_targets_scope [of t "nr_id n" e ?r1 True]
    by (auto simp: in_run_scope_def may_record_def)
  moreover have "reachable_node e t (nr_id n)"
    using assms(7) by (simp add: reachable_node_def t)
  ultimately have "(nr_id n, Command_Frame \<lparr>cp_command = Run_Stop, cp_target = None,
      cp_run_id = Some (r_id r), cp_args = []\<rparr>) \<in> set (ad_outbox (snd (supervise_run c e r s)))"
    unfolding out by (simp add: broadcast_outbox)
  then show ?thesis
    using supervise_run_state [OF assms(2,4)] assms(3) by auto
qed

theorem failed_run_stops_its_nodes_witness:
  "(''c'', Command_Frame \<lparr>cp_command = Run_Stop, cp_target = None, cp_run_id = Some ''r1'', cp_args = []\<rparr>)
     \<in> set (ad_outbox (snd (supervise_run example_config (example_env 91 100) (example_run ''r1'' Starting)
          ((example_admin Starting [member_node ''c'' Client])\<lparr>ad_starting := [(''r1'', 1)]\<rparr>))))"
proof -
  let ?s = "(example_admin Starting [member_node ''c'' Client])\<lparr>ad_starting := [(''r1'', 1)]\<rparr>"
  let ?r = "example_run ''r1'' Starting" and ?e = "example_env 91 100" and ?n = "member_node ''c'' Client"
  have wf: "reg_wf (ad_registry ?s)"
    by (simp add: example_admin_def reg_wf_def keys_def)
  have "judge ?r (pass_participants ?r ?s) (pass_online example_config ?e ?r ?s \<noteq> [])
      (pass_event example_config ?e ?r ?s) = Inr Failed"
    by code_simp
  moreover have "watchdog example_config ?e ?r = None" "r_state ?r \<noteq> Failed"
    by (simp_all add: watchdog_def example_run_def)
  moreover have "in_run_scope ?e ?r ?s ?n" "may_record ?r ?n" "reachable_node ?e ?s (nr_id ?n)"
    by (simp_all add: in_run_scope_def get_node_def is_online_def example_defs zone_of_def str_or_def
        default_zone_def serves_def node_type_of_def node_types_def profile_of_def pget_def py_or_def
        default_profile_def may_record_def reachable_node_def)
  ultimately show ?thesis
    using failed_run_stops_its_nodes [OF wf, of example_config ?e ?r ?n]
    by (simp add: example_run_def member_node_def example_node_def fresh_record_def)
qed

text \<open>What an accepted action did survives a restart: on a disk that loads, the table a restart finds
  is the old one with the run as the action left it.\<close>

theorem action_survives_restart:
  assumes "disk_ok now (ad_disk s)" and "act c e rid a s = (Inr r, s')" and "savable r"
  shows "store_lookup now (ad_disk s') = (store_lookup now (ad_disk s))(r_id r \<mapsto> restored r)"
  using act_success_disk [OF assms(2)] json_store.recorded_transition [OF assms(1,3)]
  by (auto simp: commit_run_def journal_state_def)

theorem action_survives_restart_witness:
  "\<exists>s'. act example_config (example_env 1 100) ''r1'' Act_Stop (example_admin Running [])
       = (Inr (example_run ''r1'' Stopping), s')
     \<and> store_lookup ''now'' (ad_disk s') ''r1'' = Some (restored (example_run ''r1'' Stopping))"
proof -
  let ?s = "example_admin Running []" and ?r = "example_run ''r1'' Stopping"
  obtain s' where a: "act example_config (example_env 1 100) ''r1'' Act_Stop ?s = (Inr ?r, s')"
    using act_stop_result [of "''r1''" ?s "example_run ''r1'' Running" Stopping example_config "example_env 1 100"]
    by (auto simp: example_admin_def get_run_Inr example_run_def)
  have "disk_ok ''now'' (ad_disk ?s)" "savable ?r"
    by (simp_all add: example_admin_def new_admin_def disk_ok_def empty_disk_def keys_def savable_def
        example_run_def)
  then show ?thesis
    using action_survives_restart [OF _ a] a by (auto simp: example_run_def)
qed

text \<open>A joining node is offered its own zone's run, and only one it may still join: the run a welcome
  names holds the zone's slot, accepts participants and is of a profile the node's type serves.\<close>

theorem welcome_offers_own_zone:
  assumes "table_wf (ad_runs s)" and "on_hello c e h sock peer s = (w, s')"
    and "wp_active_run w = Some offer"
  shows "\<exists>r. get_run_any s (ar_run_id offer) = Some r \<and> r_state r \<in> accepts_participants
           \<and> r_zone r = str_or (hp_zone h) default_zone
           \<and> serves (node_type_str (hp_node_type h)) (profile_of (r_params r))"
proof -
  let ?R = "update_node (hp_node_id h) (address_update peer) (reg_on_hello (en_mono e) h (ad_registry s))"
  let ?s1 = "attach_node (hp_node_id h) sock (s\<lparr>ad_registry := ?R\<rparr>)"
  obtain n where n: "get_node ?R (hp_node_id h) = Some n" "nr_zone n = hp_zone h" "nr_type n = hp_node_type h"
    by (auto simp: reg_on_hello_def Let_def hello_update_def address_update_def split: option.splits)
  from assms(2,3) obtain r where r: "active_run_in ?s1 (zone_of n) = Some r"
      "r_state r \<in> accepts_participants" "serves (node_type_str (nr_type n)) (profile_of (r_params r))"
    and offer: "offer = \<lparr>ar_run_id = r_id r, ar_label = r_label r, ar_params = r_params r\<rparr>"
    by (auto simp: on_hello_def Let_def n(1) simp del: get_update_node split: option.splits if_splits)
  have "table_wf (ad_runs ?s1)"
    using assms(1) by simp
  from active_run_in_Some [OF this r(1)] r(2,3) show ?thesis
    by (auto simp: offer get_run_any_def zone_of_def n)
qed

theorem welcome_offers_own_zone_witness:
  "\<exists>w s'. on_hello example_config (example_env 1 100) example_hello 3 None (example_admin Running []) = (w, s')
     \<and> wp_active_run w = Some \<lparr>ar_run_id = ''r1'', ar_label = ''label'', ar_params = [(''rate_hz'', JInt 10)]\<rparr>
     \<and> (\<exists>r. get_run_any (example_admin Running []) ''r1'' = Some r \<and> r_state r \<in> accepts_participants)"
proof -
  let ?s = "example_admin Running []"
  let ?offer = "\<lparr>ar_run_id = ''r1'', ar_label = ''label'', ar_params = [(''rate_hz'', JInt 10)]\<rparr>"
  obtain w s' where h: "on_hello example_config (example_env 1 100) example_hello 3 None ?s = (w, s')"
    by fastforce
  have "wp_active_run (fst (on_hello example_config (example_env 1 100) example_hello 3 None ?s)) = Some ?offer"
    by code_simp
  then have w: "wp_active_run w = Some ?offer"
    by (simp add: h)
  have "table_wf (ad_runs ?s)"
    by (auto simp: example_admin_def table_wf_def keys_def no_other_def example_run_def split: if_splits)
  then show ?thesis
    using welcome_offers_own_zone [OF _ h w] h w by auto
qed

text \<open>A start refused for lack of disk space still takes the zone's slot: the run is left
  \<open>starting\<close>, nothing of it is persisted, and, since no start time was recorded, no later pass
  without participants ever times it out.\<close>

theorem low_disk_start_keeps_slot:
  assumes "get_run rid s = Inr r" and "r_id r = rid" and "r_state r = Draft" and "slot_free rid r s"
    and "\<not> headroom_ok c e" and "map_of (ad_starting s) rid = None"
    and "participants_of (ad_registry s) rid = []"
    and "required_roles_for (cf_topology c) (profile_of (r_params r)) \<noteq> []"
  shows "\<exists>r' s'. act c e rid Act_Start s = (Inl Low_Disk, s') \<and> ad_disk s' = ad_disk s
           \<and> get_run_any s' rid = Some r' \<and> r_state r' = Starting
           \<and> (\<forall>e'. get_run_any (snd (supervise_run c e' r' s')) rid = Some r')"
proof -
  let ?r = "r\<lparr>r_state := Starting, r_started := Some (en_utc e),
              r_ue_map := frozen_ue_map c (r\<lparr>r_state := Starting\<rparr>)\<rparr>"
  let ?s = "put_run ?r (put_run (r\<lparr>r_state := Starting\<rparr>) s)"
  have act: "act c e rid Act_Start s = (Inl Low_Disk, ?s)"
    using assms(1-5) by (simp add: act_def act_start_def Let_def advance_def)
  have "get_run_any (snd (supervise_run c e' ?r ?s)) rid = Some ?r" for e'
  proof -
    have none: "pass_participants ?r ?s = []" "pass_online c e' ?r ?s = []"
      using assms(2,7) by (simp_all add: pass_participants_def pass_online_def)
    then have "\<not> pass_quorum c e' ?r ?s"
      using assms(8) by (auto simp: pass_quorum_def has_quorum_def neq_Nil_conv)
    then have ev: "pass_event c e' ?r ?s = None"
      using assms(2,6) by (simp add: pass_event_def quorum_event_def put_run_def)
    have "judge ?r (pass_participants ?r ?s) (pass_online c e' ?r ?s \<noteq> []) (pass_event c e' ?r ?s) = Inr Starting"
      by (simp add: judge_def ev none offline_event_def reports_event_def)
    then show ?thesis
      using assms(2) by (simp add: supervise_run_def watchdog_def get_run_any_def Let_def)
  qed
  with act assms(2) show ?thesis
    by (auto simp: get_run_any_def put_run_def)
qed

theorem low_disk_start_keeps_slot_witness:
  "\<exists>r' s'. act example_config (example_env 1 2) ''r1'' Act_Start (example_admin Draft []) = (Inl Low_Disk, s')
     \<and> get_run_any s' ''r1'' = Some r' \<and> r_state r' = Starting"
proof -
  have "slot_free ''r1'' (example_run ''r1'' Draft) (example_admin Draft [])"
    "\<not> headroom_ok example_config (example_env 1 2)"
    "participants_of (ad_registry (example_admin Draft [])) ''r1'' = []"
    "required_roles_for (cf_topology example_config) (profile_of (r_params (example_run ''r1'' Draft))) \<noteq> []"
    by code_simp+
  then show ?thesis
    using low_disk_start_keeps_slot [of "''r1''" "example_admin Draft []" "example_run ''r1'' Draft"
        example_config "example_env 1 2"]
    by (auto simp: get_run_Inr example_admin_def new_admin_def example_run_def)
qed

text \<open>The end of a replaced connection marks a live node offline: when a node has reconnected, the
  teardown of its old socket leaves the new socket in place and still clears the node's connection flag,
  so a node that answers on its socket is not online.\<close>

theorem stale_detach_marks_offline:
  assumes "get_node (ad_registry s) nid = Some n" and "map_of (ad_sockets s) nid = Some new" and "new \<noteq> old"
  shows "map_of (ad_sockets (detach_node nid old s)) nid = Some new
    \<and> (\<exists>n'. get_node (ad_registry (detach_node nid old s)) nid = Some n'
          \<and> \<not> is_online timeout now n')"
  using assms by (auto simp: detach_node_def on_disconnect_def disconnect_update_def is_online_def)

theorem stale_detach_marks_offline_witness:
  "\<exists>n'. get_node (ad_registry (detach_node ''c'' 0 (example_admin Running [member_node ''c'' Client]))) ''c''
       = Some n' \<and> \<not> is_online 30 91 n'"
  using stale_detach_marks_offline [of "example_admin Running [member_node ''c'' Client]" "''c''"
      "member_node ''c'' Client" 1 0]
  by (simp add: example_admin_def get_node_def member_node_def example_node_def fresh_record_def)

text \<open>A report without a run is filed under another zone's run: a status that names no run adds its
  report to the first active run of any zone.\<close>

theorem unnamed_report_crosses_zones:
  assumes "get_node (ad_registry s) nid = Some n" and "sp_run_id st = None" and "sp_report st \<noteq> []"
    and "get_run_any s [] = None" and "active_run s = Some r" and "r_zone r \<noteq> zone_of n"
  shows "\<exists>r'. get_run_any (snd (on_status c e nid st s)) (r_id r) = Some r'
           \<and> map_of (r_reports r') nid = Some (sp_report st)"
proof -
  let ?R = "reg_on_status (en_mono e) nid st (ad_registry s)"
  let ?r1 = "r\<lparr>r_reports := dput nid (sp_report st) (r_reports r)\<rparr>"
  let ?s1 = "save_run c ?r1 (put_run ?r1 (s\<lparr>ad_registry := ?R\<rparr>))"
  have n: "\<exists>m. get_node ?R nid = Some m \<and> nr_run_id m = None"
    using assms(1,2) by (auto simp: reg_on_status_def status_update_def)
  have "file_report c nid st (s\<lparr>ad_registry := ?R\<rparr>) = ?s1"
    using assms(2-5) by (simp add: file_report_def id_or_empty_def get_run_any_def active_run_def active_runs_def Let_def)
  then have "\<exists>res. on_status c e nid st s = (res, ?s1)"
    using n by (auto simp: on_status_def Let_def split: option.splits)
  then show ?thesis
    by (auto simp: get_run_any_def)
qed

theorem unnamed_report_crosses_zones_witness:
  "\<exists>r'. get_run_any (snd (on_status example_config (example_env 1 100) ''x'' example_status
       (example_admin Running [(member_node ''x'' Xapp)\<lparr>nr_zone := ''other''\<rparr>]))) ''r1'' = Some r'
     \<and> map_of (r_reports r') ''x'' = Some [(''rows'', JInt 3)]"
  using unnamed_report_crosses_zones [of "example_admin Running [(member_node ''x'' Xapp)\<lparr>nr_zone := ''other''\<rparr>]"
      "''x''" "(member_node ''x'' Xapp)\<lparr>nr_zone := ''other''\<rparr>" example_status "example_run ''r1'' Running"
      example_config "example_env 1 100"]
  by (simp add: example_defs example_status_def get_node_def get_run_any_def active_run_def active_runs_def
      vals_def state_sets zone_of_def str_or_def)

end
