(* ===== verification/Admin_Api.thy ===== *)
theory Admin_Api
  imports Orchestrator_Inv
begin

text \<open>
  The admin service's endpoints (services/admin/src/mec_cast_admin/api.py) and the validator of a
  run's parameters (schemas.py): what an operator's request answers, and the life of one node's
  WebSocket.

  A node's connection is \<open>node_sock\<close>: the node id its last hello named, whether the loop still
  runs, and what was answered on it. \<open>node_turn\<close> is one round of the loop of \<open>node_socket\<close>,
  with the admin's state; \<open>json.loads\<close> of the received text is its argument, the value or the
  complaint. Leaving the loop, however it happens, runs the \<open>finally\<close> block: \<open>node_closed\<close>.
\<close>

section \<open>Operator requests\<close>

text \<open>A refusal of the orchestrator is a 409 with its reason; any other exception is FastAPI's 500.\<close>

datatype http_reply =
    Http_Ok nat pdict
  | Http_Conflict orch_error
  | Http_Failed

fun refusal :: "orch_error \<Rightarrow> http_reply" where
  "refusal Value_Error = Http_Failed"
| "refusal (Escaped_Transition te) = Http_Failed"
| "refusal err = Http_Conflict err"

definition run_body :: "run \<Rightarrow> string list \<Rightarrow> pdict" where
  "run_body r acts = dput ''allowed'' (JArr (map JStr acts)) (run_to_dict r)"

definition api_create_run ::
  "config \<Rightarrow> env \<Rightarrow> string \<Rightarrow> pdict \<Rightarrow> string \<Rightarrow> admin \<Rightarrow> http_reply \<times> admin" where
  "api_create_run c e label params zone s =
     (case create_run c e label params zone s of
        (Inl err, s') \<Rightarrow> (refusal err, s')
      | (Inr r, s') \<Rightarrow> (Http_Ok 201 (run_body r [''start'', ''remove'']), s'))"

definition api_act :: "config \<Rightarrow> env \<Rightarrow> string \<Rightarrow> run_action \<Rightarrow> admin \<Rightarrow> http_reply \<times> admin" where
  "api_act c e rid a s =
     (case act c e rid a s of
        (Inl err, s') \<Rightarrow> (refusal err, s')
      | (Inr r, s') \<Rightarrow> (Http_Ok 200 (run_body r (allowed_actions (r_state r))), s'))"

definition api_ran_policy ::
  "config \<Rightarrow> env \<Rightarrow> string \<Rightarrow> pdict \<Rightarrow> admin \<Rightarrow> http_reply \<times> admin" where
  "api_ran_policy c e rid policy s =
     (case set_ran_policy c e rid policy s of
        (Inl err, s') \<Rightarrow> (refusal err, s')
      | (Inr sent, s') \<Rightarrow>
          (Http_Ok 200 [(''run_id'', JStr rid), (''ran_policy'', JObj policy),
                        (''delivered_to'', JInt (int sent))], s'))"

text \<open>\<open>RunCreate._ran_policy\<close>: the parameters a run may be created with. Left is the key whose
  value is refused; the policy is the one the validator normalised.\<close>

fun positive_int :: "json \<Rightarrow> bool" where
  "positive_int (JInt i) = (0 < i)"
| "positive_int _ = False"

fun positive_number :: "json \<Rightarrow> bool" where
  "positive_number (JInt i) = (0 < i)"
| "positive_number (JFloat x t) = (0 < x)"
| "positive_number _ = False"

fun name_given :: "json \<Rightarrow> bool" where
  "name_given (JStr s) = (strip s \<noteq> [])"
| "name_given _ = False"

definition in_texts :: "string list \<Rightarrow> json \<Rightarrow> bool" where
  "in_texts ts v = (case v of JStr s \<Rightarrow> s \<in> set ts | _ \<Rightarrow> False)"

text \<open>The checks after the policy's, in the order of the source.\<close>

definition param_checks :: "(string \<times> (json \<Rightarrow> bool)) list" where
  "param_checks =
     [(''codec'', in_texts codecs), (''profile'', in_texts profiles), (''stream'', name_given),
      (''video_source'', in_texts [''camera'', ''synthetic'']), (''video_width'', positive_int),
      (''video_height'', positive_int), (''video_fps'', positive_int),
      (''codec_precision_m'', positive_number)]"

definition refused_param :: "pdict \<Rightarrow> string option" where
  "refused_param params =
     map_option fst (find (\<lambda>(k, ok). pget params k \<noteq> JNull \<and> \<not> ok (pget params k)) param_checks)"

definition check_params :: "pydantic \<Rightarrow> pdict \<Rightarrow> string + pdict" where
  "check_params pd params =
     sum_bind
       (if pget params ''ran_policy'' = JNull then Inr params
        else (case validate_ran_policy pd (pget params ''ran_policy'') of
                None \<Rightarrow> Inl ''ran_policy''
              | Some p \<Rightarrow> Inr (dput ''ran_policy'' (JObj (dump_policy p)) params)))
       (\<lambda>params'. case refused_param params' of None \<Rightarrow> Inr params' | Some k \<Rightarrow> Inl k)"

section \<open>A node's socket\<close>

fun message_type_str :: "message_type \<Rightarrow> string" where
  "message_type_str Hello = ''hello''"
| "message_type_str Status = ''status''"
| "message_type_str Ack = ''ack''"
| "message_type_str Pong = ''pong''"
| "message_type_str Goodbye = ''goodbye''"
| "message_type_str Welcome = ''welcome''"
| "message_type_str Command = ''command''"
| "message_type_str Ping = ''ping''"
| "message_type_str Error = ''error''"

text \<open>\<open>str(exc)\<close> of a \<open>ProtocolError\<close>.\<close>

fun protocol_error_text :: "protocol_error \<Rightarrow> string" where
  "protocol_error_text Not_An_Object = ''frame is not a JSON object''"
| "protocol_error_text (Unsupported_Version v) =
     ''unsupported protocol version '' @ py_repr v @ ''; this service speaks ''
       @ dec_int protocol_version"
| "protocol_error_text (Malformed_Envelope m) = ''malformed envelope: '' @ m"
| "protocol_error_text (Malformed_Payload t m) =
     ''malformed '' @ message_type_str t @ '' payload: '' @ m"

datatype node_reply = Error_Reply error_payload | Welcome_Reply welcome_payload

record node_sock =
  ns_node :: "string option"
  ns_open :: bool
  ns_replies :: "node_reply list"

definition accepted_socket :: node_sock where
  "accepted_socket = \<lparr>ns_node = None, ns_open = True, ns_replies = []\<rparr>"

text \<open>\<open>send_text\<close> on a socket that has gone raises, which leaves the loop.\<close>

definition answer :: "env \<Rightarrow> nat \<Rightarrow> node_reply \<Rightarrow> node_sock \<Rightarrow> node_sock" where
  "answer e sock r ns =
     (if en_socket_ok e sock then ns\<lparr>ns_replies := ns_replies ns @ [r]\<rparr> else ns\<lparr>ns_open := False\<rparr>)"

definition refuse :: "env \<Rightarrow> nat \<Rightarrow> string \<Rightarrow> string \<Rightarrow> node_sock \<Rightarrow> node_sock" where
  "refuse e sock code msg = answer e sock (Error_Reply \<lparr>ep_code = code, ep_message = msg\<rparr>)"

text \<open>A frame that cannot be read: answered, and the loop left when its complaint speaks of a
  version.\<close>

definition bad_frame :: "env \<Rightarrow> nat \<Rightarrow> string + protocol_error \<Rightarrow> node_sock \<Rightarrow> node_sock" where
  "bad_frame e sock err ns =
     (case err of
        Inl msg \<Rightarrow> refuse e sock ''bad_frame'' msg ns
      | Inr pe \<Rightarrow>
          (let ns' = refuse e sock ''bad_frame'' (protocol_error_text pe) ns
           in if contains ''version'' (protocol_error_text pe) then ns'\<lparr>ns_open := False\<rparr> else ns'))"

text \<open>The payload of a message, by its type.\<close>

fun hello_of :: "message_type \<Rightarrow> payload option \<Rightarrow> hello_payload option" where
  "hello_of Hello (Some (P_Hello h)) = Some h"
| "hello_of _ _ = None"

fun status_of :: "message_type \<Rightarrow> payload option \<Rightarrow> status_payload option" where
  "status_of Status (Some (P_Status st)) = Some st"
| "status_of _ _ = None"

fun goodbye_of :: "message_type \<Rightarrow> payload option \<Rightarrow> goodbye_payload option" where
  "goodbye_of Goodbye (Some (P_Goodbye g)) = Some g"
| "goodbye_of _ _ = None"

definition hello_frame ::
  "config \<Rightarrow> env \<Rightarrow> int \<Rightarrow> nat \<Rightarrow> string option \<Rightarrow> envelope \<Rightarrow> hello_payload \<Rightarrow>
   node_sock \<Rightarrow> admin \<Rightarrow> node_sock \<times> admin" where
  "hello_frame c e adm sock peer ev h ns s =
     (case on_hello c e h sock peer s of
        (w, s1) \<Rightarrow>
          (answer e sock (Welcome_Reply w) (ns\<lparr>ns_node := Some (hp_node_id h)\<rparr>),
           note_hello (hp_node_id h) (ev_ts_ns ev) adm s1))"

definition later_frame ::
  "config \<Rightarrow> env \<Rightarrow> int \<Rightarrow> string \<Rightarrow> envelope \<Rightarrow> payload option \<Rightarrow>
   node_sock \<Rightarrow> admin \<Rightarrow> node_sock \<times> admin" where
  "later_frame c e adm nid ev p ns s =
     (let s1 = note_frame (en_mono e) nid (ev_ts_ns ev) adm s
      in case status_of (ev_type ev) p of
           Some st \<Rightarrow>
             (case on_status c e nid st s1 of
                (Inl _, s2) \<Rightarrow> (ns\<lparr>ns_open := False\<rparr>, s2)
              | (Inr _, s2) \<Rightarrow> (ns, s2))
         | None \<Rightarrow>
             (case goodbye_of (ev_type ev) p of
                Some g \<Rightarrow> (ns\<lparr>ns_open := False\<rparr>, on_goodbye c e nid g s1)
              | None \<Rightarrow> (ns, s1)))"

definition node_turn ::
  "config \<Rightarrow> (json \<Rightarrow> string + envelope) \<Rightarrow> (message_type \<Rightarrow> pdict \<Rightarrow> string + payload) \<Rightarrow>
   env \<Rightarrow> int \<Rightarrow> nat \<Rightarrow> string option \<Rightarrow> string + json \<Rightarrow> node_sock \<Rightarrow> admin \<Rightarrow> node_sock \<times> admin" where
  "node_turn c ve vp e adm sock peer raw ns s =
     (case (case raw of Inl msg \<Rightarrow> Inl (Inl msg)
            | Inr j \<Rightarrow> (case parse ve vp j of Inl pe \<Rightarrow> Inl (Inr pe) | Inr f \<Rightarrow> Inr f)) of
        Inl err \<Rightarrow> (bad_frame e sock err ns, s)
      | Inr (ev, p) \<Rightarrow>
          (if ev_type ev \<notin> node_to_admin
           then (refuse e sock ''wrong_direction''
                   (message_type_str (ev_type ev) @ '' is an admin-to-node message'') ns, s)
           else
             (case hello_of (ev_type ev) p of
                Some h \<Rightarrow> hello_frame c e adm sock peer ev h ns s
              | None \<Rightarrow>
                  (case ns_node ns of
                     None \<Rightarrow> (refuse e sock ''no_hello'' ''send hello first'' ns, s)
                   | Some nid \<Rightarrow> later_frame c e adm nid ev p ns s))))"

text \<open>The \<open>finally\<close> block.\<close>

definition node_closed :: "nat \<Rightarrow> node_sock \<Rightarrow> admin \<Rightarrow> admin" where
  "node_closed sock ns s =
     (case ns_node ns of None \<Rightarrow> s | Some nid \<Rightarrow> detach_node nid sock s)"

text \<open>One event of the loop: a text frame, or the disconnection \<open>receive_text\<close> raises.\<close>

datatype sock_event =
    Text env int "string + json"
  | Gone

definition node_event ::
  "config \<Rightarrow> (json \<Rightarrow> string + envelope) \<Rightarrow> (message_type \<Rightarrow> pdict \<Rightarrow> string + payload) \<Rightarrow>
   nat \<Rightarrow> string option \<Rightarrow> sock_event \<Rightarrow> node_sock \<times> admin \<Rightarrow> node_sock \<times> admin" where
  "node_event c ve vp sock peer ev = (\<lambda>(ns, s).
     if \<not> ns_open ns then (ns, s)
     else
       (case (case ev of Text e adm raw \<Rightarrow> node_turn c ve vp e adm sock peer raw ns s
              | Gone \<Rightarrow> (ns\<lparr>ns_open := False\<rparr>, s)) of
          (ns', s') \<Rightarrow> (ns', if ns_open ns' then s' else node_closed sock ns' s')))"

definition node_session ::
  "config \<Rightarrow> (json \<Rightarrow> string + envelope) \<Rightarrow> (message_type \<Rightarrow> pdict \<Rightarrow> string + payload) \<Rightarrow>
   nat \<Rightarrow> string option \<Rightarrow> sock_event list \<Rightarrow> admin \<Rightarrow> node_sock \<times> admin" where
  "node_session c ve vp sock peer evs s =
     fold (node_event c ve vp sock peer) evs (accepted_socket, s)"

section \<open>Lemmas\<close>

text \<open>The node id a text names, when it is a hello that parses.\<close>

definition named_node ::
  "(json \<Rightarrow> string + envelope) \<Rightarrow> (message_type \<Rightarrow> pdict \<Rightarrow> string + payload) \<Rightarrow> sock_event \<Rightarrow> string option" where
  "named_node ve vp ev =
     (case ev of
        Text e adm (Inr j) \<Rightarrow>
          (case parse ve vp j of
             Inr (env, p) \<Rightarrow> map_option hp_node_id (hello_of (ev_type env) p)
           | Inl _ \<Rightarrow> None)
      | _ \<Rightarrow> None)"

lemma answer_node [simp]: "ns_node (answer e sock r ns) = ns_node ns"
  by (simp add: answer_def)

lemma refuse_node [simp]: "ns_node (refuse e sock code msg ns) = ns_node ns"
  by (simp add: refuse_def)

lemma bad_frame_node [simp]: "ns_node (bad_frame e sock err ns) = ns_node ns"
  by (simp add: bad_frame_def Let_def split: sum.splits)

lemma version_mismatch_speaks_of_version:
  "contains ''version'' (protocol_error_text (Unsupported_Version v))"
proof -
  have "protocol_error_text (Unsupported_Version v) =
          ''unsupported protocol '' @ ''version'' @ ('' '' @ py_repr v @ ''; this service speaks ''
            @ dec_int protocol_version)"
    by simp
  then show ?thesis
    unfolding contains_iff by blast
qed

lemma later_frame_node [simp]: "ns_node (fst (later_frame c e adm nid ev p ns s)) = ns_node ns"
  by (auto simp: later_frame_def Let_def case_prod_beta split: option.splits sum.splits)

lemma hello_of_Some: "hello_of t p = Some h \<longleftrightarrow> t = Hello \<and> p = Some (P_Hello h)"
  by (induction t p rule: hello_of.induct) auto

lemma node_turn_node:
  "ns_node (fst (node_turn c ve vp e adm sock peer raw ns s)) =
     (case named_node ve vp (Text e adm raw) of None \<Rightarrow> ns_node ns | Some nid \<Rightarrow> Some nid)"
  by (auto simp: node_turn_def named_node_def hello_frame_def case_prod_beta hello_of_Some node_to_admin_def
      split: sum.splits option.splits)

text \<open>A turn is a sequence of the orchestrator's steps.\<close>

lemma hello_frame_reachable:
  "orch_reachable c s \<Longrightarrow> orch_reachable c (snd (hello_frame c e adm sock peer ev h ns s))"
  by (simp add: hello_frame_def case_prod_beta or_step [OF or_step [OF _ os_hello] os_clock])

lemma later_frame_reachable:
  assumes "orch_reachable c s"
  shows "orch_reachable c (snd (later_frame c e adm nid ev p ns s))"
proof -
  let ?s1 = "note_frame (en_mono e) nid (ev_ts_ns ev) adm s"
  have "orch_reachable c ?s1"
    using assms os_note by (rule or_step)
  then have "orch_reachable c (snd (on_status c e nid st ?s1))" and "orch_reachable c (on_goodbye c e nid g ?s1)"
    and "orch_reachable c ?s1" for st g
    by (blast intro: or_step os_status os_goodbye)+
  then show ?thesis
    by (auto simp: later_frame_def Let_def case_prod_beta
        split: option.splits sum.splits)
qed

lemma node_turn_reachable:
  "orch_reachable c s \<Longrightarrow> orch_reachable c (snd (node_turn c ve vp e adm sock peer raw ns s))"
  by (simp add: node_turn_def hello_frame_reachable later_frame_reachable
      split: sum.splits option.splits prod.splits)

lemma node_closed_reachable: "orch_reachable c s \<Longrightarrow> orch_reachable c (node_closed sock ns s)"
  by (auto simp: node_closed_def intro: or_step os_detach split: option.splits)

lemma node_event_reachable:
  "orch_reachable c (snd st) \<Longrightarrow> orch_reachable c (snd (node_event c ve vp sock peer ev st))"
  by (auto simp: node_event_def case_prod_beta Let_def node_turn_reachable node_closed_reachable
      split: sock_event.splits)

lemma node_turn_stranger:
  assumes "ns_node ns = None" and "named_node ve vp (Text e adm raw) = None"
  shows "snd (node_turn c ve vp e adm sock peer raw ns s) = s"
  using assms
  by (auto simp: node_turn_def named_node_def split: sum.splits option.splits prod.splits)

lemma node_event_stranger:
  assumes "ns_node (fst st) = None" and "named_node ve vp ev = None"
  shows "snd (node_event c ve vp sock peer ev st) = snd st"
    and "ns_node (fst (node_event c ve vp sock peer ev st)) = None"
  using assms node_turn_stranger [of "fst st"] node_turn_node [of c ve vp _ _ sock peer _ "fst st" "snd st"]
  by (auto simp: node_event_def case_prod_beta node_closed_def named_node_def split: sock_event.splits)

text \<open>What one turn writes to the registry and to the table of sockets: the record and the entry of one
  node, the one its text names or the one the connection named last.\<close>

definition speaks_for ::
  "(json \<Rightarrow> string + envelope) \<Rightarrow> (message_type \<Rightarrow> pdict \<Rightarrow> string + payload) \<Rightarrow> node_sock \<Rightarrow> sock_event \<Rightarrow>
   string option" where
  "speaks_for ve vp ns ev =
     (if \<not> ns_open ns then None
      else (case named_node ve vp ev of Some nid \<Rightarrow> Some nid | None \<Rightarrow> ns_node ns))"

lemma on_hello_sockets [simp]:
  "ad_sockets (snd (on_hello c e h sock peer s)) = dput (hp_node_id h) sock (ad_sockets s)"
  by (simp add: on_hello_def attach_node_def put_run_def Let_def split: option.splits)

lemma greeted_registry:
  "ad_registry (snd (on_hello c e h sock peer s))
     = update_node (hp_node_id h) (address_update peer) (reg_on_hello (en_mono e) h (ad_registry s))"
  by (simp add: on_hello_def Let_def split: option.splits)

lemma later_sockets [simp]:
  "ad_sockets (late_stop c e nid r s) = ad_sockets s" "ad_sockets (file_report c nid st s) = ad_sockets s"
  "ad_sockets (snd (on_status c e nid st s)) = ad_sockets s" "ad_sockets (on_goodbye c e nid g s) = ad_sockets s"
  by (auto simp: late_stop_def file_report_def on_status_def on_goodbye_def journal_def save_run_def put_run_def
      Let_def send_def split: option.splits prod.splits)

lemma later_registry:
  "ad_registry (snd (on_status c e nid st s)) = reg_on_status (en_mono e) nid st (ad_registry s)"
  "ad_registry (on_goodbye c e nid g s) = reg_on_goodbye (en_mono e) nid (ad_registry s)"
  by (auto simp: on_status_def on_goodbye_def Let_def split: option.splits prod.splits)

lemma hello_frame_sockets:
  "ad_sockets (snd (hello_frame c e adm sock peer ev h ns s)) = dput (hp_node_id h) sock (ad_sockets s)"
  by (simp add: hello_frame_def case_prod_beta note_hello_def)

lemma hello_frame_others:
  "n \<noteq> hp_node_id h \<Longrightarrow>
     get_node (ad_registry (snd (hello_frame c e adm sock peer ev h ns s))) n = get_node (ad_registry s) n"
  by (simp add: hello_frame_def case_prod_beta note_hello_def note_clock_def greeted_registry reg_on_hello_def Let_def)

lemma hello_frame_record:
  "\<exists>r. get_node (ad_registry (snd (hello_frame c e adm sock peer ev h ns s))) (hp_node_id h) = Some r
     \<and> nr_last_seen r = en_mono e \<and> nr_connected r"
  by (auto simp: hello_frame_def case_prod_beta note_hello_def note_clock_def greeted_registry reg_on_hello_def
      Let_def record_updates address_update_def split: option.splits)

lemma later_frame_sockets [simp]: "ad_sockets (snd (later_frame c e adm nid ev p ns s)) = ad_sockets s"
  by (auto simp: later_frame_def Let_def note_frame_def case_prod_beta split: option.splits sum.splits)

lemma later_frame_others:
  "n \<noteq> nid \<Longrightarrow>
     get_node (ad_registry (snd (later_frame c e adm nid ev p ns s))) n = get_node (ad_registry s) n"
  by (auto simp: later_frame_def Let_def note_frame_def note_clock_def touch_def case_prod_beta later_registry
      reg_on_status_def reg_on_goodbye_def split: option.splits sum.splits)

lemma later_frame_record:
  "get_node (ad_registry s) nid = Some r0 \<Longrightarrow>
     \<exists>r. get_node (ad_registry (snd (later_frame c e adm nid ev p ns s))) nid = Some r \<and> nr_last_seen r = en_mono e"
  by (auto simp: later_frame_def Let_def note_frame_def note_clock_def touch_def case_prod_beta later_registry
      reg_on_status_def reg_on_goodbye_def record_updates split: option.splits sum.splits)

section \<open>Many connections\<close>

text \<open>The connections of the service take turns: each event is one connection's.\<close>

type_synonym served = "(nat \<Rightarrow> node_sock) \<times> admin"

definition served_event ::
  "config \<Rightarrow> (json \<Rightarrow> string + envelope) \<Rightarrow> (message_type \<Rightarrow> pdict \<Rightarrow> string + payload) \<Rightarrow>
   nat \<times> string option \<times> sock_event \<Rightarrow> served \<Rightarrow> served" where
  "served_event c ve vp = (\<lambda>(sock, peer, ev) (conns, s).
     case node_event c ve vp sock peer ev (conns sock, s) of (ns, s') \<Rightarrow> (conns(sock := ns), s'))"

definition serve_nodes ::
  "config \<Rightarrow> (json \<Rightarrow> string + envelope) \<Rightarrow> (message_type \<Rightarrow> pdict \<Rightarrow> string + payload) \<Rightarrow>
   (nat \<times> string option \<times> sock_event) list \<Rightarrow> admin \<Rightarrow> served" where
  "serve_nodes c ve vp evs s = fold (served_event c ve vp) evs (\<lambda>_. accepted_socket, s)"

end
