(* ===== verification/Admin_Api_Props.thy ===== *)
theory Admin_Api_Props
  imports Orchestrator_Props Admin_Api
begin

text \<open>
  The properties of the admin's endpoints: whatever a connection sends, the service only takes steps
  the orchestrator's invariants cover; a peer that never says hello changes nothing; a connection
  that ends is detached; and the parameters a run is created with are ones every part can use.
\<close>

section \<open>Example frames for the witnesses\<close>

text \<open>A validator that reads every envelope as a hello of the node id in its payload.\<close>

definition hello_ve :: "json \<Rightarrow> string + envelope" where
  "hello_ve raw =
     (case raw of
        JObj d \<Rightarrow> Inr \<lparr>ev_type = Hello, ev_msg_id = ''m'', ev_ts_ns = 5, ev_node_id = None, ev_payload = d\<rparr>
      | _ \<Rightarrow> Inl ''not an object'')"

definition hello_vp :: "message_type \<Rightarrow> pdict \<Rightarrow> string + payload" where
  "hello_vp t d = Inr (P_Hello (example_hello\<lparr>hp_node_id := py_str (pget d ''node_id'')\<rparr>))"

definition hello_text :: "string \<Rightarrow> sock_event" where
  "hello_text nid = Text (example_env 1 100) 9 (Inr (JObj [(''v'', JInt 1), (''node_id'', JStr nid)]))"

lemma hello_text_named [simp]: "named_node hello_ve hello_vp (hello_text nid) = Some nid"
  by (simp add: named_node_def hello_text_def hello_ve_def hello_vp_def parse_def pget_def protocol_version_def)

section \<open>Sessions\<close>

text \<open>Folding events over a session keeps what one event keeps.\<close>

lemma session_induct [case_names start event]:
  assumes "P (accepted_socket, s)" and "\<And>ev st. P st \<Longrightarrow> P (node_event c ve vp sock peer ev st)"
  shows "P (node_session c ve vp sock peer evs s)"
proof -
  have "P st \<Longrightarrow> P (fold (node_event c ve vp sock peer) evs st)" for st
    by (induction evs arbitrary: st) (simp_all add: assms(2))
  then show ?thesis
    using assms(1) by (simp add: node_session_def)
qed

text \<open>Whatever a node sends, in any order and malformed or not, the service goes from a reachable state to
  a reachable state, so that the orchestrator's invariants hold through every session.\<close>

lemma session_stays_reachable:
  assumes "orch_reachable c s"
  shows "orch_reachable c (snd (node_session c ve vp sock peer evs s))"
  by (rule session_induct [where P = "\<lambda>st. orch_reachable c (snd st)"])
     (simp_all add: assms node_event_reachable)

text \<open>A peer that never sends a valid hello changes nothing: whatever else it sends (other frames,
  admin-to-node frames, unreadable text, another protocol version), the service's state is the same
  when it has gone, and every text was answered with an error.\<close>

theorem stranger_changes_nothing:
  assumes "\<forall>ev \<in> set evs. named_node ve vp ev = None"
  shows "snd (node_session c ve vp sock peer evs s) = s"
proof -
  have "snd (fold (node_event c ve vp sock peer) evs st) = snd st" if "ns_node (fst st) = None" for st
    using assms that
    by (induction evs arbitrary: st) (simp_all add: node_event_stranger)
  then show ?thesis
    by (simp add: node_session_def accepted_socket_def)
qed

theorem stranger_changes_nothing_witness:
  "snd (node_session example_config hello_ve hello_vp 1 None
     [Text (example_env 1 100) 9 (Inr (JObj [(''v'', JInt 2)])), Gone] fresh_admin) = fresh_admin"
  by (rule stranger_changes_nothing)
     (simp add: named_node_def parse_def pget_def protocol_version_def)

text \<open>A text that cannot be read is answered and changes nothing else: the reply is a
  \<open>bad_frame\<close> error carrying the complaint, and the connection goes on unless the complaint speaks of a
  version, which a version mismatch always does.\<close>

theorem unreadable_frame_answered:
  assumes "parse ve vp j = Inl pe" and "en_socket_ok e sock"
  shows "\<exists>ns'. node_turn c ve vp e adm sock peer (Inr j) ns s = (ns', s)
     \<and> ns_replies ns' = ns_replies ns
          @ [Error_Reply \<lparr>ep_code = ''bad_frame'', ep_message = protocol_error_text pe\<rparr>]
     \<and> ns_node ns' = ns_node ns
     \<and> (ns_open ns' \<longleftrightarrow> ns_open ns \<and> \<not> contains ''version'' (protocol_error_text pe))
     \<and> (\<forall>v. pe = Unsupported_Version v \<longrightarrow> \<not> ns_open ns')"
  using assms version_mismatch_speaks_of_version
  by (auto simp: node_turn_def bad_frame_def refuse_def answer_def Let_def)

theorem unreadable_frame_answered_witness:
  "\<exists>ns'. node_turn example_config hello_ve hello_vp (example_env 1 100) 9 1 None
       (Inr (JObj [(''v'', JInt 2)])) accepted_socket fresh_admin = (ns', fresh_admin) \<and> \<not> ns_open ns'"
proof -
  have "parse hello_ve hello_vp (JObj [(''v'', JInt 2)]) = Inl (Unsupported_Version (JInt 2))"
    by (simp add: parse_def pget_def protocol_version_def)
  from unreadable_frame_answered [OF this, of "example_env 1 100" 1 example_config 9 None accepted_socket
      fresh_admin] show ?thesis
    by (auto simp: example_env_def)
qed

text \<open>A connection that has left the loop is detached from the node it named last.\<close>

definition socket_released :: "nat \<Rightarrow> node_sock \<times> admin \<Rightarrow> bool" where
  "socket_released sock = (\<lambda>(ns, s). \<forall>nid. ns_node ns = Some nid \<longrightarrow>
     map_of (ad_sockets s) nid \<noteq> Some sock
     \<and> (\<forall>n. get_node (ad_registry s) nid = Some n \<longrightarrow> \<not> nr_connected n))"

lemma node_closed_released: "socket_released sock (ns, node_closed sock ns s)"
  by (auto simp: socket_released_def node_closed_def detach_node_def on_disconnect_def
      disconnect_update_def split: option.splits)

text \<open>However a connection ends, by a goodbye, a disconnection, a version mismatch, a failed send or an
  exception in a handler, the node it named last is no longer reached through it and its record says it
  is not connected.\<close>

theorem ended_session_released:
  assumes "node_session c ve vp sock peer evs s = (ns, s')" and "\<not> ns_open ns" and "ns_node ns = Some nid"
  shows "map_of (ad_sockets s') nid \<noteq> Some sock
     \<and> (\<forall>n. get_node (ad_registry s') nid = Some n \<longrightarrow> \<not> nr_connected n)"
proof -
  have "\<not> ns_open (fst (node_session c ve vp sock peer evs s))
        \<longrightarrow> socket_released sock (node_session c ve vp sock peer evs s)"
    by (rule session_induct [where P = "\<lambda>st. \<not> ns_open (fst st) \<longrightarrow> socket_released sock st"])
       (auto simp: accepted_socket_def node_event_def case_prod_beta node_closed_released)
  with assms show ?thesis
    by (simp add: socket_released_def)
qed

theorem ended_session_released_witness:
  "\<exists>ns s'. node_session example_config hello_ve hello_vp 1 None [hello_text ''a'', Gone] fresh_admin = (ns, s')
     \<and> map_of (ad_sockets s') ''a'' \<noteq> Some 1"
proof -
  let ?r = "node_session example_config hello_ve hello_vp 1 None [hello_text ''a'', Gone] fresh_admin"
  have "\<not> ns_open (fst ?r)" and "ns_node (fst ?r) = Some ''a''"
    by code_simp+
  then show ?thesis
    using ended_session_released [of example_config hello_ve hello_vp 1 None _ fresh_admin "fst ?r" "snd ?r" "''a''"]
    by (metis prod.collapse)
qed

lemma node_turn_hello:
  assumes "named_node ve vp (Text e adm raw) = Some nid"
  shows "ad_sockets (snd (node_turn c ve vp e adm sock peer raw ns s)) = dput nid sock (ad_sockets s)"
    and "ns_open (fst (node_turn c ve vp e adm sock peer raw ns s)) \<longleftrightarrow> ns_open ns \<and> en_socket_ok e sock"
  using assms
  by (auto simp: node_turn_def named_node_def hello_frame_def case_prod_beta note_hello_def answer_def
      hello_of_Some node_to_admin_def split: sum.splits if_splits)

text \<open>One event of one connection.\<close>

lemma node_turn_others:
  assumes "speaks_for ve vp ns (Text e adm raw) \<noteq> Some n" and "ns_open ns"
  shows "get_node (ad_registry (snd (node_turn c ve vp e adm sock peer raw ns s))) n = get_node (ad_registry s) n"
    and "map_of (ad_sockets (snd (node_turn c ve vp e adm sock peer raw ns s))) n = map_of (ad_sockets s) n"
  using assms
  by (auto simp: node_turn_def speaks_for_def named_node_def hello_frame_others hello_frame_sockets later_frame_others
      hello_of_Some node_to_admin_def split: sum.splits option.splits prod.splits)

lemma node_event_others:
  assumes "speaks_for ve vp (fst st) ev \<noteq> Some n"
  shows "get_node (ad_registry (snd (node_event c ve vp sock peer ev st))) n = get_node (ad_registry (snd st)) n"
    and "map_of (ad_sockets (snd (node_event c ve vp sock peer ev st))) n = map_of (ad_sockets (snd st)) n"
proof -
  have close: "get_node (ad_registry (node_closed sock ns s)) n = get_node (ad_registry s) n
      \<and> map_of (ad_sockets (node_closed sock ns s)) n = map_of (ad_sockets s) n" if "ns_node ns \<noteq> Some n" for ns s
    using that by (auto simp: node_closed_def detach_node_def on_disconnect_def split: option.splits)
  have after: "ns_node (fst (node_turn c ve vp e adm sock peer raw (fst st) (snd st))) \<noteq> Some n"
    if "ev = Text e adm raw" and "ns_open (fst st)" for e adm raw
    using assms that by (auto simp: node_turn_node speaks_for_def split: option.splits)
  have gone: "ns_node (fst st) \<noteq> Some n" if "ev = Gone" and "ns_open (fst st)"
    using assms that by (auto simp: speaks_for_def named_node_def)
  show "get_node (ad_registry (snd (node_event c ve vp sock peer ev st))) n = get_node (ad_registry (snd st)) n"
    and "map_of (ad_sockets (snd (node_event c ve vp sock peer ev st))) n = map_of (ad_sockets (snd st)) n"
    using close after gone assms node_turn_others [of ve vp "fst st" _ _ _ n c sock peer "snd st"]
    by (cases ev; simp add: node_event_def case_prod_beta)+
qed

text \<open>What the connections and the tables agree on: a node a connection has named has a record, and no
  entry leads to a connection that has left its loop under the name it had last.\<close>

definition conns_ok :: "served \<Rightarrow> bool" where
  "conns_ok = (\<lambda>(conns, s). \<forall>k nid. ns_node (conns k) = Some nid \<longrightarrow>
     get_node (ad_registry s) nid \<noteq> None \<and> (\<not> ns_open (conns k) \<longrightarrow> map_of (ad_sockets s) nid \<noteq> Some k))"

lemma node_turn_sockets:
  "map_of (ad_sockets (snd (node_turn c ve vp e adm sock peer raw ns s))) n \<in> {Some sock, map_of (ad_sockets s) n}"
  by (auto simp: node_turn_def hello_frame_sockets split: sum.splits option.splits prod.splits)

lemma hello_frame_known:
  "get_node (ad_registry s) n \<noteq> None \<or> n = hp_node_id h \<Longrightarrow>
     get_node (ad_registry (snd (hello_frame c e adm sock peer ev h ns s))) n \<noteq> None"
  using hello_frame_others [of n h c e adm sock peer ev ns s] hello_frame_record [of c e adm sock peer ev h ns s]
  by (cases "n = hp_node_id h") auto

lemma later_frame_known:
  "get_node (ad_registry s) n \<noteq> None \<Longrightarrow>
     get_node (ad_registry (snd (later_frame c e adm nid ev p ns s))) n \<noteq> None"
  using later_frame_others [of n nid c e adm ev p ns s] later_frame_record [of s nid _ c e adm ev p ns]
  by (cases "n = nid") auto

lemma node_turn_known:
  assumes "get_node (ad_registry s) n \<noteq> None \<or> named_node ve vp (Text e adm raw) = Some n"
  shows "get_node (ad_registry (snd (node_turn c ve vp e adm sock peer raw ns s))) n \<noteq> None"
  using assms
  by (auto simp: node_turn_def named_node_def hello_of_Some node_to_admin_def
      simp del: not_None_eq intro!: hello_frame_known later_frame_known split: sum.splits option.splits prod.splits)

lemma node_event_sockets:
  "map_of (ad_sockets (snd (node_event c ve vp sock peer ev st))) n
     \<in> {None, Some sock, map_of (ad_sockets (snd st)) n}"
proof -
  have close: "map_of (ad_sockets (node_closed sock ns s)) n = None
      \<or> map_of (ad_sockets (node_closed sock ns s)) n = map_of (ad_sockets s) n" for ns s
    by (auto simp: node_closed_def detach_node_def split: option.splits)
  show ?thesis
  proof (cases ev)
    case (Text e adm raw)
    let ?t = "node_turn c ve vp e adm sock peer raw (fst st) (snd st)"
    have turn: "map_of (ad_sockets (snd ?t)) n = Some sock \<or> map_of (ad_sockets (snd ?t)) n = map_of (ad_sockets (snd st)) n"
      using node_turn_sockets [of c ve vp e adm sock peer raw "fst st" "snd st" n] by blast
    have "snd (node_event c ve vp sock peer ev st) \<in> {snd st, snd ?t, node_closed sock (fst ?t) (snd ?t)}"
      by (simp add: node_event_def case_prod_beta Text)
    then show ?thesis
      using turn close [of "fst ?t" "snd ?t"] by auto
  next
    case Gone
    then show ?thesis
      using close [of "(fst st)\<lparr>ns_open := False\<rparr>" "snd st"] by (auto simp: node_event_def case_prod_beta)
  qed
qed

lemma node_event_known:
  assumes "get_node (ad_registry (snd st)) n \<noteq> None
    \<or> ns_node (fst (node_event c ve vp sock peer ev st)) = Some n \<and> ns_node (fst st) \<noteq> Some n"
  shows "get_node (ad_registry (snd (node_event c ve vp sock peer ev st))) n \<noteq> None"
proof -
  have closed: "get_node (ad_registry (node_closed sock ns s)) n \<noteq> None \<longleftrightarrow> get_node (ad_registry s) n \<noteq> None" for ns s
    by (auto simp: node_closed_def detach_node_def on_disconnect_def split: option.splits)
  show ?thesis
  proof (cases ev)
    case (Text e adm raw)
    have "ns_open (fst st) \<Longrightarrow> get_node (ad_registry (snd st)) n \<noteq> None \<or> named_node ve vp (Text e adm raw) = Some n"
      using assms Text by (auto simp: node_event_def case_prod_beta node_turn_node split: option.splits)
    then show ?thesis
      using assms Text closed node_turn_known [of "snd st" n ve vp e adm raw c sock peer "fst st"]
      by (auto simp: node_event_def case_prod_beta simp del: not_None_eq)
  next
    case Gone
    then show ?thesis
      using assms closed by (auto simp: node_event_def case_prod_beta simp del: not_None_eq split: if_splits)
  qed
qed

lemma node_event_closed:
  assumes "ns_open (fst st)" and "\<not> ns_open (fst (node_event c ve vp sock peer ev st))"
  shows "socket_released sock (node_event c ve vp sock peer ev st)"
  using assms by (simp add: node_event_def case_prod_beta node_closed_released)

lemma served_event_ok:
  assumes "conns_ok cs"
  shows "conns_ok (served_event c ve vp x cs)"
proof -
  obtain k peer ev conns s where x: "x = (k, peer, ev)" and cs: "cs = (conns, s)"
    by (metis surj_pair)
  let ?r = "node_event c ve vp k peer ev (conns k, s)"
  have ok: "\<And>j nid. ns_node (conns j) = Some nid \<Longrightarrow>
      get_node (ad_registry s) nid \<noteq> None \<and> (\<not> ns_open (conns j) \<longrightarrow> map_of (ad_sockets s) nid \<noteq> Some j)"
    using assms by (auto simp: cs conns_ok_def)
  have "get_node (ad_registry (snd ?r)) nid \<noteq> None \<and> (\<not> ns_open (fst ?r) \<longrightarrow> map_of (ad_sockets (snd ?r)) nid \<noteq> Some k)"
    if n: "ns_node (fst ?r) = Some nid" for nid
  proof
    show "get_node (ad_registry (snd ?r)) nid \<noteq> None"
      using node_event_known [of "(conns k, s)" nid c ve vp k peer ev] ok [of k nid] n by fastforce
    show "\<not> ns_open (fst ?r) \<longrightarrow> map_of (ad_sockets (snd ?r)) nid \<noteq> Some k"
    proof (cases "ns_open (conns k)")
      case True
      then show ?thesis
        using node_event_closed [of "(conns k, s)" c ve vp k peer ev] n
        by (simp add: socket_released_def case_prod_beta)
    next
      case False
      then show ?thesis
        using ok [of k nid] n by (simp add: node_event_def)
    qed
  qed
  moreover have "get_node (ad_registry (snd ?r)) nid \<noteq> None
      \<and> (\<not> ns_open (conns j) \<longrightarrow> map_of (ad_sockets (snd ?r)) nid \<noteq> Some j)"
    if "ns_node (conns j) = Some nid" and "j \<noteq> k" for j nid
    using ok [OF that(1)] that(2) node_event_known [of "(conns k, s)" nid c ve vp k peer ev]
      node_event_sockets [of c ve vp k peer ev "(conns k, s)" nid] by fastforce
  ultimately show ?thesis
    by (auto simp: x cs served_event_def conns_ok_def case_prod_beta simp del: not_None_eq)
qed

lemma serve_nodes_ok: "conns_ok (serve_nodes c ve vp evs s)"
proof -
  have "conns_ok cs \<Longrightarrow> conns_ok (fold (served_event c ve vp) evs cs)" for cs
    by (induction evs arbitrary: cs) (simp_all add: served_event_ok)
  then show ?thesis
    by (simp add: serve_nodes_def conns_ok_def accepted_socket_def)
qed

text \<open>A frame that reads, from a node that has said hello or says it now.\<close>

definition readable ::
  "(json \<Rightarrow> string + envelope) \<Rightarrow> (message_type \<Rightarrow> pdict \<Rightarrow> string + payload) \<Rightarrow> string + json \<Rightarrow> bool" where
  "readable ve vp raw =
     (case raw of
        Inr j \<Rightarrow> (case parse ve vp j of Inr (ev, p) \<Rightarrow> ev_type ev \<in> node_to_admin | Inl _ \<Rightarrow> False)
      | Inl _ \<Rightarrow> False)"

lemma node_turn_heard:
  assumes "readable ve vp raw" and "speaks_for ve vp ns (Text e adm raw) = Some nid"
    and "\<And>n. ns_node ns = Some n \<Longrightarrow> get_node (ad_registry s) n \<noteq> None"
  shows "\<exists>r. get_node (ad_registry (snd (node_turn c ve vp e adm sock peer raw ns s))) nid = Some r
      \<and> nr_last_seen r = en_mono e"
proof -
  obtain j ev p where raw: "raw = Inr j" "parse ve vp j = Inr (ev, p)" "ev_type ev \<in> node_to_admin"
    using assms(1) by (auto simp: readable_def split: sum.splits)
  show ?thesis
  proof (cases "hello_of (ev_type ev) p")
    case None
    then have n: "ns_node ns = Some nid"
      using assms(2) raw by (auto simp: speaks_for_def named_node_def split: if_splits)
    obtain r0 where "get_node (ad_registry s) nid = Some r0"
      using assms(3) [OF n] by blast
    from later_frame_record [OF this, of c e adm ev p ns] show ?thesis
      using raw None n by (simp add: node_turn_def)
  next
    case (Some h)
    then have "hp_node_id h = nid"
      using assms(2) raw by (auto simp: speaks_for_def named_node_def split: if_splits)
    then show ?thesis
      using raw Some hello_frame_record [of c e adm sock peer ev h ns s] by (auto simp: node_turn_def)
  qed
qed

lemma node_event_heard:
  assumes "readable ve vp raw" and "speaks_for ve vp (fst st) (Text e adm raw) = Some nid"
    and "\<And>n. ns_node (fst st) = Some n \<Longrightarrow> get_node (ad_registry (snd st)) n \<noteq> None"
  shows "\<exists>r. get_node (ad_registry (snd (node_event c ve vp sock peer (Text e adm raw) st))) nid = Some r
      \<and> nr_last_seen r = en_mono e"
proof -
  have closed: "\<exists>r. get_node (ad_registry (node_closed sock ns s)) nid = Some r \<and> nr_last_seen r = en_mono e"
    if "get_node (ad_registry s) nid = Some r0" "nr_last_seen r0 = en_mono e" for ns s r0
    using that by (auto simp: node_closed_def detach_node_def on_disconnect_def disconnect_update_def split: option.splits)
  have "ns_open (fst st)"
    using assms(2) by (simp add: speaks_for_def split: if_splits)
  then show ?thesis
    using node_turn_heard [OF assms(1,2), of "snd st" c sock peer] assms(3) closed
    by (auto simp: node_event_def case_prod_beta)
qed

lemma node_event_hello:
  assumes "named_node ve vp ev = Some nid" and "ns_open (fst st)" and "ns_open (fst (node_event c ve vp sock peer ev st))"
  shows "map_of (ad_sockets (snd (node_event c ve vp sock peer ev st))) nid = Some sock"
proof (cases ev)
  case (Text e adm raw)
  then show ?thesis
    using assms node_turn_hello(1) [of ve vp e adm raw nid c sock peer "fst st" "snd st"]
    by (simp add: node_event_def case_prod_beta)
qed (use assms in \<open>simp add: named_node_def\<close>)

lemma serve_nodes_snoc: "serve_nodes c ve vp (evs @ [x]) s = served_event c ve vp x (serve_nodes c ve vp evs s)"
  by (simp add: serve_nodes_def)

lemma served_event_conns: "j \<noteq> k \<Longrightarrow> fst (served_event c ve vp (k, peer, ev) cs) j = fst cs j"
  by (simp add: served_event_def case_prod_beta)

lemma served_event_at: "served_event c ve vp (k, peer, ev) cs = (cs', s') \<Longrightarrow>
    node_event c ve vp k peer ev (fst cs k, snd cs) = (cs' k, s')"
  by (auto simp: served_event_def split: prod.splits)

text \<open>C3. A connection speaks for one node, and only after its hello. Any number of connections send
  anything, malformed or not, their frames coming in any order (one frame is handled before the next);
  then, for one event more, on connection \<open>k\<close>: (1) a frame changes the record and the socket of no node
  but the one its hello names or, else, the one the connection named last; (2) before a connection's
  first hello, and after it has left its loop, nothing at all changes; (3) a readable frame leaves its
  node's record with the time it came as last seen; (4) after a hello on a connection that stays open
  its node is reached through that connection; (5) when the loop is left, however that happens, the
  node named last is recorded as not connected; and (6) no node is reached through a connection that
  has left its loop under the name it had last.\<close>

theorem connection_speaks_for_one_node:
  assumes "serve_nodes c ve vp evs s = (cs, s0)" and "serve_nodes c ve vp (evs @ [(k, peer, ev)]) s = (cs', s1)"
  shows "(\<forall>nid. speaks_for ve vp (cs k) ev \<noteq> Some nid \<longrightarrow>
           get_node (ad_registry s1) nid = get_node (ad_registry s0) nid
           \<and> map_of (ad_sockets s1) nid = map_of (ad_sockets s0) nid)
    \<and> (speaks_for ve vp (cs k) ev = None \<longrightarrow> s1 = s0)
    \<and> (\<forall>e adm raw nid. ev = Text e adm raw \<and> readable ve vp raw \<and> speaks_for ve vp (cs k) ev = Some nid \<longrightarrow>
           (\<exists>r. get_node (ad_registry s1) nid = Some r \<and> nr_last_seen r = en_mono e))
    \<and> (\<forall>nid. named_node ve vp ev = Some nid \<and> ns_open (cs k) \<and> ns_open (cs' k) \<longrightarrow>
           map_of (ad_sockets s1) nid = Some k)
    \<and> (\<forall>nid r. ns_open (cs k) \<and> \<not> ns_open (cs' k) \<and> ns_node (cs' k) = Some nid
           \<and> get_node (ad_registry s1) nid = Some r \<longrightarrow> \<not> nr_connected r)
    \<and> (\<forall>j nid. \<not> ns_open (cs' j) \<and> ns_node (cs' j) = Some nid \<longrightarrow> map_of (ad_sockets s1) nid \<noteq> Some j)"
proof -
  let ?st = "(cs k, s0)"
  have ev: "node_event c ve vp k peer ev ?st = (cs' k, s1)"
    using served_event_at [of c ve vp k peer ev "(cs, s0)" cs' s1] assms by (simp add: serve_nodes_snoc)
  have ok0: "conns_ok (cs, s0)" and ok1: "conns_ok (cs', s1)"
    using serve_nodes_ok assms by metis+
  have known: "\<And>n. ns_node (cs k) = Some n \<Longrightarrow> get_node (ad_registry s0) n \<noteq> None"
    using ok0 by (simp add: conns_ok_def)
  have "speaks_for ve vp (cs k) ev = None \<Longrightarrow> s1 = s0"
    using node_event_stranger(1) [of ?st ve vp ev c k peer] ev
    by (cases "ns_open (cs k)") (auto simp: speaks_for_def node_event_def split: option.splits)
  moreover have "named_node ve vp ev = Some nid \<Longrightarrow> ns_open (cs k) \<Longrightarrow> ns_open (cs' k) \<Longrightarrow>
      map_of (ad_sockets s1) nid = Some k" for nid
    using ev node_event_hello [of ve vp ev nid ?st c k peer] by simp
  moreover have "\<not> nr_connected r" if "ns_open (cs k)" "\<not> ns_open (cs' k)" "ns_node (cs' k) = Some nid"
      "get_node (ad_registry s1) nid = Some r" for nid r
    using node_event_closed [of ?st c ve vp k peer ev] that ev by (simp add: socket_released_def)
  moreover have "map_of (ad_sockets s1) nid \<noteq> Some j" if "\<not> ns_open (cs' j)" "ns_node (cs' j) = Some nid" for j nid
    using ok1 that by (simp add: conns_ok_def)
  moreover have "\<exists>r. get_node (ad_registry s1) nid = Some r \<and> nr_last_seen r = en_mono e"
    if "ev = Text e adm raw" "readable ve vp raw" "speaks_for ve vp (cs k) ev = Some nid" for e adm raw nid
    using node_event_heard [of ve vp raw ?st e adm nid c k peer] known that ev by simp
  moreover have "get_node (ad_registry s1) nid = get_node (ad_registry s0) nid
      \<and> map_of (ad_sockets s1) nid = map_of (ad_sockets s0) nid" if "speaks_for ve vp (cs k) ev \<noteq> Some nid" for nid
    using node_event_others [of ve vp ?st ev nid c k peer] that ev by simp
  ultimately show ?thesis
    by blast
qed

text \<open>Two nodes and a stranger, and one of the nodes gone.\<close>

definition two_nodes :: "(nat \<times> string option \<times> sock_event) list" where
  "two_nodes = [(1, None, hello_text ''a''), (2, None, hello_text ''b''), (3, None, Text (example_env 1 100) 9 (Inl ''x''))]"

theorem connection_speaks_for_one_node_witness:
  "map_of (ad_sockets (snd (serve_nodes example_config hello_ve hello_vp (two_nodes @ [(1, None, Gone)]) fresh_admin))) ''a''
     \<noteq> Some 1
   \<and> map_of (ad_sockets (snd (serve_nodes example_config hello_ve hello_vp (two_nodes @ [(1, None, Gone)]) fresh_admin))) ''b''
     = Some 2"
proof -
  let ?s = "\<lambda>evs. serve_nodes example_config hello_ve hello_vp evs fresh_admin"
  have "\<not> ns_open (fst (?s (two_nodes @ [(1, None, Gone)])) 1)"
      and "ns_node (fst (?s (two_nodes @ [(1, None, Gone)])) 1) = Some ''a''"
      and "speaks_for hello_ve hello_vp (fst (?s two_nodes) 1) Gone \<noteq> Some ''b''"
      and "map_of (ad_sockets (snd (?s two_nodes))) ''b'' = Some 2"
    by code_simp+
  then show ?thesis
    using connection_speaks_for_one_node [of example_config hello_ve hello_vp two_nodes fresh_admin
        "fst (?s two_nodes)" "snd (?s two_nodes)" 1 None Gone "fst (?s (two_nodes @ [(1, None, Gone)]))"
        "snd (?s (two_nodes @ [(1, None, Gone)]))"]
    by simp
qed

text \<open>A connection that says hello twice leaves the first node behind: when the second hello names
  another node and the connection then ends, the first node's id still leads to the dead socket.\<close>

theorem second_hello_leaves_first:
  assumes "named_node ve vp (Text e1 t1 j1) = Some a" and "named_node ve vp (Text e2 t2 j2) = Some b"
    and "a \<noteq> b" and "en_socket_ok e1 sock" and "en_socket_ok e2 sock"
  shows "map_of (ad_sockets (snd (node_session c ve vp sock peer [Text e1 t1 j1, Text e2 t2 j2, Gone] s))) a
         = Some sock"
proof -
  have 1: "ns_open accepted_socket" by (simp add: accepted_socket_def)
  note turn1 = node_turn_hello [OF assms(1), of c sock peer accepted_socket s]
  let ?st1 = "node_turn c ve vp e1 t1 sock peer j1 accepted_socket s"
  note turn2 = node_turn_hello [OF assms(2), of c sock peer "fst ?st1" "snd ?st1"]
  let ?st2 = "node_turn c ve vp e2 t2 sock peer j2 (fst ?st1) (snd ?st1)"
  have "node_session c ve vp sock peer [Text e1 t1 j1, Text e2 t2 j2, Gone] s
        = ((fst ?st2)\<lparr>ns_open := False\<rparr>, node_closed sock ((fst ?st2)\<lparr>ns_open := False\<rparr>) (snd ?st2))"
    using 1 turn1(2) turn2(2) assms(4,5) by (simp add: node_session_def node_event_def case_prod_beta)
  moreover have "ns_node (fst ?st2) = Some b"
    by (simp add: node_turn_node assms(2))
  ultimately show ?thesis
    using turn1(1) turn2(1) assms(3) by (simp add: node_closed_def detach_node_def)
qed

theorem second_hello_leaves_first_witness:
  "map_of (ad_sockets (snd (node_session example_config hello_ve hello_vp 1 None
     [hello_text ''a'', hello_text ''b'', Gone] fresh_admin))) ''a'' = Some 1"
  using second_hello_leaves_first [OF hello_text_named [of "''a''", unfolded hello_text_def]
      hello_text_named [of "''b''", unfolded hello_text_def]]
  by (simp add: hello_text_def example_env_def)

section \<open>The parameters of a run\<close>

lemma refused_param_None:
  assumes "refused_param params = None" and "(k, ok) \<in> set param_checks" and "pget params k \<noteq> JNull"
  shows "ok (pget params k)"
  using assms by (force simp: refused_param_def find_None_iff)

lemma in_textsD: "in_texts ts v \<Longrightarrow> \<exists>s. v = JStr s \<and> s \<in> set ts"
  by (simp add: in_texts_def split: json.splits)

lemma checked_profile:
  assumes "refused_param params = None"
  shows "profile_of params \<in> set profiles"
proof (cases "pget params ''profile'' = JNull")
  case True
  then show ?thesis by (simp add: profiles_def default_profile_def)
next
  case False
  then have "in_texts profiles (pget params ''profile'')"
    using refused_param_None [OF assms, of "''profile''" "in_texts profiles"] by (simp add: param_checks_def)
  then show ?thesis
    by (auto simp: profile_of_def py_or_def profiles_def dest!: in_textsD)
qed

text \<open>Parameters the admin accepts are ones every part can use: their profile is one a run may have,
  their codec one the nodes know, and a policy for a numeric UE among them is stored in the form the
  xApp parses, with the quota and the schedule the operator gave.\<close>

theorem accepted_params_usable:
  assumes "check_params pd params = Inr q"
  shows "profile_of q \<in> set profiles
    \<and> (pget q ''codec'' \<noteq> JNull \<longrightarrow> in_texts codecs (pget q ''codec''))
    \<and> (pget q ''ran_policy'' \<noteq> JNull \<longrightarrow>
         (\<exists>p. pget q ''ran_policy'' = JObj (dump_policy p)
            \<and> (\<forall>n. rp_ue p = Inl n \<longrightarrow> parse_policy ft (pget q ''ran_policy'') = Inr (effective_policy n p))))"
proof -
  have ok: "refused_param q = None"
    using assms by (auto simp: check_params_def elim!: sum_bind_InrE split: option.splits)
  have "pget q ''codec'' \<noteq> JNull \<Longrightarrow> in_texts codecs (pget q ''codec'')"
    using refused_param_None [OF ok, of "''codec''" "in_texts codecs"] by (simp add: param_checks_def)
  moreover have "\<exists>p. pget q ''ran_policy'' = JObj (dump_policy p)
      \<and> (\<forall>n. rp_ue p = Inl n \<longrightarrow> parse_policy ft (pget q ''ran_policy'') = Inr (effective_policy n p))"
    if given: "pget q ''ran_policy'' \<noteq> JNull"
  proof -
    obtain p where p: "validate_ran_policy pd (pget params ''ran_policy'') = Some p"
        "q = dput ''ran_policy'' (JObj (dump_policy p)) params"
      using assms given
      by (cases "pget params ''ran_policy'' = JNull")
         (auto simp: check_params_def elim!: sum_bind_InrE split: option.splits)
    then show ?thesis
      using parse_dumped_policy [OF validate_ran_policy_wf [OF p(1)]] by auto
  qed
  ultimately show ?thesis
    using checked_profile [OF ok] by blast
qed

theorem accepted_params_usable_witness:
  "\<exists>q. check_params strict_pydantic [(''profile'', JStr ''media''), (''codec'', JStr ''gpcc''),
        (''ran_policy'', JObj [(''ue'', JInt 3), (''max_prb_ratio'', JInt 30)])] = Inr q
     \<and> profile_of q \<in> set profiles"
proof -
  let ?params = "[(''profile'', JStr ''media''), (''codec'', JStr ''gpcc''),
        (''ran_policy'', JObj [(''ue'', JInt 3), (''max_prb_ratio'', JInt 30)])]"
  have "\<not> isl (check_params strict_pydantic ?params)"
    by code_simp
  then obtain q where "check_params strict_pydantic ?params = Inr q"
    by (cases "check_params strict_pydantic ?params") auto
  then show ?thesis
    using accepted_params_usable by blast
qed

end
