(* ===== verification/Xapp_Core.thy ===== *)
theory Xapp_Core
  imports Py_Prelude
begin

text \<open>
  What the capabilities of the xApp share (ran/xapp/src/mec_cast_xapp/core.py): the E2 node a run
  acts on, and the capabilities an xApp is made of. The classes a name is imported as are code of
  Python's import system: a capability is its name here. \<open>round\<close> and \<open>list\<close> are Python's.
\<close>

section \<open>Python numbers and sequences\<close>

text \<open>\<open>round(x)\<close>: to the nearest integer, a tie to the even one.\<close>

definition py_round :: "rat \<Rightarrow> int" where
  "py_round r =
     (let f = \<lfloor>r\<rfloor>; d = r - of_int f
      in if d < 1 / 2 then f else if 1 / 2 < d then f + 1 else if even f then f else f + 1)"

text \<open>\<open>list(v)\<close>: \<open>None\<close> is the \<open>TypeError\<close> of a value that cannot be walked.\<close>

fun py_list :: "json \<Rightarrow> json list option" where
  "py_list (JArr xs) = Some xs"
| "py_list (JStr s) = Some (map (\<lambda>c. JStr [c]) s)"
| "py_list (JObj d) = Some (map (\<lambda>kv. JStr (fst kv)) d)"
| "py_list _ = None"

fun map_option_list :: "('a \<Rightarrow> 'b option) \<Rightarrow> 'a list \<Rightarrow> 'b list option" where
  "map_option_list f [] = Some []"
| "map_option_list f (x # xs) =
     (case f x of
        None \<Rightarrow> None
      | Some y \<Rightarrow> map_option (\<lambda>ys. y # ys) (map_option_list f xs))"

lemma map_option_list_Some:
  "map_option_list f xs = Some ys \<longleftrightarrow> list_all2 (\<lambda>x y. f x = Some y) xs ys"
  by (induction xs arbitrary: ys) (auto simp: list_all2_Cons1 split: option.splits)

lemma py_round_of_int [simp]: "py_round (of_int n) = n"
  by (simp add: py_round_def Let_def)

lemma py_round_near: "\<bar>of_int (py_round r) - r\<bar> \<le> 1 / 2"
proof -
  have "0 \<le> r - of_int \<lfloor>r\<rfloor>" "r - of_int \<lfloor>r\<rfloor> < 1"
    using floor_correct [of r] by linarith+
  then show ?thesis
    by (auto simp: py_round_def Let_def abs_le_iff)
qed

section \<open>The context of a run\<close>

text \<open>\<open>XappContext.node\<close>: the E2 node to act on. \<open>nodes\<close> is what \<open>connected_nodes\<close> answers, and
  \<open>None\<close>, in it and in the result, that it raises.\<close>

definition ctx_node :: "pdict \<Rightarrow> string list option \<Rightarrow> string option option" where
  "ctx_node params nodes =
     (let wanted = pget params ''e2_node_id''
      in if truthy wanted then Some (Some (py_str wanted))
         else map_option (\<lambda>ns. case ns of [] \<Rightarrow> None | n # _ \<Rightarrow> Some n) nodes)"

section \<open>Capabilities\<close>

definition builtin_capabilities :: "(string \<times> string) list" where
  "builtin_capabilities =
     [(''kpm_monitor'', ''mec_cast_xapp.capabilities.kpm_monitor:KpmMonitor''),
      (''rc_control'', ''mec_cast_xapp.capabilities.rc_control:RcControl'')]"

text \<open>\<open>entry_points\<close> is what the installed packages register, \<open>None\<close> when reading it raises.\<close>

definition available_capabilities :: "(string \<times> string) list option \<Rightarrow> (string \<times> string) list" where
  "available_capabilities entry_points =
     (case entry_points of
        None \<Rightarrow> builtin_capabilities
      | Some eps \<Rightarrow> dmerge builtin_capabilities eps)"

text \<open>\<open>load_capabilities\<close>: the named ones in order, as name and import path; the left side is the
  name it refuses.\<close>

fun load_known :: "(string \<times> string) list \<Rightarrow> string list \<Rightarrow> string + (string \<times> string) list" where
  "load_known known [] = Inr []"
| "load_known known (raw # names) =
     (let name = strip raw
      in if name = [] then load_known known names
         else
           (case map_of known name of
              None \<Rightarrow> Inl name
            | Some path \<Rightarrow> sum_bind (load_known known names) (\<lambda>cs. Inr ((name, path) # cs))))"

definition load_capabilities ::
  "(string \<times> string) list option \<Rightarrow> string list \<Rightarrow> string + (string \<times> string) list" where
  "load_capabilities entry_points names = load_known (available_capabilities entry_points) names"

lemma load_known_Cons:
  "strip raw = [] \<Longrightarrow> load_known known (raw # names) = load_known known names"
  "strip raw \<noteq> [] \<Longrightarrow> map_of known (strip raw) = None \<Longrightarrow>
     load_known known (raw # names) = Inl (strip raw)"
  "strip raw \<noteq> [] \<Longrightarrow> map_of known (strip raw) = Some path \<Longrightarrow> load_known known (raw # names) =
     sum_bind (load_known known names) (\<lambda>cs. Inr ((strip raw, path) # cs))"
  by (simp_all add: Let_def)

lemma load_known_names:
  "load_known known names = Inr cs \<Longrightarrow> map fst cs = filter (\<lambda>n. n \<noteq> []) (map strip names)"
proof (induction names arbitrary: cs)
  case Nil
  then show ?case by simp
next
  case (Cons raw names)
  show ?case
  proof (cases "strip raw = []")
    case True
    with Cons show ?thesis by (simp add: load_known_Cons del: load_known.simps)
  next
    case False
    then obtain path where p: "map_of known (strip raw) = Some path"
      using Cons.prems load_known_Cons(2) [of raw known names] by (cases "map_of known (strip raw)") auto
    then obtain ds where "load_known known names = Inr ds" "cs = (strip raw, path) # ds"
      using Cons.prems load_known_Cons(3) [OF False p, of names]
      by (auto elim!: sum_bind_InrE simp del: load_known.simps)
    with Cons.IH False show ?thesis by simp
  qed
qed

section \<open>The contract of a capability\<close>

text \<open>
  What \<open>Capability\<close> asks of a behaviour bound to the run lifecycle: an invariant every hook keeps,
  and that nothing of it is left at the RIC, it is quiet, once its stop hook has run. \<open>env_ok\<close> says
  of the world a hook is called in that it lets the capability keep its word.
\<close>

locale capability =
  fixes env_ok :: "'e \<Rightarrow> bool"
    and inv quiet :: "'s \<Rightarrow> bool"
    and start tick stop :: "'e \<Rightarrow> 's \<Rightarrow> 's"
  assumes start_inv: "inv s \<Longrightarrow> quiet s \<Longrightarrow> inv (start e s)"
    and tick_inv: "env_ok e \<Longrightarrow> inv s \<Longrightarrow> inv (tick e s)"
    and stop_inv: "env_ok e \<Longrightarrow> inv s \<Longrightarrow> inv (stop e s)"
    and stop_quiet: "env_ok e \<Longrightarrow> inv s \<Longrightarrow> quiet (stop e s)"
begin

lemma ticks_inv: "list_all env_ok es \<Longrightarrow> inv s \<Longrightarrow> inv (fold tick es s)"
  by (induction es arbitrary: s) (simp_all add: tick_inv)

text \<open>A whole run leaves the capability as fit for the next one as it found it.\<close>

lemma run_restores:
  assumes "inv s" and "quiet s" and "list_all env_ok es" and "env_ok e'"
  shows "inv (stop e' (fold tick es (start e s))) \<and> quiet (stop e' (fold tick es (start e s)))"
  using assms by (simp add: start_inv ticks_inv stop_inv stop_quiet)

end

end
