(* ===== verification/Kpm_Monitor.thy ===== *)
theory Kpm_Monitor
  imports Xapp_Core
begin

text \<open>
  E2SM-KPM monitoring in the xApp (ran/xapp/src/mec_cast_xapp/capabilities/kpm_monitor.py): one
  subscription for the run, retried until the RIC grants it, and what happens to an indication.

  \<open>km_subs\<close> is what the RIC, third-party code behind \<open>E2Port\<close>, holds for this xApp: it grows when
  the RIC grants a subscription and shrinks when it takes an unsubscribe. \<open>kenv\<close> is what one
  call reads of the world. A hook's result says whether it returned (\<open>True\<close>) or raised.
\<close>

section \<open>State\<close>

record kpm_req =
  kq_node :: string
  kq_style :: int
  kq_metrics :: "json list"
  kq_ues :: "int list"
  kq_period :: int

datatype sub_answer = Subscribed string | Sub_Rejected string | Sub_Failed string

record kpm =
  km_handle :: "string option"
  km_node :: "string option"
  km_style :: int
  km_error :: "string option"
  km_next :: rat
  km_params :: "pdict option"
  km_subs :: "(string \<times> kpm_req) list"

record kenv =
  ke_mono :: rat
  ke_nodes :: "string list option"
  ke_answer :: "kpm_req \<Rightarrow> sub_answer"
  ke_unsub :: bool

definition default_metrics :: "json list" where
  "default_metrics =
     [JStr ''DRB.UEThpDl'', JStr ''DRB.UEThpUl'', JStr ''DRB.RlcSduTransmittedVolumeDL'',
      JStr ''DRB.RlcSduTransmittedVolumeUL'', JStr ''DRB.RlcPacketDropRateDl'']"

definition default_style :: int where
  "default_style = 2"

definition retry_s :: rat where
  "retry_s = 5"

definition rejected_retry_s :: rat where
  "rejected_retry_s = 60"

definition new_kpm :: kpm where
  "new_kpm =
     \<lparr>km_handle = None, km_node = None, km_style = default_style, km_error = None, km_next = 0,
      km_params = None, km_subs = []\<rparr>"

section \<open>Subscribing\<close>

text \<open>What a run's parameters ask for: the style, the metrics, the UE ids and the period; \<open>None\<close>
  where reading one raises.\<close>

definition kpm_style_of :: "pdict \<Rightarrow> int option" where
  "kpm_style_of p = py_int (py_or (pget p ''kpm_style'') (JInt default_style))"

definition kpm_metrics_of :: "pdict \<Rightarrow> json list option" where
  "kpm_metrics_of p = py_list (py_or (pget p ''kpm_metrics'') (JArr default_metrics))"

definition kpm_ues_of :: "pdict \<Rightarrow> int list option" where
  "kpm_ues_of p =
     Option.bind (py_list (py_or (pget p ''kpm_ue_ids'') (JArr [JInt 0]))) (map_option_list py_int)"

definition kpm_period_of :: "pdict \<Rightarrow> int option" where
  "kpm_period_of p = map_option (max 1000) (py_int (py_or (pget p ''kpm_period_ms'') (JInt 1000)))"

definition kpm_request :: "kenv \<Rightarrow> kpm_req \<Rightarrow> kpm \<Rightarrow> kpm" where
  "kpm_request x q s =
     (case ke_answer x q of
        Subscribed h \<Rightarrow>
          s\<lparr>km_handle := Some h, km_node := Some (kq_node q), km_error := None,
            km_subs := (h, q) # km_subs s\<rparr>
      | Sub_Rejected m \<Rightarrow>
          s\<lparr>km_error := Some (''subscribe failed: '' @ m), km_next := ke_mono x + rejected_retry_s\<rparr>
      | Sub_Failed m \<Rightarrow>
          s\<lparr>km_error := Some (''subscribe failed: '' @ m), km_next := ke_mono x + retry_s\<rparr>)"

definition try_subscribe :: "kenv \<Rightarrow> pdict \<Rightarrow> kpm \<Rightarrow> bool \<times> kpm" where
  "try_subscribe x p s =
     (if km_handle s \<noteq> None \<or> ke_mono x < km_next s then (True, s)
      else
        (case kpm_style_of p of
           None \<Rightarrow> (False, s)
         | Some style \<Rightarrow>
             (let s1 = s\<lparr>km_style := style\<rparr>
              in case (kpm_metrics_of p, kpm_ues_of p, kpm_period_of p) of
                   (Some metrics, Some ues, Some period) \<Rightarrow>
                     (case ctx_node p (ke_nodes x) of
                        None \<Rightarrow> (False, s1)
                      | Some None \<Rightarrow>
                          (True, s1\<lparr>km_error := Some ''no E2 node connected to the RIC'',
                                    km_next := ke_mono x + retry_s\<rparr>)
                      | Some (Some node) \<Rightarrow>
                          (True, kpm_request x \<lparr>kq_node = node, kq_style = style, kq_metrics = metrics,
                                                   kq_ues = ues, kq_period = period\<rparr> s1))
                 | _ \<Rightarrow> (False, s1))))"

section \<open>The hooks\<close>

definition kpm_on_start :: "kenv \<Rightarrow> pdict \<Rightarrow> kpm \<Rightarrow> bool \<times> kpm" where
  "kpm_on_start x p s = try_subscribe x p (s\<lparr>km_params := Some p, km_handle := None, km_next := 0\<rparr>)"

definition kpm_tick :: "kenv \<Rightarrow> pdict \<Rightarrow> kpm \<Rightarrow> bool \<times> kpm" where
  "kpm_tick x p s = try_subscribe x p s"

definition kpm_on_stop :: "kenv \<Rightarrow> kpm \<Rightarrow> kpm" where
  "kpm_on_stop x s =
     (let s1 = (case km_handle s of
                  None \<Rightarrow> s
                | Some h \<Rightarrow>
                    if ke_unsub x then s\<lparr>km_subs := filter (\<lambda>(h', q). h' \<noteq> h) (km_subs s)\<rparr> else s)
      in s1\<lparr>km_handle := None, km_params := None\<rparr>)"

text \<open>\<open>_on_indication\<close>: what reaches the recorder. \<open>Some None\<close> is an indication that comes outside
  a run and is dropped, \<open>None\<close> one whose UE id cannot be read from the parameters.\<close>

definition first_item :: "json \<Rightarrow> json option" where
  "first_item v =
     (case v of JArr (x # _) \<Rightarrow> Some x | JStr (c # _) \<Rightarrow> Some (JStr [c]) | _ \<Rightarrow> None)"

definition on_indication :: "pdict \<Rightarrow> kpm \<Rightarrow> pdict option option" where
  "on_indication ind s =
     (case km_params s of
        None \<Rightarrow> Some None
      | Some p \<Rightarrow>
          if km_style s = 2 \<and> map_of ind ''ue_id'' = None
          then map_option (\<lambda>ue. Some (dput ''ue_id'' ue ind))
                 (first_item (py_or (pget p ''kpm_ue_ids'') (JArr [JInt 0])))
          else Some (Some ind))"

definition kpm_status :: "kpm \<Rightarrow> nat \<Rightarrow> nat \<Rightarrow> (rat \<times> rat) option \<Rightarrow> (string \<times> int) list" where
  "kpm_status s indications rows throughput =
     (case km_params s of
        None \<Rightarrow> []
      | Some _ \<Rightarrow>
          [(''indications'', int indications), (''rows'', int rows)]
          @ (case throughput of
               None \<Rightarrow> []
             | Some (dl, ul) \<Rightarrow>
                 [(''ue_dl_throughput_bps'', py_round dl), (''ue_ul_throughput_bps'', py_round ul)]))"

definition kpm_params :: "kpm \<Rightarrow> pdict" where
  "kpm_params s =
     [(''kpm_style'', JInt (km_style s)),
      (''e2_node_id'', case km_node s of None \<Rightarrow> JNull | Some n \<Rightarrow> JStr n),
      (''kpm_subscribed'', JBool (km_handle s \<noteq> None)),
      (''kpm_error'', case km_error s of None \<Rightarrow> JNull | Some e \<Rightarrow> JStr e)]"

section \<open>Invariant\<close>

text \<open>The handle and what the RIC holds agree: no handle and no subscription, or one of each; and no
  subscription asks for reports the E2 agent cannot make.\<close>

definition kpm_inv :: "kpm \<Rightarrow> bool" where
  "kpm_inv s \<longleftrightarrow>
     (case km_handle s of None \<Rightarrow> km_subs s = [] | Some h \<Rightarrow> \<exists>q. km_subs s = [(h, q)])
     \<and> (\<forall>(h, q) \<in> set (km_subs s). 1000 \<le> kq_period q)"

definition kpm_quiet :: "kpm \<Rightarrow> bool" where
  "kpm_quiet s \<longleftrightarrow> km_subs s = []"

section \<open>Lemmas\<close>

lemma kpm_period_of_bound: "kpm_period_of p = Some n \<Longrightarrow> 1000 \<le> n"
  by (auto simp: kpm_period_of_def)

text \<open>A try either keeps the subscriptions, or finds none and gets the one it asked for.\<close>

lemma try_subscribe_cases:
  obtains (same) "km_subs (snd (try_subscribe x p s)) = km_subs s"
      "km_handle (snd (try_subscribe x p s)) = km_handle s"
  | (granted) h q where "km_handle s = None" "ke_answer x q = Subscribed h" "1000 \<le> kq_period q"
      "km_subs (snd (try_subscribe x p s)) = (h, q) # km_subs s"
      "km_handle (snd (try_subscribe x p s)) = Some h"
proof (cases "\<exists>style metrics ues period node.
    km_handle s = None \<and> \<not> ke_mono x < km_next s \<and> kpm_style_of p = Some style \<and>
    kpm_metrics_of p = Some metrics \<and> kpm_ues_of p = Some ues \<and> kpm_period_of p = Some period \<and>
    ctx_node p (ke_nodes x) = Some (Some node)")
  case True
  then obtain style metrics ues period node where *:
    "km_handle s = None" "\<not> ke_mono x < km_next s" "kpm_style_of p = Some style"
    "kpm_metrics_of p = Some metrics" "kpm_ues_of p = Some ues" "kpm_period_of p = Some period"
    "ctx_node p (ke_nodes x) = Some (Some node)" by blast
  let ?q = "\<lparr>kq_node = node, kq_style = style, kq_metrics = metrics, kq_ues = ues, kq_period = period\<rparr>"
  have r: "snd (try_subscribe x p s) = kpm_request x ?q (s\<lparr>km_style := style\<rparr>)"
    by (simp add: try_subscribe_def * Let_def)
  show thesis
  proof (cases "ke_answer x ?q")
    case (Subscribed h)
    then show thesis
      using granted [of ?q h] * r kpm_period_of_bound [OF *(6)] by (simp add: kpm_request_def)
  qed (use same r in \<open>simp_all add: kpm_request_def\<close>)
next
  case False
  then have "km_subs (snd (try_subscribe x p s)) = km_subs s \<and>
      km_handle (snd (try_subscribe x p s)) = km_handle s"
    by (auto simp: try_subscribe_def Let_def split: option.splits)
  then show thesis using same by blast
qed

lemma try_subscribe_params: "km_params (snd (try_subscribe x p s)) = km_params s"
  by (simp add: try_subscribe_def kpm_request_def Let_def split: option.splits sub_answer.splits)

lemma try_subscribe_inv: "kpm_inv s \<Longrightarrow> kpm_inv (snd (try_subscribe x p s))"
  by (cases rule: try_subscribe_cases [of x p s]) (auto simp: kpm_inv_def split: option.splits)

interpretation kpm_cap: capability
  "\<lambda>(x, p). ke_unsub x" kpm_inv kpm_quiet
  "\<lambda>(x, p) s. snd (kpm_on_start x p s)" "\<lambda>(x, p) s. snd (kpm_tick x p s)" "\<lambda>(x, p) s. kpm_on_stop x s"
proof unfold_locales
  fix e :: "kenv \<times> pdict" and s :: kpm
  obtain x p where e: "e = (x, p)" by (cases e)
  assume inv: "kpm_inv s"
  show "kpm_inv ((\<lambda>(x, p) s. snd (kpm_tick x p s)) e s)"
    using try_subscribe_inv [OF inv] by (simp add: e kpm_tick_def)
  show "kpm_inv ((\<lambda>(x, p) s. snd (kpm_on_start x p s)) e s)" if "kpm_quiet s"
  proof -
    have "kpm_inv (s\<lparr>km_params := Some p, km_handle := None, km_next := 0\<rparr>)"
      using that by (simp add: kpm_inv_def kpm_quiet_def)
    from try_subscribe_inv [OF this] show ?thesis
      by (simp add: e kpm_on_start_def)
  qed
  assume "(\<lambda>(x, p). ke_unsub x) e"
  then show "kpm_inv ((\<lambda>(x, p) s. kpm_on_stop x s) e s)" "kpm_quiet ((\<lambda>(x, p) s. kpm_on_stop x s) e s)"
    using inv by (auto simp: e kpm_inv_def kpm_quiet_def kpm_on_stop_def Let_def split: option.splits)
qed

end
