(* ===== verification/Rc_Control.thy ===== *)
theory Rc_Control
  imports Ran_Policy Xapp_Core
begin

text \<open>
  E2SM-RC control in the xApp (ran/xapp/src/mec_cast_xapp/capabilities/rc_control.py): a PRB quota
  for one UE, scoped to one run, with a marker file that says what to undo after a crash.

  The RIC is third-party code behind \<open>E2Port\<close>. \<open>rc_port\<close> is the list of the requests it
  accepted, \<open>rc_pending\<close> those whose outcome has not come back; \<open>rc_outcome\<close> is the callback.
  \<open>xenv\<close> is what one call reads of the world: the clock, the connected E2 nodes, whether the port
  raises on a request, how a write of the marker ends. The callback of a refused request runs at
  once, as in the code; that of an accepted one is a step of its own, whenever it comes.
\<close>

section \<open>State\<close>

record control_req =
  cr_node :: string
  cr_ue :: int
  cr_quota :: quota
  cr_action :: string

datatype outcome = Sent_Out | Acked | Refused string

datatype marker_write = Written | Mkdir_Failed | Open_Failed | Write_Torn

record marker =
  mk_node :: string
  mk_ue :: int
  mk_run :: string
  mk_policy :: parsed_policy

text \<open>The marker file: absent, unreadable, or its content.\<close>

datatype marker_file = No_File | Unreadable | Marker marker

record rc =
  rc_policy :: "parsed_policy option"
  rc_node :: string
  rc_applied_at :: rat
  rc_next :: nat
  rc_state :: string
  rc_error :: "string option"
  rc_sent :: nat
  rc_acked :: nat
  rc_failed :: nat
  rc_stale :: "marker option"
  rc_stale_read :: bool
  rc_wrote :: bool
  rc_file :: marker_file
  rc_port :: "control_req list"
  rc_pending :: "control_req list"
  rc_log :: "(control_req \<times> outcome) list"

record xenv =
  xe_mono :: rat
  xe_params :: pdict
  xe_nodes :: "string list option"
  xe_refuses :: "control_req \<Rightarrow> string option"
  xe_admin_lost :: rat
  xe_write :: marker_write
  xe_unlink :: bool
  xe_run :: string
  xe_float :: "string \<Rightarrow> rat option"
  xe_fmt :: "rat \<Rightarrow> string"

definition xe_node :: "xenv \<Rightarrow> string option option" where
  "xe_node x = ctx_node (xe_params x) (xe_nodes x)"

definition admin_loss_revert :: rat where
  "admin_loss_revert = 30"

definition new_rc :: "marker_file \<Rightarrow> rc" where
  "new_rc file =
     \<lparr>rc_policy = None, rc_node = [], rc_applied_at = 0, rc_next = 0, rc_state = ''none'',
      rc_error = None, rc_sent = 0, rc_acked = 0, rc_failed = 0, rc_stale = None,
      rc_stale_read = False, rc_wrote = False, rc_file = file, rc_port = [], rc_pending = [],
      rc_log = []\<rparr>"

section \<open>The marker\<close>

definition write_marker :: "xenv \<Rightarrow> parsed_policy \<Rightarrow> rc \<Rightarrow> rc" where
  "write_marker x p s =
     (case xe_write x of
        Mkdir_Failed \<Rightarrow> s
      | Open_Failed \<Rightarrow> s\<lparr>rc_wrote := True\<rparr>
      | Write_Torn \<Rightarrow> s\<lparr>rc_wrote := True, rc_file := Unreadable\<rparr>
      | Written \<Rightarrow>
          s\<lparr>rc_wrote := True,
            rc_file := Marker \<lparr>mk_node = rc_node s, mk_ue = xp_ue p, mk_run = xe_run x, mk_policy = p\<rparr>\<rparr>)"

definition clear_marker :: "xenv \<Rightarrow> rc \<Rightarrow> rc" where
  "clear_marker x s = (if xe_unlink x then s\<lparr>rc_file := No_File\<rparr> else s)"

section \<open>Control\<close>

definition is_apply :: "string \<Rightarrow> bool" where
  "is_apply action \<longleftrightarrow> take 5 action = ''apply'' \<or> take 4 action = ''step''"

definition rc_done :: "bool \<Rightarrow> string \<Rightarrow> control_req \<Rightarrow> rc \<Rightarrow> rc" where
  "rc_done ok detail req s =
     s\<lparr>rc_acked := (if ok then rc_acked s + 1 else rc_acked s),
       rc_failed := (if ok then rc_failed s else rc_failed s + 1),
       rc_error := (if ok then rc_error s else Some detail),
       rc_state := (if is_apply (cr_action req) then (if ok then ''applied'' else ''failed'') else rc_state s),
       rc_log := rc_log s @ [(req, if ok then Acked else Refused detail)]\<rparr>"

definition rc_send :: "xenv \<Rightarrow> control_req \<Rightarrow> rc \<Rightarrow> rc" where
  "rc_send x req s =
     (let s1 = s\<lparr>rc_sent := rc_sent s + 1, rc_log := rc_log s @ [(req, Sent_Out)]\<rparr>
      in case xe_refuses x req of
           None \<Rightarrow> s1\<lparr>rc_port := rc_port s1 @ [req], rc_pending := rc_pending s1 @ [req]\<rparr>
         | Some e \<Rightarrow> rc_done False (''send failed: '' @ e) req s1)"

definition rc_outcome :: "bool \<Rightarrow> string \<Rightarrow> control_req \<Rightarrow> rc \<Rightarrow> rc" where
  "rc_outcome ok detail req s =
     (if req \<in> set (rc_pending s) then rc_done ok detail req (s\<lparr>rc_pending := remove1 req (rc_pending s)\<rparr>)
      else s)"

definition mk_req :: "string \<Rightarrow> int \<Rightarrow> quota \<Rightarrow> string \<Rightarrow> control_req" where
  "mk_req node ue q action = \<lparr>cr_node = node, cr_ue = ue, cr_quota = q, cr_action = action\<rparr>"

definition on_policy :: "xenv \<Rightarrow> json \<Rightarrow> rc \<Rightarrow> (policy_error + unit) \<times> rc" where
  "on_policy x raw s =
     (case parse_policy (xe_float x) raw of
        Inl e \<Rightarrow> (Inl e, s)
      | Inr p \<Rightarrow>
          (case xe_node x of
             None \<Rightarrow> (Inl Other_Error, s)
           | Some None \<Rightarrow>
               (Inl Policy_Error, s\<lparr>rc_state := ''failed'', rc_error := Some ''no E2 node connected''\<rparr>)
           | Some (Some node) \<Rightarrow>
               (let s1 = (case rc_policy s of
                            None \<Rightarrow> s
                          | Some old \<Rightarrow>
                              if xp_ue old \<noteq> xp_ue p
                              then rc_send x (mk_req (rc_node s) (xp_ue old) default_quota ''revert-replaced'') s
                              else s);
                    s2 = s1\<lparr>rc_policy := Some p, rc_node := node, rc_applied_at := xe_mono x, rc_next := 0,
                            rc_state := ''pending''\<rparr>;
                    s3 = write_marker x p s2
                in (Inr (), rc_send x (mk_req node (xp_ue p) (xp_first p) ''apply'') s3))))"

text \<open>\<open>_revert\<close>, and the \<open>while\<close> of \<open>tick\<close> over the steps that are due.\<close>

definition rc_revert :: "xenv \<Rightarrow> string \<Rightarrow> rc \<Rightarrow> rc" where
  "rc_revert x why s =
     (case rc_policy s of
        None \<Rightarrow> s
      | Some p \<Rightarrow>
          clear_marker x
            ((rc_send x (mk_req (rc_node s) (xp_ue p) default_quota why) s)
               \<lparr>rc_policy := None, rc_state := ''reverted''\<rparr>))"

definition step_action :: "xenv \<Rightarrow> rat \<Rightarrow> string" where
  "step_action x t = ''step@'' @ xe_fmt x t @ ''s''"

function due_steps :: "xenv \<Rightarrow> parsed_policy \<Rightarrow> rat \<Rightarrow> rc \<Rightarrow> rc" where
  "due_steps x p elapsed s =
     (if rc_next s < length (xp_schedule p) \<and> fst (xp_schedule p ! rc_next s) \<le> elapsed
      then
        (let st = xp_schedule p ! rc_next s
         in due_steps x p elapsed
              (rc_send x (mk_req (rc_node s) (xp_ue p) (snd st) (step_action x (fst st)))
                 (s\<lparr>rc_next := rc_next s + 1\<rparr>)))
      else s)"
  by pat_completeness auto
termination
  by (relation "measure (\<lambda>(x, p, elapsed, s). length (xp_schedule p) - rc_next s)")
     (auto simp: rc_send_def rc_done_def Let_def split: option.splits)

declare due_steps.simps [simp del]

definition rc_tick :: "xenv \<Rightarrow> rc \<Rightarrow> rc" where
  "rc_tick x s =
     (case rc_policy s of
        None \<Rightarrow> s
      | Some p \<Rightarrow>
          (let s1 = due_steps x p (xe_mono x - rc_applied_at s) s
           in if admin_loss_revert < xe_admin_lost x then rc_revert x ''revert-admin-lost'' s1 else s1))"

text \<open>\<open>on_stop\<close>: the revert, then the outcomes that come back while it waits for them.\<close>

fun wait_outcomes :: "(bool \<times> string \<times> control_req) list \<Rightarrow> rc \<Rightarrow> rc" where
  "wait_outcomes [] s = s"
| "wait_outcomes ((ok, detail, req) # os) s =
     (if rc_acked s + rc_failed s < rc_sent s then wait_outcomes os (rc_outcome ok detail req s) else s)"

definition rc_on_stop :: "xenv \<Rightarrow> (bool \<times> string \<times> control_req) list \<Rightarrow> rc \<Rightarrow> rc" where
  "rc_on_stop x outcomes s = wait_outcomes outcomes (rc_revert x ''revert-run-stop'' s)"

text \<open>\<open>on_boot\<close>: read the leftover once, then revert it on the node it names, or on the first
  connected one. The result is whether boot is done.\<close>

definition read_stale :: "rc \<Rightarrow> rc" where
  "read_stale s =
     (if rc_stale_read s then s
      else
        (let s1 = s\<lparr>rc_stale_read := True\<rparr>
         in if rc_wrote s then s1
            else (case rc_file s of
                    No_File \<Rightarrow> s1
                  | Unreadable \<Rightarrow> s1\<lparr>rc_file := No_File\<rparr>
                  | Marker m \<Rightarrow> s1\<lparr>rc_stale := Some m\<rparr>)))"

definition boot_node :: "xenv \<Rightarrow> marker \<Rightarrow> string option" where
  "boot_node x m =
     (case xe_nodes x of
        None \<Rightarrow> None
      | Some nodes \<Rightarrow>
          if mk_node m \<in> set nodes then Some (mk_node m)
          else (case nodes of [] \<Rightarrow> None | n # _ \<Rightarrow> Some n))"

definition on_boot :: "xenv \<Rightarrow> rc \<Rightarrow> bool \<times> rc" where
  "on_boot x s =
     (let s1 = read_stale s
      in case rc_stale s1 of
           None \<Rightarrow> (True, s1)
         | Some m \<Rightarrow>
             (case boot_node x m of
                None \<Rightarrow> (False, s1)
              | Some node \<Rightarrow>
                  (let req = mk_req node (mk_ue m) default_quota ''revert-after-crash''
                   in case xe_refuses x req of
                        Some e \<Rightarrow> (False, s1)
                      | None \<Rightarrow>
                          (let s2 = s1\<lparr>rc_port := rc_port s1 @ [req], rc_stale := None\<rparr>
                           in (True, if rc_policy s2 = None then s2\<lparr>rc_file := No_File\<rparr> else s2)))))"

definition rc_status :: "rc \<Rightarrow> (string \<times> int) list" where
  "rc_status s =
     [(''controls_sent'', int (rc_sent s)), (''controls_acked'', int (rc_acked s)),
      (''controls_failed'', int (rc_failed s))]"

definition quota_entries :: "quota \<Rightarrow> pdict" where
  "quota_entries q =
     [(''min_prb_ratio'', JInt (q_min q)), (''max_prb_ratio'', JInt (q_max q)),
      (''dedicated_prb_ratio'', JInt (q_ded q))]"

definition rc_params :: "rc \<Rightarrow> pdict" where
  "rc_params s =
     [(''policy_state'', JStr (rc_state s)),
      (''policy_error'', case rc_error s of None \<Rightarrow> JNull | Some e \<Rightarrow> JStr e)]
     @ (case rc_policy s of
          None \<Rightarrow> []
        | Some p \<Rightarrow>
            [(''policy'', JObj ((''ue'', JInt (xp_ue p)) # quota_entries (xp_first p))),
             (''policy_steps_left'', JInt (int (length (xp_schedule p)) - int (rc_next s)))])"

section \<open>Steps\<close>

text \<open>The calls the xApp makes while its E2 node stays the same, every request is accepted and the
  marker can be written: the world the module's rule is about.\<close>

definition steady :: "string \<Rightarrow> xenv \<Rightarrow> bool" where
  "steady node x \<longleftrightarrow>
     xe_node x = Some (Some node) \<and> xe_refuses x = (\<lambda>_. None) \<and> xe_write x = Written \<and> xe_unlink x"

inductive rc_step :: "string \<Rightarrow> rc \<Rightarrow> rc \<Rightarrow> bool" for node where
  rs_policy: "steady node x \<Longrightarrow> rc_step node s (snd (on_policy x raw s))"
| rs_tick: "steady node x \<Longrightarrow> rc_step node s (rc_tick x s)"
| rs_stop: "steady node x \<Longrightarrow> rc_step node s (rc_on_stop x outcomes s)"
| rs_outcome: "rc_step node s (rc_outcome ok detail req s)"

inductive rc_reachable :: "string \<Rightarrow> rc \<Rightarrow> bool" for node where
  rr_new: "rc_reachable node (new_rc No_File)"
| rr_step: "rc_reachable node s \<Longrightarrow> rc_step node s s' \<Longrightarrow> rc_reachable node s'"

text \<open>The quota the RIC was last given for a UE of a node, and the UEs it holds under a quota other
  than the default.\<close>

definition last_quota :: "rc \<Rightarrow> string \<Rightarrow> int \<Rightarrow> quota" where
  "last_quota s n u =
     fold (\<lambda>r q. if cr_node r = n \<and> cr_ue r = u then cr_quota r else q) (rc_port s) default_quota"

definition capped :: "rc \<Rightarrow> string \<Rightarrow> int \<Rightarrow> bool" where
  "capped s n u \<longleftrightarrow> last_quota s n u \<noteq> default_quota"

definition rc_inv :: "string \<Rightarrow> rc \<Rightarrow> bool" where
  "rc_inv node s \<longleftrightarrow>
     (\<forall>n u. capped s n u \<longrightarrow> (\<exists>p. rc_policy s = Some p \<and> xp_ue p = u \<and> n = node))
     \<and> (case rc_policy s of
          None \<Rightarrow> rc_file s = No_File
        | Some p \<Rightarrow> rc_node s = node
            \<and> (\<exists>run. rc_file s = Marker \<lparr>mk_node = node, mk_ue = xp_ue p, mk_run = run, mk_policy = p\<rparr>))"

section \<open>Lemmas\<close>

lemma rc_send_accepted:
  "xe_refuses x = (\<lambda>_. None) \<Longrightarrow> rc_send x req s =
     s\<lparr>rc_sent := rc_sent s + 1, rc_log := rc_log s @ [(req, Sent_Out)],
       rc_port := rc_port s @ [req], rc_pending := rc_pending s @ [req]\<rparr>"
  by (simp add: rc_send_def Let_def)

lemma last_quota_append:
  "rc_port s' = rc_port s @ reqs \<Longrightarrow> last_quota s' n u =
     fold (\<lambda>r q. if cr_node r = n \<and> cr_ue r = u then cr_quota r else q) reqs (last_quota s n u)"
  by (simp add: last_quota_def)

lemma fold_other_quota:
  assumes "list_all (\<lambda>r. \<not> (cr_node r = n \<and> cr_ue r = u)) reqs"
  shows "fold (\<lambda>r q. if cr_node r = n \<and> cr_ue r = u then cr_quota r else q) reqs q = q"
  using assms by (induction reqs arbitrary: q) auto

lemma last_quota_other:
  assumes "rc_port s' = rc_port s @ reqs" and "\<And>r. r \<in> set reqs \<Longrightarrow> cr_node r = m \<and> cr_ue r = v"
    and "(n, u) \<noteq> (m, v)"
  shows "last_quota s' n u = last_quota s n u"
  unfolding last_quota_append [OF assms(1)]
  by (rule fold_other_quota) (use assms(2,3) in \<open>auto simp: list_all_iff\<close>)

lemma mk_req_simps [simp]:
  "cr_node (mk_req n u q a) = n" "cr_ue (mk_req n u q a) = u" "cr_quota (mk_req n u q a) = q"
  "cr_action (mk_req n u q a) = a"
  by (simp_all add: mk_req_def)

text \<open>The steps that are due: a prefix of what is left of the schedule, sent in order, once.\<close>

definition due :: "parsed_policy \<Rightarrow> rat \<Rightarrow> nat \<Rightarrow> (rat \<times> quota) list" where
  "due p elapsed k = takeWhile (\<lambda>(t, q). t \<le> elapsed) (drop k (xp_schedule p))"

lemma due_Cons:
  assumes "k < length (xp_schedule p)" and "fst (xp_schedule p ! k) \<le> elapsed"
  shows "due p elapsed k = xp_schedule p ! k # due p elapsed (Suc k)"
  using assms by (simp add: due_def case_prod_beta flip: Cons_nth_drop_Suc)

lemma due_Nil:
  assumes "\<not> (k < length (xp_schedule p) \<and> fst (xp_schedule p ! k) \<le> elapsed)"
  shows "due p elapsed k = []"
proof (cases "k < length (xp_schedule p)")
  case True
  then show ?thesis
    using assms by (simp add: due_def case_prod_beta flip: Cons_nth_drop_Suc)
next
  case False
  then show ?thesis by (simp add: due_def)
qed

lemma due_steps_result:
  assumes "xe_refuses x = (\<lambda>_. None)"
  shows "rc_port (due_steps x p elapsed s) = rc_port s
           @ map (\<lambda>(t, q). mk_req (rc_node s) (xp_ue p) q (step_action x t)) (due p elapsed (rc_next s))
         \<and> rc_next (due_steps x p elapsed s) = rc_next s + length (due p elapsed (rc_next s))
         \<and> rc_policy (due_steps x p elapsed s) = rc_policy s \<and> rc_node (due_steps x p elapsed s) = rc_node s
         \<and> rc_file (due_steps x p elapsed s) = rc_file s"
  using assms
proof (induction x p elapsed s rule: due_steps.induct)
  case (1 x p elapsed s)
  show ?case
  proof (cases "rc_next s < length (xp_schedule p) \<and> fst (xp_schedule p ! rc_next s) \<le> elapsed")
    case True
    let ?st = "xp_schedule p ! rc_next s"
    define s' where "s' = rc_send x (mk_req (rc_node s) (xp_ue p) (snd ?st) (step_action x (fst ?st)))
                (s\<lparr>rc_next := rc_next s + 1\<rparr>)"
    have eq: "due_steps x p elapsed s = due_steps x p elapsed s'"
      using True by (subst due_steps.simps) (simp add: Let_def s'_def)
    have s': "rc_port s' = rc_port s @ [mk_req (rc_node s) (xp_ue p) (snd ?st) (step_action x (fst ?st))]"
      "rc_next s' = Suc (rc_next s)" "rc_policy s' = rc_policy s" "rc_node s' = rc_node s" "rc_file s' = rc_file s"
      by (simp_all add: s'_def rc_send_accepted [OF "1.prems"])
    show ?thesis
      unfolding eq using "1.IH" [OF True refl "1.prems", folded s'_def]
      by (simp add: s' due_Cons True case_prod_beta)
  next
    case False
    then have "due_steps x p elapsed s = s"
      by (subst due_steps.simps) auto
    then show ?thesis
      using False by (simp add: due_Nil)
  qed
qed

lemma rc_outcome_keeps [simp]:
  "rc_port (rc_outcome ok d r s) = rc_port s" "rc_policy (rc_outcome ok d r s) = rc_policy s"
  "rc_node (rc_outcome ok d r s) = rc_node s" "rc_file (rc_outcome ok d r s) = rc_file s"
  by (simp_all add: rc_outcome_def rc_done_def)

lemma wait_outcomes_keeps [simp]:
  "rc_port (wait_outcomes os s) = rc_port s" "rc_policy (wait_outcomes os s) = rc_policy s"
  "rc_node (wait_outcomes os s) = rc_node s" "rc_file (wait_outcomes os s) = rc_file s"
  by (induction os s rule: wait_outcomes.induct) simp_all

lemma rc_inv_cong:
  "rc_inv node s \<Longrightarrow> rc_port s' = rc_port s \<Longrightarrow> rc_policy s' = rc_policy s \<Longrightarrow> rc_node s' = rc_node s \<Longrightarrow>
     rc_file s' = rc_file s \<Longrightarrow> rc_inv node s'"
  by (simp add: rc_inv_def capped_def last_quota_def split: option.splits)

lemma rc_revert_result:
  assumes "steady node x" and "rc_policy s = Some p"
  shows "rc_port (rc_revert x why s) = rc_port s @ [mk_req (rc_node s) (xp_ue p) default_quota why]"
    and "rc_policy (rc_revert x why s) = None" and "rc_file (rc_revert x why s) = No_File"
  using assms by (simp_all add: rc_revert_def rc_send_accepted steady_def clear_marker_def)

lemma rc_inv_revert:
  assumes "steady node x" and inv: "rc_inv node s"
  shows "rc_inv node (rc_revert x why s)"
proof (cases "rc_policy s")
  case None
  then show ?thesis
    using inv by (simp add: rc_revert_def)
next
  case (Some p)
  note r = rc_revert_result [OF assms(1) Some, of why]
  have node: "rc_node s = node"
    using inv Some by (simp add: rc_inv_def)
  have "\<not> capped (rc_revert x why s) n u" for n u
    using inv Some last_quota_append [OF r(1), of n u]
    by (auto simp: rc_inv_def capped_def node)
  then show ?thesis
    by (simp add: rc_inv_def r)
qed

lemma rc_inv_due_steps:
  assumes "xe_refuses x = (\<lambda>_. None)" and inv: "rc_inv node s" and p: "rc_policy s = Some p"
  shows "rc_inv node (due_steps x p elapsed s)"
proof -
  note d = due_steps_result [OF assms(1), of p elapsed s]
  have node: "rc_node s = node"
    using inv p by (simp add: rc_inv_def)
  have "last_quota (due_steps x p elapsed s) n u = last_quota s n u" if "(n, u) \<noteq> (node, xp_ue p)" for n u
    using d that by (intro last_quota_other [where m = node and v = "xp_ue p"]) (auto simp: node)
  then have "\<forall>n u. capped (due_steps x p elapsed s) n u \<longrightarrow> n = node \<and> xp_ue p = u"
    using inv p unfolding rc_inv_def capped_def by (metis option.inject prod.inject)
  then show ?thesis
    using d inv p by (auto simp: rc_inv_def)
qed

lemma rc_inv_tick:
  assumes "steady node x" and "rc_inv node s"
  shows "rc_inv node (rc_tick x s)"
proof (cases "rc_policy s")
  case None
  then show ?thesis
    using assms(2) by (simp add: rc_tick_def)
next
  case (Some p)
  have "rc_inv node (due_steps x p (xe_mono x - rc_applied_at s) s)"
    using assms Some by (intro rc_inv_due_steps) (simp_all add: steady_def)
  then show ?thesis
    using Some rc_inv_revert [OF assms(1)] by (simp add: rc_tick_def Let_def)
qed

lemma rc_inv_policy:
  assumes x: "steady node x" and inv: "rc_inv node s"
  shows "rc_inv node (snd (on_policy x raw s))"
proof (cases "parse_policy (xe_float x) raw")
  case (Inl e)
  then show ?thesis
    using inv by (simp add: on_policy_def)
next
  case (Inr p)
  have acc: "xe_refuses x = (\<lambda>_. None)" and node: "xe_node x = Some (Some node)" and wr: "xe_write x = Written"
    using x by (simp_all add: steady_def)
  let ?apply = "mk_req node (xp_ue p) (xp_first p) ''apply''"
  define old where "old = (case rc_policy s of
      None \<Rightarrow> [] | Some q \<Rightarrow> if xp_ue q \<noteq> xp_ue p
                           then [mk_req (rc_node s) (xp_ue q) default_quota ''revert-replaced''] else [])"
  let ?s' = "snd (on_policy x raw s)"
  have s': "rc_port ?s' = rc_port s @ old @ [?apply]" "rc_policy ?s' = Some p" "rc_node ?s' = node"
    "rc_file ?s' = Marker \<lparr>mk_node = node, mk_ue = xp_ue p, mk_run = xe_run x, mk_policy = p\<rparr>"
    using Inr by (auto simp: on_policy_def node Let_def rc_send_accepted [OF acc] write_marker_def wr old_def
        split: option.splits)
  have "last_quota ?s' n u = default_quota" if other: "(n, u) \<noteq> (node, xp_ue p)" for n u
  proof (cases "rc_policy s")
    case None
    then show ?thesis
      using inv other last_quota_append [OF s'(1), of n u]
      by (auto simp: old_def rc_inv_def capped_def)
  next
    case (Some q)
    then have "rc_node s = node"
      using inv by (simp add: rc_inv_def)
    then show ?thesis
      using inv other Some last_quota_append [OF s'(1), of n u]
      by (auto simp: old_def rc_inv_def capped_def)
  qed
  then have "\<forall>n u. capped ?s' n u \<longrightarrow> n = node \<and> xp_ue p = u"
    by (metis capped_def prod.inject)
  then show ?thesis
    by (auto simp: rc_inv_def s')
qed

lemma rc_step_inv: "rc_step node s s' \<Longrightarrow> rc_inv node s \<Longrightarrow> rc_inv node s'"
proof (induction rule: rc_step.induct)
  case (rs_stop x outcomes s)
  show ?case
    unfolding rc_on_stop_def
    by (rule rc_inv_cong [OF rc_inv_revert [OF rs_stop(1,2), of "''revert-run-stop''"]]) simp_all
next
  case (rs_outcome ok detail req s)
  then show ?case
    by (rule rc_inv_cong) simp_all
qed (simp_all add: rc_inv_policy rc_inv_tick)

lemma rc_reachable_inv: "rc_reachable node s \<Longrightarrow> rc_inv node s"
proof (induction rule: rc_reachable.induct)
  case rr_new
  show ?case
    by (simp add: rc_inv_def new_rc_def capped_def last_quota_def)
next
  case (rr_step s s')
  then show ?case by (simp add: rc_step_inv)
qed

text \<open>The capability's contract: on one node that takes every request, the quota of a policy is the
  only one in force, and none is once the run has stopped.\<close>

definition rc_quiet :: "rc \<Rightarrow> bool" where
  "rc_quiet s \<longleftrightarrow> rc_policy s = None"

lemma rc_on_stop_quiet: "steady node x \<Longrightarrow> rc_policy (rc_on_stop x outcomes s) = None"
  using rc_revert_result(2) [of node x s]
  by (cases "rc_policy s") (simp_all add: rc_on_stop_def rc_revert_def)

lemma rc_quiet_uncapped: "rc_inv node s \<Longrightarrow> rc_quiet s \<Longrightarrow> \<not> capped s n u \<and> rc_file s = No_File"
  by (auto simp: rc_inv_def rc_quiet_def)

interpretation rc_cap: capability
  "\<lambda>(x, outcomes). steady node x" "rc_inv node" rc_quiet "\<lambda>e s. s" "\<lambda>(x, outcomes). rc_tick x"
  "\<lambda>(x, outcomes). rc_on_stop x outcomes" for node
  by unfold_locales (auto simp: rc_inv_tick rc_quiet_def rc_on_stop_quiet intro: rc_step_inv rs_stop)

section \<open>Example states for the witnesses\<close>

definition example_xenv :: xenv where
  "example_xenv =
     \<lparr>xe_mono = 40, xe_params = [], xe_nodes = Some [''gnb''], xe_refuses = (\<lambda>_. None),
      xe_admin_lost = 0, xe_write = Written, xe_unlink = True, xe_run = ''r1'', xe_float = (\<lambda>_. None),
      xe_fmt = (\<lambda>_. ''30'')\<rparr>"

definition example_policy :: json where
  "example_policy =
     JObj [(''ue'', JInt 3), (''max_prb_ratio'', JInt 30),
           (''schedule'', JArr [JObj [(''t_s'', JInt 30), (''max_prb_ratio'', JInt 60)]])]"

definition capped_rc :: rc where
  "capped_rc = snd (on_policy example_xenv example_policy (new_rc No_File))"

lemma example_steady: "steady ''gnb'' example_xenv"
  by (simp add: steady_def example_xenv_def xe_node_def ctx_node_def pget_def)

lemma capped_rc_reachable: "rc_reachable ''gnb'' capped_rc"
  unfolding capped_rc_def by (intro rr_step [OF rr_new] rs_policy example_steady)

lemma capped_rc_capped: "capped capped_rc ''gnb'' 3"
  by code_simp

section \<open>Properties\<close>

text \<open>C7. A quota never outlives its policy: while the E2 node stays the same and takes every request, in
  every reachable state the only UE the RIC can hold under a quota other than the default is the one of
  the policy in force, whatever policies replaced each other, which steps came due and in what order the
  outcomes returned.\<close>

theorem capped_only_under_policy:
  assumes "rc_reachable node s" and "capped s n u"
  shows "\<exists>p. rc_policy s = Some p \<and> xp_ue p = u \<and> n = node"
  using rc_reachable_inv [OF assms(1)] assms(2) by (auto simp: rc_inv_def)

theorem capped_only_under_policy_witness:
  "\<exists>p. rc_policy capped_rc = Some p \<and> xp_ue p = 3 \<and> ''gnb'' = ''gnb''"
  by (rule capped_only_under_policy [OF capped_rc_reachable capped_rc_capped])

text \<open>C15. Stopping the run lifts every cap, while the E2 node stays the same, takes every request and the
  marker can be written and removed (\<open>steady\<close>): in every state reachable so, when the run stops, no UE of
  any node is left under a quota, no policy is in force and no marker is left on disk, whichever
  outcomes come back in time. Where the node changes during the run, the cap on the first one stays
  (\<open>node_change_leaves_cap\<close>).\<close>

theorem run_stop_lifts_caps:
  assumes "rc_reachable node s" and "steady node x"
  shows "\<not> capped (rc_on_stop x outcomes s) n u \<and> rc_policy (rc_on_stop x outcomes s) = None
         \<and> rc_file (rc_on_stop x outcomes s) = No_File"
proof -
  have "rc_inv node (rc_on_stop x outcomes s)"
    using rc_reachable_inv [OF assms(1)] assms(2) by (blast intro: rc_step_inv rs_stop)
  moreover have "rc_policy (rc_on_stop x outcomes s) = None"
    using assms(2) by (rule rc_on_stop_quiet)
  ultimately show ?thesis
    by (simp add: rc_inv_def)
qed

theorem run_stop_lifts_caps_witness:
  "\<not> capped (rc_on_stop example_xenv [] capped_rc) ''gnb'' 3"
  using run_stop_lifts_caps [OF capped_rc_reachable example_steady] by blast

text \<open>A crash is undone at the next start: whatever state the process died in, a new process that finds
  the marker it left and the node it names connected sends the default quota to the capped UE, after
  which no UE is left under a quota and the marker is gone.\<close>

theorem boot_undoes_crash:
  assumes "rc_reachable node s" and "xe_nodes x = Some nodes" and "node \<in> set nodes" and "xe_refuses x = (\<lambda>_. None)"
  shows "fst (on_boot x ((new_rc (rc_file s))\<lparr>rc_port := rc_port s\<rparr>))
         \<and> \<not> capped (snd (on_boot x ((new_rc (rc_file s))\<lparr>rc_port := rc_port s\<rparr>))) n u
         \<and> rc_file (snd (on_boot x ((new_rc (rc_file s))\<lparr>rc_port := rc_port s\<rparr>))) = No_File"
proof -
  let ?s = "(new_rc (rc_file s))\<lparr>rc_port := rc_port s\<rparr>"
  have inv: "rc_inv node s"
    using assms(1) by (rule rc_reachable_inv)
  have same: "last_quota ?s n u = last_quota s n u"
    by (simp add: last_quota_def)
  show ?thesis
  proof (cases "rc_policy s")
    case None
    then have "\<not> capped s n u" "rc_file s = No_File"
      using inv by (auto simp: rc_inv_def)
    then show ?thesis
      using same by (simp add: on_boot_def read_stale_def new_rc_def Let_def capped_def last_quota_def)
  next
    case (Some p)
    then obtain run where f: "rc_file s = Marker \<lparr>mk_node = node, mk_ue = xp_ue p, mk_run = run, mk_policy = p\<rparr>"
      using inv by (auto simp: rc_inv_def)
    let ?req = "mk_req node (xp_ue p) default_quota ''revert-after-crash''"
    have b: "fst (on_boot x ?s)" "rc_port (snd (on_boot x ?s)) = rc_port s @ [?req]"
      "rc_file (snd (on_boot x ?s)) = No_File"
      using assms(2,3,4)
      by (simp_all add: on_boot_def read_stale_def new_rc_def f boot_node_def Let_def)
    have "\<not> capped (snd (on_boot x ?s)) n u"
      using inv Some last_quota_append [OF b(2), of n u] by (auto simp: rc_inv_def capped_def)
    with b show ?thesis by simp
  qed
qed

theorem boot_undoes_crash_witness:
  "\<not> capped (snd (on_boot example_xenv ((new_rc (rc_file capped_rc))\<lparr>rc_port := rc_port capped_rc\<rparr>))) ''gnb'' 3"
  using boot_undoes_crash [OF capped_rc_reachable, of example_xenv]
  by (simp add: example_xenv_def)

text \<open>A tick sends each step that is due, in order and once: the requests it adds are exactly the next
  steps of the schedule whose time has come, and the schedule's position moves past them.\<close>

theorem tick_sends_due_steps:
  assumes "rc_policy s = Some p" and "xe_refuses x = (\<lambda>_. None)" and "xe_admin_lost x \<le> admin_loss_revert"
  shows "rc_port (rc_tick x s) = rc_port s
           @ map (\<lambda>(t, q). mk_req (rc_node s) (xp_ue p) q (step_action x t))
               (takeWhile (\<lambda>(t, q). t \<le> xe_mono x - rc_applied_at s) (drop (rc_next s) (xp_schedule p)))
         \<and> rc_next (rc_tick x s) = rc_next s
             + length (takeWhile (\<lambda>(t, q). t \<le> xe_mono x - rc_applied_at s) (drop (rc_next s) (xp_schedule p)))"
  using assms due_steps_result [OF assms(2), of p "xe_mono x - rc_applied_at s" s]
  by (simp add: rc_tick_def Let_def due_def)

theorem tick_sends_due_steps_witness:
  "length (rc_port (rc_tick (example_xenv\<lparr>xe_mono := 80\<rparr>) capped_rc)) = 2"
proof -
  have p: "rc_policy capped_rc = Some \<lparr>xp_ue = 3, xp_first = \<lparr>q_min = 0, q_max = 30, q_ded = 100\<rparr>,
      xp_schedule = [(30, \<lparr>q_min = 0, q_max = 60, q_ded = 100\<rparr>)]\<rparr>"
    and s: "rc_next capped_rc = 0" "rc_applied_at capped_rc = 40" "length (rc_port capped_rc) = 1"
    by code_simp+
  show ?thesis
    using tick_sends_due_steps [OF p, of "example_xenv\<lparr>xe_mono := 80\<rparr>"]
    by (simp add: example_xenv_def admin_loss_revert_def s)
qed

text \<open>An xApp nobody can tell to stop stops on its own: once the admin has been unreachable for longer
  than thirty seconds, the next tick lifts every cap and leaves no policy in force.\<close>

theorem admin_loss_lifts_caps:
  assumes "rc_reachable node s" and "steady node x" and "admin_loss_revert < xe_admin_lost x"
  shows "\<not> capped (rc_tick x s) n u \<and> rc_policy (rc_tick x s) = None"
proof -
  have inv: "rc_inv node (rc_tick x s)"
    using rc_reachable_inv [OF assms(1)] assms(2) by (rule rc_inv_tick [rotated])
  have "rc_policy (rc_tick x s) = None"
  proof (cases "rc_policy s")
    case None
    then show ?thesis by (simp add: rc_tick_def)
  next
    case (Some p)
    let ?d = "due_steps x p (xe_mono x - rc_applied_at s) s"
    have "rc_policy ?d = Some p"
      using due_steps_result [of x p "xe_mono x - rc_applied_at s" s] assms(2) Some by (simp add: steady_def)
    then show ?thesis
      using rc_revert_result(2) [OF assms(2)] Some assms(3) by (simp add: rc_tick_def Let_def)
  qed
  with inv show ?thesis
    by (simp add: rc_inv_def)
qed

theorem admin_loss_lifts_caps_witness:
  "\<not> capped (rc_tick (example_xenv\<lparr>xe_admin_lost := 31\<rparr>) capped_rc) ''gnb'' 3"
proof -
  have "steady ''gnb'' (example_xenv\<lparr>xe_admin_lost := 31\<rparr>)"
    by (simp add: steady_def example_xenv_def xe_node_def ctx_node_def pget_def)
  then show ?thesis
    using admin_loss_lifts_caps [OF capped_rc_reachable] by (simp add: example_xenv_def admin_loss_revert_def)
qed

text \<open>A policy for the same UE on another node leaves the old node capped: when the E2 node has changed,
  replacing the policy sends the old node nothing, and neither does the stop of the run.\<close>

theorem node_change_leaves_cap:
  assumes "rc_policy s = Some old" and "capped s node u" and "parse_policy (xe_float x) raw = Inr p"
    and "xp_ue p = xp_ue old" and "steady new x" and "new \<noteq> node"
  shows "capped (rc_on_stop x outcomes (snd (on_policy x raw s))) node u"
proof -
  let ?s1 = "snd (on_policy x raw s)"
  have acc: "xe_refuses x = (\<lambda>_. None)" and n: "xe_node x = Some (Some new)" and w: "xe_write x = Written"
    using assms(5) by (simp_all add: steady_def)
  have s1: "rc_port ?s1 = rc_port s @ [mk_req new (xp_ue p) (xp_first p) ''apply'']" "rc_policy ?s1 = Some p"
    "rc_node ?s1 = new"
    using assms(1,3,4) by (simp_all add: on_policy_def n Let_def rc_send_accepted [OF acc] write_marker_def w)
  have "rc_port (rc_on_stop x outcomes ?s1) = rc_port s
      @ [mk_req new (xp_ue p) (xp_first p) ''apply'', mk_req new (xp_ue p) default_quota ''revert-run-stop'']"
    using rc_revert_result(1) [OF assms(5) s1(2)] by (simp add: rc_on_stop_def s1)
  from last_quota_append [OF this, of node u] assms(2,6) show ?thesis
    by (simp add: capped_def)
qed

theorem node_change_leaves_cap_witness:
  "capped (rc_on_stop (example_xenv\<lparr>xe_nodes := Some [''new'']\<rparr>) []
      (snd (on_policy (example_xenv\<lparr>xe_nodes := Some [''new'']\<rparr>) example_policy capped_rc))) ''gnb'' 3"
proof -
  let ?x = "example_xenv\<lparr>xe_nodes := Some [''new'']\<rparr>"
  let ?p = "\<lparr>xp_ue = 3, xp_first = \<lparr>q_min = 0, q_max = 30, q_ded = 100\<rparr>,
      xp_schedule = [(30, \<lparr>q_min = 0, q_max = 60, q_ded = 100\<rparr>)]\<rparr>"
  have "rc_policy capped_rc = Some ?p" "parse_policy (xe_float ?x) example_policy = Inr ?p"
    by code_simp+
  moreover have "steady ''new'' ?x"
    by (simp add: steady_def example_xenv_def xe_node_def ctx_node_def pget_def)
  ultimately show ?thesis
    using node_change_leaves_cap [of capped_rc ?p "''gnb''" 3 ?x example_policy ?p] capped_rc_capped by simp
qed

text \<open>A late answer shows a reverted policy as applied: when the answer to an apply arrives after the run
  stopped, the state reported is \<open>applied\<close> while no policy is in force.\<close>

theorem late_ack_shows_applied:
  assumes "req \<in> set (rc_pending s)" and "is_apply (cr_action req)" and "rc_policy s = None"
  shows "rc_state (rc_outcome True d req s) = ''applied'' \<and> rc_policy (rc_outcome True d req s) = None"
  using assms by (simp add: rc_outcome_def rc_done_def)

theorem late_ack_shows_applied_witness:
  "\<exists>req. rc_state (rc_outcome True [] req (rc_on_stop example_xenv [] capped_rc)) = ''applied''"
proof -
  let ?s = "rc_on_stop example_xenv [] capped_rc"
  let ?req = "mk_req ''gnb'' 3 \<lparr>q_min = 0, q_max = 30, q_ded = 100\<rparr> ''apply''"
  have "?req \<in> set (rc_pending ?s)" "is_apply (cr_action ?req)" "rc_policy ?s = None"
    by code_simp+
  then show ?thesis
    using late_ack_shows_applied by blast
qed

end
