(* ===== verification/Ran_Normalise.thy ===== *)
theory Ran_Normalise
  imports Xapp_Core
begin

text \<open>
  The RAN's reports as rows of one schema (ran/py/src/mec_cast_ran/normalise.py and model.py):
  srsRAN's JSON metrics in both layouts with OCUDU's RLC and MAC messages, and E2SM-KPM
  indications.

  Values are exact rationals: the rounding of floats, their overflow and the values that are not
  finite, which a \<open>json\<close> cannot hold, are not modelled. \<open>fiso\<close> is the standard library's
  \<open>datetime.fromisoformat\<close>. \<open>None\<close> is an exception, which ends the report; the entries it had
  added to the index by then are left out.
\<close>

section \<open>Rows\<close>

record sample =
  sm_source :: string
  sm_ts :: int
  sm_cell :: string
  sm_ue :: string
  sm_metric :: string
  sm_value :: rat
  sm_unit :: string
  sm_recv :: int

definition mk_sample ::
  "string \<Rightarrow> int \<Rightarrow> string \<Rightarrow> string \<Rightarrow> string \<Rightarrow> rat \<Rightarrow> string \<Rightarrow> sample" where
  "mk_sample source t cell ue metric value unit =
     \<lparr>sm_source = source, sm_ts = t, sm_cell = cell, sm_ue = ue, sm_metric = metric,
      sm_value = value, sm_unit = unit, sm_recv = 0\<rparr>"

section \<open>The tables\<close>

text \<open>Field, canonical metric, unit and scale.\<close>

definition json_ue_table :: "(string \<times> string \<times> string \<times> rat) list" where
  "json_ue_table =
     [(''dl_brate'', ''ue.dl_throughput_bps'', ''bit/s'', 1),
      (''ul_brate'', ''ue.ul_throughput_bps'', ''bit/s'', 1),
      (''dl_mcs'', ''ue.dl_mcs'', ''index'', 1),
      (''ul_mcs'', ''ue.ul_mcs'', ''index'', 1),
      (''cqi'', ''ue.cqi'', ''index'', 1),
      (''ri'', ''ue.dl_ri'', ''layers'', 1),
      (''dl_ri'', ''ue.dl_ri'', ''layers'', 1),
      (''ul_ri'', ''ue.ul_ri'', ''layers'', 1),
      (''dl_nof_ok'', ''ue.dl_harq_ok'', ''count'', 1),
      (''dl_nof_nok'', ''ue.dl_harq_nok'', ''count'', 1),
      (''ul_nof_ok'', ''ue.ul_harq_ok'', ''count'', 1),
      (''ul_nof_nok'', ''ue.ul_harq_nok'', ''count'', 1),
      (''dl_bs'', ''ue.dl_buffer_bytes'', ''byte'', 1),
      (''bsr'', ''ue.ul_bsr_bytes'', ''byte'', 1),
      (''last_phr'', ''ue.phr_db'', ''dB'', 1),
      (''pusch_snr_db'', ''ue.pusch_snr_db'', ''dB'', 1),
      (''pucch_snr_db'', ''ue.pucch_snr_db'', ''dB'', 1),
      (''pusch_rsrp_db'', ''ue.pusch_rsrp_db'', ''dB'', 1),
      (''ta_ns'', ''ue.ta_ns'', ''ns'', 1),
      (''pusch_ta_ns'', ''ue.pusch_ta_ns'', ''ns'', 1),
      (''pucch_ta_ns'', ''ue.pucch_ta_ns'', ''ns'', 1),
      (''srs_ta_ns'', ''ue.srs_ta_ns'', ''ns'', 1),
      (''sr_to_pusch_delay'', ''ue.sr_to_pusch_delay'', [], 1),
      (''pusch_harq_delay'', ''ue.pusch_harq_delay'', [], 1),
      (''pucch_harq_delay'', ''ue.pucch_harq_delay'', [], 1),
      (''crc_delay'', ''ue.crc_delay'', [], 1),
      (''ce_delay'', ''ue.ce_delay'', [], 1),
      (''avg_sr_to_pusch_delay'', ''ue.sr_to_pusch_delay_avg'', [], 1),
      (''max_sr_to_pusch_delay'', ''ue.sr_to_pusch_delay_max'', [], 1),
      (''avg_pusch_harq_delay'', ''ue.pusch_harq_delay_avg'', [], 1),
      (''max_pusch_harq_delay'', ''ue.pusch_harq_delay_max'', [], 1),
      (''avg_pucch_harq_delay'', ''ue.pucch_harq_delay_avg'', [], 1),
      (''max_pucch_harq_delay'', ''ue.pucch_harq_delay_max'', [], 1),
      (''avg_crc_delay'', ''ue.crc_delay_avg'', [], 1),
      (''max_crc_delay'', ''ue.crc_delay_max'', [], 1),
      (''avg_ce_delay'', ''ue.ce_delay_avg'', [], 1),
      (''max_ce_delay'', ''ue.ce_delay_max'', [], 1),
      (''max_pusch_distance'', ''ue.max_pusch_distance'', [], 1),
      (''max_pdsch_distance'', ''ue.max_pdsch_distance'', [], 1)]"

definition json_cell_table :: "(string \<times> string \<times> string \<times> rat) list" where
  "json_cell_table =
     [(''dl_brate'', ''cell.dl_throughput_bps'', ''bit/s'', 1),
      (''ul_brate'', ''cell.ul_throughput_bps'', ''bit/s'', 1),
      (''error_indication_count'', ''cell.error_indications'', ''count'', 1),
      (''nof_failed_pdcch_allocs'', ''cell.failed_pdcch_allocs'', ''count'', 1),
      (''nof_failed_uci_allocs'', ''cell.failed_uci_allocs'', ''count'', 1),
      (''failed_dl_pdcch'', ''cell.failed_dl_pdcch_allocs'', ''count'', 1),
      (''failed_ul_pdcch'', ''cell.failed_ul_pdcch_allocs'', ''count'', 1),
      (''failed_common_dl_pdcch'', ''cell.failed_common_dl_pdcch_allocs'', ''count'', 1),
      (''failed_common_ul_pdcch'', ''cell.failed_common_ul_pdcch_allocs'', ''count'', 1),
      (''failed_fallback_uci_allocs'', ''cell.failed_fallback_uci_allocs'', ''count'', 1),
      (''msg3_nof_dtx'', ''cell.msg3_dtx'', ''count'', 1),
      (''late_dl_harqs'', ''cell.late_dl_harqs'', ''count'', 1),
      (''late_ul_harqs'', ''cell.late_ul_harqs'', ''count'', 1),
      (''msg3_nof_ok'', ''cell.msg3_ok'', ''count'', 1),
      (''msg3_nof_nok'', ''cell.msg3_nok'', ''count'', 1),
      (''pusch_prbs_used_per_tdd_slot_idx'', ''cell.pusch_prbs_used'', ''prb'', 1),
      (''pdsch_prbs_used_per_tdd_slot_idx'', ''cell.pdsch_prbs_used'', ''prb'', 1),
      (''average_latency'', ''cell.avg_latency'', [], 1),
      (''max_latency'', ''cell.max_latency'', [], 1),
      (''avg_prach_delay'', ''cell.avg_prach_delay'', [], 1),
      (''pucch_tot_rb_usage_avg'', ''cell.pucch_rb_usage_avg'', [], 1)]"

definition identity_fields :: "string set" where
  "identity_fields = {''rnti'', ''pci'', ''ue'', ''timestamp''}"

definition rlc_fields :: "(string \<times> string \<times> string) list" where
  "rlc_fields =
     [(''num_sdus'', ''sdus'', ''count''),
      (''num_sdu_bytes'', ''sdu_bytes'', ''byte''),
      (''num_pdus'', ''pdus'', ''count''),
      (''num_pdu_bytes'', ''pdu_bytes'', ''byte''),
      (''num_lost_pdus'', ''lost_pdus'', ''count''),
      (''num_malformed_pdus'', ''malformed_pdus'', ''count''),
      (''num_dropped_sdus'', ''dropped_sdus'', ''count''),
      (''num_discarded_sdus'', ''discarded_sdus'', ''count''),
      (''num_discard_failures'', ''discard_failures'', ''count''),
      (''max_pdu_latency_ns'', ''pdu_latency_max_ns'', ''ns'')]"

definition mac_fields :: "(string \<times> string \<times> string \<times> rat) list" where
  "mac_fields =
     [(''average_latency_us'', ''latency_avg_ns'', ''ns'', 1000),
      (''max_latency_us'', ''latency_max_ns'', ''ns'', 1000),
      (''min_latency_us'', ''latency_min_ns'', ''ns'', 1000),
      (''cpu_usage_percent'', ''cpu_usage'', [], 1)]"

definition kpm_table :: "(string \<times> string \<times> string \<times> rat) list" where
  "kpm_table =
     [(''DRB.UEThpDl'', ''dl_throughput_bps'', ''bit/s'', 1000),
      (''DRB.UEThpUl'', ''ul_throughput_bps'', ''bit/s'', 1000),
      (''DRB.RlcSduTransmittedVolumeDL'', ''dl_rlc_sdu_volume_bits'', ''bit'', 1000),
      (''DRB.RlcSduTransmittedVolumeUL'', ''ul_rlc_sdu_volume_bits'', ''bit'', 1000),
      (''DRB.RlcPacketDropRateDl'', ''dl_rlc_drop_rate'', [], 1),
      (''DRB.PacketSuccessRateUlgNBUu'', ''ul_packet_success_rate'', [], 1),
      (''CQI'', ''kpm_dummy.cqi'', [], 1),
      (''RSRP'', ''kpm_dummy.rsrp'', [], 1),
      (''RSRQ'', ''kpm_dummy.rsrq'', [], 1)]"

text \<open>\<open>table.get(key, (raw name, no unit, 1))\<close>.\<close>

definition canonical ::
  "(string \<times> string \<times> string \<times> rat) list \<Rightarrow> string \<Rightarrow> string \<Rightarrow> string \<times> string \<times> rat" where
  "canonical table scope key =
     (case map_of table key of None \<Rightarrow> (scope @ ''.raw.'' @ key, [], 1) | Some e \<Rightarrow> e)"

section \<open>Numbers, times and identities\<close>

text \<open>\<open>_number\<close>: a number that is no boolean.\<close>

fun number :: "json \<Rightarrow> rat option" where
  "number (JInt i) = Some (of_int i)"
| "number (JFloat r t) = Some r"
| "number _ = None"

text \<open>What \<open>datetime.fromisoformat\<close> reads: the wall clock since the epoch and its offset from
  UTC in seconds, \<open>None\<close> where the text has no zone.\<close>

record iso_time =
  it_seconds :: int
  it_micros :: int
  it_offset :: "int option"

definition parse_iso_ns :: "(string \<Rightarrow> iso_time option) \<Rightarrow> string \<Rightarrow> int option" where
  "parse_iso_ns fiso text =
     (let t = strip text;
          t1 = (if t \<noteq> [] \<and> last t = CHR ''Z'' then butlast t @ ''+00:00'' else t)
      in map_option (\<lambda>d. (it_seconds d - (case it_offset d of None \<Rightarrow> 0 | Some z \<Rightarrow> z)) * 1000000000
                         + it_micros d * 1000) (fiso t1))"

definition ts_ns :: "(string \<Rightarrow> iso_time option) \<Rightarrow> json \<Rightarrow> int option" where
  "ts_ns fiso v =
     (case v of
        JStr s \<Rightarrow> parse_iso_ns fiso s
      | _ \<Rightarrow>
          (case number v of
             None \<Rightarrow> None
           | Some n \<Rightarrow> if n \<le> 0 then None else Some (py_round (n * 1000000) * 1000)))"

definition report_timestamp_ns :: "(string \<Rightarrow> iso_time option) \<Rightarrow> pdict \<Rightarrow> int option" where
  "report_timestamp_ns fiso report =
     (case map_of report ''timestamp'' of
        Some v \<Rightarrow> ts_ns fiso v
      | None \<Rightarrow>
          (case pget report ''cells'' of
             JArr (JObj c # _) \<Rightarrow> ts_ns fiso (pget c ''timestamp'')
           | _ \<Rightarrow> None))"

text \<open>\<open>t or default\<close>.\<close>

definition ts_or :: "int option \<Rightarrow> int \<Rightarrow> int" where
  "ts_or t d = (case t of None \<Rightarrow> d | Some n \<Rightarrow> if n = 0 then d else n)"

definition rnti_of :: "pdict \<Rightarrow> string" where
  "rnti_of ue = (case number (pget ue ''rnti'') of None \<Rightarrow> [] | Some n \<Rightarrow> dec_int (trunc_rat n))"

definition pci_of :: "pdict \<Rightarrow> string \<Rightarrow> string" where
  "pci_of obj d = (case number (pget obj ''pci'') of None \<Rightarrow> d | Some n \<Rightarrow> dec_int (trunc_rat n))"

section \<open>Fields\<close>

definition sub_fields :: "string \<Rightarrow> rat \<Rightarrow> string \<Rightarrow> pdict \<Rightarrow> (string \<times> rat \<times> string) list" where
  "sub_fields name scale unit d =
     concat (map (\<lambda>(sub, v). case number v of
                               None \<Rightarrow> []
                             | Some n \<Rightarrow> [(name @ ''_'' @ sub, n * scale, unit)]) d)"

definition field_rows ::
  "(string \<times> string \<times> string \<times> rat) list \<Rightarrow> string \<Rightarrow> string \<Rightarrow> json \<Rightarrow> (string \<times> rat \<times> string) list" where
  "field_rows table scope key raw =
     (if key \<in> identity_fields then []
      else
        (case canonical table scope key of
           (name, unit, scale) \<Rightarrow>
             (case raw of
                JObj d \<Rightarrow> sub_fields name scale unit d
              | JArr xs \<Rightarrow>
                  (case map_option_list number xs of
                     Some (n # ns) \<Rightarrow>
                       [(name @ ''_mean'', sum_list (n # ns) / of_nat (length xs) * scale, unit)]
                   | _ \<Rightarrow> [])
              | _ \<Rightarrow> (case number raw of None \<Rightarrow> [] | Some n \<Rightarrow> [(name, n * scale, unit)]))))"

definition fields ::
  "(string \<times> string \<times> string \<times> rat) list \<Rightarrow> string \<Rightarrow> pdict \<Rightarrow> (string \<times> rat \<times> string) list" where
  "fields table scope obj = concat (map (\<lambda>(key, raw). field_rows table scope key raw) obj)"

text \<open>The rows of one object at one time.\<close>

definition rows_at ::
  "int \<Rightarrow> string \<Rightarrow> string \<Rightarrow> (string \<times> rat \<times> string) list \<Rightarrow> sample list" where
  "rows_at t cell ue fs =
     map (\<lambda>(metric, value, unit). mk_sample ''json'' t cell ue metric value unit) fs"

section \<open>UEs\<close>

text \<open>\<open>UeIndex\<close>: the cell and RNTI of a DU's UE index, learnt from the scheduler's reports.\<close>

type_synonym ue_index = "(int \<times> string \<times> string) list"

definition ue_object :: "json \<Rightarrow> pdict option" where
  "ue_object entry =
     (case entry of
        JObj d \<Rightarrow>
          (case map_of d ''ue_container'' of
             None \<Rightarrow> Some d
           | Some (JObj ue) \<Rightarrow> Some ue
           | Some _ \<Rightarrow> None)
      | _ \<Rightarrow> None)"

definition learn_ue :: "pdict \<Rightarrow> string \<Rightarrow> ue_index option \<Rightarrow> ue_index option" where
  "learn_ue ue cell index =
     (case (index, number (pget ue ''ue'')) of
        (Some m, Some n) \<Rightarrow>
          if rnti_of ue \<noteq> [] then Some (dput (trunc_rat n) (cell, rnti_of ue) m) else Some m
      | _ \<Rightarrow> index)"

fun ue_entries :: "json list \<Rightarrow> string \<Rightarrow> int \<Rightarrow> ue_index option \<Rightarrow> sample list \<times> ue_index option" where
  "ue_entries [] cell_default t index = ([], index)"
| "ue_entries (entry # entries) cell_default t index =
     (case ue_object entry of
        None \<Rightarrow> ue_entries entries cell_default t index
      | Some ue \<Rightarrow>
          (let cell = pci_of ue cell_default
           in case ue_entries entries cell_default t (learn_ue ue cell index) of
                (rows, index') \<Rightarrow>
                  (rows_at t cell (rnti_of ue) (fields json_ue_table ''ue'' ue) @ rows, index')))"

definition ue_rows :: "json \<Rightarrow> string \<Rightarrow> int \<Rightarrow> ue_index option \<Rightarrow> sample list \<times> ue_index option" where
  "ue_rows entries cell_default t index =
     ue_entries (case entries of JArr xs \<Rightarrow> xs | _ \<Rightarrow> []) cell_default t index"

section \<open>RLC\<close>

definition rlc_field :: "string \<Rightarrow> string \<times> string" where
  "rlc_field key = (case map_of rlc_fields key of None \<Rightarrow> (''raw.'' @ key, []) | Some e \<Rightarrow> e)"

definition rlc_block :: "string \<Rightarrow> string \<Rightarrow> pdict \<Rightarrow> (string \<times> rat \<times> string) list" where
  "rlc_block prefix direction block =
     concat (map (\<lambda>(key, raw).
       case number raw of
         None \<Rightarrow> []
       | Some n \<Rightarrow>
           if key \<in> {''sum_sdu_latency_us'', ''sum_pdu_latency_ns''} then []
           else [(prefix @ ''.'' @ direction @ ''_'' @ fst (rlc_field key), n, snd (rlc_field key))]) block)
     @ (case (number (pget block ''sum_sdu_latency_us''), number (pget block ''num_sdus'')) of
          (Some lat, Some sdus) \<Rightarrow>
            if sdus = 0 then []
            else [(prefix @ ''.'' @ direction @ ''_sdu_latency_avg_ns'', lat * 1000 / sdus, ''ns'')]
        | _ \<Rightarrow> [])
     @ (case (number (pget block ''sum_pdu_latency_ns''), number (pget block ''num_pdus'')) of
          (Some lat, Some pdus) \<Rightarrow>
            if pdus = 0 then []
            else [(prefix @ ''.'' @ direction @ ''_pdu_latency_avg_ns'', lat / pdus, ''ns'')]
        | _ \<Rightarrow> [])"

definition indexed_ue :: "ue_index option \<Rightarrow> int \<Rightarrow> string \<times> string" where
  "indexed_ue index i =
     (case Option.bind index (\<lambda>m. map_of m i) of
        None \<Rightarrow> ([], ''du-ue:'' @ dec_int i)
      | Some e \<Rightarrow> e)"

definition rlc_rows :: "int \<Rightarrow> ue_index option \<Rightarrow> pdict \<Rightarrow> sample list" where
  "rlc_rows t index rlc =
     (case number (pget rlc ''ue_id'') of
        None \<Rightarrow> []
      | Some idx \<Rightarrow>
          (case indexed_ue index (trunc_rat idx) of
             (cell, ue) \<Rightarrow>
               (let drb = (case number (pget rlc ''drb_id'') of None \<Rightarrow> 0 | Some n \<Rightarrow> trunc_rat n);
                    prefix = ''ue.rlc.drb'' @ dec_int drb
                in concat (map (\<lambda>(side, direction).
                     case pget rlc side of
                       JObj block \<Rightarrow> rows_at t cell ue (rlc_block prefix direction block)
                     | _ \<Rightarrow> []) [(''rx'', ''ul''), (''tx'', ''dl'')]))))"

section \<open>Cells and MAC\<close>

text \<open>\<open>v or []\<close>, walked by a \<open>for\<close>.\<close>

definition items_or_none :: "json \<Rightarrow> json list option" where
  "items_or_none v = (if truthy v then py_list v else Some [])"

definition event_rows :: "int \<Rightarrow> string \<Rightarrow> json list \<Rightarrow> sample list" where
  "event_rows t cell evs =
     concat (map (\<lambda>ev. case ev of
         JObj e \<Rightarrow>
           (case pget e ''event_type'' of
              JStr et \<Rightarrow> [mk_sample ''json'' t cell (rnti_of e) (''event.'' @ et) 1 ''count'']
            | _ \<Rightarrow> [])
       | _ \<Rightarrow> []) evs)"

definition metrics_of :: "pdict \<Rightarrow> pdict" where
  "metrics_of c = (case pget c ''cell_metrics'' of JObj m \<Rightarrow> m | _ \<Rightarrow> [])"

definition cell_rows ::
  "(string \<Rightarrow> iso_time option) \<Rightarrow> int \<Rightarrow> json \<Rightarrow> ue_index option \<Rightarrow> (sample list \<times> ue_index option) option" where
  "cell_rows fiso ts c index =
     (case c of
        JObj d \<Rightarrow>
          (let t = ts_or (ts_ns fiso (pget d ''timestamp'')) ts; cm = metrics_of d; cell = pci_of cm []
           in map_option (\<lambda>evs.
                case ue_rows (pget d ''ue_list'') cell t index of
                  (rows, index') \<Rightarrow>
                    (rows_at t cell [] (fields json_cell_table ''cell'' cm) @ event_rows t cell evs @ rows,
                     index'))
                (items_or_none (pget d ''event_list'')))
      | _ \<Rightarrow> Some ([], index))"

fun cells_rows ::
  "(string \<Rightarrow> iso_time option) \<Rightarrow> int \<Rightarrow> json list \<Rightarrow> ue_index option \<Rightarrow> (sample list \<times> ue_index option) option" where
  "cells_rows fiso ts [] index = Some ([], index)"
| "cells_rows fiso ts (c # cs) index =
     Option.bind (cell_rows fiso ts c index) (\<lambda>(rows, index1).
       map_option (\<lambda>(rows', index2). (rows @ rows', index2)) (cells_rows fiso ts cs index1))"

text \<open>The layout up to 24.x: one cell at the top level.\<close>

definition legacy_rows :: "int \<Rightarrow> pdict \<Rightarrow> ue_index option \<Rightarrow> sample list \<times> ue_index option" where
  "legacy_rows ts report index =
     (let cell = pci_of (metrics_of report) [];
          own = rows_at ts cell [] (fields json_cell_table ''cell'' (metrics_of report))
      in case map_of report ''ue_list'' of
           None \<Rightarrow> (own, index)
         | Some ues \<Rightarrow> (case ue_rows ues cell ts index of (rows, index') \<Rightarrow> (own @ rows, index')))"

definition rlc_report_rows :: "int \<Rightarrow> pdict \<Rightarrow> ue_index option \<Rightarrow> sample list" where
  "rlc_report_rows ts report index =
     concat (map (\<lambda>entry. case entry of JObj rlc \<Rightarrow> rlc_rows ts index rlc | _ \<Rightarrow> [])
       (case pget report ''rlc_metrics'' of JArr xs \<Rightarrow> xs | v \<Rightarrow> [v]))"

text \<open>\<open>v.get(k) or {}\<close>, an \<open>AttributeError\<close> unless \<open>v\<close> is a dictionary.\<close>

definition get_or_dict :: "json \<Rightarrow> string \<Rightarrow> json option" where
  "get_or_dict v k = (case v of JObj d \<Rightarrow> Some (py_or (pget d k) (JObj [])) | _ \<Rightarrow> None)"

definition mac_object :: "pdict \<Rightarrow> json option" where
  "mac_object report =
     (case pget report ''du'' of
        JObj du \<Rightarrow> Option.bind (get_or_dict (JObj du) ''du_high'') (\<lambda>high. get_or_dict high ''mac'')
      | _ \<Rightarrow> Some (JObj []))"

definition mac_entry_rows :: "int \<Rightarrow> string \<Rightarrow> json \<Rightarrow> sample list" where
  "mac_entry_rows ts direction entry =
     (case entry of
        JObj e \<Rightarrow>
          concat (map (\<lambda>(key, raw).
            case number raw of
              None \<Rightarrow> []
            | Some n \<Rightarrow>
                if key \<in> identity_fields then []
                else
                  (case (case map_of mac_fields key of None \<Rightarrow> (''raw.'' @ key, [], 1) | Some f \<Rightarrow> f) of
                     (suffix, unit, scale) \<Rightarrow>
                       [mk_sample ''json'' ts (pci_of e []) []
                          (''cell.mac.'' @ direction @ ''_'' @ suffix) (n * scale) unit])) e)
      | _ \<Rightarrow> [])"

definition mac_rows :: "int \<Rightarrow> string \<Rightarrow> json \<Rightarrow> sample list option" where
  "mac_rows ts direction mac =
     (case mac of
        JObj d \<Rightarrow>
          map_option (\<lambda>es. concat (map (mac_entry_rows ts direction) es))
            (items_or_none (pget d direction))
      | _ \<Rightarrow> Some [])"

section \<open>The two normalisers\<close>

definition sample_key :: "sample \<Rightarrow> string \<times> string \<times> string" where
  "sample_key r = (sm_cell r, sm_ue r, sm_metric r)"

definition normalise_json ::
  "(string \<Rightarrow> iso_time option) \<Rightarrow> json \<Rightarrow> ue_index option \<Rightarrow> (sample list \<times> ue_index option) option" where
  "normalise_json fiso report index =
     (case report of
        JObj d \<Rightarrow>
          (let ts = ts_or (report_timestamp_ns fiso d) 0
           in Option.bind (items_or_none (pget d ''cells'')) (\<lambda>cells.
              Option.bind (cells_rows fiso ts cells index) (\<lambda>(rows1, index1).
                case legacy_rows ts d index1 of
                  (rows2, index2) \<Rightarrow>
                    Option.bind (mac_object d) (\<lambda>mac.
                    Option.bind (mac_rows ts ''dl'' mac) (\<lambda>dl.
                    Option.bind (mac_rows ts ''ul'' mac) (\<lambda>ul.
                      Some (sort_key sample_key
                              (rows1 @ rows2 @ rlc_report_rows ts d index2 @ dl @ ul), index2)))))))
      | _ \<Rightarrow> Some ([], index))"

definition kpm_canonical :: "string \<Rightarrow> string \<times> string \<times> rat" where
  "kpm_canonical name = (case map_of kpm_table name of None \<Rightarrow> (''raw.'' @ name, [], 1) | Some e \<Rightarrow> e)"

definition kpm_values :: "string \<Rightarrow> string \<Rightarrow> string \<Rightarrow> string \<Rightarrow> json \<Rightarrow> int \<Rightarrow> int \<Rightarrow> sample list" where
  "kpm_values cell ue scope name values t0 granul =
     (case kpm_canonical name of
        (canon, unit, scale) \<Rightarrow>
          concat (map (\<lambda>(i, v).
            case number v of
              None \<Rightarrow> []
            | Some n \<Rightarrow>
                [mk_sample ''kpm'' (if t0 = 0 then 0 else t0 + int i * granul * 1000000) cell ue
                   (scope @ ''.'' @ canon) (n * scale) unit])
            (enumerate 0 (case values of JArr xs \<Rightarrow> xs | _ \<Rightarrow> [values]))))"

definition kpm_rows :: "string \<Rightarrow> string \<Rightarrow> string \<Rightarrow> pdict \<Rightarrow> int \<Rightarrow> int \<Rightarrow> sample list" where
  "kpm_rows cell ue scope meas t0 granul =
     concat (map (\<lambda>(name, values). kpm_values cell ue scope name values t0 granul) meas)"

fun kpm_ue_rows :: "string \<Rightarrow> pdict \<Rightarrow> int \<Rightarrow> int \<Rightarrow> sample list option" where
  "kpm_ue_rows cell [] t0 granul = Some []"
| "kpm_ue_rows cell ((ue_id, JObj m) # ues) t0 granul =
     Option.bind (py_int (py_or (pget m ''granulPeriod'') (JInt granul))) (\<lambda>g.
       case py_or (pget m ''measData'') (JObj []) of
         JObj meas \<Rightarrow>
           map_option (\<lambda>rows. kpm_rows cell (''e2:'' @ ue_id) ''ue'' meas t0 g @ rows)
             (kpm_ue_rows cell ues t0 granul)
       | _ \<Rightarrow> None)"
| "kpm_ue_rows cell (_ # ues) t0 granul = kpm_ue_rows cell ues t0 granul"

definition kpm_key :: "sample \<Rightarrow> string \<times> string \<times> string \<times> int" where
  "kpm_key r = (sm_cell r, sm_ue r, sm_metric r, sm_ts r)"

definition kpm_own_rows :: "string \<Rightarrow> pdict \<Rightarrow> pdict \<Rightarrow> int \<Rightarrow> int \<Rightarrow> sample list" where
  "kpm_own_rows cell ind meas t0 granul =
     (case pget meas ''measData'' of
        JObj d \<Rightarrow>
          (case pget ind ''ue_id'' of
             JNull \<Rightarrow> kpm_rows cell [] ''cell'' d t0 granul
           | ue \<Rightarrow> kpm_rows cell (''e2:'' @ py_str ue) ''ue'' d t0 granul)
      | _ \<Rightarrow> [])"

definition normalise_kpm :: "pdict \<Rightarrow> sample list option" where
  "normalise_kpm ind =
     (let cell = py_str (py_or (pget ind ''e2_node_id'') (JStr []))
      in Option.bind (py_int (py_or (pget ind ''collect_start_ns'') (JInt 0))) (\<lambda>t0.
           case py_or (pget ind ''meas'') (JObj []) of
             JObj meas \<Rightarrow>
               Option.bind (py_int (py_or (pget meas ''granulPeriod'') (JInt 0))) (\<lambda>granul.
                 (let own = kpm_own_rows cell ind meas t0 granul
                  in case py_or (pget meas ''ueMeasData'') (JObj []) of
                       JObj ues \<Rightarrow>
                         map_option (\<lambda>rows. sort_key kpm_key (own @ rows)) (kpm_ue_rows cell ues t0 granul)
                     | _ \<Rightarrow> None))
           | _ \<Rightarrow> None))"

section \<open>Lemmas\<close>

lemma fields_append [simp]: "fields table scope (a @ b) = fields table scope a @ fields table scope b"
  by (simp add: fields_def)

lemma rows_at_append [simp]: "rows_at t cell ue (a @ b) = rows_at t cell ue a @ rows_at t cell ue b"
  by (simp add: rows_at_def)

lemma set_rows_at:
  "r \<in> set (rows_at t cell ue fs) \<longleftrightarrow>
     (\<exists>metric value unit. (metric, value, unit) \<in> set fs \<and> r = mk_sample ''json'' t cell ue metric value unit)"
  by (force simp: rows_at_def)

lemma rows_at_identity: "r \<in> set (rows_at t cell ue fs) \<Longrightarrow> sm_cell r = cell \<and> sm_ue r = ue"
  by (auto simp: set_rows_at mk_sample_def)

lemma field_rows_number:
  assumes "number raw = Some n" and "key \<notin> identity_fields" and "canonical table scope key = (name, unit, scale)"
  shows "field_rows table scope key raw = [(name, n * scale, unit)]"
  using assms by (cases raw) (auto simp: field_rows_def)

lemma fields_number:
  assumes "(key, raw) \<in> set obj" and "number raw = Some n" and "key \<notin> identity_fields"
    and "canonical table scope key = (name, unit, scale)"
  shows "(name, n * scale, unit) \<in> set (fields table scope obj)"
  using assms(1) field_rows_number [OF assms(2-4)] by (force simp: fields_def)

text \<open>The UEs one list reports, with their objects, and what the index learns from them.\<close>

definition listed_ues :: "json \<Rightarrow> pdict list" where
  "listed_ues v = List.map_filter ue_object (case v of JArr xs \<Rightarrow> xs | _ \<Rightarrow> [])"

definition learnt :: "string \<Rightarrow> pdict list \<Rightarrow> ue_index" where
  "learnt cell_default ues =
     concat (map (\<lambda>ue. case number (pget ue ''ue'') of
         Some n \<Rightarrow> if rnti_of ue \<noteq> [] then [(trunc_rat n, pci_of ue cell_default, rnti_of ue)] else []
       | None \<Rightarrow> []) ues)"

lemma ue_entries_rows:
  "fst (ue_entries entries cell t index) =
     concat (map (\<lambda>ue. rows_at t (pci_of ue cell) (rnti_of ue) (fields json_ue_table ''ue'' ue))
       (List.map_filter ue_object entries))"
  by (induction entries cell t index rule: ue_entries.induct)
     (auto simp: List.map_filter_simps Let_def case_prod_beta split: option.splits)

lemma ue_entries_index:
  "snd (ue_entries entries cell t (Some m)) =
     Some (fold (\<lambda>(i, e). dput i e) (learnt cell (List.map_filter ue_object entries)) m)"
  by (induction entries arbitrary: m)
     (auto simp: List.map_filter_simps learnt_def learn_ue_def Let_def case_prod_beta
         split: option.splits)

lemma ue_rows_fst:
  "fst (ue_rows v cell t index) =
     concat (map (\<lambda>ue. rows_at t (pci_of ue cell) (rnti_of ue) (fields json_ue_table ''ue'' ue)) (listed_ues v))"
  by (simp add: ue_rows_def ue_entries_rows listed_ues_def)

lemma ue_rows_snd:
  "snd (ue_rows v cell t (Some m)) = Some (fold (\<lambda>(i, e). dput i e) (learnt cell (listed_ues v)) m)"
  by (simp add: ue_rows_def ue_entries_index listed_ues_def)

lemma map_of_fold_dput: "map_of (fold (\<lambda>(i, e). dput i e) es m) = map_of m ++ map_of (rev es)"
proof (induction es rule: rev_induct)
  case (snoc e es)
  then show ?case by (cases e) (simp add: map_add_def fun_eq_iff)
qed simp

text \<open>What a whole report teaches the index, in the order the code walks it.\<close>

definition cell_ues :: "json \<Rightarrow> ue_index" where
  "cell_ues c =
     (case c of JObj d \<Rightarrow> learnt (pci_of (metrics_of d) []) (listed_ues (pget d ''ue_list'')) | _ \<Rightarrow> [])"

definition reported_ues :: "pdict \<Rightarrow> ue_index" where
  "reported_ues d =
     concat (map cell_ues (case items_or_none (pget d ''cells'') of Some cs \<Rightarrow> cs | None \<Rightarrow> []))
     @ learnt (pci_of (metrics_of d) []) (listed_ues (pget d ''ue_list''))"

lemma cell_rows_index:
  "cell_rows fiso ts c (Some m) = Some (rows, index') \<Longrightarrow>
     index' = Some (fold (\<lambda>(i, e). dput i e) (cell_ues c) m)"
  using ue_rows_snd by (cases c) (auto simp: cell_rows_def cell_ues_def Let_def case_prod_beta)

lemma cells_rows_index:
  "cells_rows fiso ts cs (Some m) = Some (rows, index') \<Longrightarrow>
     index' = Some (fold (\<lambda>(i, e). dput i e) (concat (map cell_ues cs)) m)"
proof (induction cs arbitrary: m rows)
  case (Cons c cs)
  then show ?case
    by (auto simp: bind_eq_Some_conv dest!: cell_rows_index)
qed simp

lemma legacy_rows_index:
  "snd (legacy_rows ts d (Some m)) =
     Some (fold (\<lambda>(i, e). dput i e) (learnt (pci_of (metrics_of d) []) (listed_ues (pget d ''ue_list''))) m)"
proof (cases "map_of d ''ue_list''")
  case None
  then show ?thesis
    by (simp add: legacy_rows_def Let_def pget_def listed_ues_def learnt_def List.map_filter_simps)
next
  case (Some v)
  then show ?thesis
    using ue_rows_snd [of v "pci_of (metrics_of d) []" ts m]
    by (simp add: legacy_rows_def Let_def pget_def case_prod_beta)
qed

lemma normalise_json_Some:
  assumes "normalise_json fiso (JObj d) index = Some (rows, index')"
  obtains cells rows1 index1 dl ul where
    "items_or_none (pget d ''cells'') = Some cells"
    "cells_rows fiso (ts_or (report_timestamp_ns fiso d) 0) cells index = Some (rows1, index1)"
    "index' = snd (legacy_rows (ts_or (report_timestamp_ns fiso d) 0) d index1)"
    "rows = sort_key sample_key
       (rows1 @ fst (legacy_rows (ts_or (report_timestamp_ns fiso d) 0) d index1)
        @ rlc_report_rows (ts_or (report_timestamp_ns fiso d) 0) d index' @ dl @ ul)"
  using assms by (auto simp: normalise_json_def Let_def bind_eq_Some_conv case_prod_beta)

lemma normalise_json_index:
  assumes "normalise_json fiso (JObj d) (Some m) = Some (rows, index')"
  shows "index' = Some (fold (\<lambda>(i, e). dput i e) (reported_ues d) m)"
proof -
  obtain cells rows1 index1 where
    c: "items_or_none (pget d ''cells'') = Some cells"
    and r: "cells_rows fiso (ts_or (report_timestamp_ns fiso d) 0) cells (Some m) = Some (rows1, index1)"
    and i: "index' = snd (legacy_rows (ts_or (report_timestamp_ns fiso d) 0) d index1)"
    using assms by (rule normalise_json_Some)
  from i show ?thesis
    by (simp add: cells_rows_index [OF r] legacy_rows_index reported_ues_def c)
qed

text \<open>The rows of a UE reach the report's rows, in either layout.\<close>

definition reported_in ::
  "(string \<Rightarrow> iso_time option) \<Rightarrow> pdict \<Rightarrow> int \<Rightarrow> string \<Rightarrow> pdict \<Rightarrow> bool" where
  "reported_in fiso d t cell ue \<longleftrightarrow>
     (\<exists>c cs. items_or_none (pget d ''cells'') = Some cs \<and> JObj c \<in> set cs
        \<and> ue \<in> set (listed_ues (pget c ''ue_list''))
        \<and> t = ts_or (ts_ns fiso (pget c ''timestamp'')) (ts_or (report_timestamp_ns fiso d) 0)
        \<and> cell = pci_of ue (pci_of (metrics_of c) []))
     \<or> ue \<in> set (listed_ues (pget d ''ue_list'')) \<and> t = ts_or (report_timestamp_ns fiso d) 0
        \<and> cell = pci_of ue (pci_of (metrics_of d) [])"

lemma cell_rows_ue:
  assumes "cell_rows fiso ts (JObj c) index = Some (rows, index')"
    and "ue \<in> set (listed_ues (pget c ''ue_list''))"
  shows "set (rows_at (ts_or (ts_ns fiso (pget c ''timestamp'')) ts) (pci_of ue (pci_of (metrics_of c) []))
           (rnti_of ue) (fields json_ue_table ''ue'' ue)) \<subseteq> set rows"
  using assms by (auto simp: cell_rows_def Let_def case_prod_beta ue_rows_fst)

lemma cells_rows_ue:
  assumes "cells_rows fiso ts cs index = Some (rows, index')" and "JObj c \<in> set cs"
    and "ue \<in> set (listed_ues (pget c ''ue_list''))"
  shows "set (rows_at (ts_or (ts_ns fiso (pget c ''timestamp'')) ts) (pci_of ue (pci_of (metrics_of c) []))
           (rnti_of ue) (fields json_ue_table ''ue'' ue)) \<subseteq> set rows"
  using assms(1,2)
proof (induction cs arbitrary: index rows)
  case (Cons c' cs)
  obtain r1 i1 r2 where
    1: "cell_rows fiso ts c' index = Some (r1, i1)"
    and 2: "cells_rows fiso ts cs i1 = Some (r2, index')" and r: "rows = r1 @ r2"
    using Cons.prems(1) by (auto simp: bind_eq_Some_conv)
  show ?case
  proof (cases "c' = JObj c")
    case True
    then show ?thesis
      using cell_rows_ue [of fiso ts c index r1 i1 ue] 1 assms(3) by (auto simp: r)
  next
    case False
    then show ?thesis
      using Cons.IH [OF 2] Cons.prems(2) by (auto simp: r)
  qed
qed simp

lemma legacy_rows_ue:
  assumes "ue \<in> set (listed_ues (pget d ''ue_list''))"
  shows "set (rows_at ts (pci_of ue (pci_of (metrics_of d) [])) (rnti_of ue) (fields json_ue_table ''ue'' ue))
         \<subseteq> set (fst (legacy_rows ts d index))"
proof -
  obtain v where "map_of d ''ue_list'' = Some v"
    using assms by (cases "map_of d ''ue_list''") (auto simp: pget_def listed_ues_def List.map_filter_simps)
  then show ?thesis
    using assms by (auto simp: legacy_rows_def Let_def case_prod_beta ue_rows_fst pget_def)
qed

lemma reported_ue_rows:
  assumes "normalise_json fiso (JObj d) index = Some (rows, index')" and "reported_in fiso d t cell ue"
  shows "set (rows_at t cell (rnti_of ue) (fields json_ue_table ''ue'' ue)) \<subseteq> set rows"
proof -
  obtain cells rows1 index1 dl ul where
    c: "items_or_none (pget d ''cells'') = Some cells"
    and r: "cells_rows fiso (ts_or (report_timestamp_ns fiso d) 0) cells index = Some (rows1, index1)"
    and rows: "rows = sort_key sample_key
       (rows1 @ fst (legacy_rows (ts_or (report_timestamp_ns fiso d) 0) d index1)
        @ rlc_report_rows (ts_or (report_timestamp_ns fiso d) 0) d index' @ dl @ ul)"
    using assms(1) by (rule normalise_json_Some)
  from assms(2) c show ?thesis
    unfolding reported_in_def rows
    using cells_rows_ue [OF r] legacy_rows_ue [of _ d "ts_or (report_timestamp_ns fiso d) 0" index1]
    by fastforce
qed

lemma sort_key_sorted: "normalise_json fiso report index = Some (rows, index') \<Longrightarrow> sorted (map sample_key rows)"
  by (cases report) (auto simp: normalise_json_def Let_def bind_eq_Some_conv case_prod_beta)

text \<open>The rows of an RLC message alone.\<close>

lemma normalise_rlc_rows:
  assumes "normalise_json fiso (JObj [(''rlc_metrics'', JObj rlc)]) index = Some (rows, index')"
  shows "set rows = set (rlc_rows 0 index rlc)"
  using assms
  by (auto simp: normalise_json_def Let_def bind_eq_Some_conv items_or_none_def pget_def
      report_timestamp_ns_def ts_or_def mac_object_def mac_rows_def legacy_rows_def metrics_of_def
      rlc_report_rows_def fields_def rows_at_def case_prod_beta)

lemma rlc_rows_identity:
  assumes "number (pget rlc ''ue_id'') = Some n" and "r \<in> set (rlc_rows t index rlc)"
  shows "(sm_cell r, sm_ue r) = indexed_ue index (trunc_rat n)"
  using assms
  by (auto simp: rlc_rows_def Let_def case_prod_beta dest!: rows_at_identity split: json.splits)

section \<open>Properties\<close>

text \<open>No numeric field of a UE is lost, and both layouts agree: for every UE of a report, in the cells
  of the layout since 25.x or at the top level as before, every numeric field that is no identity is
  one of the report's rows, under its canonical name, unit and scale, with the cell, RNTI and time
  of its report; and the rows come sorted by cell, UE and metric.\<close>

theorem ue_fields_reported:
  assumes "normalise_json fiso (JObj d) index = Some (rows, index')" and "reported_in fiso d t cell ue"
    and "(key, raw) \<in> set ue" and "number raw = Some n" and "key \<notin> identity_fields"
    and "canonical json_ue_table ''ue'' key = (name, unit, scale)"
  shows "mk_sample ''json'' t cell (rnti_of ue) name (n * scale) unit \<in> set rows
         \<and> sorted (map sample_key rows)"
  using reported_ue_rows [OF assms(1,2)] fields_number [OF assms(3-6)] sort_key_sorted [OF assms(1)]
  by (force simp: set_rows_at)

theorem ue_fields_reported_witness:
  "\<exists>rows index'. normalise_json (\<lambda>_. None)
      (JObj [(''ue_list'', JArr [JObj [(''pci'', JInt 1), (''rnti'', JInt 70), (''dl_brate'', JInt 5)]])]) None
        = Some (rows, index')
    \<and> mk_sample ''json'' 0 ''1'' ''70'' ''ue.dl_throughput_bps'' (5 * 1) ''bit/s'' \<in> set rows"
proof -
  let ?ue = "[(''pci'', JInt 1), (''rnti'', JInt 70), (''dl_brate'', JInt 5)]"
  let ?d = "[(''ue_list'', JArr [JObj ?ue])]"
  have r: "normalise_json (\<lambda>_. None) (JObj ?d) None
      = Some ([mk_sample ''json'' 0 ''1'' ''70'' ''ue.dl_throughput_bps'' 5 ''bit/s''], None)"
    by code_simp
  have i: "ts_or (report_timestamp_ns (\<lambda>_. None) ?d) 0 = 0"
    "pci_of ?ue (pci_of (metrics_of ?d) []) = ''1''" "rnti_of ?ue = ''70''"
    "listed_ues (pget ?d ''ue_list'') = [?ue]" "''dl_brate'' \<notin> identity_fields"
    "canonical json_ue_table ''ue'' ''dl_brate'' = (''ue.dl_throughput_bps'', ''bit/s'', 1)"
    by code_simp+
  have "reported_in (\<lambda>_. None) ?d 0 ''1'' ?ue"
    by (simp add: reported_in_def i)
  from ue_fields_reported [OF r this, of "''dl_brate''" "JInt 5", OF _ _ i(5,6)] r i(3) show ?thesis
    by simp
qed

text \<open>An RLC message is attributed to the UE the scheduler last reported under its index: after a
  report, the rows of an RLC message carry the cell and RNTI of the last UE the report lists with that
  index, or, when it lists none, what the index already held, or the bare index.\<close>

theorem rlc_follows_scheduler:
  assumes "normalise_json fiso (JObj d) (Some m) = Some (rows, index)"
    and "normalise_json fiso (JObj [(''rlc_metrics'', JObj rlc)]) index = Some (rows', index')"
    and "number (pget rlc ''ue_id'') = Some n" and "r \<in> set rows'"
  shows "(sm_cell r, sm_ue r) =
    (case map_of (rev (reported_ues d)) (trunc_rat n) of
       Some e \<Rightarrow> e
     | None \<Rightarrow>
         (case map_of m (trunc_rat n) of Some e \<Rightarrow> e | None \<Rightarrow> ([], ''du-ue:'' @ dec_int (trunc_rat n))))"
proof -
  have "r \<in> set (rlc_rows 0 index rlc)"
    using normalise_rlc_rows [OF assms(2)] assms(4) by simp
  then have "(sm_cell r, sm_ue r) = indexed_ue index (trunc_rat n)"
    by (rule rlc_rows_identity [OF assms(3)])
  then show ?thesis
    by (simp add: normalise_json_index [OF assms(1)] indexed_ue_def map_of_fold_dput map_add_def
        split: option.splits)
qed

theorem rlc_follows_scheduler_witness:
  "\<exists>rows index rows' index'.
     normalise_json (\<lambda>_. None)
       (JObj [(''ue_list'', JArr [JObj [(''pci'', JInt 1), (''rnti'', JInt 70), (''ue'', JInt 3)]])]) (Some [])
       = Some (rows, index)
     \<and> normalise_json (\<lambda>_. None)
         (JObj [(''rlc_metrics'', JObj [(''ue_id'', JInt 3), (''tx'', JObj [(''num_sdus'', JInt 4)])])]) index
       = Some (rows', index')
     \<and> (\<forall>r \<in> set rows'. (sm_cell r, sm_ue r) = (''1'', ''70'')) \<and> length rows' = 1"
proof -
  let ?d = "[(''ue_list'', JArr [JObj [(''pci'', JInt 1), (''rnti'', JInt 70), (''ue'', JInt 3)]])]"
  let ?rlc = "[(''ue_id'', JInt 3), (''tx'', JObj [(''num_sdus'', JInt 4)])]"
  let ?row = "mk_sample ''json'' 0 ''1'' ''70'' ''ue.rlc.drb0.dl_sdus'' 4 ''count''"
  let ?m = "[(3, ''1'', ''70'')]"
  have r: "normalise_json (\<lambda>_. None) (JObj ?d) (Some []) = Some ([], Some ?m)"
    and r': "normalise_json (\<lambda>_. None) (JObj [(''rlc_metrics'', JObj ?rlc)]) (Some ?m)
      = Some ([?row], Some ?m)"
    and n: "number (pget ?rlc ''ue_id'') = Some 3" and u: "reported_ues ?d = ?m" "trunc_rat 3 = 3"
    by code_simp+
  have "(sm_cell ?row, sm_ue ?row) = (''1'', ''70'')"
    using rlc_follows_scheduler [OF r r' n, of ?row] by (simp add: u)
  then show ?thesis
    using r r' by auto
qed

text \<open>The two layouts of a delay agree: an average and a maximum under one key, as srsRAN sends them,
  and the two flat keys OCUDU sends give the same rows, so that a campaign can span both.\<close>

theorem delay_layouts_agree:
  assumes "x \<in> {''sr_to_pusch_delay'', ''pusch_harq_delay'', ''pucch_harq_delay'', ''crc_delay'', ''ce_delay''}"
    and "number a \<noteq> None" and "number m \<noteq> None"
  shows "fields json_ue_table ''ue'' [(x, JObj [(''avg'', a), (''max'', m)])]
         = fields json_ue_table ''ue'' [(''avg_'' @ x, a), (''max_'' @ x, m)]"
proof -
  have t: "list_all (\<lambda>x. canonical json_ue_table ''ue'' x = (''ue.'' @ x, [], 1)
      \<and> canonical json_ue_table ''ue'' (''avg_'' @ x) = (''ue.'' @ x @ ''_avg'', [], 1)
      \<and> canonical json_ue_table ''ue'' (''max_'' @ x) = (''ue.'' @ x @ ''_max'', [], 1)
      \<and> x \<notin> identity_fields \<and> ''avg_'' @ x \<notin> identity_fields \<and> ''max_'' @ x \<notin> identity_fields)
    [''sr_to_pusch_delay'', ''pusch_harq_delay'', ''pucch_harq_delay'', ''crc_delay'', ''ce_delay'']"
    by code_simp
  have c: "canonical json_ue_table ''ue'' x = (''ue.'' @ x, [], 1)"
    "canonical json_ue_table ''ue'' (''avg_'' @ x) = (''ue.'' @ x @ ''_avg'', [], 1)"
    "canonical json_ue_table ''ue'' (''max_'' @ x) = (''ue.'' @ x @ ''_max'', [], 1)"
    and id: "x \<notin> identity_fields" "''avg_'' @ x \<notin> identity_fields" "''max_'' @ x \<notin> identity_fields"
    using assms(1) t unfolding list_all_iff by (simp_all only: list.set) blast+
  obtain p q where n: "number a = Some p" "number m = Some q"
    using assms(2,3) by auto
  have "field_rows json_ue_table ''ue'' x (JObj [(''avg'', a), (''max'', m)])
      = [(''ue.'' @ x @ ''_avg'', p * 1, []), (''ue.'' @ x @ ''_max'', q * 1, [])]"
    by (simp add: field_rows_def id(1) c(1) sub_fields_def n)
  then show ?thesis
    by (simp add: fields_def field_rows_number [OF n(1) id(2) c(2)] field_rows_number [OF n(2) id(3) c(3)]
        del: append_Cons)
qed

theorem delay_layouts_agree_witness:
  "fields json_ue_table ''ue'' [(''crc_delay'', JObj [(''avg'', JInt 2), (''max'', JInt 9)])]
   = fields json_ue_table ''ue'' [(''avg_crc_delay'', JInt 2), (''max_crc_delay'', JInt 9)]"
  using delay_layouts_agree [of "''crc_delay''" "JInt 2" "JInt 9"] by simp

lemma kpm_values_at:
  assumes "i < length vs" and "number (vs ! i) = Some n" and "t0 \<noteq> 0"
    and "kpm_canonical name = (canon, unit, scale)"
  shows "mk_sample ''kpm'' (t0 + int i * g * 1000000) cell ue (scope @ ''.'' @ canon) (n * scale) unit
         \<in> set (kpm_values cell ue scope name (JArr vs) t0 g)"
proof -
  have "(i, vs ! i) \<in> set (enumerate 0 vs)"
    using assms(1) by (simp add: in_set_enumerate_eq)
  then show ?thesis
    using assms(2-4) by (force simp: kpm_values_def)
qed

lemma kpm_rows_at:
  assumes "(name, JArr vs) \<in> set d" and "i < length vs" and "number (vs ! i) = Some n" and "t0 \<noteq> 0"
    and "kpm_canonical name = (canon, unit, scale)"
  shows "mk_sample ''kpm'' (t0 + int i * g * 1000000) cell ue (scope @ ''.'' @ canon) (n * scale) unit
         \<in> set (kpm_rows cell ue scope d t0 g)"
  using kpm_values_at [OF assms(2-5)] assms(1) by (force simp: kpm_rows_def)

text \<open>A KPM value is dated by its period: the value at position \<open>i\<close> of a measurement becomes a row
  \<open>i\<close> granularity periods after the collection start, in canonical units, as a cell's row or, when the
  subscription names a UE, as that UE's; a value that is no number shifts no later one; and the rows
  of one metric come in time order.\<close>

theorem kpm_values_dated:
  assumes "normalise_kpm ind = Some rows"
    and "pget ind ''meas'' = JObj meas" and "pget meas ''measData'' = JObj d"
    and "py_int (py_or (pget ind ''collect_start_ns'') (JInt 0)) = Some t0" and "t0 \<noteq> 0"
    and "py_int (py_or (pget meas ''granulPeriod'') (JInt 0)) = Some g"
    and "(name, JArr vs) \<in> set d" and "i < length vs" and "number (vs ! i) = Some n"
    and "kpm_canonical name = (canon, unit, scale)"
    and "(ue, scope) = (case pget ind ''ue_id'' of JNull \<Rightarrow> ([], ''cell'') | v \<Rightarrow> (''e2:'' @ py_str v, ''ue''))"
  shows "mk_sample ''kpm'' (t0 + int i * g * 1000000) (py_str (py_or (pget ind ''e2_node_id'') (JStr []))) ue
           (scope @ ''.'' @ canon) (n * scale) unit \<in> set rows
         \<and> sorted (map kpm_key rows)"
proof -
  let ?cell = "py_str (py_or (pget ind ''e2_node_id'') (JStr []))"
  have "meas \<noteq> []"
    using assms(3) by (auto simp: pget_def)
  then have m: "py_or (pget ind ''meas'') (JObj []) = JObj meas"
    using assms(2) by (simp add: py_or_def)
  let ?own = "kpm_own_rows ?cell ind meas t0 g"
  obtain more where r: "rows = sort_key kpm_key (?own @ more)"
    using assms(1)
    by (cases "py_or (pget meas ''ueMeasData'') (JObj [])")
       (auto simp: normalise_kpm_def m assms(4,6) Let_def)
  have own: "?own = kpm_rows ?cell ue scope d t0 g"
    using assms(11) by (cases "pget ind ''ue_id''") (simp_all add: kpm_own_rows_def assms(3))
  show ?thesis
    using kpm_rows_at [OF assms(7-9,5,10), of g ?cell ue scope] by (simp add: r own)
qed

theorem kpm_values_dated_witness:
  "\<exists>rows. normalise_kpm [(''e2_node_id'', JStr ''g''), (''collect_start_ns'', JInt 5),
        (''meas'', JObj [(''measData'', JObj [(''DRB.UEThpDl'', JArr [JNull, JInt 7])]), (''granulPeriod'', JInt 1000)])]
      = Some rows
    \<and> mk_sample ''kpm'' 1000000005 ''g'' [] ''cell.dl_throughput_bps'' 7000 ''bit/s'' \<in> set rows"
proof -
  let ?d = "[(''DRB.UEThpDl'', JArr [JNull, JInt 7])]"
  let ?meas = "[(''measData'', JObj ?d), (''granulPeriod'', JInt 1000)]"
  let ?ind = "[(''e2_node_id'', JStr ''g''), (''collect_start_ns'', JInt 5), (''meas'', JObj ?meas)]"
  have p: "pget ?ind ''meas'' = JObj ?meas" "pget ?meas ''measData'' = JObj ?d"
    "py_int (py_or (pget ?ind ''collect_start_ns'') (JInt 0)) = Some 5" "(5 :: int) \<noteq> 0"
    "py_int (py_or (pget ?meas ''granulPeriod'') (JInt 0)) = Some 1000"
    and u: "([], ''cell'') = (case pget ?ind ''ue_id'' of JNull \<Rightarrow> ([], ''cell'') | v \<Rightarrow> (''e2:'' @ py_str v, ''ue''))"
    and c: "kpm_canonical ''DRB.UEThpDl'' = (''dl_throughput_bps'', ''bit/s'', 1000)"
    and s: "py_str (py_or (pget ?ind ''e2_node_id'') (JStr [])) = ''g''"
    by (simp_all add: pget_def py_or_def py_str_def kpm_table_def kpm_canonical_def)
  have "normalise_kpm ?ind \<noteq> None"
    by code_simp
  then obtain rows where r: "normalise_kpm ?ind = Some rows"
    by blast
  show ?thesis
    using kpm_values_dated [OF r p, of "''DRB.UEThpDl''" "[JNull, JInt 7]" 1 7 "''dl_throughput_bps''" "''bit/s''" 1000 "[]" "''cell''"]
      r u c s by simp
qed

end
