(* ===== verification/Bounded_Queue.thy ===== *)
theory Bounded_Queue
  imports Py_Prelude
begin

text \<open>
  The contract of the queues a measuring node must never block on: a queue of at most \<open>cap\<close>
  elements that drops what arrives when it is full. The batcher of the xApp's recorder and the two
  queues of the admin client provide it; what a burst leaves behind is proved here once.
\<close>

locale bounded_queue =
  fixes items :: "'s \<Rightarrow> 'a list"
    and active :: "'s \<Rightarrow> bool"
    and put :: "'a \<Rightarrow> 's \<Rightarrow> 's"
    and cap :: nat
  assumes put_active: "active (put x s) = active s"
    and put_room: "active s \<Longrightarrow> length (items s) < cap \<Longrightarrow> items (put x s) = items s @ [x]"
    and put_full: "active s \<Longrightarrow> cap \<le> length (items s) \<Longrightarrow> items (put x s) = items s"
begin

lemma fold_active: "active (fold put xs s) = active s"
  by (induction xs arbitrary: s) (simp_all add: put_active)

lemma put_bound: "active s \<Longrightarrow> length (items s) \<le> cap \<Longrightarrow> length (items (put x s)) \<le> cap"
  by (cases "length (items s) < cap") (simp_all add: put_room put_full)

text \<open>A burst keeps its oldest elements, in order: as many as there was room for.\<close>

lemma burst:
  assumes "active s" and "length (items s) \<le> cap"
  shows "items (fold put xs s) = items s @ take (cap - length (items s)) xs"
  using assms
proof (induction xs arbitrary: s)
  case (Cons x xs)
  have a: "active (put x s)" and b: "length (items (put x s)) \<le> cap"
    using Cons.prems by (simp_all add: put_active put_bound)
  show ?case
  proof (cases "length (items s) < cap")
    case True
    then obtain k where "cap - length (items s) = Suc k" by (cases "cap - length (items s)") auto
    moreover from this have "cap - Suc (length (items s)) = k" by simp
    ultimately show ?thesis 
      using True Cons.IH [OF a b] Cons.prems by (simp add: put_room)
  next
    case False
    then show ?thesis
      using Cons.IH [OF a b] Cons.prems by (simp add: put_full)
  qed
qed simp

lemma burst_bound:
  "active s \<Longrightarrow> length (items s) \<le> cap \<Longrightarrow> length (items (fold put xs s)) \<le> cap"
  by (simp add: burst)

end

text \<open>A queue that also counts what it drops.\<close>

locale counting_queue = bounded_queue items active put cap
  for items :: "'s \<Rightarrow> 'a list" and active and put and cap +
  fixes lost :: "'s \<Rightarrow> nat"
  assumes lost_room: "active s \<Longrightarrow> length (items s) < cap \<Longrightarrow> lost (put x s) = lost s"
    and lost_full: "active s \<Longrightarrow> cap \<le> length (items s) \<Longrightarrow> lost (put x s) = lost s + 1"
begin

lemma burst_lost:
  assumes "active s" and "length (items s) \<le> cap"
  shows "lost (fold put xs s) = lost s + (length xs - (cap - length (items s)))"
  using assms
proof (induction xs arbitrary: s)
  case (Cons x xs)
  have "active (put x s)" and "length (items (put x s)) \<le> cap"
    using Cons.prems by (simp_all add: put_active put_bound)
  from Cons.IH [OF this] show ?case
    using Cons.prems
    by (cases "length (items s) < cap") (simp_all add: put_room put_full lost_room lost_full)
qed simp

text \<open>Nothing disappears unseen: what was offered is queued or counted.\<close>

lemma burst_accounted:
  assumes "active s" and "length (items s) \<le> cap"
  shows "length (items (fold put xs s)) + lost (fold put xs s) = length (items s) + lost s + length xs"
  using assms by (simp add: burst burst_lost)

end

end
