(* ===== verification/Recording.thy ===== *)
theory Recording
  imports Ran_Normalise Bounded_Queue "HOL-Library.Sublist"
begin

text \<open>
  Where a run's E2 data lands (ran/xapp/src/mec_cast_xapp/recording.py): the files of a run, the
  counters the status reports and the batcher that posts to the logging service from a thread of
  its own.

  A CSV file is the list of its lines; what a number looks like in it is not modelled, nor is the
  text of a logging entry. \<open>http\<close> answers whether a post succeeds. The swap of the buffer and the
  posts of a flush are one step: a push between them only meets an emptier buffer.
\<close>

section \<open>The batcher\<close>

record control_row =
  ct_ts :: int
  ct_node :: string
  ct_ue :: int
  ct_action :: string
  ct_quota :: "int \<times> int \<times> int"
  ct_outcome :: string
  ct_detail :: string

datatype log_entry = Kpm_Entry string pdict int int "sample list" | Control_Entry string control_row

record batcher =
  bt_url :: "string option"
  bt_capacity :: nat
  bt_buf :: "log_entry list"
  bt_posts :: "(log_entry list \<times> bool) list"
  bt_posted :: nat
  bt_failed :: nat
  bt_dropped :: nat

definition rstrip_slash :: "string \<Rightarrow> string" where
  "rstrip_slash s = rev (dropWhile (\<lambda>c. c = CHR ''/'') (rev s))"

definition new_batcher :: "string option \<Rightarrow> batcher" where
  "new_batcher url =
     \<lparr>bt_url = (case url of
                  None \<Rightarrow> None
                | Some u \<Rightarrow> if u = [] then None else Some (rstrip_slash u @ ''/api/v1/logs'')),
      bt_capacity = 2000, bt_buf = [], bt_posts = [], bt_posted = 0, bt_failed = 0, bt_dropped = 0\<rparr>"

definition bt_push :: "log_entry \<Rightarrow> batcher \<Rightarrow> batcher" where
  "bt_push x b =
     (if bt_url b = None then b
      else if bt_capacity b \<le> length (bt_buf b) then b\<lparr>bt_dropped := bt_dropped b + 1\<rparr>
      else b\<lparr>bt_buf := bt_buf b @ [x]\<rparr>)"

text \<open>The slices \<open>batch[i : i + 100]\<close>.\<close>

function chunks :: "nat \<Rightarrow> 'a list \<Rightarrow> 'a list list" where
  "chunks n xs = (if xs = [] \<or> n = 0 then [] else take n xs # chunks n (drop n xs))"
  by pat_completeness auto
termination
  by (relation "measure (\<lambda>(n, xs). length xs)") auto

declare chunks.simps [simp del]

definition bt_post :: "(log_entry list \<Rightarrow> bool) \<Rightarrow> log_entry list \<Rightarrow> batcher \<Rightarrow> batcher" where
  "bt_post http chunk b =
     b\<lparr>bt_posts := bt_posts b @ [(chunk, http chunk)],
       bt_posted := (if http chunk then bt_posted b + 1 else bt_posted b),
       bt_failed := (if http chunk then bt_failed b else bt_failed b + 1)\<rparr>"

definition bt_flush :: "(log_entry list \<Rightarrow> bool) \<Rightarrow> batcher \<Rightarrow> batcher" where
  "bt_flush http b = fold (bt_post http) (chunks 100 (bt_buf b)) (b\<lparr>bt_buf := []\<rparr>)"

section \<open>The recorder\<close>

datatype 'a csv_line = Csv_Header | Csv_Row 'a

record recorder =
  rr_run :: string
  rr_kpi :: "sample csv_line list"
  rr_control :: "control_row csv_line list"
  rr_raw :: "(pdict \<times> int) list"
  rr_indications :: nat
  rr_rows :: nat
  rr_controls :: nat
  rr_throughput :: "(rat \<times> rat) option"
  rr_open :: bool
  rr_batch :: batcher

text \<open>\<open>_open_csv\<close>: append, with a header when the file is new or empty.\<close>

definition open_csv :: "'a csv_line list \<Rightarrow> 'a csv_line list" where
  "open_csv lines = (if lines = [] then [Csv_Header] else lines)"

definition new_recorder ::
  "string \<Rightarrow> string option \<Rightarrow> sample csv_line list \<Rightarrow> control_row csv_line list \<Rightarrow> (pdict \<times> int) list \<Rightarrow> recorder" where
  "new_recorder run url kpi control raw =
     \<lparr>rr_run = run, rr_kpi = open_csv kpi, rr_control = open_csv control, rr_raw = raw,
      rr_indications = 0, rr_rows = 0, rr_controls = 0, rr_throughput = None, rr_open = True,
      rr_batch = new_batcher url\<rparr>"

definition newest_sum :: "string \<Rightarrow> sample list \<Rightarrow> rat" where
  "newest_sum metric rows =
     (let newest = Max (set (map sm_ts rows))
      in sum_list (map sm_value (filter (\<lambda>r. sm_metric r = metric \<and> sm_ts r = newest) rows)))"

definition throughput_of :: "sample list \<Rightarrow> (rat \<times> rat) option \<Rightarrow> (rat \<times> rat) option" where
  "throughput_of rows old =
     (if \<exists>r \<in> set rows. sm_metric r \<in> {''ue.dl_throughput_bps'', ''ue.ul_throughput_bps''}
      then Some (newest_sum ''ue.dl_throughput_bps'' rows, newest_sum ''ue.ul_throughput_bps'' rows)
      else old)"

text \<open>\<open>record_indication\<close>: the row count, or \<open>None\<close> where it raises, because the indication cannot
  be normalised, which leaves the recorder alone, or because the files are closed, after the
  indication was counted.\<close>

definition record_indication :: "int \<Rightarrow> pdict \<Rightarrow> recorder \<Rightarrow> nat option \<times> recorder" where
  "record_indication now ind r =
     (case normalise_kpm ind of
        None \<Rightarrow> (None, r)
      | Some rows \<Rightarrow>
          (let r1 = r\<lparr>rr_indications := rr_indications r + 1\<rparr>
           in if \<not> rr_open r then (None, r1)
              else
                (Some (length rows),
                 r1\<lparr>rr_raw := rr_raw r @ [(ind, now)],
                    rr_kpi := rr_kpi r @ map (\<lambda>s. Csv_Row (s\<lparr>sm_recv := now\<rparr>)) rows,
                    rr_rows := rr_rows r + length rows,
                    rr_throughput := throughput_of rows (rr_throughput r),
                    rr_batch := bt_push
                      (Kpm_Entry (rr_run r) ind now
                        (case py_int (py_or (pget ind ''collect_start_ns'') (JInt 0)) of
                           None \<Rightarrow> 0 | Some t \<Rightarrow> t) rows) (rr_batch r)\<rparr>)))"

definition record_control :: "control_row \<Rightarrow> recorder \<Rightarrow> bool \<times> recorder" where
  "record_control row r =
     (let r1 = r\<lparr>rr_controls := rr_controls r + 1\<rparr>
      in if \<not> rr_open r then (False, r1)
         else (True, r1\<lparr>rr_control := rr_control r @ [Csv_Row row],
                        rr_batch := bt_push (Control_Entry (rr_run r) row) (rr_batch r)\<rparr>))"

text \<open>\<open>close\<close>: the batcher's thread flushes once more, then the files are shut.\<close>

definition close_recorder :: "(log_entry list \<Rightarrow> bool) \<Rightarrow> recorder \<Rightarrow> (string \<times> int) list \<times> recorder" where
  "close_recorder http r =
     (let b = (if bt_url (rr_batch r) = None then rr_batch r else bt_flush http (rr_batch r));
          r1 = r\<lparr>rr_batch := b, rr_open := False\<rparr>
      in ([(''indications'', int (rr_indications r)), (''rows'', int (rr_rows r)),
           (''controls'', int (rr_controls r)), (''batches_posted'', int (bt_posted b)),
           (''post_failures'', int (bt_failed b)), (''dropped'', int (bt_dropped b))], r1))"

definition logging_counters :: "recorder \<Rightarrow> (string \<times> int) list" where
  "logging_counters r =
     [(''batches_posted'', int (bt_posted (rr_batch r))),
      (''post_failures'', int (bt_failed (rr_batch r)))]"

section \<open>The batcher as a bounded queue\<close>

definition bt_active :: "batcher \<Rightarrow> bool" where
  "bt_active b \<longleftrightarrow> bt_url b \<noteq> None \<and> bt_capacity b = 2000"

interpretation log_queue: counting_queue bt_buf bt_active bt_push 2000 bt_dropped
  by unfold_locales (auto simp: bt_push_def bt_active_def)

lemma chunks_concat: "0 < n \<Longrightarrow> concat (chunks n xs) = xs"
  by (induction n xs rule: chunks.induct) (subst chunks.simps, auto)

lemma chunks_size: "c \<in> set (chunks n xs) \<Longrightarrow> c \<noteq> [] \<and> length c \<le> n"
proof (induction n xs rule: chunks.induct)
  case (1 n xs)
  then show ?case
    by (subst (asm) (2) chunks.simps) (auto split: if_splits)
qed

lemma fold_bt_post:
  "bt_posts (fold (bt_post http) cs b) = bt_posts b @ map (\<lambda>c. (c, http c)) cs"
  "bt_buf (fold (bt_post http) cs b) = bt_buf b"
  "bt_dropped (fold (bt_post http) cs b) = bt_dropped b"
  "bt_url (fold (bt_post http) cs b) = bt_url b"
  "bt_capacity (fold (bt_post http) cs b) = bt_capacity b"
  "bt_posted (fold (bt_post http) cs b) = bt_posted b + length (filter http cs)"
  "bt_failed (fold (bt_post http) cs b) = bt_failed b + length (filter (Not \<circ> http) cs)"
  by (induction cs arbitrary: b) (auto simp: bt_post_def)

text \<open>Pushes and flushes in any order; \<open>offered\<close> is what was pushed.\<close>

inductive bt_run :: "log_entry list \<Rightarrow> batcher \<Rightarrow> batcher \<Rightarrow> bool" where
  br_done: "bt_run [] b b"
| br_push: "bt_run xs b b' \<Longrightarrow> bt_run (xs @ [x]) b (bt_push x b')"
| br_flush: "bt_run xs b b' \<Longrightarrow> bt_run xs b (bt_flush http b')"

definition bt_accepted :: "batcher \<Rightarrow> log_entry list" where
  "bt_accepted b = concat (map fst (bt_posts b)) @ bt_buf b"

definition bt_sound :: "batcher \<Rightarrow> bool" where
  "bt_sound b \<longleftrightarrow> bt_active b \<and> length (bt_buf b) \<le> 2000
     \<and> (\<forall>(c, ok) \<in> set (bt_posts b). c \<noteq> [] \<and> length c \<le> 100)
     \<and> bt_posted b = length (filter snd (bt_posts b))
     \<and> bt_failed b = length (filter (Not \<circ> snd) (bt_posts b))"

lemma bt_flush_sound: "bt_sound b \<Longrightarrow> bt_sound (bt_flush http b)"
  using chunks_size [of _ 100 "bt_buf b"]
  by (auto simp: bt_sound_def bt_flush_def fold_bt_post bt_active_def filter_map comp_def)

lemma bt_push_sound: "bt_sound b \<Longrightarrow> bt_sound (bt_push x b)"
  using log_queue.put_bound [of b x] log_queue.put_active [of x b]
  by (auto simp: bt_sound_def bt_push_def split: if_splits)

lemma bt_accepted_flush: "bt_accepted (bt_flush http b) = bt_accepted b"
  by (simp add: bt_accepted_def bt_flush_def fold_bt_post chunks_concat comp_def)

lemma bt_run_invariant:
  assumes "bt_run xs b b'" and "bt_sound b"
  shows "bt_sound b' \<and> (\<exists>ys. bt_accepted b' = bt_accepted b @ ys \<and> subseq ys xs
           \<and> length ys + bt_dropped b' = length xs + bt_dropped b)"
  using assms
proof (induction rule: bt_run.induct)
  case (br_done b)
  then show ?case by simp
next
  case (br_push xs b b' x)
  then obtain ys where s: "bt_sound b'" and ys: "bt_accepted b' = bt_accepted b @ ys" "subseq ys xs"
      "length ys + bt_dropped b' = length xs + bt_dropped b" by blast
  have a: "bt_active b'" using s by (simp add: bt_sound_def)
  show ?case
  proof (cases "length (bt_buf b') < 2000")
    case True
    then have "bt_accepted (bt_push x b') = bt_accepted b @ ys @ [x]" "bt_dropped (bt_push x b') = bt_dropped b'"
      using a ys(1) by (simp_all add: bt_accepted_def bt_push_def bt_active_def)
    moreover have "subseq (ys @ [x]) (xs @ [x])" using ys(2) by simp
    ultimately show ?thesis using ys(3) bt_push_sound [OF s] by (auto intro!: exI [of _ "ys @ [x]"])
  next
    case False
    then have "bt_accepted (bt_push x b') = bt_accepted b @ ys" "bt_dropped (bt_push x b') = bt_dropped b' + 1"
      using a ys(1) by (simp_all add: bt_accepted_def bt_push_def bt_active_def)
    moreover have "subseq ys (xs @ [x])" using ys(2) by (rule subseq_rev_drop_many)
    ultimately show ?thesis using ys(3) bt_push_sound [OF s] by auto
  qed
next
  case (br_flush xs b b' http)
  then show ?case
    by (auto simp: bt_accepted_flush bt_flush_sound) (auto simp: bt_flush_def fold_bt_post)
qed

section \<open>Properties\<close>

text \<open>No logging entry disappears unseen: from a new batcher with a service to post to, after any
  pushes and flushes in any order, what was posted, whether or not the service took it, followed by
  what waits in the buffer is what was pushed, in order, less as many entries as were counted as
  dropped; the buffer never holds more than its capacity, no post more than a hundred entries, and
  every post is counted once, as posted or as failed.\<close>

theorem batcher_accounts:
  assumes "bt_run pushed (new_batcher (Some url)) b" and "url \<noteq> []"
  shows "(\<exists>kept. concat (map fst (bt_posts b)) @ bt_buf b = kept \<and> subseq kept pushed
            \<and> length kept + bt_dropped b = length pushed)
         \<and> length (bt_buf b) \<le> 2000
         \<and> list_all (\<lambda>(c, ok). c \<noteq> [] \<and> length c \<le> 100) (bt_posts b)
         \<and> bt_posted b + bt_failed b = length (bt_posts b)"
proof -
  have new: "bt_sound (new_batcher (Some url))" "bt_accepted (new_batcher (Some url)) = []"
    "bt_dropped (new_batcher (Some url)) = 0"
    using assms(2) by (simp_all add: bt_sound_def new_batcher_def bt_active_def bt_accepted_def)
  obtain ys where ys: "bt_sound b" "bt_accepted b = ys" "subseq ys pushed"
      "length ys + bt_dropped b = length pushed"
    using bt_run_invariant [OF assms(1) new(1)] by (auto simp: new)
  have "bt_posted b + bt_failed b = length (bt_posts b)"
    using ys(1) sum_length_filter_compl [of snd "bt_posts b"] by (simp add: bt_sound_def comp_def)
  with ys show ?thesis
    by (auto simp: bt_sound_def bt_accepted_def list_all_iff)
qed

definition example_entry :: log_entry where
  "example_entry = Kpm_Entry ''r1'' [] 1 0 []"

theorem batcher_accounts_witness:
  "length (bt_posts (bt_flush (\<lambda>_. False) (bt_push example_entry (new_batcher (Some ''u''))))) = 1
   \<and> bt_posted (bt_flush (\<lambda>_. False) (bt_push example_entry (new_batcher (Some ''u''))))
     + bt_failed (bt_flush (\<lambda>_. False) (bt_push example_entry (new_batcher (Some ''u'')))) = 1"
proof -
  let ?b = "bt_flush (\<lambda>_. False) (bt_push example_entry (new_batcher (Some ''u'')))"
  have "bt_run ([] @ [example_entry]) (new_batcher (Some ''u'')) ?b"
    by (intro br_flush br_push br_done)
  moreover have "length (bt_posts ?b) = 1"
    by code_simp
  ultimately show ?thesis
    using batcher_accounts by fastforce
qed

inductive rr_step :: "recorder \<Rightarrow> recorder \<Rightarrow> bool" where
  rrs_indication: "rr_open r \<Longrightarrow> rr_step r (snd (record_indication now ind r))"
| rrs_control: "rr_open r \<Longrightarrow> rr_step r (snd (record_control row r))"

lemma rr_steps_grow:
  assumes "rr_step\<^sup>*\<^sup>* r r'"
  shows "\<exists>rows controls. rr_kpi r' = rr_kpi r @ map Csv_Row rows
           \<and> rr_control r' = rr_control r @ map Csv_Row controls
           \<and> rr_rows r' = rr_rows r + length rows \<and> rr_controls r' = rr_controls r + length controls
           \<and> rr_open r' = rr_open r
           \<and> (\<exists>raw. rr_raw r' = rr_raw r @ raw \<and> rr_indications r' = rr_indications r + length raw)"
  using assms
proof (induction rule: rtranclp_induct)
  case base
  then show ?case by (auto intro!: exI [of _ "[]"])
next
  case (step r1 r2)
  then obtain rows controls raw where ih:
    "rr_kpi r1 = rr_kpi r @ map Csv_Row rows" "rr_control r1 = rr_control r @ map Csv_Row controls"
    "rr_rows r1 = rr_rows r + length rows" "rr_controls r1 = rr_controls r + length controls"
    "rr_open r1 = rr_open r" "rr_raw r1 = rr_raw r @ raw" "rr_indications r1 = rr_indications r + length raw"
    by blast
  from step.hyps(2) show ?case
  proof cases
    case (rrs_indication now ind)
    show ?thesis
    proof (cases "normalise_kpm ind")
      case None
      then show ?thesis
        using ih rrs_indication(1) by (auto simp: record_indication_def)
    next
      case (Some new)
      have "rr_kpi r2 = rr_kpi r @ map Csv_Row (rows @ map (\<lambda>s. s\<lparr>sm_recv := now\<rparr>) new)"
        "rr_raw r2 = rr_raw r @ (raw @ [(ind, now)])"
        "rr_rows r2 = rr_rows r + length (rows @ map (\<lambda>s. s\<lparr>sm_recv := now\<rparr>) new)"
        "rr_indications r2 = rr_indications r + length (raw @ [(ind, now)])"
        "rr_control r2 = rr_control r @ map Csv_Row controls"
        "rr_controls r2 = rr_controls r + length controls" "rr_open r2 = rr_open r"
        using ih rrs_indication Some by (simp_all add: record_indication_def Let_def)
      then show ?thesis by blast
    qed
  next
    case (rrs_control row)
    have "rr_kpi r2 = rr_kpi r @ map Csv_Row rows" "rr_rows r2 = rr_rows r + length rows"
      "rr_control r2 = rr_control r @ map Csv_Row (controls @ [row])"
      "rr_controls r2 = rr_controls r + length (controls @ [row])" "rr_open r2 = rr_open r"
      "rr_raw r2 = rr_raw r @ raw" "rr_indications r2 = rr_indications r + length raw"
      using ih rrs_control by (simp_all add: record_control_def Let_def)
    then show ?thesis by blast
  qed
qed

text \<open>The files of a run survive its nodes: whatever a recorder records, each file it opened keeps
  what it held, starts with the one header it ever gets, and grows by exactly the rows and controls
  counted, so that a node that rejoins a run continues the same record.\<close>

theorem recording_appends:
  assumes "rr_step\<^sup>*\<^sup>* (new_recorder run url kpi control raw) r"
  shows "\<exists>rows controls.
    rr_kpi r = open_csv kpi @ map Csv_Row rows \<and> length rows = rr_rows r
    \<and> rr_control r = open_csv control @ map Csv_Row controls \<and> length controls = rr_controls r
    \<and> take (length raw) (rr_raw r) = raw \<and> length (rr_raw r) = length raw + rr_indications r
    \<and> open_csv (rr_kpi r) = rr_kpi r \<and> open_csv (rr_control r) = rr_control r"
proof -
  let ?r = "new_recorder run url kpi control raw"
  have new: "rr_kpi ?r = open_csv kpi" "rr_control ?r = open_csv control" "rr_raw ?r = raw"
    "rr_rows ?r = 0" "rr_controls ?r = 0" "rr_indications ?r = 0"
    by (simp_all add: new_recorder_def)
  obtain rows controls more where
    "rr_kpi r = open_csv kpi @ map Csv_Row rows" "rr_control r = open_csv control @ map Csv_Row controls"
    "rr_rows r = length rows" "rr_controls r = length controls"
    "rr_raw r = raw @ more" "rr_indications r = length more"
    using rr_steps_grow [OF assms] by (auto simp: new)
  then show ?thesis
    by (intro exI [of _ rows] exI [of _ controls]) (simp add: open_csv_def)
qed

definition example_control :: control_row where
  "example_control =
     \<lparr>ct_ts = 0, ct_node = ''g'', ct_ue = 0, ct_action = ''apply'', ct_quota = (0, 30, 100),
      ct_outcome = ''sent'', ct_detail = []\<rparr>"

theorem recording_appends_witness:
  "\<exists>controls. rr_control (snd (record_control example_control
        (new_recorder ''r1'' None [] [Csv_Header, Csv_Row example_control] [])))
          = Csv_Header # Csv_Row example_control # map Csv_Row controls
     \<and> length controls = rr_controls (snd (record_control example_control
        (new_recorder ''r1'' None [] [Csv_Header, Csv_Row example_control] [])))"
proof -
  let ?r = "new_recorder ''r1'' None [] [Csv_Header, Csv_Row example_control] []"
  have "rr_step ?r (snd (record_control example_control ?r))"
    by (rule rrs_control) (simp add: new_recorder_def)
  from recording_appends [OF r_into_rtranclp, OF this] show ?thesis
    unfolding open_csv_def by auto
qed

end
