(* ===== verification/Xapp.thy ===== *)
theory Xapp
  imports Kpm_Monitor Rc_Control Recording
begin

text \<open>
  The xApp process (ran/xapp/src/mec_cast_xapp/app.py): the run lifecycle, the dispatch of each hook
  to the capabilities in their order, the policy, the boot hooks and the admin's frames.

  The two built-in capabilities are the ones modelled, each at most once; their states are
  \<open>xa_kpm\<close> and \<open>xa_rc\<close>. The admin client is seen through its calls: the identity it was last
  given and the frames handed to it. Every operation holds the process's lock and reads one clock
  value. A recorder that cannot create its files is not modelled.
\<close>

section \<open>State\<close>

datatype cap = Cap_Kpm | Cap_Rc

fun cap_name :: "cap \<Rightarrow> string" where
  "cap_name Cap_Kpm = ''kpm_monitor''"
| "cap_name Cap_Rc = ''rc_control''"

record run_ctx =
  cx_run :: string
  cx_params :: pdict
  cx_recorder :: recorder

record xstatus =
  xs_running :: bool
  xs_run :: "string option"
  xs_subscribed :: bool
  xs_params :: pdict
  xs_counters :: "(string \<times> int) list"
  xs_report :: "(string \<times> int) list"

datatype xframe =
    X_Ack json bool
  | X_Status xstatus
  | X_Goodbye "(string \<times> int) list"

record xapp =
  xa_caps :: "cap list"
  xa_kpm :: kpm
  xa_rc :: rc
  xa_booted :: "cap list"
  xa_ctx :: "run_ctx option"
  xa_defaults :: pdict
  xa_url :: "string option"
  xa_log_metrics :: bool
  xa_admin :: bool
  xa_seen :: rat
  xa_files :: "(string \<times> recorder) list"
  xa_identity :: "string \<times> string option"
  xa_outbox :: "xframe list"

record yenv =
  ye_mono :: rat
  ye_connected :: bool
  ye_nodes :: "string list option"
  ye_answer :: "kpm_req \<Rightarrow> sub_answer"
  ye_unsub :: bool
  ye_refuses :: "control_req \<Rightarrow> string option"
  ye_write :: marker_write
  ye_unlink :: bool
  ye_float :: "string \<Rightarrow> rat option"
  ye_fmt :: "rat \<Rightarrow> string"
  ye_outcomes :: "(bool \<times> string \<times> control_req) list"
  ye_http :: "log_entry list \<Rightarrow> bool"
  ye_adapter :: string
  ye_version :: string
  ye_error :: string

definition new_xapp ::
  "cap list \<Rightarrow> pdict \<Rightarrow> string option \<Rightarrow> bool \<Rightarrow> bool \<Rightarrow> rat \<Rightarrow> marker_file \<Rightarrow> xapp" where
  "new_xapp caps defaults url log_metrics admin now file =
     \<lparr>xa_caps = caps, xa_kpm = new_kpm, xa_rc = new_rc file, xa_booted = [], xa_ctx = None,
      xa_defaults = defaults, xa_url = url, xa_log_metrics = log_metrics, xa_admin = admin,
      xa_seen = now, xa_files = [], xa_identity = (''idle'', None), xa_outbox = []\<rparr>"

section \<open>The world one call reads\<close>

definition kenv_of :: "yenv \<Rightarrow> kenv" where
  "kenv_of y = \<lparr>ke_mono = ye_mono y, ke_nodes = ye_nodes y, ke_answer = ye_answer y, ke_unsub = ye_unsub y\<rparr>"

definition xenv_of :: "yenv \<Rightarrow> run_ctx \<Rightarrow> rat \<Rightarrow> xenv" where
  "xenv_of y c lost =
     \<lparr>xe_mono = ye_mono y, xe_params = cx_params c, xe_nodes = ye_nodes y, xe_refuses = ye_refuses y,
      xe_admin_lost = lost, xe_write = ye_write y, xe_unlink = ye_unlink y, xe_run = cx_run c,
      xe_float = ye_float y, xe_fmt = ye_fmt y\<rparr>"

text \<open>\<open>admin_lost_s\<close>: seconds the admin has been unreachable; a look while it is connected, or when
  there is none, resets the time it was last seen.\<close>

definition admin_lost_s :: "yenv \<Rightarrow> xapp \<Rightarrow> rat \<times> xapp" where
  "admin_lost_s y a =
     (if \<not> xa_admin a \<or> ye_connected y then (0, a\<lparr>xa_seen := ye_mono y\<rparr>)
      else (ye_mono y - xa_seen a, a))"

definition logging_state :: "xapp \<Rightarrow> string" where
  "logging_state a =
     (if \<not> xa_log_metrics a then ''off'' else if xa_url a \<noteq> None then ''on'' else ''no-url'')"

definition update_identity :: "string \<Rightarrow> string option \<Rightarrow> xapp \<Rightarrow> xapp" where
  "update_identity st run a = (if xa_admin a then a\<lparr>xa_identity := (st, run)\<rparr> else a)"

section \<open>Hooks\<close>

definition hook_start :: "yenv \<Rightarrow> run_ctx \<Rightarrow> cap \<Rightarrow> xapp \<Rightarrow> xapp" where
  "hook_start y c k a =
     (case k of
        Cap_Kpm \<Rightarrow> a\<lparr>xa_kpm := snd (kpm_on_start (kenv_of y) (cx_params c) (xa_kpm a))\<rparr>
      | Cap_Rc \<Rightarrow> a)"

definition hook_policy :: "yenv \<Rightarrow> run_ctx \<Rightarrow> json \<Rightarrow> cap \<Rightarrow> xapp \<Rightarrow> bool \<times> xapp" where
  "hook_policy y c raw k a =
     (case k of
        Cap_Kpm \<Rightarrow> (True, a)
      | Cap_Rc \<Rightarrow>
          (case on_policy (xenv_of y c (fst (admin_lost_s y a))) raw (xa_rc a) of
             (Inl e, s) \<Rightarrow> (False, a\<lparr>xa_rc := s\<rparr>)
           | (Inr _, s) \<Rightarrow> (True, a\<lparr>xa_rc := s\<rparr>)))"

definition hook_tick :: "yenv \<Rightarrow> run_ctx \<Rightarrow> cap \<Rightarrow> xapp \<Rightarrow> xapp" where
  "hook_tick y c k a =
     (case k of
        Cap_Kpm \<Rightarrow> a\<lparr>xa_kpm := snd (kpm_tick (kenv_of y) (cx_params c) (xa_kpm a))\<rparr>
      | Cap_Rc \<Rightarrow> a\<lparr>xa_rc := rc_tick (xenv_of y c (fst (admin_lost_s y a))) (xa_rc a)\<rparr>)"

definition hook_stop :: "yenv \<Rightarrow> run_ctx \<Rightarrow> cap \<Rightarrow> xapp \<Rightarrow> xapp" where
  "hook_stop y c k a =
     (case k of
        Cap_Kpm \<Rightarrow> a\<lparr>xa_kpm := kpm_on_stop (kenv_of y) (xa_kpm a)\<rparr>
      | Cap_Rc \<Rightarrow> a\<lparr>xa_rc := rc_on_stop (xenv_of y c 0) (ye_outcomes y) (xa_rc a)\<rparr>)"

definition hook_boot :: "yenv \<Rightarrow> cap \<Rightarrow> xapp \<Rightarrow> xapp" where
  "hook_boot y k a =
     (if k \<in> set (xa_booted a) then a
      else
        (case k of
           Cap_Kpm \<Rightarrow> a\<lparr>xa_booted := Cap_Kpm # xa_booted a\<rparr>
         | Cap_Rc \<Rightarrow>
             (case on_boot (xenv_of y \<lparr>cx_run = [], cx_params = [], cx_recorder = new_recorder [] None [] [] []\<rparr> 0)
                     (xa_rc a) of
                (ok, s) \<Rightarrow>
                  a\<lparr>xa_rc := s, xa_booted := (if ok then Cap_Rc # xa_booted a else xa_booted a)\<rparr>)))"

section \<open>The run lifecycle\<close>

definition boot :: "yenv \<Rightarrow> xapp \<Rightarrow> xapp" where
  "boot y a = fold (hook_boot y) (xa_caps a) a"

definition stop_run :: "yenv \<Rightarrow> xapp \<Rightarrow> (string \<times> int) list \<times> xapp" where
  "stop_run y a =
     (case xa_ctx a of
        None \<Rightarrow> ([], a)
      | Some c \<Rightarrow>
          (let a1 = fold (hook_stop y c) (rev (xa_caps a)) a
           in case close_recorder (ye_http y) (cx_recorder c) of
                (report, r) \<Rightarrow>
                  (report, update_identity ''idle'' None
                     (a1\<lparr>xa_ctx := None, xa_files := dput (cx_run c) r (xa_files a1)\<rparr>))))"

text \<open>\<open>apply_policy\<close>: every capability sees the policy; the result names those that refused it.\<close>

fun offer_policy :: "yenv \<Rightarrow> run_ctx \<Rightarrow> json \<Rightarrow> cap list \<Rightarrow> xapp \<Rightarrow> string list \<times> xapp" where
  "offer_policy y c raw [] a = ([], a)"
| "offer_policy y c raw (k # ks) a =
     (case hook_policy y c raw k a of
        (ok, a1) \<Rightarrow>
          (case offer_policy y c raw ks a1 of
             (errors, a2) \<Rightarrow> ((if ok then errors else cap_name k # errors), a2)))"

datatype xapp_error = No_Active_Run | Policy_Refused "string list" | No_Run_Id | Unknown_Command | Bad_Frame

definition apply_policy :: "yenv \<Rightarrow> json \<Rightarrow> xapp \<Rightarrow> (xapp_error + unit) \<times> xapp" where
  "apply_policy y raw a =
     (case xa_ctx a of
        None \<Rightarrow> (Inl No_Active_Run, a)
      | Some c \<Rightarrow>
          (let c1 = c\<lparr>cx_params := dput ''ran_policy'' raw (cx_params c)\<rparr>
           in case offer_policy y c1 raw (xa_caps a) (a\<lparr>xa_ctx := Some c1\<rparr>) of
                ([], a1) \<Rightarrow> (Inr (), a1)
              | (errors, a1) \<Rightarrow> (Inl (Policy_Refused errors), a1)))"

definition reopened :: "xapp \<Rightarrow> string \<Rightarrow> recorder" where
  "reopened a run =
     (let url = (if xa_log_metrics a then xa_url a else None)
      in case map_of (xa_files a) run of
           None \<Rightarrow> new_recorder run url [] [] []
         | Some r \<Rightarrow> new_recorder run url (rr_kpi r) (rr_control r) (rr_raw r))"

definition start_run :: "yenv \<Rightarrow> string \<Rightarrow> pdict \<Rightarrow> xapp \<Rightarrow> (xapp_error + unit) \<times> xapp" where
  "start_run y run args a =
     (if (case xa_ctx a of None \<Rightarrow> False | Some c \<Rightarrow> cx_run c = run) then (Inr (), a)
      else
        (let a1 = (if xa_ctx a \<noteq> None then snd (stop_run y a) else a);
             c = \<lparr>cx_run = run, cx_params = dmerge (xa_defaults a1) args, cx_recorder = reopened a1 run\<rparr>;
             a2 = fold (hook_start y c) (xa_caps a1) (a1\<lparr>xa_ctx := Some c\<rparr>);
             a3 = update_identity ''running'' (Some run) a2;
             policy = pget (cx_params c) ''ran_policy''
         in if truthy policy then apply_policy y policy a3 else (Inr (), a3)))"

definition xapp_tick :: "yenv \<Rightarrow> xapp \<Rightarrow> xapp" where
  "xapp_tick y a =
     (let a1 = boot y (snd (admin_lost_s y a))
      in case xa_ctx a1 of
           None \<Rightarrow> a1
         | Some c \<Rightarrow> fold (hook_tick y c) (xa_caps a1) a1)"

text \<open>An indication reaches the recorder of the run, if there is one; a callback that raises changes
  nothing the model keeps.\<close>

definition xapp_indication :: "int \<Rightarrow> pdict \<Rightarrow> xapp \<Rightarrow> xapp" where
  "xapp_indication now ind a =
     (case (on_indication ind (xa_kpm a), xa_ctx a) of
        (Some (Some d), Some c) \<Rightarrow>
          a\<lparr>xa_ctx := Some (c\<lparr>cx_recorder := snd (record_indication now d (cx_recorder c))\<rparr>)\<rparr>
      | _ \<Rightarrow> a)"

definition xapp_outcome :: "bool \<Rightarrow> string \<Rightarrow> control_req \<Rightarrow> xapp \<Rightarrow> xapp" where
  "xapp_outcome ok detail req a = a\<lparr>xa_rc := rc_outcome ok detail req (xa_rc a)\<rparr>"

section \<open>Status\<close>

definition cap_params :: "xapp \<Rightarrow> cap \<Rightarrow> pdict" where
  "cap_params a k = (case k of Cap_Kpm \<Rightarrow> kpm_params (xa_kpm a) | Cap_Rc \<Rightarrow> rc_params (xa_rc a))"

definition cap_status :: "xapp \<Rightarrow> cap \<Rightarrow> (string \<times> int) list" where
  "cap_status a k =
     (case k of
        Cap_Kpm \<Rightarrow>
          (case xa_ctx a of
             None \<Rightarrow> []
           | Some c \<Rightarrow> kpm_status (xa_kpm a) (rr_indications (cx_recorder c)) (rr_rows (cx_recorder c))
                         (rr_throughput (cx_recorder c)))
      | Cap_Rc \<Rightarrow> rc_status (xa_rc a))"

definition e2_params :: "yenv \<Rightarrow> pdict" where
  "e2_params y =
     (case ye_nodes y of
        Some nodes \<Rightarrow> [(''e2_nodes'', JArr (map JStr nodes)), (''e2_connected'', JBool (nodes \<noteq> []))]
      | None \<Rightarrow> [(''e2_connected'', JBool False), (''e2_error'', JStr (ye_error y))])"

definition xapp_status :: "yenv \<Rightarrow> (string \<times> int) list \<Rightarrow> xapp \<Rightarrow> xstatus" where
  "xapp_status y report a =
     (let base = [(''adapter'', JStr (ye_adapter y)),
                  (''capabilities'', JArr (map (JStr \<circ> cap_name) (xa_caps a))),
                  (''version'', JStr (ye_version y)), (''logging'', JStr (logging_state a))];
          p = fold (\<lambda>k d. dmerge d (cap_params a k)) (xa_caps a) (dmerge base (e2_params y));
          n = fold (\<lambda>k d. dmerge d (cap_status a k)) (xa_caps a) []
      in case xa_ctx a of
           None \<Rightarrow>
             \<lparr>xs_running = False, xs_run = None, xs_subscribed = truthy (pget p ''kpm_subscribed''),
              xs_params = p, xs_counters = n, xs_report = report\<rparr>
         | Some c \<Rightarrow>
             \<lparr>xs_running = True, xs_run = Some (cx_run c),
              xs_subscribed = truthy (pget p ''kpm_subscribed''),
              xs_params = dput ''out_leaf'' (JStr ''ran-kpm'') p,
              xs_counters = dmerge n (logging_counters (cx_recorder c)), xs_report = report\<rparr>)"

section \<open>The admin's frames\<close>

definition publish :: "xframe \<Rightarrow> xapp \<Rightarrow> xapp" where
  "publish f a = a\<lparr>xa_outbox := xa_outbox a @ [f]\<rparr>"

text \<open>\<open>d.get(k) or {}\<close> handed to a function that unpacks it.\<close>

definition args_of :: "json \<Rightarrow> pdict option" where
  "args_of v = (if truthy v then (case v of JObj d \<Rightarrow> Some d | _ \<Rightarrow> None) else Some [])"

definition run_command :: "yenv \<Rightarrow> pdict \<Rightarrow> xapp \<Rightarrow> (xapp_error + (string \<times> int) list) \<times> xapp" where
  "run_command y payload a =
     (case pget payload ''command'' of
        JStr cmd \<Rightarrow>
          (if cmd \<in> {''run.start'', ''stream.start''} then
             (case (pget payload ''run_id'', args_of (pget payload ''args'')) of
                (JStr run, args) \<Rightarrow>
                  (if run = [] then (Inl No_Run_Id, a)
                   else
                     (case args of
                        None \<Rightarrow> (Inl Bad_Frame, a)
                      | Some d \<Rightarrow>
                          (case start_run y run d a of
                             (Inl e, a1) \<Rightarrow> (Inl e, a1)
                           | (Inr _, a1) \<Rightarrow> (Inr [], a1))))
              | (v, _) \<Rightarrow> (Inl (if truthy v then Bad_Frame else No_Run_Id), a))
           else if cmd \<in> {''run.stop'', ''stream.stop''} then
             (case stop_run y a of (report, a1) \<Rightarrow> (Inr report, a1))
           else if cmd = ''ran.policy'' then
             (case args_of (pget payload ''args'') of
                None \<Rightarrow> (Inl Bad_Frame, a)
              | Some d \<Rightarrow>
                  (case apply_policy y (py_or (pget d ''ran_policy'') (JObj [])) a of
                     (Inl e, a1) \<Rightarrow> (Inl e, a1)
                   | (Inr _, a1) \<Rightarrow> (Inr [], a1)))
           else if cmd = ''status.report'' then (Inr [], a)
           else (Inl Unknown_Command, a))
      | _ \<Rightarrow> (Inl Unknown_Command, a))"

definition apply_command :: "yenv \<Rightarrow> json \<Rightarrow> pdict \<Rightarrow> xapp \<Rightarrow> xapp" where
  "apply_command y msg_id payload a =
     (case run_command y payload a of
        (Inl e, a1) \<Rightarrow> publish (X_Status (xapp_status y [] a1)) (publish (X_Ack msg_id False) a1)
      | (Inr report, a1) \<Rightarrow>
          publish (X_Status (xapp_status y report a1)) (publish (X_Ack msg_id True) a1))"

text \<open>A welcome may name a run to join. Unlike a command's, its error is not caught.\<close>

definition welcome_start :: "yenv \<Rightarrow> pdict \<Rightarrow> xapp \<Rightarrow> (xapp_error + unit) \<times> xapp" where
  "welcome_start y payload a =
     (if \<not> truthy (pget payload ''active_run'') then (Inr (), a)
      else
        (case pget payload ''active_run'' of
           JObj d \<Rightarrow>
             (case map_of d ''run_id'' of
                Some (JStr run) \<Rightarrow>
                  (case args_of (pget d ''params'') of
                     Some args \<Rightarrow> start_run y run args a
                   | None \<Rightarrow> (Inl Bad_Frame, a))
              | _ \<Rightarrow> (Inl Bad_Frame, a))
         | _ \<Rightarrow> (Inl Bad_Frame, a)))"

definition handle_welcome :: "yenv \<Rightarrow> pdict \<Rightarrow> xapp \<Rightarrow> (xapp_error + unit) \<times> xapp" where
  "handle_welcome y payload a =
     (case welcome_start y payload a of
        (Inl e, a1) \<Rightarrow> (Inl e, a1)
      | (Inr _, a1) \<Rightarrow> (Inr (), publish (X_Status (xapp_status y [] a1)) a1))"

text \<open>One frame the admin client polled: its type, its id and its payload.\<close>

fun drain_admin :: "yenv \<Rightarrow> (string \<times> json \<times> pdict) list \<Rightarrow> xapp \<Rightarrow> (xapp_error + unit) \<times> xapp" where
  "drain_admin y [] a = (Inr (), a)"
| "drain_admin y ((kind, msg_id, payload) # frames) a =
     (if kind = ''welcome'' then
        (case handle_welcome y payload a of
           (Inl e, a1) \<Rightarrow> (Inl e, a1)
         | (Inr _, a1) \<Rightarrow> drain_admin y frames a1)
      else if kind = ''command'' then drain_admin y frames (apply_command y msg_id payload a)
      else drain_admin y frames a)"

text \<open>One turn of \<open>main\<close>'s loop, and what its \<open>finally\<close> does when a turn raises or the process is
  told to stop. \<open>status_due\<close> says whether the periodic status is due.\<close>

definition main_exit :: "yenv \<Rightarrow> xapp \<Rightarrow> xapp" where
  "main_exit y a =
     (case stop_run y a of
        (report, a1) \<Rightarrow> if xa_admin a1 then publish (X_Goodbye report) a1 else a1)"

definition main_turn :: "yenv \<Rightarrow> (string \<times> json \<times> pdict) list \<Rightarrow> bool \<Rightarrow> xapp \<Rightarrow> bool \<times> xapp" where
  "main_turn y frames status_due a =
     (case (if xa_admin a then drain_admin y frames a else (Inr (), a)) of
        (Inl e, a1) \<Rightarrow> (False, main_exit y a1)
      | (Inr _, a1) \<Rightarrow>
          (let a2 = xapp_tick y a1
           in (True, if xa_admin a2 \<and> status_due then publish (X_Status (xapp_status y [] a2)) a2 else a2)))"

section \<open>Reachable states\<close>

text \<open>The world the promises are about: the RIC answers with one E2 node first, takes every request
  and unsubscribe, and the marker can be written and removed; no run asks for another node. The
  process has booted on a directory without a leftover marker.\<close>

definition world :: "string \<Rightarrow> yenv \<Rightarrow> bool" where
  "world node y \<longleftrightarrow>
     (\<exists>rest. ye_nodes y = Some (node # rest)) \<and> ye_unsub y \<and> ye_refuses y = (\<lambda>_. None)
     \<and> ye_write y = Written \<and> ye_unlink y"

definition on_node :: "string \<Rightarrow> pdict \<Rightarrow> bool" where
  "on_node node p \<longleftrightarrow> (truthy (pget p ''e2_node_id'') \<longrightarrow> py_str (pget p ''e2_node_id'') = node)"

inductive xapp_step :: "string \<Rightarrow> xapp \<Rightarrow> xapp \<Rightarrow> bool" for node where
  xs_start: "world node y \<Longrightarrow> on_node node (dmerge (xa_defaults a) args) \<Longrightarrow>
     xapp_step node a (snd (start_run y run args a))"
| xs_stop: "world node y \<Longrightarrow> xapp_step node a (snd (stop_run y a))"
| xs_policy: "world node y \<Longrightarrow> xapp_step node a (snd (apply_policy y raw a))"
| xs_tick: "world node y \<Longrightarrow> xapp_step node a (xapp_tick y a)"
| xs_indication: "xapp_step node a (xapp_indication now ind a)"
| xs_outcome: "xapp_step node a (xapp_outcome ok detail req a)"
| xs_publish: "xapp_step node a (publish f a)"

abbreviation xapp_steps :: "string \<Rightarrow> xapp \<Rightarrow> xapp \<Rightarrow> bool" where
  "xapp_steps node \<equiv> (xapp_step node)\<^sup>*\<^sup>*"

inductive xapp_reachable :: "string \<Rightarrow> xapp \<Rightarrow> bool" for node where
  xr_new: "distinct caps \<Longrightarrow> xapp_reachable node (boot y (new_xapp caps defaults url lm adm now No_File))"
| xr_step: "xapp_reachable node a \<Longrightarrow> xapp_step node a a' \<Longrightarrow> xapp_reachable node a'"

definition xapp_inv :: "string \<Rightarrow> xapp \<Rightarrow> bool" where
  "xapp_inv node a \<longleftrightarrow>
     distinct (xa_caps a) \<and> set (xa_caps a) \<subseteq> set (xa_booted a)
     \<and> kpm_inv (xa_kpm a) \<and> rc_inv node (xa_rc a)
     \<and> (xa_ctx a = None \<or> Cap_Kpm \<notin> set (xa_caps a) \<longrightarrow> kpm_quiet (xa_kpm a))
     \<and> (xa_ctx a = None \<or> Cap_Rc \<notin> set (xa_caps a) \<longrightarrow> rc_quiet (xa_rc a))
     \<and> (\<forall>c. xa_ctx a = Some c \<longrightarrow> on_node node (cx_params c))"

section \<open>The hooks keep the capabilities' contracts\<close>

lemma world_steady: "world node y \<Longrightarrow> on_node node (cx_params c) \<Longrightarrow> steady node (xenv_of y c lost)"
  by (auto simp: world_def on_node_def steady_def xenv_of_def xe_node_def ctx_node_def Let_def)

text \<open>What a hook leaves alone.\<close>

definition same_process :: "xapp \<Rightarrow> xapp \<Rightarrow> bool" where
  "same_process a a' \<longleftrightarrow>
     xa_caps a' = xa_caps a \<and> xa_ctx a' = xa_ctx a \<and> xa_booted a' = xa_booted a
     \<and> xa_defaults a' = xa_defaults a \<and> xa_admin a' = xa_admin a \<and> xa_outbox a' = xa_outbox a"

lemma fold_same_process: "(\<And>k a. same_process a (f k a)) \<Longrightarrow> same_process a (fold f ks a)"
  by (induction ks arbitrary: a) (auto simp: same_process_def)

lemma hooks_same_process:
  "same_process a (hook_start y c k a)" "same_process a (hook_tick y c k a)"
  "same_process a (hook_stop y c k a)" "same_process a (snd (hook_policy y c raw k a))"
  by (simp_all add: same_process_def hook_start_def hook_tick_def hook_stop_def hook_policy_def
      split: cap.splits prod.splits sum.splits)

lemma fold_hooks_same_process:
  "same_process a (fold (hook_start y c) ks a)" "same_process a (fold (hook_tick y c) ks a)"
  "same_process a (fold (hook_stop y c) ks a)"
  by (rule fold_same_process, rule hooks_same_process)+

lemma offer_policy_same_process: "same_process a (snd (offer_policy y c raw ks a))"
proof (induction ks arbitrary: a)
  case (Cons k ks)
  show ?case
    using hooks_same_process(4) [of a y c raw k] Cons [of "snd (hook_policy y c raw k a)"]
    by (auto simp: same_process_def case_prod_beta)
qed (simp add: same_process_def)

lemma starts_inv:
  assumes "distinct ks" and "Cap_Kpm \<in> set ks \<Longrightarrow> kpm_quiet (xa_kpm a)" and "kpm_inv (xa_kpm a)"
  shows "kpm_inv (xa_kpm (fold (hook_start y c) ks a)) \<and> xa_rc (fold (hook_start y c) ks a) = xa_rc a
         \<and> (Cap_Kpm \<notin> set ks \<longrightarrow> xa_kpm (fold (hook_start y c) ks a) = xa_kpm a)"
  using assms
proof (induction ks arbitrary: a)
  case (Cons k ks)
  then show ?case
    using kpm_cap.start_inv [of "xa_kpm a" "(kenv_of y, cx_params c)"]
    by (cases k) (auto simp: hook_start_def)
qed simp

lemma all_ticks_inv:
  assumes "world node y" and "on_node node (cx_params c)" and "kpm_inv (xa_kpm a)" and "rc_inv node (xa_rc a)"
  shows "kpm_inv (xa_kpm (fold (hook_tick y c) ks a)) \<and> rc_inv node (xa_rc (fold (hook_tick y c) ks a))
         \<and> (Cap_Kpm \<notin> set ks \<longrightarrow> xa_kpm (fold (hook_tick y c) ks a) = xa_kpm a)
         \<and> (Cap_Rc \<notin> set ks \<longrightarrow> xa_rc (fold (hook_tick y c) ks a) = xa_rc a)"
  using assms(3,4)
proof (induction ks arbitrary: a)
  case (Cons k ks)
  have u: "ke_unsub (kenv_of y)"
    using assms(1) by (simp add: world_def kenv_of_def)
  have "kpm_inv (xa_kpm (hook_tick y c k a)) \<and> rc_inv node (xa_rc (hook_tick y c k a))"
    using Cons.prems kpm_cap.tick_inv [of "(kenv_of y, cx_params c)" "xa_kpm a"] u
      rc_inv_tick [OF world_steady [OF assms(1,2)]]
    by (cases k) (simp_all add: hook_tick_def)
  with Cons.IH [of "hook_tick y c k a"] show ?case
    by (cases k) (auto simp: hook_tick_def)
qed simp

lemma stops_inv:
  assumes "world node y" and "on_node node (cx_params c)" and "kpm_inv (xa_kpm a)" and "rc_inv node (xa_rc a)"
  shows "kpm_inv (xa_kpm (fold (hook_stop y c) ks a)) \<and> rc_inv node (xa_rc (fold (hook_stop y c) ks a))
         \<and> (Cap_Kpm \<in> set ks \<or> kpm_quiet (xa_kpm a) \<longrightarrow> kpm_quiet (xa_kpm (fold (hook_stop y c) ks a)))
         \<and> (Cap_Rc \<in> set ks \<or> rc_quiet (xa_rc a) \<longrightarrow> rc_quiet (xa_rc (fold (hook_stop y c) ks a)))"
  using assms(3,4)
proof (induction ks arbitrary: a)
  case (Cons k ks)
  have u: "ke_unsub (kenv_of y)"
    using assms(1) by (simp add: world_def kenv_of_def)
  note st = world_steady [OF assms(1,2), of 0]
  have "kpm_inv (xa_kpm (hook_stop y c k a)) \<and> rc_inv node (xa_rc (hook_stop y c k a))
      \<and> (k = Cap_Kpm \<or> kpm_quiet (xa_kpm a) \<longrightarrow> kpm_quiet (xa_kpm (hook_stop y c k a)))
      \<and> (k = Cap_Rc \<or> rc_quiet (xa_rc a) \<longrightarrow> rc_quiet (xa_rc (hook_stop y c k a)))"
    using Cons.prems kpm_cap.stop_inv [of "(kenv_of y, [])" "xa_kpm a"]
      kpm_cap.stop_quiet [of "(kenv_of y, [])" "xa_kpm a"] u
      rc_cap.stop_inv [of node "(xenv_of y c 0, ye_outcomes y)" "xa_rc a"]
      rc_cap.stop_quiet [of node "(xenv_of y c 0, ye_outcomes y)" "xa_rc a"] st
    by (cases k) (simp_all add: hook_stop_def)
  with Cons.IH [of "hook_stop y c k a"] show ?case
    by auto
qed simp

lemma offers_inv:
  assumes "world node y" and "on_node node (cx_params c)" and "rc_inv node (xa_rc a)"
  shows "xa_kpm (snd (offer_policy y c raw ks a)) = xa_kpm a \<and> rc_inv node (xa_rc (snd (offer_policy y c raw ks a)))
         \<and> (Cap_Rc \<notin> set ks \<longrightarrow> xa_rc (snd (offer_policy y c raw ks a)) = xa_rc a)"
  using assms(3)
proof (induction ks arbitrary: a)
  case (Cons k ks)
  have "xa_kpm (snd (hook_policy y c raw k a)) = xa_kpm a"
    by (simp add: hook_policy_def split: cap.splits prod.splits sum.splits)
  moreover have "rc_inv node (xa_rc (snd (hook_policy y c raw k a)))"
    using rc_inv_policy [OF world_steady [OF assms(1,2)] Cons.prems, of "fst (admin_lost_s y a)" raw] Cons.prems
    by (auto simp: hook_policy_def split: cap.splits prod.splits sum.splits)
  moreover have "k \<noteq> Cap_Rc \<Longrightarrow> snd (hook_policy y c raw k a) = a"
    by (cases k) (simp_all add: hook_policy_def)
  ultimately show ?case
    using Cons.IH [of "snd (hook_policy y c raw k a)"] by (auto simp: case_prod_beta)
qed simp

section \<open>The operations keep the invariant\<close>

lemma update_identity_fields [simp]:
  "xa_caps (update_identity st run a) = xa_caps a" "xa_ctx (update_identity st run a) = xa_ctx a"
  "xa_booted (update_identity st run a) = xa_booted a" "xa_kpm (update_identity st run a) = xa_kpm a"
  "xa_rc (update_identity st run a) = xa_rc a" "xa_defaults (update_identity st run a) = xa_defaults a"
  "xa_admin (update_identity st run a) = xa_admin a" "xa_outbox (update_identity st run a) = xa_outbox a"
  by (simp_all add: update_identity_def)

lemma boot_booted:
  assumes "set (xa_caps a) \<subseteq> set (xa_booted a)"
  shows "boot y a = a"
proof -
  have "fold (hook_boot y) ks a = a" if "set ks \<subseteq> set (xa_booted a)" for ks
    using that by (induction ks) (simp_all add: hook_boot_def)
  with assms show ?thesis by (simp add: boot_def)
qed

lemma stop_run_Some:
  assumes "xa_ctx a = Some c"
  shows "\<exists>r. snd (stop_run y a) = update_identity ''idle'' None
           ((fold (hook_stop y c) (rev (xa_caps a)) a)\<lparr>xa_ctx := None,
              xa_files := dput (cx_run c) r (xa_files (fold (hook_stop y c) (rev (xa_caps a)) a))\<rparr>)"
  by (rule exI [of _ "snd (close_recorder (ye_http y) (cx_recorder c))"])
     (simp add: assms stop_run_def Let_def case_prod_beta)

lemma stop_run_fields:
  "xa_caps (snd (stop_run y a)) = xa_caps a" "xa_defaults (snd (stop_run y a)) = xa_defaults a"
  "xa_booted (snd (stop_run y a)) = xa_booted a" "xa_admin (snd (stop_run y a)) = xa_admin a"
  "xa_ctx (snd (stop_run y a)) = None"
  using fold_hooks_same_process(3) [of a y "the (xa_ctx a)" "rev (xa_caps a)"]
    stop_run_Some [of a "the (xa_ctx a)" y]
  by (cases "xa_ctx a"; force simp: stop_run_def same_process_def)+

lemma stop_run_inv:
  assumes "world node y" and inv: "xapp_inv node a"
  shows "xapp_inv node (snd (stop_run y a))"
proof (cases "xa_ctx a")
  case None
  with inv show ?thesis by (simp add: stop_run_def)
next
  case (Some c)
  obtain r where s: "snd (stop_run y a) = update_identity ''idle'' None
      ((fold (hook_stop y c) (rev (xa_caps a)) a)\<lparr>xa_ctx := None,
         xa_files := dput (cx_run c) r (xa_files (fold (hook_stop y c) (rev (xa_caps a)) a))\<rparr>)"
    using stop_run_Some [OF Some] by blast
  have "on_node node (cx_params c)" "kpm_inv (xa_kpm a)" "rc_inv node (xa_rc a)"
    using inv Some by (auto simp: xapp_inv_def)
  from stops_inv [OF assms(1) this, of "rev (xa_caps a)"] inv Some
    fold_hooks_same_process(3) [of a y c "rev (xa_caps a)"]
  show ?thesis
    by (auto simp: xapp_inv_def s same_process_def)
qed

lemma apply_policy_snd:
  "snd (apply_policy y raw a) =
     (case xa_ctx a of
        None \<Rightarrow> a
      | Some c \<Rightarrow>
          (let c1 = c\<lparr>cx_params := dput ''ran_policy'' raw (cx_params c)\<rparr>
           in snd (offer_policy y c1 raw (xa_caps a) (a\<lparr>xa_ctx := Some c1\<rparr>))))"
  by (simp add: apply_policy_def Let_def split: prod.splits list.splits option.splits)

lemma apply_policy_inv:
  assumes "world node y" and inv: "xapp_inv node a"
  shows "xapp_inv node (snd (apply_policy y raw a))"
proof (cases "xa_ctx a")
  case None
  with inv show ?thesis by (simp add: apply_policy_def)
next
  case (Some c)
  let ?c = "c\<lparr>cx_params := dput ''ran_policy'' raw (cx_params c)\<rparr>"
  let ?a = "snd (offer_policy y ?c raw (xa_caps a) (a\<lparr>xa_ctx := Some ?c\<rparr>))"
  have r: "snd (apply_policy y raw a) = ?a"
    by (simp add: apply_policy_snd Some Let_def)
  have n: "on_node node (cx_params ?c)"
    using inv Some by (simp add: xapp_inv_def on_node_def)
  have "rc_inv node (xa_rc (a\<lparr>xa_ctx := Some ?c\<rparr>))"
    using inv by (simp add: xapp_inv_def)
  from offers_inv [OF assms(1) n this, of raw "xa_caps a"] inv Some n
    offer_policy_same_process [of "a\<lparr>xa_ctx := Some ?c\<rparr>" y ?c raw "xa_caps a"]
  show ?thesis
    unfolding r by (auto simp: xapp_inv_def same_process_def)
qed

lemma start_run_inv:
  assumes w: "world node y" and "on_node node (dmerge (xa_defaults a) args)" and inv: "xapp_inv node a"
  shows "xapp_inv node (snd (start_run y run args a))"
proof (cases "case xa_ctx a of None \<Rightarrow> False | Some c \<Rightarrow> cx_run c = run")
  case True
  with inv show ?thesis by (simp add: start_run_def)
next
  case False
  define a1 where "a1 = (if xa_ctx a \<noteq> None then snd (stop_run y a) else a)"
  define c where "c = \<lparr>cx_run = run, cx_params = dmerge (xa_defaults a1) args, cx_recorder = reopened a1 run\<rparr>"
  define a3 where "a3 = update_identity ''running'' (Some run)
    (fold (hook_start y c) (xa_caps a1) (a1\<lparr>xa_ctx := Some c\<rparr>))"
  have r: "snd (start_run y run args a) =
      (if truthy (pget (cx_params c) ''ran_policy'') then snd (apply_policy y (pget (cx_params c) ''ran_policy'') a3)
       else a3)"
    using False by (simp add: start_run_def Let_def a1_def c_def a3_def)
  have inv1: "xapp_inv node a1" and none: "xa_ctx a1 = None" and d: "xa_defaults a1 = xa_defaults a"
    using stop_run_inv [OF w inv] inv stop_run_fields [of y a] by (auto simp: a1_def)
  have "on_node node (cx_params c)"
    using assms(2) by (simp add: c_def d)
  moreover have q: "distinct (xa_caps a1)" "kpm_quiet (xa_kpm (a1\<lparr>xa_ctx := Some c\<rparr>))"
    "kpm_inv (xa_kpm (a1\<lparr>xa_ctx := Some c\<rparr>))"
    using inv1 none by (simp_all add: xapp_inv_def)
  let ?a2 = "fold (hook_start y c) (xa_caps a1) (a1\<lparr>xa_ctx := Some c\<rparr>)"
  have "kpm_inv (xa_kpm ?a2)" "xa_rc ?a2 = xa_rc a1"
    "Cap_Kpm \<notin> set (xa_caps a1) \<Longrightarrow> xa_kpm ?a2 = xa_kpm a1"
    using starts_inv [OF q(1) q(2) q(3), of y c] by simp_all
  moreover have "xa_caps ?a2 = xa_caps a1" "xa_ctx ?a2 = Some c" "xa_booted ?a2 = xa_booted a1"
    using fold_hooks_same_process(1) [of "a1\<lparr>xa_ctx := Some c\<rparr>" y c "xa_caps a1"]
    by (simp_all add: same_process_def)
  ultimately have inv3: "xapp_inv node a3"
    using inv1 none by (simp add: xapp_inv_def a3_def)
  show ?thesis
    using inv3 apply_policy_inv [OF w inv3] by (simp add: r)
qed

lemma xapp_tick_inv:
  assumes "world node y" and inv: "xapp_inv node a"
  shows "xapp_inv node (xapp_tick y a)"
proof -
  let ?a = "snd (admin_lost_s y a)"
  have i: "xapp_inv node ?a"
    using inv by (simp add: xapp_inv_def admin_lost_s_def)
  then have b: "boot y ?a = ?a"
    by (intro boot_booted) (simp add: xapp_inv_def)
  show ?thesis
  proof (cases "xa_ctx ?a")
    case None
    with i show ?thesis by (simp add: xapp_tick_def b)
  next
    case (Some c)
    have "on_node node (cx_params c)" "kpm_inv (xa_kpm ?a)" "rc_inv node (xa_rc ?a)"
      using i Some by (auto simp: xapp_inv_def)
    note t = all_ticks_inv [OF assms(1) this, of "xa_caps ?a"]
    let ?b = "fold (hook_tick y c) (xa_caps ?a) ?a"
    have f: "xa_caps ?b = xa_caps ?a" "xa_ctx ?b = Some c" "xa_booted ?b = xa_booted ?a"
      using fold_hooks_same_process(2) [of ?a y c "xa_caps ?a"] Some by (simp_all add: same_process_def)
    have "xapp_inv node ?b"
      using t i Some unfolding xapp_inv_def f by (simp add: Some)
    then show ?thesis
      by (simp add: xapp_tick_def b Some Let_def)
  qed
qed

lemma xapp_outcome_inv:
  assumes "xapp_inv node a"
  shows "xapp_inv node (xapp_outcome ok detail req a)"
proof -
  have "rc_policy (rc_outcome ok detail req (xa_rc a)) = rc_policy (xa_rc a)"
    by (simp add: rc_outcome_def rc_done_def)
  moreover have "rc_inv node (rc_outcome ok detail req (xa_rc a))"
    using assms by (auto simp: xapp_inv_def intro: rc_step_inv rs_outcome)
  ultimately show ?thesis
    using assms by (simp add: xapp_inv_def xapp_outcome_def rc_quiet_def)
qed

lemma xapp_indication_inv: "xapp_inv node a \<Longrightarrow> xapp_inv node (xapp_indication now ind a)"
  by (auto simp: xapp_inv_def xapp_indication_def split: option.splits)

lemma xapp_step_inv: "xapp_step node a a' \<Longrightarrow> xapp_inv node a \<Longrightarrow> xapp_inv node a'"
proof (induction rule: xapp_step.induct)
  case (xs_publish f a)
  then show ?case by (simp add: xapp_inv_def publish_def)
qed (simp_all add: start_run_inv stop_run_inv apply_policy_inv xapp_tick_inv xapp_outcome_inv xapp_indication_inv)

lemma boot_fresh:
  assumes "rc_file (xa_rc a) = No_File" and "rc_stale (xa_rc a) = None" and "rc_inv node (xa_rc a)"
    and "rc_quiet (xa_rc a)"
  shows "set ks \<subseteq> set (xa_booted (fold (hook_boot y) ks a)) \<and> xa_kpm (fold (hook_boot y) ks a) = xa_kpm a
         \<and> rc_inv node (xa_rc (fold (hook_boot y) ks a)) \<and> rc_quiet (xa_rc (fold (hook_boot y) ks a))
         \<and> xa_ctx (fold (hook_boot y) ks a) = xa_ctx a \<and> xa_caps (fold (hook_boot y) ks a) = xa_caps a
         \<and> set (xa_booted a) \<subseteq> set (xa_booted (fold (hook_boot y) ks a))"
  using assms
proof (induction ks arbitrary: a)
  case (Cons k ks)
  have "rc_inv node (read_stale (xa_rc a)) \<and> rc_quiet (read_stale (xa_rc a))
      \<and> rc_stale (read_stale (xa_rc a)) = None \<and> rc_file (read_stale (xa_rc a)) = No_File"
    using Cons.prems by (auto simp: read_stale_def Let_def rc_quiet_def intro: rc_inv_cong)
  then have "rc_file (xa_rc (hook_boot y k a)) = No_File" "rc_stale (xa_rc (hook_boot y k a)) = None"
    "rc_inv node (xa_rc (hook_boot y k a))" "rc_quiet (xa_rc (hook_boot y k a))"
    "k \<in> set (xa_booted (hook_boot y k a))" "set (xa_booted a) \<subseteq> set (xa_booted (hook_boot y k a))"
    "xa_kpm (hook_boot y k a) = xa_kpm a" "xa_ctx (hook_boot y k a) = xa_ctx a"
    "xa_caps (hook_boot y k a) = xa_caps a"
    using Cons.prems by (auto simp: hook_boot_def on_boot_def Let_def split: cap.splits)
  with Cons.IH [of "hook_boot y k a"] show ?case by auto
qed simp

lemma xapp_reachable_inv: "xapp_reachable node a \<Longrightarrow> xapp_inv node a"
proof (induction rule: xapp_reachable.induct)
  case (xr_new caps y defaults url lm adm now)
  let ?a = "new_xapp caps defaults url lm adm now No_File"
  have "rc_inv node (new_rc No_File)"
    by (rule rc_reachable_inv [OF rr_new])
  then show ?case
    using boot_fresh [of ?a node caps y] xr_new
    by (simp add: boot_def xapp_inv_def new_xapp_def rc_quiet_def new_rc_def new_kpm_def kpm_inv_def kpm_quiet_def)
next
  case (xr_step a a')
  then show ?case by (blast intro: xapp_step_inv)
qed

end
