(* ===== verification/Xapp_Props.thy ===== *)
theory Xapp_Props
  imports Xapp
begin

text \<open>
  The properties of the xApp process: what it holds at the RIC belongs to a run, nothing is left
  when it exits, the admin's frames lead through the states the promises cover, and the cases where
  it does less than it says.
\<close>

section \<open>The admin's frames as steps\<close>

text \<open>No run a frame starts asks for an E2 node other than the one the RIC answers with.\<close>

definition frame_ok :: "string \<Rightarrow> pdict \<Rightarrow> string \<times> json \<times> pdict \<Rightarrow> bool" where
  "frame_ok node defaults f \<longleftrightarrow>
     (case f of
        (kind, msg_id, payload) \<Rightarrow>
          (\<forall>d. args_of (pget payload ''args'') = Some d \<longrightarrow> on_node node (dmerge defaults d))
          \<and> (\<forall>act d. pget payload ''active_run'' = JObj act \<longrightarrow> args_of (pget act ''params'') = Some d \<longrightarrow>
               on_node node (dmerge defaults d)))"

lemma apply_policy_defaults: "xa_defaults (snd (apply_policy y raw a)) = xa_defaults a"
proof (cases "xa_ctx a")
  case (Some c)
  let ?c = "c\<lparr>cx_params := dput ''ran_policy'' raw (cx_params c)\<rparr>"
  show ?thesis
    using offer_policy_same_process [of "a\<lparr>xa_ctx := Some ?c\<rparr>" y ?c raw "xa_caps a"]
    by (simp add: apply_policy_snd Some Let_def same_process_def)
qed (simp add: apply_policy_snd)

lemma apply_policy_ctx:
  assumes "xa_ctx a = Some c"
  shows "xa_ctx (snd (apply_policy y raw a)) = Some (c\<lparr>cx_params := dput ''ran_policy'' raw (cx_params c)\<rparr>)"
proof -
  let ?c = "c\<lparr>cx_params := dput ''ran_policy'' raw (cx_params c)\<rparr>"
  show ?thesis
    using offer_policy_same_process [of "a\<lparr>xa_ctx := Some ?c\<rparr>" y ?c raw "xa_caps a"]
    by (simp add: apply_policy_snd assms Let_def same_process_def)
qed

text \<open>Whether or not its policy is refused, the run is on.\<close>

lemma start_run_ctx: "\<exists>c. xa_ctx (snd (start_run y run args a)) = Some c \<and> cx_run c = run"
proof (cases "case xa_ctx a of None \<Rightarrow> False | Some c \<Rightarrow> cx_run c = run")
  case True
  then show ?thesis by (auto simp: start_run_def split: option.splits)
next
  case False
  define a1 where "a1 = (if xa_ctx a \<noteq> None then snd (stop_run y a) else a)"
  define c where "c = \<lparr>cx_run = run, cx_params = dmerge (xa_defaults a1) args, cx_recorder = reopened a1 run\<rparr>"
  define a3 where "a3 = update_identity ''running'' (Some run)
    (fold (hook_start y c) (xa_caps a1) (a1\<lparr>xa_ctx := Some c\<rparr>))"
  have "xa_ctx a3 = Some c"
    using fold_hooks_same_process(1) [of "a1\<lparr>xa_ctx := Some c\<rparr>" y c "xa_caps a1"]
    by (simp add: a3_def same_process_def)
  moreover have "snd (start_run y run args a) =
      (if truthy (pget (cx_params c) ''ran_policy'') then snd (apply_policy y (pget (cx_params c) ''ran_policy'') a3)
       else a3)"
    using False by (simp add: start_run_def Let_def a1_def c_def a3_def)
  ultimately show ?thesis
    using apply_policy_ctx [of a3 c y] by (simp add: c_def)
qed

lemma start_run_defaults: "xa_defaults (snd (start_run y run args a)) = xa_defaults a"
  using fold_hooks_same_process(1)
  by (auto simp: start_run_def Let_def apply_policy_defaults stop_run_fields same_process_def)

lemma publish_fields [simp]:
  "xa_defaults (publish f a) = xa_defaults a" "xa_ctx (publish f a) = xa_ctx a"
  "xa_kpm (publish f a) = xa_kpm a" "xa_rc (publish f a) = xa_rc a" "xa_admin (publish f a) = xa_admin a"
  by (simp_all add: publish_def)

lemma run_command_steps:
  assumes "world node y"
    and "\<And>d. args_of (pget payload ''args'') = Some d \<Longrightarrow> on_node node (dmerge (xa_defaults a) d)"
  shows "xapp_steps node a (snd (run_command y payload a))
         \<and> xa_defaults (snd (run_command y payload a)) = xa_defaults a"
proof -
  have start: "xapp_steps node a (snd (start_run y run d a))"
    if "args_of (pget payload ''args'') = Some d" for run d
    using assms that by (blast intro: xs_start)
  have stop: "xapp_steps node a (snd (stop_run y a))" and policy: "xapp_steps node a (snd (apply_policy y raw a))"
    for raw
    using assms(1) by (blast intro: xs_stop xs_policy)+
  show ?thesis
    using start stop policy start_run_defaults [of y] stop_run_fields(2) [of y a] apply_policy_defaults [of y]
    by (auto simp: run_command_def case_prod_beta split: json.split sum.split option.split)
qed

lemma apply_command_steps:
  assumes "world node y" and "frame_ok node (xa_defaults a) (kind, msg_id, payload)"
  shows "xapp_steps node a (apply_command y msg_id payload a)
         \<and> xa_defaults (apply_command y msg_id payload a) = xa_defaults a"
proof -
  let ?b = "snd (run_command y payload a)"
  have b: "xapp_steps node a ?b" "xa_defaults ?b = xa_defaults a"
    using run_command_steps [OF assms(1)] assms(2) by (auto simp: frame_ok_def)
  have "xapp_steps node a (publish g ?b)" for g
    using b(1) xs_publish by (rule rtranclp.rtrancl_into_rtrancl)
  then have "xapp_steps node a (publish f (publish g ?b))" for f g
    using xs_publish by (rule rtranclp.rtrancl_into_rtrancl)
  with b show ?thesis
    by (simp add: apply_command_def case_prod_beta split: sum.split)
qed

lemma welcome_start_cases:
  "snd (welcome_start y payload a) = a
   \<or> (\<exists>d run args. pget payload ''active_run'' = JObj d \<and> args_of (pget d ''params'') = Some args
        \<and> welcome_start y payload a = start_run y run args a)"
  by (auto simp: welcome_start_def split: json.split option.split)

lemma welcome_start_steps:
  assumes "world node y" and "frame_ok node (xa_defaults a) (kind, msg_id, payload)"
  shows "xapp_steps node a (snd (welcome_start y payload a))
         \<and> xa_defaults (snd (welcome_start y payload a)) = xa_defaults a"
  using welcome_start_cases [of y payload a]
proof
  assume "snd (welcome_start y payload a) = a"
  then show ?thesis by simp
next
  assume "\<exists>d run args. pget payload ''active_run'' = JObj d \<and> args_of (pget d ''params'') = Some args
        \<and> welcome_start y payload a = start_run y run args a"
  then obtain d run args where *: "pget payload ''active_run'' = JObj d" "args_of (pget d ''params'') = Some args"
    "welcome_start y payload a = start_run y run args a" by blast
  then have "on_node node (dmerge (xa_defaults a) args)"
    using assms(2) by (simp add: frame_ok_def)
  then show ?thesis
    using xs_start [OF assms(1), of a args run] start_run_defaults [of y run args a] by (simp add: *(3))
qed

lemma handle_welcome_steps:
  assumes "world node y" and "frame_ok node (xa_defaults a) (kind, msg_id, payload)"
  shows "xapp_steps node a (snd (handle_welcome y payload a))
         \<and> xa_defaults (snd (handle_welcome y payload a)) = xa_defaults a"
proof -
  let ?b = "snd (welcome_start y payload a)"
  have b: "xapp_steps node a ?b" "xa_defaults ?b = xa_defaults a"
    using welcome_start_steps [OF assms] by simp_all
  have p: "xapp_steps node a (publish f ?b)" for f
    using b(1) xs_publish by (rule rtranclp.rtrancl_into_rtrancl)
  show ?thesis
    using b p by (simp add: handle_welcome_def case_prod_beta split: sum.split)
qed

lemma drain_admin_steps:
  assumes "world node y" and "list_all (frame_ok node (xa_defaults a)) frames"
  shows "xapp_steps node a (snd (drain_admin y frames a))"
  using assms(2)
proof (induction frames arbitrary: a)
  case (Cons f frames)
  obtain kind msg_id payload where f: "f = (kind, msg_id, payload)" by (cases f)
  have ok: "frame_ok node (xa_defaults a) (kind, msg_id, payload)"
    using Cons.prems by (simp add: f)
  note w = handle_welcome_steps [OF assms(1) ok] and c = apply_command_steps [OF assms(1) ok]
  have rest: "xapp_steps node a (snd (drain_admin y frames b))"
    if "xapp_steps node a b" "xa_defaults b = xa_defaults a" for b
    using Cons.IH [of b] Cons.prems that by (auto intro: rtranclp_trans [of "xapp_step node" a b])
  show ?case
    using w c rest rest [OF rtranclp.rtrancl_refl] by (simp add: f case_prod_beta split: sum.split)
qed simp

lemma xapp_steps_reachable: "xapp_steps node a a' \<Longrightarrow> xapp_reachable node a \<Longrightarrow> xapp_reachable node a'"
  by (induction rule: rtranclp_induct) (auto intro: xr_step)

lemma main_exit_steps: "world node y \<Longrightarrow> xapp_steps node a (main_exit y a)"
  using xs_stop [of node y a] xs_publish [of node "snd (stop_run y a)"]
  by (auto simp: main_exit_def case_prod_beta intro: rtranclp.rtrancl_into_rtrancl)

section \<open>Example states for the witnesses\<close>

definition example_yenv :: yenv where
  "example_yenv =
     \<lparr>ye_mono = 40, ye_connected = True, ye_nodes = Some [''gnb''], ye_answer = (\<lambda>q. Subscribed ''s''),
      ye_unsub = True, ye_refuses = (\<lambda>_. None), ye_write = Written, ye_unlink = True,
      ye_float = (\<lambda>_. None), ye_fmt = (\<lambda>_. ''30''), ye_outcomes = [], ye_http = (\<lambda>_. True),
      ye_adapter = ''sim'', ye_version = ''1'', ye_error = []\<rparr>"

definition example_params :: pdict where
  "example_params = [(''ran_policy'', JObj [(''ue'', JInt 3), (''max_prb_ratio'', JInt 30)])]"

definition idle_xapp :: xapp where
  "idle_xapp = boot example_yenv (new_xapp [Cap_Kpm, Cap_Rc] [] None True True 0 No_File)"

definition running_xapp :: xapp where
  "running_xapp = snd (start_run example_yenv ''r1'' example_params idle_xapp)"

lemma example_world: "world ''gnb'' example_yenv"
  by (simp add: world_def example_yenv_def)

lemma idle_xapp_reachable: "xapp_reachable ''gnb'' idle_xapp"
  unfolding idle_xapp_def by (rule xr_new) simp

lemma running_xapp_reachable: "xapp_reachable ''gnb'' running_xapp"
proof -
  have "on_node ''gnb'' (dmerge (xa_defaults idle_xapp) example_params)"
    by code_simp
  then show ?thesis
    unfolding running_xapp_def by (blast intro: xr_step [OF idle_xapp_reachable] xs_start [OF example_world])
qed

section \<open>Properties\<close>

text \<open>C4. What the xApp holds at the RIC belongs to a run, in the world the module's rule is about: the E2 node
  it uses stays the same (the first one the RIC lists, and the one any run names), the RIC accepts
  every request and unsubscription, the marker can be written and removed, and none was left over at
  boot (\<open>world\<close>, \<open>xapp_reachable\<close>). In every state reachable so, whatever commands, ticks, indications
  and outcomes came in whatever order, it holds at most one subscription, and when it holds one, or a
  UE is under a quota other than the default, a run is active, and the UE is the one of the policy in
  force. Where the node changes or an unsubscription is lost the claim fails
  (\<open>node_change_leaves_cap\<close>, \<open>given_up_subscription_delivers\<close>).\<close>

theorem ric_state_belongs_to_run:
  assumes "xapp_reachable node a"
  shows "length (km_subs (xa_kpm a)) \<le> 1
         \<and> (km_subs (xa_kpm a) \<noteq> [] \<longrightarrow> xa_ctx a \<noteq> None)
         \<and> (capped (xa_rc a) n u \<longrightarrow>
              xa_ctx a \<noteq> None \<and> (\<exists>p. rc_policy (xa_rc a) = Some p \<and> xp_ue p = u \<and> n = node))"
proof -
  have inv: "xapp_inv node a"
    using assms by (rule xapp_reachable_inv)
  then have "kpm_inv (xa_kpm a)" and rc: "rc_inv node (xa_rc a)"
    and "xa_ctx a = None \<longrightarrow> kpm_quiet (xa_kpm a) \<and> rc_quiet (xa_rc a)"
    by (simp_all add: xapp_inv_def)
  moreover have "rc_quiet (xa_rc a) \<Longrightarrow> \<not> capped (xa_rc a) n u"
    using rc_quiet_uncapped [OF rc] by blast
  ultimately show ?thesis
    by (auto simp: kpm_inv_def kpm_quiet_def rc_inv_def split: option.splits)
qed

theorem ric_state_belongs_to_run_witness:
  "capped (xa_rc running_xapp) ''gnb'' 3 \<and> xa_ctx running_xapp \<noteq> None"
proof -
  have "capped (xa_rc running_xapp) ''gnb'' 3"
    by code_simp
  with ric_state_belongs_to_run [OF running_xapp_reachable] show ?thesis by blast
qed

text \<open>C32. Leaving leaves nothing behind, in the world of one E2 node: from every state reachable while the
  node stays the same, the RIC accepts every request and unsubscription and the marker can be written
  and removed (\<open>world\<close>, \<open>xapp_reachable\<close>), and those holding still, what the process does on its way
  out, whether it was told to stop or a turn of its loop raised, ends the run, gives back the
  subscription, lifts every cap and removes the marker, and the admin is told last.\<close>

theorem exit_leaves_nothing:
  assumes "xapp_reachable node a" and "world node y"
  shows "xa_ctx (main_exit y a) = None \<and> km_subs (xa_kpm (main_exit y a)) = []
         \<and> \<not> capped (xa_rc (main_exit y a)) n u \<and> rc_file (xa_rc (main_exit y a)) = No_File
         \<and> (xa_admin a \<longrightarrow> (\<exists>report. last (xa_outbox (main_exit y a)) = X_Goodbye report))"
proof -
  have ctx: "xa_ctx (main_exit y a) = None"
    using stop_run_fields(5) [of y a] by (simp add: main_exit_def case_prod_beta)
  have "xapp_inv node (main_exit y a)"
    using xapp_steps_reachable [OF main_exit_steps [OF assms(2)] assms(1)] by (rule xapp_reachable_inv)
  then have q: "kpm_quiet (xa_kpm (main_exit y a))" "rc_quiet (xa_rc (main_exit y a))"
    "rc_inv node (xa_rc (main_exit y a))"
    using ctx by (simp_all add: xapp_inv_def)
  have "xa_admin a \<longrightarrow> (\<exists>report. last (xa_outbox (main_exit y a)) = X_Goodbye report)"
    using stop_run_fields(4) [of y a] by (simp add: main_exit_def case_prod_beta publish_def)
  with ctx q rc_quiet_uncapped [OF q(3,2)] show ?thesis
    by (simp add: kpm_quiet_def)
qed

theorem exit_leaves_nothing_witness:
  "xa_ctx running_xapp \<noteq> None \<and> xa_ctx (main_exit example_yenv running_xapp) = None
   \<and> \<not> capped (xa_rc (main_exit example_yenv running_xapp)) ''gnb'' 3"
proof -
  have "xa_ctx running_xapp \<noteq> None"
    by code_simp
  with exit_leaves_nothing [OF running_xapp_reachable example_world] show ?thesis by blast
qed

text \<open>A turn of the main loop stays within the promises: whatever frames the admin sent, as long as no
  run they start asks for another E2 node, the turn leads from a reachable state to a reachable one,
  also when it ends in the process's exit.\<close>

theorem main_turn_reachable:
  assumes "xapp_reachable node a" and "world node y" and "list_all (frame_ok node (xa_defaults a)) frames"
  shows "xapp_reachable node (snd (main_turn y frames status_due a))"
proof -
  define r where "r = (if xa_admin a then drain_admin y frames a else (Inr (), a))"
  have r: "xapp_steps node a (snd r)"
    using drain_admin_steps [OF assms(2,3)] by (simp add: r_def)
  have tick: "xapp_steps node b (xapp_tick y b)" for b
    by (rule r_into_rtranclp) (rule xs_tick [OF assms(2)])
  have turn: "xapp_steps node b (publish f (xapp_tick y b))" for b f
    using tick xs_publish by (rule rtranclp.rtrancl_into_rtrancl)
  have "xapp_steps node a (snd (main_turn y frames status_due a))"
  proof (cases "fst r")
    case (Inl e)
    then have "snd (main_turn y frames status_due a) = main_exit y (snd r)"
      by (simp add: main_turn_def case_prod_beta flip: r_def)
    with rtranclp_trans [OF r main_exit_steps [OF assms(2)]] show ?thesis by simp
  next
    case (Inr u)
    then have "snd (main_turn y frames status_due a) =
        (if xa_admin (xapp_tick y (snd r)) \<and> status_due
         then publish (X_Status (xapp_status y [] (xapp_tick y (snd r)))) (xapp_tick y (snd r))
         else xapp_tick y (snd r))"
      by (simp add: main_turn_def case_prod_beta Let_def flip: r_def)
    with rtranclp_trans [OF r tick] rtranclp_trans [OF r turn] show ?thesis by simp
  qed
  then show ?thesis
    using assms(1) by (rule xapp_steps_reachable)
qed

theorem main_turn_reachable_witness:
  "xapp_reachable ''gnb'' (snd (main_turn example_yenv
     [(''command'', JStr ''m'', [(''command'', JStr ''run.start''), (''run_id'', JStr ''r2'')])] True running_xapp))"
proof -
  have "list_all (frame_ok ''gnb'' (xa_defaults running_xapp))
     [(''command'', JStr ''m'', [(''command'', JStr ''run.start''), (''run_id'', JStr ''r2'')])]"
  proof -
    have "xa_defaults running_xapp = []"
      by code_simp
    then show ?thesis
      by (auto simp: frame_ok_def args_of_def pget_def on_node_def split: if_splits json.splits)
  qed
  from main_turn_reachable [OF running_xapp_reachable example_world this] show ?thesis .
qed

text \<open>A repeated start hides a refused policy: when the start of a run was refused, whatever the reason,
  the run is on all the same, and the same start sent again is acknowledged without being looked at.\<close>

theorem repeated_start_acknowledged:
  assumes "start_run y run args a = (Inl e, a')"
  shows "start_run y' run args' a' = (Inr (), a')"
proof -
  have "\<exists>c. xa_ctx a' = Some c \<and> cx_run c = run"
    using start_run_ctx [of y run args a] assms by simp
  then show ?thesis
    by (auto simp: start_run_def)
qed

theorem repeated_start_acknowledged_witness:
  "\<exists>e a'. start_run (example_yenv\<lparr>ye_nodes := Some []\<rparr>) ''r1'' example_params idle_xapp = (Inl e, a')
     \<and> start_run example_yenv ''r1'' example_params a' = (Inr (), a') \<and> rc_policy (xa_rc a') = None"
proof -
  let ?r = "start_run (example_yenv\<lparr>ye_nodes := Some []\<rparr>) ''r1'' example_params idle_xapp"
  have "fst ?r = Inl (Policy_Refused [''rc_control''])" "rc_policy (xa_rc (snd ?r)) = None"
    by code_simp+
  then obtain a' where r: "?r = (Inl (Policy_Refused [''rc_control'']), a')" and "rc_policy (xa_rc a') = None"
    by (metis prod.collapse snd_conv)
  with repeated_start_acknowledged [OF r, of example_yenv example_params] show ?thesis
    by blast
qed

text \<open>A welcome can end the process: when the admin welcomes an idle xApp into a run whose policy it
  refuses, for one because no E2 node is connected yet, the error that would only fail a command's
  acknowledgement ends the main loop, and the process with it.\<close>

theorem refused_welcome_ends_process:
  assumes "xa_admin a" and "xa_ctx a = None" and "Cap_Rc \<in> set (xa_caps a)"
    and "pget payload ''active_run'' = JObj d" and "map_of d ''run_id'' = Some (JStr run)"
    and "args_of (pget d ''params'') = Some args"
    and "pget (dmerge (xa_defaults a) args) ''ran_policy'' = policy" and "truthy policy"
    and "\<not> truthy (pget (dmerge (xa_defaults a) args) ''e2_node_id'')" and "ye_nodes y = Some []"
  shows "fst (main_turn y ((''welcome'', msg_id, payload) # frames) status_due a) = False"
proof -
  define c where "c = \<lparr>cx_run = run, cx_params = dmerge (xa_defaults a) args, cx_recorder = reopened a run\<rparr>"
  define a3 where "a3 = update_identity ''running'' (Some run)
    (fold (hook_start y c) (xa_caps a) (a\<lparr>xa_ctx := Some c\<rparr>))"
  have s: "start_run y run args a = apply_policy y policy a3"
    using assms(2,7,8) by (simp add: start_run_def Let_def a3_def c_def)
  have a3: "xa_ctx a3 = Some c" "xa_caps a3 = xa_caps a"
    using fold_hooks_same_process(1) [of "a\<lparr>xa_ctx := Some c\<rparr>" y c "xa_caps a"]
    by (simp_all add: a3_def same_process_def)
  let ?c = "c\<lparr>cx_params := dput ''ran_policy'' policy (cx_params c)\<rparr>"
  have node: "ctx_node (dput ''ran_policy'' policy (dmerge (xa_defaults a) args)) (ye_nodes y) = Some None"
    using assms(9,10) by (simp add: ctx_node_def)
  have refused: "fst (hook_policy y ?c policy Cap_Rc b) = False" for b
    by (simp add: hook_policy_def on_policy_def xe_node_def xenv_of_def node c_def
        split: sum.split)
  have "fst (offer_policy y ?c policy ks b) \<noteq> []" if "Cap_Rc \<in> set ks" for ks b
    using that
  proof (induction ks arbitrary: b)
    case (Cons k ks)
    then show ?case
      using refused by (cases k) (auto simp: case_prod_beta)
  qed simp
  then obtain e ks a4 where "offer_policy y ?c policy (xa_caps a3) (a3\<lparr>xa_ctx := Some ?c\<rparr>) = (e # ks, a4)"
    using assms(3) a3(2) by (metis list.exhaust prod.collapse fst_conv)
  then have "fst (apply_policy y policy a3) = Inl (Policy_Refused (e # ks))"
    by (simp add: apply_policy_def a3 Let_def)
  moreover have "truthy (JObj d)"
    using assms(5) by auto
  ultimately have "\<exists>x b. handle_welcome y payload a = (Inl x, b)"
    using assms(4-6) by (auto simp: handle_welcome_def welcome_start_def s case_prod_beta)
  then show ?thesis
    using assms(1) by (auto simp: main_turn_def)
qed

theorem refused_welcome_ends_process_witness:
  "fst (main_turn (example_yenv\<lparr>ye_nodes := Some []\<rparr>)
     [(''welcome'', JNull, [(''active_run'', JObj [(''run_id'', JStr ''r1''), (''params'', JObj example_params)])])]
     True idle_xapp) = False"
proof -
  have i: "xa_admin idle_xapp" "xa_ctx idle_xapp = None" "Cap_Rc \<in> set (xa_caps idle_xapp)"
    "xa_defaults idle_xapp = []"
    by code_simp+
  show ?thesis
    by (rule refused_welcome_ends_process [OF i(1-3), where run = "''r1''" and args = example_params and
          d = "[(''run_id'', JStr ''r1''), (''params'', JObj example_params)]" and
          policy = "JObj [(''ue'', JInt 3), (''max_prb_ratio'', JInt 30)]"])
       (simp_all add: i(4) pget_def args_of_def example_params_def example_yenv_def)
qed

text \<open>A late boot undoes a policy in force: a marker the previous process left is reverted as soon as the
  RIC answers, also when a run has started meanwhile; a policy of that run for the same UE stays in
  force and is reported as before, but the RIC no longer caps the UE.\<close>

theorem late_boot_lifts_policy:
  assumes "rc_policy (xa_rc a) = Some p" and "rc_stale (xa_rc a) = Some m" and "rc_stale_read (xa_rc a)"
    and "mk_ue m = xp_ue p" and "mk_node m = node" and "ye_nodes y = Some nodes" and "node \<in> set nodes"
    and "ye_refuses y = (\<lambda>_. None)" and "Cap_Rc \<notin> set (xa_booted a)"
  shows "\<not> capped (xa_rc (hook_boot y Cap_Rc a)) node (xp_ue p)
         \<and> rc_policy (xa_rc (hook_boot y Cap_Rc a)) = Some p
         \<and> rc_state (xa_rc (hook_boot y Cap_Rc a)) = rc_state (xa_rc a)
         \<and> rc_file (xa_rc (hook_boot y Cap_Rc a)) = rc_file (xa_rc a)"
proof -
  have "rc_port (xa_rc (hook_boot y Cap_Rc a)) =
      rc_port (xa_rc a) @ [mk_req node (xp_ue p) default_quota ''revert-after-crash'']"
    using assms by (simp add: hook_boot_def on_boot_def read_stale_def boot_node_def xenv_of_def Let_def)
  from last_quota_append [OF this, of node "xp_ue p"]
  have "\<not> capped (xa_rc (hook_boot y Cap_Rc a)) node (xp_ue p)"
    by (simp add: capped_def)
  then show ?thesis
    using assms by (simp add: hook_boot_def on_boot_def read_stale_def boot_node_def xenv_of_def Let_def)
qed

definition crashed_xapp :: xapp where
  "crashed_xapp =
     boot (example_yenv\<lparr>ye_nodes := Some []\<rparr>)
       (new_xapp [Cap_Kpm, Cap_Rc] [] None True True 0 (rc_file (xa_rc running_xapp)))"

theorem late_boot_lifts_policy_witness:
  "\<not> capped (xa_rc (hook_boot example_yenv Cap_Rc (snd (start_run example_yenv ''r1'' example_params crashed_xapp))))
      ''gnb'' 3"
proof -
  let ?a = "snd (start_run example_yenv ''r1'' example_params crashed_xapp)"
  let ?p = "\<lparr>xp_ue = 3, xp_first = \<lparr>q_min = 0, q_max = 30, q_ded = 100\<rparr>, xp_schedule = []\<rparr>"
  have a: "rc_policy (xa_rc ?a) = Some ?p"
    "rc_stale (xa_rc ?a) = Some \<lparr>mk_node = ''gnb'', mk_ue = 3, mk_run = ''r1'', mk_policy = ?p\<rparr>"
    "rc_stale_read (xa_rc ?a)" "Cap_Rc \<notin> set (xa_booted ?a)"
    by code_simp+
  have "ye_nodes example_yenv = Some [''gnb'']" "ye_refuses example_yenv = (\<lambda>_. None)"
    by (simp_all add: example_yenv_def)
  from late_boot_lifts_policy [OF a(1-3) _ _ this(1) _ this(2) a(4), of "''gnb''"] show ?thesis
    by simp
qed

end
