(* ===== verification/Admin_Client.thy ===== *)
theory Admin_Client
  imports Bounded_Queue Wire_Protocol "HOL-Library.Sublist"
begin

text \<open>
  The client a measuring node talks to the admin with (ros2/src/mec_cast_admin_client: protocol.py and
  client.py). A background thread owns the socket and only moves frames between it and two bounded
  queues; the node drains the inbound one from its own thread.

  \<open>client\<close> is the object's state with \<open>cl_wire\<close>, what the sockets took over its life, each frame
  with where it came from. The operations of the node's thread and of the socket's thread are atomic,
  as the queues and the lock make them; a send the socket refuses raises, which ends the session. The
  id and the time stamp \<open>build\<close> reads are its argument \<open>st\<close>.
\<close>

section \<open>Frames\<close>

type_synonym stamp = "string \<times> int"

definition opt_str :: "string option \<Rightarrow> json" where
  "opt_str x = (case x of None \<Rightarrow> JNull | Some s \<Rightarrow> JStr s)"

definition cl_build :: "string \<Rightarrow> pdict \<Rightarrow> string \<Rightarrow> stamp \<Rightarrow> pdict" where
  "cl_build t payload nid st =
     [(''v'', JInt protocol_version), (''type'', JStr t), (''msg_id'', JStr (fst st)),
      (''ts_ns'', JInt (snd st)), (''node_id'', JStr nid), (''payload'', JObj payload)]"

datatype client_protocol_error = Not_Object | Other_Version json | No_Type | Payload_Not_Object

definition client_parse :: "json \<Rightarrow> client_protocol_error + pdict" where
  "client_parse raw =
     (case raw of
        JObj d \<Rightarrow>
          (if \<not> py_eq_int (pget d ''v'') protocol_version then Inl (Other_Version (pget d ''v''))
           else
             (case pget d ''type'' of
                JStr t \<Rightarrow>
                  (case pget d ''payload'' of
                     JNull \<Rightarrow> Inr (dsetdefault ''payload'' (JObj []) d)
                   | JObj p \<Rightarrow> Inr (dsetdefault ''payload'' (JObj []) d)
                   | _ \<Rightarrow> Inl Payload_Not_Object)
              | _ \<Rightarrow> Inl No_Type))
      | _ \<Rightarrow> Inl Not_Object)"

text \<open>What a hello says, kept current by the node.\<close>

record identity =
  id_node_type :: string
  id_node_id :: string
  id_host :: string
  id_zone :: string
  id_pid :: int
  id_version_sha :: string
  id_version_tag :: string
  id_state :: string
  id_run_id :: "string option"
  id_autostart :: bool
  id_params :: pdict

definition hello_dict :: "identity \<Rightarrow> pdict" where
  "hello_dict i =
     [(''node_type'', JStr (id_node_type i)), (''node_id'', JStr (id_node_id i)),
      (''host'', JStr (id_host i)), (''zone'', JStr (id_zone i)), (''pid'', JInt (id_pid i)),
      (''version'', JObj [(''sha'', JStr (id_version_sha i)), (''tag'', JStr (id_version_tag i))]),
      (''state'', JStr (id_state i)), (''run_id'', opt_str (id_run_id i)),
      (''autostart'', JBool (id_autostart i)), (''params'', JObj (id_params i))]"

definition ack_dict :: "json \<Rightarrow> bool \<Rightarrow> string option \<Rightarrow> pdict" where
  "ack_dict in_reply_to ok err =
     [(''in_reply_to'', in_reply_to), (''ok'', JBool ok), (''error'', opt_str err)]"

definition goodbye_dict :: "string \<Rightarrow> string option \<Rightarrow> pdict \<Rightarrow> pdict" where
  "goodbye_dict reason rid report =
     [(''reason'', JStr reason), (''run_id'', opt_str rid), (''final_report'', JObj report)]"

section \<open>State\<close>

datatype wire_frame = W_Hello pdict | W_Pong pdict | W_Queued pdict

record client =
  cl_url :: string
  cl_node_id :: string
  cl_identity :: identity
  cl_out :: "pdict list"
  cl_in :: "pdict list"
  cl_stop :: bool
  cl_started :: bool
  cl_connected :: bool
  cl_dropped :: nat
  cl_wire :: "wire_frame list"

definition queue_capacity :: nat where
  "queue_capacity = 64"

definition new_client ::
  "string \<Rightarrow> string \<Rightarrow> string \<Rightarrow> string \<Rightarrow> int \<Rightarrow> string \<Rightarrow> string \<Rightarrow> int \<Rightarrow> client" where
  "new_client node_type host url zone inst sha tag pid =
     \<lparr>cl_url = url, cl_node_id = node_id_of node_type host inst,
      cl_identity = \<lparr>id_node_type = node_type, id_node_id = node_id_of node_type host inst,
                     id_host = host, id_zone = zone, id_pid = pid, id_version_sha = sha,
                     id_version_tag = tag, id_state = ''idle'', id_run_id = None,
                     id_autostart = False, id_params = []\<rparr>,
      cl_out = [], cl_in = [], cl_stop = False, cl_started = False, cl_connected = False,
      cl_dropped = 0, cl_wire = []\<rparr>"

definition cl_enabled :: "client \<Rightarrow> bool" where
  "cl_enabled c \<longleftrightarrow> cl_url c \<noteq> []"

section \<open>The node's thread\<close>

definition cl_start :: "client \<Rightarrow> client" where
  "cl_start c = (if \<not> cl_enabled c \<or> cl_started c then c else c\<lparr>cl_started := True\<rparr>)"

definition client_identity :: "(identity \<Rightarrow> identity) \<Rightarrow> client \<Rightarrow> client" where
  "client_identity f c = c\<lparr>cl_identity := f (cl_identity c)\<rparr>"

definition enqueue :: "pdict \<Rightarrow> client \<Rightarrow> bool \<times> client" where
  "enqueue f c =
     (if \<not> cl_enabled c then (False, c)
      else if length (cl_out c) < queue_capacity then (True, c\<lparr>cl_out := cl_out c @ [f]\<rparr>)
      else (False, c\<lparr>cl_dropped := cl_dropped c + 1\<rparr>))"

definition publish_status :: "stamp \<Rightarrow> pdict \<Rightarrow> client \<Rightarrow> bool \<times> client" where
  "publish_status st payload c = enqueue (cl_build ''status'' payload (cl_node_id c) st) c"

definition publish_ack :: "stamp \<Rightarrow> json \<Rightarrow> bool \<Rightarrow> string option \<Rightarrow> client \<Rightarrow> bool \<times> client" where
  "publish_ack st in_reply_to ok err c =
     enqueue (cl_build ''ack'' (ack_dict in_reply_to ok err) (cl_node_id c) st) c"

text \<open>The inbound queue: what the socket's thread puts on it, dropped where it is full, and what
  \<open>get_nowait\<close> takes.\<close>

definition put_inbound :: "pdict \<Rightarrow> client \<Rightarrow> client" where
  "put_inbound f c = (if length (cl_in c) < queue_capacity then c\<lparr>cl_in := cl_in c @ [f]\<rparr> else c)"

definition get_inbound :: "client \<Rightarrow> (pdict \<times> client) option" where
  "get_inbound c = (case cl_in c of [] \<Rightarrow> None | f # q \<Rightarrow> Some (f, c\<lparr>cl_in := q\<rparr>))"

text \<open>\<open>poll\<close> takes frames until the queue is empty: a loop with no bound of its own. \<open>arr k\<close> is what the
  socket's thread puts on the queue before the \<open>k\<close>-th frame is taken.\<close>

partial_function (option) poll_loop ::
  "(nat \<Rightarrow> pdict list) \<Rightarrow> nat \<Rightarrow> pdict list \<Rightarrow> client \<Rightarrow> (pdict list \<times> client) option" where
  "poll_loop arr k frames c =
     (case get_inbound (fold put_inbound (arr k) c) of
        None \<Rightarrow> Some (frames, fold put_inbound (arr k) c)
      | Some (f, c') \<Rightarrow> poll_loop arr (Suc k) (frames @ [f]) c')"

text \<open>A poll during which nothing arrives.\<close>

definition cl_poll :: "client \<Rightarrow> (pdict list \<times> client) option" where
  "cl_poll c = poll_loop (\<lambda>_. []) 0 [] c"

text \<open>\<open>goodbye\<close>; \<open>stop\<close> tells the socket's thread to end.\<close>

definition client_goodbye :: "stamp \<Rightarrow> string \<Rightarrow> string option \<Rightarrow> pdict \<Rightarrow> client \<Rightarrow> client" where
  "client_goodbye st reason rid report c =
     (if \<not> cl_enabled c then c
      else (snd (enqueue (cl_build ''goodbye'' (goodbye_dict reason rid report) (cl_node_id c) st) c))
             \<lparr>cl_stop := True, cl_started := False\<rparr>)"

section \<open>The socket's thread\<close>

text \<open>\<open>ok\<close> says which frames the socket takes. A refused send raises out of \<open>_session\<close>, and
  \<open>_run\<close> clears the connected flag before it tries again.\<close>

definition transmit :: "(pdict \<Rightarrow> bool) \<Rightarrow> pdict \<Rightarrow> (pdict \<Rightarrow> wire_frame) \<Rightarrow> client \<Rightarrow> client" where
  "transmit ok f kind c =
     (if ok f then c\<lparr>cl_wire := cl_wire c @ [kind f]\<rparr> else c\<lparr>cl_connected := False\<rparr>)"

definition open_session :: "(pdict \<Rightarrow> bool) \<Rightarrow> stamp \<Rightarrow> client \<Rightarrow> client" where
  "open_session ok st c =
     (if cl_stop c then c
      else transmit ok (cl_build ''hello'' (hello_dict (cl_identity c)) (cl_node_id c) st) W_Hello
             (c\<lparr>cl_connected := True\<rparr>))"

text \<open>Draining the outbound queue: a frame is off the queue before it is sent.\<close>

fun drain_frames :: "(pdict \<Rightarrow> bool) \<Rightarrow> pdict list \<Rightarrow> client \<Rightarrow> client" where
  "drain_frames ok [] c = c\<lparr>cl_out := []\<rparr>"
| "drain_frames ok (f # fs) c =
     (let c' = transmit ok f W_Queued c
      in if cl_connected c' then drain_frames ok fs c' else c'\<lparr>cl_out := fs\<rparr>)"

definition drain_out :: "(pdict \<Rightarrow> bool) \<Rightarrow> client \<Rightarrow> client" where
  "drain_out ok c = (if \<not> cl_connected c then c else drain_frames ok (cl_out c) c)"

text \<open>One received text: \<open>raw\<close> is what \<open>json.loads\<close> made of it. The payload of an error frame
  is read with \<open>.get\<close>, which raises when it is null.\<close>

definition on_received :: "(pdict \<Rightarrow> bool) \<Rightarrow> stamp \<Rightarrow> string + json \<Rightarrow> client \<Rightarrow> client" where
  "on_received ok st raw c =
     (if \<not> cl_connected c then c
      else
        (case raw of
           Inl _ \<Rightarrow> c
         | Inr j \<Rightarrow>
             (case client_parse j of
                Inl _ \<Rightarrow> c
              | Inr d \<Rightarrow>
                  (if pget d ''type'' = JStr ''ping''
                   then transmit ok (cl_build ''pong'' [] (cl_node_id c) st) W_Pong c
                   else if pget d ''type'' = JStr ''error''
                   then (case pget d ''payload'' of JObj p \<Rightarrow> c | _ \<Rightarrow> c\<lparr>cl_connected := False\<rparr>)
                   else if pget d ''type'' \<in> {JStr ''welcome'', JStr ''command''} then put_inbound d c
                   else c))))"

definition session_lost :: "client \<Rightarrow> client" where
  "session_lost c = c\<lparr>cl_connected := False\<rparr>"

section \<open>The queues\<close>

lemmas client_defs =
  enqueue_def transmit_def open_session_def drain_out_def put_inbound_def session_lost_def

interpretation outq: counting_queue cl_out cl_enabled "\<lambda>f c. snd (enqueue f c)" queue_capacity cl_dropped
  by unfold_locales (simp_all add: enqueue_def cl_enabled_def)

interpretation inq: bounded_queue cl_in "\<lambda>_. True" put_inbound queue_capacity
  by unfold_locales (simp_all add: put_inbound_def)

section \<open>Runs of the client\<close>

text \<open>What either thread does, with the frames it put on the outbound queue.\<close>

inductive client_step :: "pdict list \<Rightarrow> client \<Rightarrow> client \<Rightarrow> bool" where
  cs_enqueue: "client_step (if fst (enqueue f c) then [f] else []) c (snd (enqueue f c))"
| cs_goodbye: "client_step (if fst (enqueue (cl_build ''goodbye'' (goodbye_dict reason rid report) (cl_node_id c) st) c)
      then [cl_build ''goodbye'' (goodbye_dict reason rid report) (cl_node_id c) st] else [])
      c (client_goodbye st reason rid report c)"
| cs_identity: "client_step [] c (client_identity g c)"
| cs_start: "client_step [] c (cl_start c)"
| cs_poll: "cl_poll c = Some (frames, c') \<Longrightarrow> client_step [] c c'"
| cs_get: "get_inbound c = Some (f, c') \<Longrightarrow> client_step [] c c'"
| cs_open: "\<not> cl_connected c \<Longrightarrow> client_step [] c (open_session ok st c)"
| cs_drain: "client_step [] c (drain_out ok c)"
| cs_receive: "client_step [] c (on_received ok st raw c)"
| cs_lost: "client_step [] c (session_lost c)"

inductive client_run :: "pdict list \<Rightarrow> client \<Rightarrow> client \<Rightarrow> bool" where
  cr_refl: "client_run [] c c"
| cr_step: "client_run xs c c' \<Longrightarrow> client_step ys c' c'' \<Longrightarrow> client_run (xs @ ys) c c''"

text \<open>The frames of the wire that came from the queue.\<close>

fun queued :: "wire_frame list \<Rightarrow> pdict list" where
  "queued [] = []"
| "queued (W_Queued f # ws) = f # queued ws"
| "queued (_ # ws) = queued ws"

lemma queued_append [simp]: "queued (ws @ vs) = queued ws @ queued vs"
  by (induction ws rule: queued.induct) simp_all

lemma poll_loop_all: "poll_loop (\<lambda>_. []) k frames c = Some (frames @ cl_in c, c\<lparr>cl_in := []\<rparr>)"
proof (induction "cl_in c" arbitrary: k frames c)
  case Nil
  then show ?case
    by (subst poll_loop.simps) (simp add: get_inbound_def flip: Nil)
next
  case (Cons f q)
  have "poll_loop (\<lambda>_. []) (Suc k) (frames @ [f]) (c\<lparr>cl_in := q\<rparr>) = Some ((frames @ [f]) @ q, c\<lparr>cl_in := []\<rparr>)"
    using Cons.hyps(1) [of "c\<lparr>cl_in := q\<rparr>"] by simp
  then show ?case
    by (subst poll_loop.simps) (simp add: get_inbound_def flip: Cons.hyps(2))
qed

lemma cl_poll_all [code]: "cl_poll c = Some (cl_in c, c\<lparr>cl_in := []\<rparr>)"
  by (simp add: cl_poll_def poll_loop_all)

lemma enqueue_effect:
  "cl_out (snd (enqueue f c)) = cl_out c @ (if fst (enqueue f c) then [f] else [])"
  "cl_wire (snd (enqueue f c)) = cl_wire c"
  by (simp_all add: enqueue_def)

lemma drain_frames_subseq:
  "subseq (queued (cl_wire (drain_frames ok fs c)) @ cl_out (drain_frames ok fs c)) (queued (cl_wire c) @ fs)"
proof (induction fs arbitrary: c)
  case (Cons f fs)
  show ?case
  proof (cases "ok f \<and> cl_connected c")
    case True
    then show ?thesis
      using Cons.IH [of "c\<lparr>cl_wire := cl_wire c @ [W_Queued f]\<rparr>"] by (simp add: transmit_def)
  next
    case False
    then show ?thesis
      by (auto simp: transmit_def Let_def subseq_append' intro: list_emb_Cons)
  qed
qed simp

lemma on_received_wire:
  "queued (cl_wire (on_received ok st raw c)) = queued (cl_wire c)"
  "cl_out (on_received ok st raw c) = cl_out c"
  by (auto simp: on_received_def transmit_def put_inbound_def split: sum.splits json.splits)

lemma client_step_subseq:
  "client_step xs c c' \<Longrightarrow>
     subseq (queued (cl_wire c') @ cl_out c') (queued (cl_wire c) @ cl_out c @ xs)"
proof (induction rule: client_step.induct)
  case (cs_drain c ok)
  then show ?case
    using drain_frames_subseq [of ok "cl_out c" c] by (simp add: drain_out_def)
qed (auto simp: client_goodbye_def enqueue_effect cl_poll_all on_received_wire client_identity_def cl_start_def
      open_session_def transmit_def session_lost_def get_inbound_def split: list.splits)

section \<open>A poll while frames arrive\<close>

text \<open>What the queue takes in of the arrivals before the first \<open>k\<close> gets, \<open>l\<close> frames having been on it: of
  each arrival as much as there is room for.\<close>

primrec accepted :: "(nat \<Rightarrow> pdict list) \<Rightarrow> nat \<Rightarrow> nat \<Rightarrow> pdict list" where
  "accepted arr l 0 = []"
| "accepted arr l (Suc k) =
     accepted arr l k @ take (queue_capacity - (l + length (accepted arr l k) - k)) (arr k)"

lemma fold_put_rest [simp]: "(fold put_inbound fs c)\<lparr>cl_in := q\<rparr> = c\<lparr>cl_in := q\<rparr>"
proof -
  have "(put_inbound f c)\<lparr>cl_in := q\<rparr> = c\<lparr>cl_in := q\<rparr>" for f c
    by (simp add: put_inbound_def)
  then show ?thesis
    by (induction fs arbitrary: c) simp_all
qed

lemma puts_taken:
  assumes "length (cl_in c) \<le> queue_capacity"
  shows "cl_in (fold put_inbound fs c) = cl_in c @ take (queue_capacity - length (cl_in c)) fs"
    and "length (cl_in (fold put_inbound fs c)) \<le> queue_capacity"
  using inq.burst [of c fs] inq.burst_bound [of c fs] assms by simp_all

text \<open>After \<open>k\<close> frames taken, what was taken and what is queued are what was there and what was taken in.\<close>

definition polling :: "(nat \<Rightarrow> pdict list) \<Rightarrow> client \<Rightarrow> nat \<Rightarrow> pdict list \<Rightarrow> client \<Rightarrow> bool" where
  "polling arr c0 k frames c \<longleftrightarrow>
     length frames = k \<and> frames @ cl_in c = cl_in c0 @ accepted arr (length (cl_in c0)) k
     \<and> length (cl_in c) \<le> queue_capacity \<and> c\<lparr>cl_in := []\<rparr> = c0\<lparr>cl_in := []\<rparr>"

lemma polling_puts:
  assumes "polling arr c0 k frames c"
  shows "frames @ cl_in (fold put_inbound (arr k) c) = cl_in c0 @ accepted arr (length (cl_in c0)) (Suc k)"
    and "length (cl_in (fold put_inbound (arr k) c)) \<le> queue_capacity"
proof -
  have "length frames + length (cl_in c) = length (cl_in c0) + length (accepted arr (length (cl_in c0)) k)"
    using assms by (metis polling_def length_append)
  then have "length (cl_in c) = length (cl_in c0) + length (accepted arr (length (cl_in c0)) k) - k"
    using assms by (simp add: polling_def)
  then show "frames @ cl_in (fold put_inbound (arr k) c) = cl_in c0 @ accepted arr (length (cl_in c0)) (Suc k)"
    and "length (cl_in (fold put_inbound (arr k) c)) \<le> queue_capacity"
    using assms puts_taken [of c "arr k"] by (simp_all add: polling_def flip: append_assoc)
qed

lemma polling_step:
  assumes "polling arr c0 k frames c" and "get_inbound (fold put_inbound (arr k) c) = Some (f, c')"
  shows "polling arr c0 (Suc k) (frames @ [f]) c'"
proof -
  obtain q where q: "cl_in (fold put_inbound (arr k) c) = f # q" and c': "c' = (fold put_inbound (arr k) c)\<lparr>cl_in := q\<rparr>"
    using assms(2) by (auto simp: get_inbound_def split: list.splits)
  have "c' = c\<lparr>cl_in := q\<rparr>"
    unfolding c' by simp
  then show ?thesis
    using polling_puts [OF assms(1)] q assms(1) by (simp add: polling_def)
qed

lemma polling_start: "length (cl_in c) \<le> queue_capacity \<Longrightarrow> polling arr c 0 [] c"
  by (simp add: polling_def)

text \<open>What a poll that returns has returned.\<close>

definition polled :: "(nat \<Rightarrow> pdict list) \<Rightarrow> client \<Rightarrow> pdict list \<times> client \<Rightarrow> bool" where
  "polled arr c0 = (\<lambda>(frames, c).
     frames = cl_in c0 @ accepted arr (length (cl_in c0)) (Suc (length frames)) \<and> c = c0\<lparr>cl_in := []\<rparr>
     \<and> arr (length frames) = [])"

lemma polling_ends:
  assumes "polling arr c0 k frames c" and "get_inbound (fold put_inbound (arr k) c) = None"
  shows "polled arr c0 (frames, fold put_inbound (arr k) c)"
proof -
  let ?c1 = "fold put_inbound (arr k) c"
  have e: "cl_in ?c1 = []"
    using assms(2) by (auto simp: get_inbound_def split: list.splits)
  have k: "length frames = k" and le: "length (cl_in c) \<le> queue_capacity" and c: "c\<lparr>cl_in := []\<rparr> = c0\<lparr>cl_in := []\<rparr>"
    using assms(1) by (simp_all add: polling_def)
  have "arr k = []"
    using e puts_taken(1) [OF le, of "arr k"] by (auto simp: queue_capacity_def)
  moreover have "frames = cl_in c0 @ accepted arr (length (cl_in c0)) (Suc k)"
    using polling_puts(1) [OF assms(1)] unfolding e by simp
  moreover have "?c1 = ?c1\<lparr>cl_in := []\<rparr>"
    using e by (cases ?c1) simp
  then have "?c1 = c0\<lparr>cl_in := []\<rparr>"
    using c by (metis fold_put_rest)
  ultimately show ?thesis
    using k by (simp add: polled_def)
qed

lemma poll_loop_result:
  assumes "poll_loop arr k frames c = Some res" and "polling arr c0 k frames c"
  shows "polled arr c0 res"
proof -
  have "polling arr c0 k frames c \<longrightarrow> polled arr c0 res"
  proof (rule poll_loop.raw_induct [OF _ assms(1), where P = "\<lambda>arr k frames c res. polling arr c0 k frames c \<longrightarrow> polled arr c0 res"])
    fix loop arr k frames c res
    assume ih: "\<And>arr k frames c res. loop arr k frames c = Some res \<Longrightarrow> polling arr c0 k frames c \<longrightarrow> polled arr c0 res"
      and step: "(case get_inbound (fold put_inbound (arr k) c) of
          None \<Rightarrow> Some (frames, fold put_inbound (arr k) c)
        | Some (f, c') \<Rightarrow> loop arr (Suc k) (frames @ [f]) c') = Some res"
    show "polling arr c0 k frames c \<longrightarrow> polled arr c0 res"
    proof (cases "get_inbound (fold put_inbound (arr k) c)")
      case None
      then show ?thesis
        using step polling_ends [of arr c0 k frames c] by auto
    next
      case (Some r)
      then obtain f c' where r: "get_inbound (fold put_inbound (arr k) c) = Some (f, c')"
        by (cases r) auto
      then have "loop arr (Suc k) (frames @ [f]) c' = Some res"
        using step by simp
      then show ?thesis
        using ih polling_step [of arr c0 k frames c f c'] r by blast
    qed
  qed
  then show ?thesis
    using assms(2) by blast
qed

text \<open>As long as the frames come no faster than they are taken, some get finds the queue empty.\<close>

lemma accepted_length: "length (accepted arr l k) \<le> (\<Sum>i<k. length (arr i))"
  by (induction k) (auto intro: order_trans [OF add_mono])

lemma poll_loop_returns:
  assumes "polling arr c0 k frames c" and "k \<le> n" and "length (cl_in c0) + (\<Sum>i<Suc n. length (arr i)) \<le> n"
  shows "\<exists>frames' c'. poll_loop arr k frames c = Some (frames', c') \<and> length frames' \<le> n"
  using assms(1,2)
proof (induction "n - k" arbitrary: k frames c)
  case 0
  let ?c1 = "fold put_inbound (arr k) c"
  have k: "k = n" and len: "length frames = n"
    using 0 by (simp_all add: polling_def)
  have "length frames + length (cl_in ?c1) = length (cl_in c0) + length (accepted arr (length (cl_in c0)) (Suc n))"
    using polling_puts(1) [OF "0.prems"(1)] k by (metis length_append)
  then have "length (cl_in ?c1) = 0"
    using accepted_length [of arr "length (cl_in c0)" "Suc n"] assms(3) len by linarith
  then have "poll_loop arr k frames c = Some (frames, ?c1)"
    by (subst poll_loop.simps) (simp add: get_inbound_def)
  then show ?case
    using len by simp
next
  case (Suc d)
  show ?case
  proof (cases "get_inbound (fold put_inbound (arr k) c)")
    case None
    then have "poll_loop arr k frames c = Some (frames, fold put_inbound (arr k) c)"
      by (subst poll_loop.simps) simp
    then show ?thesis
      using Suc.prems by (simp add: polling_def)
  next
    case (Some r)
    then obtain f c2 where r: "get_inbound (fold put_inbound (arr k) c) = Some (f, c2)"
      by (cases r) auto
    then have "poll_loop arr k frames c = poll_loop arr (Suc k) (frames @ [f]) c2"
      by (subst poll_loop.simps) simp
    then show ?thesis
      using Suc.hyps(1) [of "Suc k" "frames @ [f]" c2] polling_step [OF Suc.prems(1) r] Suc.hyps(2) by simp
  qed
qed

text \<open>C30. \<open>poll\<close>, a loop that only an empty queue ends, while the socket's thread puts frames on the
  queue between the gets, any number each time, dropped where it is full: (1) what it returns is what
  was queued followed by what the queue took in, up to the get that found it empty, all of it, oldest
  first; (2) it returns, with at most \<open>n\<close> frames, once what was queued and what came by then are no
  more than \<open>n\<close>; and (3) it does not return while there is a frame before every get.\<close>

theorem poll_returns_all:
  assumes "length (cl_in c) \<le> queue_capacity"
  shows "(\<forall>frames c'. poll_loop arr 0 [] c = Some (frames, c') \<longrightarrow>
       frames = cl_in c @ accepted arr (length (cl_in c)) (Suc (length frames)) \<and> c' = c\<lparr>cl_in := []\<rparr>)
    \<and> (\<forall>n. length (cl_in c) + (\<Sum>i<Suc n. length (arr i)) \<le> n \<longrightarrow>
       (\<exists>frames c'. poll_loop arr 0 [] c = Some (frames, c') \<and> length frames \<le> n))
    \<and> ((\<forall>k. arr k \<noteq> []) \<longrightarrow> poll_loop arr 0 [] c = None)"
proof -
  have p: "polling arr c 0 [] c"
    using assms by (rule polling_start)
  have "polled arr c res" if "poll_loop arr 0 [] c = Some res" for res
    using poll_loop_result [OF that p] .
  moreover from this have "poll_loop arr 0 [] c = None" if "\<forall>k. arr k \<noteq> []"
    using that by (cases "poll_loop arr 0 [] c") (fastforce simp: polled_def)+
  ultimately show ?thesis
    using poll_loop_returns [OF p] by (auto simp: polled_def)
qed

text \<open>C31. What a node reports reaches the admin in the order it was reported, none of it twice: over any
  interleaving of the node's and the socket's threads, with reconnections and refused sends, the frames
  sent and still queued are the accepted ones in order, some perhaps missing.\<close>

theorem reports_in_order:
  assumes "client_run xs c c'"
  shows "subseq (queued (cl_wire c') @ cl_out c') (queued (cl_wire c) @ cl_out c @ xs)"
  using assms
proof (induction rule: client_run.induct)
  case (cr_step xs c c' ys c'')
  then have "subseq (queued (cl_wire c') @ cl_out c' @ ys) ((queued (cl_wire c) @ cl_out c @ xs) @ ys)"
    using list_emb_append_mono [OF cr_step.IH, of ys ys] by simp
  then show ?case
    using client_step_subseq [OF cr_step.hyps(2)] by (metis append.assoc subseq_order.trans)
qed simp

definition example_client :: client where
  "example_client = new_client ''edge'' ''mec01'' ''ws://infra:8099/ws/node'' ''z1'' 0 [] [] 7"

text \<open>A frame queued, two that come during the poll.\<close>

definition two_arrive :: "nat \<Rightarrow> pdict list" where
  "two_arrive k = (if k < 2 then [[(''n'', JInt (int k))]] else [])"

theorem poll_returns_all_witness:
  "\<exists>frames c'. poll_loop two_arrive 0 [] (example_client\<lparr>cl_in := [[]]\<rparr>) = Some (frames, c') \<and> length frames \<le> 3"
proof -
  have "length (cl_in (example_client\<lparr>cl_in := [[]]\<rparr>)) \<le> queue_capacity"
    by (simp add: queue_capacity_def)
  moreover have "length (cl_in (example_client\<lparr>cl_in := [[]]\<rparr>)) + (\<Sum>i<Suc 3. length (two_arrive i)) \<le> 3"
    by (simp add: two_arrive_def numeral_3_eq_3)
  ultimately show ?thesis
    using poll_returns_all [of "example_client\<lparr>cl_in := [[]]\<rparr>" two_arrive] by blast
qed

lemma client_run_enqueue: "fst (enqueue f c) \<Longrightarrow> client_run [f] c (snd (enqueue f c))"
  using cr_step [OF cr_refl cs_enqueue [of f c]] by simp

theorem reports_in_order_witness:
  "subseq (queued (cl_wire (drain_out (\<lambda>_. True) (open_session (\<lambda>_. True) (''m'', 1)
       (snd (enqueue [(''k'', JInt 1)] example_client)))))
     @ cl_out (drain_out (\<lambda>_. True) (open_session (\<lambda>_. True) (''m'', 1)
       (snd (enqueue [(''k'', JInt 1)] example_client))))) [[(''k'', JInt 1)]]"
proof -
  let ?c1 = "snd (enqueue [(''k'', JInt 1)] example_client)"
  have 1: "client_run [[(''k'', JInt 1)]] example_client ?c1"
    by (rule client_run_enqueue)
      (simp add: enqueue_def example_client_def new_client_def cl_enabled_def queue_capacity_def)
  have "\<not> cl_connected ?c1"
    by (simp add: enqueue_def example_client_def new_client_def)
  from cr_step [OF cr_step [OF 1 cs_open [OF this]] cs_drain]
  have "client_run [[(''k'', JInt 1)]] example_client
      (drain_out (\<lambda>_. True) (open_session (\<lambda>_. True) (''m'', 1) ?c1))"
    by simp
  from reports_in_order [OF this] show ?thesis
    by (simp add: example_client_def new_client_def)
qed

text \<open>A session's first frame.\<close>

definition hello_leads :: "client \<Rightarrow> bool" where
  "hello_leads c \<longleftrightarrow>
     (case cl_wire c of [] \<Rightarrow> \<not> cl_connected c | W_Hello _ # _ \<Rightarrow> True | _ \<Rightarrow> False)"

lemma hello_leads_extends:
  "hello_leads c \<Longrightarrow> cl_wire c \<noteq> [] \<Longrightarrow> cl_wire c' = cl_wire c @ ws \<Longrightarrow> hello_leads c'"
  by (cases "cl_wire c") (auto simp: hello_leads_def split: wire_frame.splits)

lemma hello_leads_wire: "hello_leads c \<Longrightarrow> cl_connected c \<Longrightarrow> cl_wire c \<noteq> []"
  by (auto simp: hello_leads_def)

lemma hello_leads_same:
  "hello_leads c \<Longrightarrow> cl_wire c' = cl_wire c \<Longrightarrow> (cl_connected c' \<Longrightarrow> cl_connected c) \<Longrightarrow> hello_leads c'"
  by (auto simp: hello_leads_def split: list.splits wire_frame.splits)

lemma drain_frames_wire: "\<exists>ws. cl_wire (drain_frames ok fs c) = cl_wire c @ ws"
  by (induction ok fs c rule: drain_frames.induct) (auto simp: transmit_def Let_def)

lemma client_step_hello: "client_step xs c c' \<Longrightarrow> hello_leads c \<Longrightarrow> hello_leads c'"
proof (induction rule: client_step.induct)
  case (cs_open c ok st)
  then show ?case
    by (cases "cl_wire c") (auto simp: open_session_def transmit_def hello_leads_def split: wire_frame.splits)
next
  case (cs_drain c ok)
  then show ?case
    using drain_frames_wire [of ok "cl_out c" c] hello_leads_wire [of c]
    by (auto simp: drain_out_def intro: hello_leads_extends)
next
  case (cs_receive c ok st raw)
  show ?case
  proof (cases "cl_connected c")
    case True
    have "\<exists>ws. cl_wire (on_received ok st raw c) = cl_wire c @ ws"
      by (auto simp: on_received_def transmit_def put_inbound_def split: sum.splits json.splits)
    then show ?thesis
      using cs_receive hello_leads_wire [OF cs_receive True] by (auto intro: hello_leads_extends)
  next
    case False
    then show ?thesis
      using cs_receive by (simp add: on_received_def)
  qed
qed (erule hello_leads_same;
     auto simp: client_goodbye_def enqueue_def cl_poll_all client_identity_def cl_start_def session_lost_def
       get_inbound_def split: if_splits list.splits; fail)+

text \<open>The first thing any admin hears from a node is its hello: whatever the node queued before it was
  connected, and however often the connection fails, the first frame on the wire is a hello.\<close>

theorem hello_goes_first:
  assumes "client_run xs (new_client node_type host url zone inst sha tag pid) c"
  shows "cl_wire c = [] \<or> (\<exists>d ws. cl_wire c = W_Hello d # ws)"
proof -
  have "hello_leads c'" if "client_run xs c c'" and "hello_leads c" for xs c c'
    using that by (induction rule: client_run.induct) (auto intro: client_step_hello)
  moreover have "hello_leads (new_client node_type host url zone inst sha tag pid)"
    by (simp add: hello_leads_def new_client_def)
  ultimately have "hello_leads c"
    using assms by blast
  then show ?thesis
    by (auto simp: hello_leads_def split: list.splits wire_frame.splits)
qed

theorem hello_goes_first_witness:
  "cl_wire (snd (enqueue [(''k'', JInt 1)] example_client)) = []
   \<or> (\<exists>d ws. cl_wire (snd (enqueue [(''k'', JInt 1)] example_client)) = W_Hello d # ws)"
  unfolding example_client_def
  by (rule hello_goes_first, rule client_run_enqueue)
     (simp add: enqueue_def new_client_def cl_enabled_def queue_capacity_def)

text \<open>What the queue loses is counted, what the inbound queue loses is not.\<close>

lemma received_command:
  assumes "cl_connected c" and "client_parse (JObj d) = Inr d" and "pget d ''type'' = JStr ''command''"
  shows "on_received ok st (Inr (JObj d)) c = put_inbound d c"
  using assms by (simp add: on_received_def)

lemma put_inbound_connected [simp]: "cl_connected (put_inbound d c) = cl_connected c"
  by (simp add: put_inbound_def)

lemma fold_put_inbound: "\<exists>q. fold put_inbound ds c = c\<lparr>cl_in := q\<rparr>"
proof (induction ds arbitrary: c)
  case Nil
  show ?case
    by (rule exI [of _ "cl_in c"]) simp
next
  case (Cons d ds)
  have "(put_inbound d c)\<lparr>cl_in := q\<rparr> = c\<lparr>cl_in := q\<rparr>" for q
    by (simp add: put_inbound_def)
  then show ?case
    using Cons [of "put_inbound d c"] by simp
qed

text \<open>A node that does not drain its queue keeps the oldest commands and loses the rest: of a burst of
  well-formed commands the first that fit are queued in order, up to 64 in all, and the others leave no
  trace, so the admin waits for an acknowledgement that no one will send.\<close>

theorem commands_beyond_queue_lost:
  assumes "cl_connected c" and "length (cl_in c) \<le> queue_capacity"
    and "\<forall>d \<in> set ds. client_parse (JObj d) = Inr d \<and> pget d ''type'' = JStr ''command''"
  shows "fold (\<lambda>d. on_received ok st (Inr (JObj d))) ds c
           = c\<lparr>cl_in := cl_in c @ take (64 - length (cl_in c)) ds\<rparr>"
proof -
  have "fold (\<lambda>d. on_received ok st (Inr (JObj d))) ds c' = fold put_inbound ds c'"
    if "cl_connected c'" for c'
    using assms(3) that by (induction ds arbitrary: c') (simp_all add: received_command)
  moreover have "fold put_inbound ds c = c\<lparr>cl_in := cl_in (fold put_inbound ds c)\<rparr>"
    using fold_put_inbound [of ds c] by auto
  ultimately show ?thesis
    using inq.burst [of c ds] assms(1,2) by (metis queue_capacity_def)
qed

definition example_command :: "int \<Rightarrow> pdict" where
  "example_command k = cl_build ''command'' [(''n'', JInt k)] ''admin'' (''m'', k)"

theorem commands_beyond_queue_lost_witness:
  "cl_in (fold (\<lambda>d. on_received (\<lambda>_. True) (''s'', 1) (Inr (JObj d)))
     (map (\<lambda>k. example_command (int k)) [0..<65]) (example_client\<lparr>cl_connected := True\<rparr>))
   = map (\<lambda>k. example_command (int k)) [0..<64]"
proof -
  let ?ds = "map (\<lambda>k. example_command (int k)) [0..<65]"
  let ?c = "example_client\<lparr>cl_connected := True\<rparr>"
  have in0: "cl_in ?c = []"
    by (simp add: example_client_def new_client_def)
  have "fold (\<lambda>d. on_received (\<lambda>_. True) (''s'', 1) (Inr (JObj d))) ?ds ?c
        = ?c\<lparr>cl_in := cl_in ?c @ take (64 - length (cl_in ?c)) ?ds\<rparr>"
    by (rule commands_beyond_queue_lost)
       (auto simp: example_client_def new_client_def example_command_def cl_build_def client_parse_def
         pget_def protocol_version_def dsetdefault_def)
  then show ?thesis
    by (simp add: in0 take_map del: upt_rec_numeral)
qed

end
