(* ===== verification/Node_Base.thy ===== *)
theory Node_Base
  imports Admin_Client
begin

text \<open>
  The skeleton every measuring node shares
  (ros2/src/mec_cast_admin_client/mec_cast_admin_client/node_base.py): the admin bootstrap, the draining
  of commands, the status and the goodbye. What a subclass supplies is \<open>node_class\<close>, a record of its
  attributes and overrides; its own state extends \<open>node\<close>.

  The locale \<open>run_lifecycle\<close> is the contract \<open>node_base.py\<close> states for \<open>start_run\<close> and
  \<open>stop_run\<close>; what the skeleton then guarantees, above all that the hello a reconnecting node sends
  tells the run it is recording, is proved in it. The edge, the renderer and the lidar client are its
  interpretations.

  The telemetry recorder is a library of its own, in Rust: of it there is the ring of samples, which
  drops what does not fit; its final report and its count of negative delays are functions of it. \<open>nenv\<close> is what
  one callback reads of the world. A dictionary built twice by the same code has its keys in the same
  order, so the comparison with the last status is equality of association lists.
\<close>

section \<open>State and class\<close>

record tsample =
  ts_seq :: int
  ts_capture :: int
  ts_send :: int
  ts_recv :: int
  ts_done :: int
  ts_bytes :: nat
  ts_trace :: "nat list"

text \<open>The recorder (telemetry/src/recorder.rs): \<open>tr_samples\<close> is every sample \<open>record\<close> was called with,
  \<open>tr_kept\<close> those its ring took, for the writer's file, \<open>tr_dropped\<close> how many it did not; \<open>tr_room\<close> is
  the places free in the ring.\<close>

record tel_recorder =
  tr_run :: string
  tr_dir :: string
  tr_samples :: "tsample list"
  tr_room :: int
  tr_kept :: "tsample list"
  tr_dropped :: nat

record node =
  nd_run_id :: "string option"
  nd_recorder :: "tel_recorder option"
  nd_last_status :: "pdict option"
  nd_client :: client
  nd_autostart :: bool
  nd_instance :: int
  nd_runs_dir :: string

text \<open>\<open>ne_opens\<close>: the recorder of that directory can be made. \<open>ne_codec\<close>: the codec library
  loads. \<open>ne_sink\<close>: the viewer starts, with its address if it has one. \<open>ne_dropped\<close>: the samples
  the recorder lost. \<open>ne_float\<close>: \<open>float(v)\<close> with the text of the result. \<open>ne_json\<close> and \<open>ne_size\<close>: what
  a file holds and how long it is. \<open>ne_datasets\<close>: \<open>DATASETS_DIR\<close>. \<open>ne_uuid\<close>: the bytes of a text that
  is a UUID. \<open>ne_timer\<close>: the middleware takes a timer of that period. \<open>ne_rng\<close>: numpy takes
  that seed.\<close>

record nenv =
  ne_ack :: stamp
  ne_status :: stamp
  ne_goodbye :: stamp
  ne_publishers :: "string \<Rightarrow> string list option"
  ne_effective :: string
  ne_rmw :: string
  ne_link :: string
  ne_negative :: "tel_recorder \<Rightarrow> int option"
  ne_report :: "tel_recorder \<Rightarrow> pdict"
  ne_opens :: "string \<Rightarrow> bool"
  ne_codec :: bool
  ne_sink :: "string + string option"
  ne_dropped :: "tel_recorder \<Rightarrow> int"
  ne_float :: "json \<Rightarrow> (rat \<times> string) option"
  ne_json :: "string \<Rightarrow> json option"
  ne_size :: "string \<Rightarrow> nat option"
  ne_datasets :: string
  ne_uuid :: "string \<Rightarrow> nat list option"
  ne_timer :: "rat \<Rightarrow> bool"
  ne_rng :: "int \<Rightarrow> bool"

record 's node_class =
  nk_type :: string
  nk_leaf :: string
  nk_topic :: "'s \<Rightarrow> string option"
  nk_params :: "'s \<Rightarrow> pdict"
  nk_counters :: "nenv \<Rightarrow> 's \<Rightarrow> (string \<times> int) list"
  nk_streaming :: "'s \<Rightarrow> bool"
  nk_subscribed :: "'s \<Rightarrow> bool"
  nk_start :: "nenv \<Rightarrow> string \<Rightarrow> json \<Rightarrow> 's \<Rightarrow> (string + unit) \<times> 's"
  nk_stop :: "nenv \<Rightarrow> 's \<Rightarrow> pdict \<times> 's"

definition node_running :: "'a node_scheme \<Rightarrow> bool" where
  "node_running n \<longleftrightarrow> nd_recorder n \<noteq> None"

definition out_leaf :: "string \<Rightarrow> 'a node_scheme \<Rightarrow> string" where
  "out_leaf leaf n = leaf @ ''-'' @ dec_int (nd_instance n)"

definition session_middleware :: "nenv \<Rightarrow> pdict" where
  "session_middleware e =
     (let name = (if ne_effective e \<noteq> [] then ne_effective e
                  else if contains ''zenoh'' (ne_rmw e) then ''zenoh''
                  else if contains ''fastrtps'' (ne_rmw e) then ''dds'' else [])
      in [(''middleware'', JStr name), (''transport'', JStr (if name \<noteq> [] then ne_link e else []))])"

definition params_full :: "('a node_scheme) node_class \<Rightarrow> nenv \<Rightarrow> 'a node_scheme \<Rightarrow> pdict" where
  "params_full k e n =
     dmerge (nk_params k n) ((''out_leaf'', JStr (out_leaf (nk_leaf k) n)) # session_middleware e)"

section \<open>The recorder\<close>

definition ring_capacity :: int where
  "ring_capacity = 8192"

definition opened_recorder :: "string \<Rightarrow> string \<Rightarrow> tel_recorder" where
  "opened_recorder rid dir =
     \<lparr>tr_run = rid, tr_dir = dir, tr_samples = [], tr_room = ring_capacity, tr_kept = [], tr_dropped = 0\<rparr>"

text \<open>\<open>try_record\<close> never waits: a full ring drops the sample and counts it. The writer's thread takes
  samples out of the ring.\<close>

definition try_record :: "tsample \<Rightarrow> tel_recorder \<Rightarrow> tel_recorder" where
  "try_record t r =
     (if tr_room r \<le> 0 then r\<lparr>tr_samples := tr_samples r @ [t], tr_dropped := tr_dropped r + 1\<rparr>
      else r\<lparr>tr_samples := tr_samples r @ [t], tr_room := tr_room r - 1, tr_kept := tr_kept r @ [t]\<rparr>)"

definition writer_takes :: "nat \<Rightarrow> tel_recorder \<Rightarrow> tel_recorder" where
  "writer_takes k r = r\<lparr>tr_room := min ring_capacity (tr_room r + int k)\<rparr>"

definition record_sample :: "tsample \<Rightarrow> 'a node_scheme \<Rightarrow> 'a node_scheme" where
  "record_sample t n = n\<lparr>nd_recorder := map_option (try_record t) (nd_recorder n)\<rparr>"

definition recorder_writes :: "nat \<Rightarrow> 'a node_scheme \<Rightarrow> 'a node_scheme" where
  "recorder_writes k n = n\<lparr>nd_recorder := map_option (writer_takes k) (nd_recorder n)\<rparr>"

text \<open>What was kept is a part of what was offered, in its order, and the rest is counted.\<close>

definition recorder_wf :: "tel_recorder \<Rightarrow> bool" where
  "recorder_wf r \<longleftrightarrow>
     length (tr_kept r) + tr_dropped r = length (tr_samples r) \<and> subseq (tr_kept r) (tr_samples r)
     \<and> tr_room r \<le> ring_capacity"

lemma opened_recorder_simps [simp]:
  "tr_run (opened_recorder rid dir) = rid" "tr_dir (opened_recorder rid dir) = dir"
  "tr_samples (opened_recorder rid dir) = []" "recorder_wf (opened_recorder rid dir)"
  by (simp_all add: opened_recorder_def recorder_wf_def)

lemma try_record_simps [simp]:
  "tr_run (try_record t r) = tr_run r" "tr_dir (try_record t r) = tr_dir r"
  "tr_samples (try_record t r) = tr_samples r @ [t]" "recorder_wf r \<Longrightarrow> recorder_wf (try_record t r)"
  by (auto simp: try_record_def recorder_wf_def)

lemma writer_takes_simps [simp]:
  "tr_run (writer_takes k r) = tr_run r" "tr_dir (writer_takes k r) = tr_dir r"
  "tr_samples (writer_takes k r) = tr_samples r" "tr_kept (writer_takes k r) = tr_kept r"
  "tr_dropped (writer_takes k r) = tr_dropped r" "recorder_wf r \<Longrightarrow> recorder_wf (writer_takes k r)"
  by (simp_all add: writer_takes_def recorder_wf_def)

definition make_recorder ::
  "string \<Rightarrow> nenv \<Rightarrow> string \<Rightarrow> 'a node_scheme \<Rightarrow> (string + string) \<times> 'a node_scheme" where
  "make_recorder leaf e rid n =
     (let n1 = n\<lparr>nd_run_id := Some rid\<rparr>;
          dir = nd_runs_dir n @ ''/'' @ rid @ ''/'' @ out_leaf leaf n
      in if ne_opens e dir
         then (Inr dir, n1\<lparr>nd_recorder := Some (opened_recorder rid dir)\<rparr>)
         else (Inl ''recorder'', n1))"

definition close_telemetry :: "nenv \<Rightarrow> 'a node_scheme \<Rightarrow> pdict \<times> 'a node_scheme" where
  "close_telemetry e n =
     (case nd_recorder n of
        None \<Rightarrow> ([], n)
      | Some r \<Rightarrow> (ne_report e r, n\<lparr>nd_recorder := None\<rparr>))"

section \<open>Status\<close>

definition status_dict ::
  "string \<Rightarrow> string \<Rightarrow> string option \<Rightarrow> bool \<Rightarrow> bool \<Rightarrow> json list \<Rightarrow> pdict \<Rightarrow> (string \<times> int) list \<Rightarrow>
   bool \<Rightarrow> string option \<Rightarrow> pdict \<Rightarrow> pdict" where
  "status_dict node_type st rid streaming subscribed peers params counters autostart last_error report =
     [(''node_type'', JStr node_type), (''state'', JStr st), (''run_id'', opt_str rid),
      (''streaming'', JBool streaming), (''subscribed'', JBool subscribed), (''peers'', JArr peers),
      (''params'', JObj params), (''counters'', JObj (map (\<lambda>(c, v). (c, JInt v)) counters)),
      (''autostart'', JBool autostart), (''last_error'', opt_str last_error), (''report'', JObj report)]"

definition peer_dict :: "string \<Rightarrow> json" where
  "peer_dict name =
     JObj [(''peer_id'', JStr name), (''first_seen_ns'', JNull), (''last_seen_ns'', JNull),
           (''detail'', JObj [])]"

definition node_peers :: "('a node_scheme) node_class \<Rightarrow> nenv \<Rightarrow> 'a node_scheme \<Rightarrow> json list" where
  "node_peers k e n =
     (case nk_topic k n of
        None \<Rightarrow> []
      | Some topic \<Rightarrow>
          if \<not> node_running n then []
          else (case ne_publishers e topic of
                  None \<Rightarrow> []
                | Some names \<Rightarrow> map (\<lambda>m. peer_dict (str_or m ''unknown'')) names))"

definition clock_counters :: "nenv \<Rightarrow> 'a node_scheme \<Rightarrow> (string \<times> int) list" where
  "clock_counters e n =
     (case nd_recorder n of
        None \<Rightarrow> []
      | Some r \<Rightarrow> (case ne_negative e r of None \<Rightarrow> [] | Some c \<Rightarrow> [(''negative_delays'', c)]))"

definition node_state_text :: "'a node_scheme \<Rightarrow> string" where
  "node_state_text n = (if node_running n then ''running'' else ''idle'')"

definition node_payload :: "('a node_scheme) node_class \<Rightarrow> nenv \<Rightarrow> pdict \<Rightarrow> 'a node_scheme \<Rightarrow> pdict" where
  "node_payload k e report n =
     status_dict (nk_type k) (node_state_text n) (nd_run_id n) (nk_streaming k n) (nk_subscribed k n)
       (node_peers k e n) (params_full k e n) (dmerge (nk_counters k e n) (clock_counters e n))
       (nd_autostart n) None report"

definition report_status ::
  "('a node_scheme) node_class \<Rightarrow> nenv \<Rightarrow> bool \<Rightarrow> pdict \<Rightarrow> 'a node_scheme \<Rightarrow> 'a node_scheme" where
  "report_status k e force report n =
     (if \<not> cl_enabled (nd_client n) then n
      else
        (let payload = node_payload k e report n
         in if force \<or> nd_last_status n \<noteq> Some payload
            then
              (let c1 = client_identity (\<lambda>i. i\<lparr>id_state := node_state_text n, id_run_id := nd_run_id n,
                                              id_params := params_full k e n\<rparr>) (nd_client n)
               in n\<lparr>nd_last_status := Some payload,
                    nd_client := snd (publish_status (ne_status e) payload c1)\<rparr>)
            else n))"

section \<open>Commands\<close>

text \<open>The commands; left is the text of the exception the handler catches.\<close>

definition run_start_command ::
  "('a node_scheme) node_class \<Rightarrow> nenv \<Rightarrow> pdict \<Rightarrow> 'a node_scheme \<Rightarrow> (string + unit) \<times> 'a node_scheme" where
  "run_start_command k e payload n =
     (case pget payload ''run_id'' of
        JStr rid \<Rightarrow>
          (if rid = [] then (Inl ''run.start without a run_id'', n)
           else nk_start k e rid (pget payload ''args'') n)
      | _ \<Rightarrow> (Inl ''run.start without a run_id'', n))"

definition run_node_command ::
  "('a node_scheme) node_class \<Rightarrow> nenv \<Rightarrow> pdict \<Rightarrow> 'a node_scheme \<Rightarrow> (string + pdict) \<times> 'a node_scheme" where
  "run_node_command k e payload n =
     (let command = pget payload ''command''
      in if command \<in> {JStr ''run.start'', JStr ''stream.start''}
         then (case run_start_command k e payload n of
                 (Inl err, n') \<Rightarrow> (Inl err, n') | (Inr _, n') \<Rightarrow> (Inr [], n'))
         else if command \<in> {JStr ''run.stop'', JStr ''stream.stop''}
         then (case nk_stop k e n of (report, n') \<Rightarrow> (Inr report, n'))
         else if command \<noteq> JStr ''status.report''
         then (Inl (''unknown command '' @ py_repr command), n)
         else (Inr [], n))"

text \<open>\<open>frame["msg_id"]\<close> raises where the frame has none, after the command ran.\<close>

definition apply_node_command ::
  "('a node_scheme) node_class \<Rightarrow> nenv \<Rightarrow> pdict \<Rightarrow> pdict \<Rightarrow> 'a node_scheme \<Rightarrow> (string + unit) \<times> 'a node_scheme" where
  "apply_node_command k e frame payload n =
     (case run_node_command k e payload n of
        (res, n1) \<Rightarrow>
          (case map_of frame ''msg_id'' of
             None \<Rightarrow> (Inl ''msg_id'', n1)
           | Some mid \<Rightarrow>
               (let ok = (case res of Inl _ \<Rightarrow> False | Inr _ \<Rightarrow> True);
                    err = (case res of Inl t \<Rightarrow> Some t | Inr _ \<Rightarrow> None);
                    report = (case res of Inl _ \<Rightarrow> [] | Inr p \<Rightarrow> p);
                    n2 = n1\<lparr>nd_client := snd (publish_ack (ne_ack e) mid ok err (nd_client n1))\<rparr>
                in (Inr (), report_status k e True report n2))))"

text \<open>A welcome: a start that raises is not caught here.\<close>

definition node_welcome ::
  "('a node_scheme) node_class \<Rightarrow> nenv \<Rightarrow> pdict \<Rightarrow> 'a node_scheme \<Rightarrow> (string + unit) \<times> 'a node_scheme" where
  "node_welcome k e payload n =
     (if truthy (pget payload ''active_run'') \<and> nd_autostart n
      then
        (case pget payload ''active_run'' of
           JObj active \<Rightarrow>
             (case pget active ''run_id'' of
                JStr rid \<Rightarrow>
                  (case nk_start k e rid (pget active ''params'') n of
                     (Inl err, n1) \<Rightarrow> (Inl err, n1)
                   | (Inr _, n1) \<Rightarrow> (Inr (), report_status k e True [] n1))
              | _ \<Rightarrow> (Inl ''run_id'', n))
         | _ \<Rightarrow> (Inl ''active_run'', n))
      else (Inr (), report_status k e True [] n))"

definition node_frame ::
  "('a node_scheme) node_class \<Rightarrow> nenv \<Rightarrow> pdict \<Rightarrow> 'a node_scheme \<Rightarrow> (string + unit) \<times> 'a node_scheme" where
  "node_frame k e frame n =
     (let payload = (case pget frame ''payload'' of JObj p \<Rightarrow> p | _ \<Rightarrow> [])
      in if pget frame ''type'' = JStr ''welcome'' then node_welcome k e payload n
         else if pget frame ''type'' = JStr ''command'' then apply_node_command k e frame payload n
         else (Inr (), n))"

text \<open>\<open>_drain_admin\<close>: the polled frames in order; an exception leaves the callback, and with it the
  process.\<close>

fun node_frames ::
  "('a node_scheme) node_class \<Rightarrow> nenv \<Rightarrow> pdict list \<Rightarrow> 'a node_scheme \<Rightarrow> (string + unit) \<times> 'a node_scheme" where
  "node_frames k e [] n = (Inr (), n)"
| "node_frames k e (f # fs) n =
     (case node_frame k e f n of
        (Inl err, n') \<Rightarrow> (Inl err, n')
      | (Inr _, n') \<Rightarrow> node_frames k e fs n')"

definition drain_node ::
  "('a node_scheme) node_class \<Rightarrow> nenv \<Rightarrow> 'a node_scheme \<Rightarrow> (string + unit) \<times> 'a node_scheme" where
  "drain_node k e n =
     (case cl_poll (nd_client n) of
        None \<Rightarrow> (Inr (), n)
      | Some (frames, c) \<Rightarrow> node_frames k e frames (n\<lparr>nd_client := c\<rparr>))"

text \<open>\<open>_start\<close> and \<open>finish\<close>; \<open>run_param\<close> is the run_id parameter of the standalone path.\<close>

definition node_bootstrap ::
  "('a node_scheme) node_class \<Rightarrow> nenv \<Rightarrow> string \<Rightarrow> 'a node_scheme \<Rightarrow> (string + unit) \<times> 'a node_scheme" where
  "node_bootstrap k e run_param n =
     (if cl_enabled (nd_client n)
      then (Inr (), n\<lparr>nd_client := cl_start (client_identity (\<lambda>i. i\<lparr>id_autostart := nd_autostart n,
                        id_params := params_full k e n\<rparr>) (nd_client n))\<rparr>)
      else nk_start k e (str_or run_param ''dev-run'') JNull n)"

definition finish :: "('a node_scheme) node_class \<Rightarrow> nenv \<Rightarrow> 'a node_scheme \<Rightarrow> 'a node_scheme" where
  "finish k e n =
     (case nk_stop k e n of
        (report, n1) \<Rightarrow>
          n1\<lparr>nd_client := client_goodbye (ne_goodbye e) ''shutdown'' (nd_run_id n1) report (nd_client n1)\<rparr>)"

section \<open>The life of a node\<close>

text \<open>What the next hello would say agrees with what the node is doing.\<close>

definition told :: "'a node_scheme \<Rightarrow> bool" where
  "told n \<longleftrightarrow>
     (cl_enabled (nd_client n) \<longrightarrow>
        id_state (cl_identity (nd_client n)) = node_state_text n
        \<and> id_run_id (cl_identity (nd_client n)) = nd_run_id n)"

text \<open>What the socket's thread does to the client.\<close>

inductive socket_step :: "client \<Rightarrow> client \<Rightarrow> bool" where
  ss_open: "\<not> cl_connected c \<Longrightarrow> socket_step c (open_session ok st c)"
| ss_drain: "socket_step c (drain_out ok c)"
| ss_receive: "socket_step c (on_received ok st raw c)"
| ss_lost: "socket_step c (session_lost c)"

text \<open>The steps of a node while its process lives: the two timers, the socket's thread, the callbacks
  of its own work and the recorder's writer.\<close>

inductive node_step ::
  "('a node_scheme) node_class \<Rightarrow> ('a node_scheme \<Rightarrow> 'a node_scheme \<Rightarrow> bool) \<Rightarrow>
   'a node_scheme \<Rightarrow> 'a node_scheme \<Rightarrow> bool" for k work where
  nst_drain: "drain_node k e n = (Inr (), n') \<Longrightarrow> node_step k work n n'"
| nst_status: "node_step k work n (report_status k e False [] n)"
| nst_socket: "socket_step (nd_client n) c \<Longrightarrow> node_step k work n (n\<lparr>nd_client := c\<rparr>)"
| nst_work: "work n n' \<Longrightarrow> node_step k work n n'"
| nst_writer: "node_step k work n (recorder_writes j n)"

inductive node_reachable ::
  "('a node_scheme) node_class \<Rightarrow> ('a node_scheme \<Rightarrow> 'a node_scheme \<Rightarrow> bool) \<Rightarrow>
   'a node_scheme \<Rightarrow> 'a node_scheme \<Rightarrow> bool" for k work n0 where
  nr_start: "node_bootstrap k e rid n0 = (Inr (), n) \<Longrightarrow> node_reachable k work n0 n"
| nr_step: "node_reachable k work n0 n \<Longrightarrow> node_step k work n n' \<Longrightarrow> node_reachable k work n0 n'"

text \<open>A node object as its constructor leaves it.\<close>

definition node_made :: "'a node_scheme \<Rightarrow> bool" where
  "node_made n \<longleftrightarrow>
     nd_run_id n = None \<and> nd_recorder n = None \<and> nd_last_status n = None
     \<and> id_state (cl_identity (nd_client n)) = ''idle'' \<and> id_run_id (cl_identity (nd_client n)) = None"

section \<open>Lemmas\<close>

lemma enqueue_keeps [simp]:
  "cl_identity (snd (enqueue f c)) = cl_identity c" "cl_url (snd (enqueue f c)) = cl_url c"
  "cl_enabled (snd (enqueue f c)) = cl_enabled c"
  by (simp_all add: enqueue_def cl_enabled_def)

lemma client_identity_keeps [simp]:
  "cl_enabled (client_identity g c) = cl_enabled c" "cl_identity (client_identity g c) = g (cl_identity c)"
  by (simp_all add: client_identity_def cl_enabled_def)

lemma drain_frames_keeps:
  "cl_identity (drain_frames ok fs c) = cl_identity c" "cl_url (drain_frames ok fs c) = cl_url c"
  by (induction ok fs c rule: drain_frames.induct) (auto simp: transmit_def Let_def)

lemma socket_step_keeps:
  "socket_step c c' \<Longrightarrow> cl_identity c' = cl_identity c \<and> cl_enabled c' = cl_enabled c"
  by (induction rule: socket_step.induct)
     (auto simp: open_session_def transmit_def drain_out_def drain_frames_keeps on_received_def
       put_inbound_def session_lost_def cl_enabled_def split: sum.splits json.splits)

lemma report_status_keeps:
  "nd_recorder (report_status k e force rep n) = nd_recorder n"
  "nd_run_id (report_status k e force rep n) = nd_run_id n"
  "nd_autostart (report_status k e force rep n) = nd_autostart n"
  "cl_enabled (nd_client (report_status k e force rep n)) = cl_enabled (nd_client n)"
  by (simp_all add: report_status_def publish_status_def Let_def)

lemma report_status_extends:
  "\<exists>ls c. report_status k e force rep n = n\<lparr>nd_last_status := ls, nd_client := c\<rparr>"
proof -
  have "n = n\<lparr>nd_last_status := nd_last_status n, nd_client := nd_client n\<rparr>"
    by simp
  then show ?thesis
    unfolding report_status_def Let_def by metis
qed

lemma told_forced [simp]: "told (report_status k e True rep n)"
  by (auto simp: told_def report_status_def publish_status_def node_state_text_def node_running_def Let_def)

lemma told_report: "told n \<Longrightarrow> told (report_status k e force rep n)"
  by (auto simp: told_def report_status_def publish_status_def node_state_text_def node_running_def Let_def)

lemma told_client:
  "told n \<Longrightarrow> cl_identity c = cl_identity (nd_client n) \<Longrightarrow> cl_enabled c = cl_enabled (nd_client n) \<Longrightarrow>
     told (n\<lparr>nd_client := c\<rparr>)"
  by (simp add: told_def node_state_text_def node_running_def)

lemma apply_node_command_told:
  "apply_node_command k e f p n = (Inr u, n') \<Longrightarrow> told n'"
  by (auto simp: apply_node_command_def Let_def split: prod.splits option.splits)

lemma node_welcome_told: "node_welcome k e p n = (Inr u, n') \<Longrightarrow> told n'"
  by (auto simp: node_welcome_def split: if_splits json.splits prod.splits sum.splits)

lemma node_frame_told: "node_frame k e f n = (Inr u, n') \<Longrightarrow> told n \<Longrightarrow> told n'"
  by (auto simp: node_frame_def Let_def dest: apply_node_command_told node_welcome_told split: if_splits)

lemma node_frames_told: "node_frames k e fs n = (Inr u, n') \<Longrightarrow> told n \<Longrightarrow> told n'"
  by (induction k e fs n rule: node_frames.induct)
     (auto dest: node_frame_told split: prod.splits sum.splits)

lemma drain_node_told: "drain_node k e n = (Inr u, n') \<Longrightarrow> told n \<Longrightarrow> told n'"
  by (auto simp: drain_node_def cl_poll_all cl_enabled_def intro: told_client dest!: node_frames_told)

section \<open>The contract of a run's start and stop\<close>

locale run_lifecycle =
  fixes k :: "('a node_scheme) node_class"
    and work :: "'a node_scheme \<Rightarrow> 'a node_scheme \<Rightarrow> bool"
    and inv :: "'a node_scheme \<Rightarrow> bool"
  assumes start_records: "inv n \<Longrightarrow> nk_start k e rid args n = (Inr u, n') \<Longrightarrow>
        \<exists>r. nd_recorder n' = Some r \<and> tr_run r = rid \<and> nd_run_id n' = Some rid"
    and start_inv: "inv n \<Longrightarrow> nk_start k e rid args n = (res, n') \<Longrightarrow> inv n'"
    and start_keeps: "nk_start k e rid args n = (res, n') \<Longrightarrow> nd_client n' = nd_client n"
    and stop_idle: "nd_recorder (snd (nk_stop k e n)) = None"
    and stop_inv: "inv n \<Longrightarrow> inv (snd (nk_stop k e n))"
    and stop_keeps: "nd_client (snd (nk_stop k e n)) = nd_client n"
    and inv_base: "inv (n\<lparr>nd_last_status := ls, nd_client := c\<rparr>) = inv n"
    and writer_inv: "inv n \<Longrightarrow> inv (recorder_writes j n)"
    and work_inv: "inv n \<Longrightarrow> work n n' \<Longrightarrow> inv n'"
    and work_keeps: "work n n' \<Longrightarrow> nd_client n' = nd_client n \<and> nd_run_id n' = nd_run_id n
        \<and> (nd_recorder n' = None \<longleftrightarrow> nd_recorder n = None)"
begin

lemma inv_client: "inv (n\<lparr>nd_client := c\<rparr>) = inv n"
  using inv_base [where n = n and ls = "nd_last_status n" and c = c] by simp

lemma report_inv: "inv (report_status k e force rep n) = inv n"
  using report_status_extends [of k e force rep n] inv_base by metis

text \<open>A start the node acknowledges is a run it records.\<close>

lemma command_start:
  assumes "inv n" and "run_node_command k e p n = (Inr rep, n')"
    and "pget p ''command'' = JStr ''run.start''"
  shows "\<exists>rid r. pget p ''run_id'' = JStr rid \<and> nd_recorder n' = Some r \<and> tr_run r = rid \<and> nd_run_id n' = Some rid"
  using assms
  by (auto simp: run_node_command_def run_start_command_def Let_def dest: start_records
      split: prod.splits sum.splits json.splits if_splits)

lemma command_stop:
  assumes "run_node_command k e p n = (res, n')" and "pget p ''command'' = JStr ''run.stop''"
  shows "nd_recorder n' = None"
  using assms stop_idle [of e n] by (auto simp: run_node_command_def Let_def split: prod.splits)

lemma run_node_command_inv: "inv n \<Longrightarrow> run_node_command k e p n = (res, n') \<Longrightarrow> inv n'"
  using stop_inv [of n e]
  by (auto simp: run_node_command_def run_start_command_def Let_def dest: start_inv
      split: prod.splits sum.splits json.splits if_splits)

lemma apply_node_command_inv: "inv n \<Longrightarrow> apply_node_command k e f p n = (res, n') \<Longrightarrow> inv n'"
  by (auto simp: apply_node_command_def Let_def report_inv inv_client dest: run_node_command_inv
      split: prod.splits option.splits)

lemma node_welcome_inv: "inv n \<Longrightarrow> node_welcome k e p n = (res, n') \<Longrightarrow> inv n'"
  by (auto simp: node_welcome_def report_inv dest: start_inv
      split: if_splits json.splits prod.splits sum.splits)

lemma node_frame_inv: "inv n \<Longrightarrow> node_frame k e f n = (res, n') \<Longrightarrow> inv n'"
  by (auto simp: node_frame_def Let_def dest: apply_node_command_inv node_welcome_inv split: if_splits)

lemma node_frames_inv: "node_frames k e fs n = (res, n') \<Longrightarrow> inv n \<Longrightarrow> inv n'"
proof (induction fs arbitrary: n)
  case (Cons f fs)
  then show ?case
    by (auto dest: node_frame_inv split: prod.splits sum.splits)
qed simp

lemma drain_node_inv: "inv n \<Longrightarrow> drain_node k e n = (res, n') \<Longrightarrow> inv n'"
  by (auto simp: drain_node_def cl_poll_all inv_client dest!: node_frames_inv)

lemma step_holds:
  "node_step k work n n' \<Longrightarrow> inv n \<and> told n \<Longrightarrow> inv n' \<and> told n'"
proof (induction rule: node_step.induct)
  case (nst_drain e n n')
  then show ?case
    by (auto intro: drain_node_inv dest: drain_node_told)
next
  case (nst_status n e)
  then show ?case
    by (simp add: report_inv told_report)
next
  case (nst_socket n c)
  then show ?case
    using socket_step_keeps [OF nst_socket.hyps] by (simp add: inv_client told_client)
next
  case (nst_work n n')
  then show ?case
    using work_keeps [OF nst_work.hyps] by (auto intro: work_inv simp: told_def node_state_text_def node_running_def)
next
  case (nst_writer n j)
  then show ?case
    using writer_inv [of n j] by (simp add: told_def node_state_text_def node_running_def) (simp add: recorder_writes_def)
qed

lemma bootstrap_holds:
  assumes "node_made n" and "inv n" and "node_bootstrap k e rid n = (Inr u, n')"
  shows "inv n' \<and> told n'"
proof (cases "cl_enabled (nd_client n)")
  case True
  then show ?thesis
    using assms
    by (auto simp: node_bootstrap_def node_made_def told_def node_state_text_def node_running_def inv_client
        cl_start_def)
next
  case False
  then show ?thesis
    using assms start_keeps [of e "str_or rid ''dev-run''" JNull n]
    by (auto simp: node_bootstrap_def told_def dest: start_inv)
qed

text \<open>In every state the node can be in, its invariant holds and its hello would tell the truth.\<close>

theorem reachable_holds:
  assumes "node_reachable k work n0 n" and "node_made n0" and "inv n0"
  shows "inv n \<and> told n"
  using assms
  by (induction rule: node_reachable.induct) (auto dest: bootstrap_holds step_holds)

end

end
