(* ===== verification/Edge_Node.thy ===== *)
theory Edge_Node
  imports Node_Base
begin

text \<open>
  The edge node (ros2/src/mec_cast_edge/mec_cast_edge/edge_node.py): its state, the start and the stop
  of a run, and the path of one cloud: stamp, decode, voxelise, record, send the result down.

  A point is a triple of exact rationals; the voxel size is a power of two, so the division and the
  voxel centres of the source are exact too. The ROS middleware is the subscription and the publisher
  the node holds, each the topic it is on, and \<open>ed_results\<close>, what was published. The decoding of a
  cloud and the coding of a result belong to the codec library: the message carries the decoded
  points, or nothing where the decoder raises \<open>CodecError\<close>, and the coder's answer is an argument.
\<close>

section \<open>State\<close>

type_synonym point = "rat \<times> rat \<times> rat"
type_synonym voxel = "int \<times> int \<times> int"

record cloud_msg =
  cm_capture :: int
  cm_send :: int
  cm_seq :: int
  cm_trace :: "nat list"
  cm_bytes :: nat
  cm_points :: "point list option"

datatype cloud_content = Plain_Points "point list" | Coded_Voxels "voxel list" rat

record result_msg =
  rm_capture :: int
  rm_send :: int
  rm_recv :: int
  rm_done :: int
  rm_seq :: int
  rm_trace :: "nat list"
  rm_content :: cloud_content

record edge = node +
  ed_reliability :: string
  ed_qos_depth :: int
  ed_publish_result :: bool
  ed_result_reliability :: string
  ed_result_depth :: int
  ed_default_codec :: string
  ed_codec :: string
  ed_topic :: string
  ed_sub :: "string option"
  ed_result_pub :: "string option"
  ed_encoder :: bool
  ed_decoder :: bool
  ed_result_errors :: nat
  ed_decode_errors :: nat
  ed_frames :: nat
  ed_results_published :: nat
  ed_seq_gaps :: nat
  ed_last_seq :: "int option"
  ed_results :: "result_msg list"

definition voxel_size :: rat where
  "voxel_size = 1 / 2"

definition cloud_topic :: string where
  "cloud_topic = ''mec_cast/cloud''"

definition cloud_gpcc_topic :: string where
  "cloud_gpcc_topic = ''mec_cast/cloud_gpcc''"

definition result_topic :: "edge \<Rightarrow> string" where
  "result_topic n = (if ed_codec n = ''gpcc'' then ''mec_cast/result_gpcc'' else ''mec_cast/result'')"

text \<open>\<open>check_codec\<close> and the check of \<open>cloud_qos\<close>: left is the exception.\<close>

definition edge_check_codec :: "string \<Rightarrow> string + string" where
  "edge_check_codec codec =
     (if codec \<notin> set codecs then Inl (''codec must be one of none, gpcc, got '' @ repr_str codec) else Inr codec)"

definition cloud_qos :: "string \<Rightarrow> string + unit" where
  "cloud_qos reliability =
     (if reliability \<notin> {''reliable'', ''best_effort''} then Inl ''reliability'' else Inr ())"

section \<open>A run\<close>

definition edge_stop :: "nenv \<Rightarrow> edge \<Rightarrow> pdict \<times> edge" where
  "edge_stop e n =
     (if \<not> node_running n then ([], n)
      else close_telemetry e (n\<lparr>ed_sub := None, ed_result_pub := None, ed_encoder := False,
                               ed_decoder := False\<rparr>))"

text \<open>\<open>(args or {}).get("codec") or self.default_codec\<close>, as text.\<close>

definition run_codec :: "string \<Rightarrow> json \<Rightarrow> string + string" where
  "run_codec dflt args =
     (if \<not> truthy args then Inr dflt
      else (case args of
              JObj d \<Rightarrow> Inr (py_str (py_or (pget d ''codec'') (JStr dflt)))
            | _ \<Rightarrow> Inl ''args''))"

text \<open>The end of \<open>start_run\<close>, once the recorder is open: the decoder, the subscription, the result's
  publisher. An exception leaves what was built before it.\<close>

definition edge_wire :: "nenv \<Rightarrow> edge \<Rightarrow> (string + unit) \<times> edge" where
  "edge_wire e n =
     (if ed_codec n = ''gpcc'' \<and> \<not> ne_codec e then (Inl ''codec library'', n)
      else
        (let n1 = (if ed_codec n = ''gpcc'' then n\<lparr>ed_decoder := True\<rparr> else n)
         in case cloud_qos (ed_reliability n1) of
              Inl err \<Rightarrow> (Inl err, n1)
            | Inr _ \<Rightarrow>
                (let n2 = n1\<lparr>ed_sub := Some (ed_topic n1)\<rparr>
                 in if \<not> ed_publish_result n2 then (Inr (), n2)
                    else
                      (let n3 = (if ed_codec n2 = ''gpcc'' then n2\<lparr>ed_encoder := True\<rparr> else n2)
                       in case cloud_qos (ed_result_reliability n3) of
                            Inl err \<Rightarrow> (Inl err, n3)
                          | Inr _ \<Rightarrow> (Inr (), n3\<lparr>ed_result_pub := Some (result_topic n3)\<rparr>)))))"

text \<open>What a start does first: another run is stopped; then, the codec known, the counters restart.\<close>

definition edge_settle :: "nenv \<Rightarrow> edge \<Rightarrow> edge" where
  "edge_settle e n = (if node_running n then snd (edge_stop e n) else n)"

definition edge_reset :: "string \<Rightarrow> edge \<Rightarrow> edge" where
  "edge_reset codec n =
     n\<lparr>ed_codec := codec, ed_topic := (if codec = ''gpcc'' then cloud_gpcc_topic else cloud_topic),
       ed_frames := 0, ed_results_published := 0, ed_result_errors := 0, ed_decode_errors := 0,
       ed_seq_gaps := 0, ed_last_seq := None\<rparr>"

definition edge_start :: "nenv \<Rightarrow> string \<Rightarrow> json \<Rightarrow> edge \<Rightarrow> (string + unit) \<times> edge" where
  "edge_start e rid args n =
     (if node_running n \<and> nd_run_id n = Some rid then (Inr (), n)
      else
        (let n0 = edge_settle e n
         in case sum_bind (run_codec (ed_default_codec n0) args) edge_check_codec of
              Inl err \<Rightarrow> (Inl err, n0)
            | Inr codec \<Rightarrow>
                (case make_recorder ''edge'' e rid (edge_reset codec n0) of
                   (Inl err, n2) \<Rightarrow> (Inl err, n2)
                 | (Inr _, n2) \<Rightarrow> edge_wire e n2)))"

definition edge_class :: "edge node_class" where
  "edge_class =
     \<lparr>nk_type = ''edge'', nk_leaf = ''edge'', nk_topic = (\<lambda>n. Some (ed_topic n)),
      nk_params = (\<lambda>n.
        [(''reliability'', JStr (ed_reliability n)), (''qos_depth'', JInt (ed_qos_depth n)),
         (''publish_result'', JBool (ed_publish_result n)),
         (''result_reliability'', JStr (ed_result_reliability n)),
         (''result_qos_depth'', JInt (ed_result_depth n)), (''codec'', JStr (ed_codec n))]),
      nk_counters = (\<lambda>e n.
        [(''frames'', int (ed_frames n)), (''seq_gaps'', int (ed_seq_gaps n)),
         (''results_published'', int (ed_results_published n)),
         (''result_errors'', int (ed_result_errors n)), (''decode_errors'', int (ed_decode_errors n))]),
      nk_streaming = (\<lambda>n. False), nk_subscribed = (\<lambda>n. ed_sub n \<noteq> None),
      nk_start = edge_start, nk_stop = edge_stop\<rparr>"

section \<open>A cloud\<close>

text \<open>\<open>np.unique(np.floor(points / VOXEL_SIZE))\<close> and the centres of voxels.\<close>

definition voxel_of :: "point \<Rightarrow> voxel" where
  "voxel_of p = (case p of (x, y, z) \<Rightarrow>
     (\<lfloor>x / voxel_size\<rfloor>, \<lfloor>y / voxel_size\<rfloor>, \<lfloor>z / voxel_size\<rfloor>))"

definition voxels_of :: "point list \<Rightarrow> voxel list" where
  "voxels_of pts = remdups (sort (map voxel_of pts))"

definition voxel_centre :: "voxel \<Rightarrow> point" where
  "voxel_centre v = (case v of (i, j, l) \<Rightarrow>
     ((of_int i + 1 / 2) * voxel_size, (of_int j + 1 / 2) * voxel_size, (of_int l + 1 / 2) * voxel_size))"

definition note_seq :: "int \<Rightarrow> edge \<Rightarrow> edge" where
  "note_seq seq n =
     n\<lparr>ed_seq_gaps := (case ed_last_seq n of
                         None \<Rightarrow> ed_seq_gaps n
                       | Some l \<Rightarrow> if seq \<noteq> l + 1 then ed_seq_gaps n + 1 else ed_seq_gaps n),
       ed_last_seq := Some seq\<rparr>"

text \<open>\<open>coded\<close>: the encoder took the voxels. \<open>send_ns\<close> is the stamp of the result.\<close>

definition publish_result_cloud :: "bool \<Rightarrow> int \<Rightarrow> cloud_msg \<Rightarrow> voxel list \<Rightarrow> edge \<Rightarrow> edge" where
  "publish_result_cloud coded send_ns m voxels n =
     (if ed_result_pub n = None then n
      else if ed_encoder n \<and> \<not> coded then n\<lparr>ed_result_errors := ed_result_errors n + 1\<rparr>
      else
        n\<lparr>ed_results := ed_results n @
            [\<lparr>rm_capture = cm_capture m, rm_send = send_ns, rm_recv = 0, rm_done = 0, rm_seq = cm_seq m,
              rm_trace = cm_trace m,
              rm_content = (if ed_encoder n then Coded_Voxels voxels voxel_size
                            else Plain_Points (map voxel_centre voxels))\<rparr>],
          ed_results_published := ed_results_published n + 1\<rparr>)"

definition on_edge_cloud :: "int \<Rightarrow> int \<Rightarrow> int \<Rightarrow> bool \<Rightarrow> cloud_msg \<Rightarrow> edge \<Rightarrow> edge" where
  "on_edge_cloud recv_ns done_ns send_ns coded m n =
     (let n1 = note_seq (cm_seq m) n;
          n2 = (if cm_points m = None then n1\<lparr>ed_decode_errors := ed_decode_errors n1 + 1\<rparr> else n1);
          n3 = record_sample
                 \<lparr>ts_seq = cm_seq m, ts_capture = cm_capture m, ts_send = cm_send m, ts_recv = recv_ns,
                  ts_done = (if cm_points m = None then 0 else done_ns), ts_bytes = cm_bytes m,
                  ts_trace = cm_trace m\<rparr> n2;
          n4 = n3\<lparr>ed_frames := ed_frames n3 + 1\<rparr>
      in case cm_points m of
           None \<Rightarrow> n4
         | Some pts \<Rightarrow> publish_result_cloud coded send_ns m (voxels_of pts) n4)"

text \<open>The two callbacks. \<open>on_cloud_gpcc\<close>: the decoder gives points or raises \<open>CodecError\<close>. \<open>on_cloud\<close>:
  the bytes are read as \<open>count\<close> rows of three 32-bit floats, \<open>row\<close> being the reading of one; where they
  are not as many, \<open>frombuffer\<close> or \<open>reshape\<close> raises \<open>ValueError\<close>, which \<open>_process\<close> does not catch: it
  leaves the callback before the sample is recorded.\<close>

definition plain_points :: "nat \<Rightarrow> nat \<Rightarrow> (nat \<Rightarrow> point) \<Rightarrow> string + point list" where
  "plain_points count bytes row =
     (if bytes mod 4 \<noteq> 0 then Inl ''buffer size must be a multiple of element size''
      else if bytes div 4 \<noteq> count * 3 then Inl ''cannot reshape array''
      else Inr (map row [0..<count]))"

definition on_cloud ::
  "int \<Rightarrow> int \<Rightarrow> int \<Rightarrow> bool \<Rightarrow> nat \<Rightarrow> (nat \<Rightarrow> point) \<Rightarrow> cloud_msg \<Rightarrow> edge \<Rightarrow> (string + unit) \<times> edge" where
  "on_cloud recv_ns done_ns send_ns coded count row m n =
     (case plain_points count (cm_bytes m) row of
        Inl err \<Rightarrow> (Inl err, note_seq (cm_seq m) n)
      | Inr pts \<Rightarrow> (Inr (), on_edge_cloud recv_ns done_ns send_ns coded (m\<lparr>cm_points := Some pts\<rparr>) n))"

definition on_cloud_gpcc :: "int \<Rightarrow> int \<Rightarrow> int \<Rightarrow> bool \<Rightarrow> point list option \<Rightarrow> cloud_msg \<Rightarrow> edge \<Rightarrow> edge" where
  "on_cloud_gpcc recv_ns done_ns send_ns coded decoded m n =
     on_edge_cloud recv_ns done_ns send_ns coded (m\<lparr>cm_points := decoded\<rparr>) n"

text \<open>A callback fires only on a subscription; what it leaves, the process living on.\<close>

inductive edge_work :: "edge \<Rightarrow> edge \<Rightarrow> bool" where
  ew_cloud: "ed_sub n \<noteq> None \<Longrightarrow> on_cloud recv done send coded count row m n = (Inr (), n') \<Longrightarrow> edge_work n n'"
| ew_coded: "ed_sub n \<noteq> None \<Longrightarrow> edge_work n (on_cloud_gpcc recv done send coded decoded m n)"

section \<open>The edge is a node\<close>

definition edge_inv :: "edge \<Rightarrow> bool" where
  "edge_inv n \<longleftrightarrow>
     (\<forall>r. nd_recorder n = Some r \<longrightarrow> nd_run_id n = Some (tr_run r))
     \<and> (nd_recorder n = None \<longrightarrow>
          ed_sub n = None \<and> ed_result_pub n = None \<and> \<not> ed_encoder n \<and> \<not> ed_decoder n)
     \<and> (ed_sub n \<noteq> None \<longrightarrow> ed_sub n = Some (ed_topic n))
     \<and> (\<forall>r. nd_recorder n = Some r \<longrightarrow> length (tr_samples r) = ed_frames n \<and> recorder_wf r)"

lemma edge_class_simps [simp]:
  "nk_start edge_class = edge_start" "nk_stop edge_class = edge_stop"
  "nk_leaf edge_class = ''edge''" "nk_type edge_class = ''edge''"
  by (simp_all add: edge_class_def)

lemma edge_stop_idle [simp]: "nd_recorder (snd (edge_stop e n)) = None"
  by (auto simp: edge_stop_def close_telemetry_def node_running_def split: option.splits)

lemma edge_stop_keeps:
  "nd_client (snd (edge_stop e n)) = nd_client n" "nd_run_id (snd (edge_stop e n)) = nd_run_id n"
  "ed_default_codec (snd (edge_stop e n)) = ed_default_codec n"
  by (auto simp: edge_stop_def close_telemetry_def split: option.splits)

lemma edge_stop_inv: "edge_inv n \<Longrightarrow> edge_inv (snd (edge_stop e n))"
  by (auto simp: edge_inv_def edge_stop_def close_telemetry_def node_running_def split: option.splits)

lemma edge_wire_keeps:
  "edge_wire e n = (res, n') \<Longrightarrow>
     nd_client n' = nd_client n \<and> nd_recorder n' = nd_recorder n \<and> nd_run_id n' = nd_run_id n
     \<and> ed_topic n' = ed_topic n \<and> ed_frames n' = ed_frames n \<and> ed_codec n' = ed_codec n
     \<and> (ed_sub n' = ed_sub n \<or> ed_sub n' = Some (ed_topic n))"
  by (auto simp: edge_wire_def Let_def split: if_splits sum.splits)

lemma make_recorder_cases:
  assumes "make_recorder leaf e rid n = (res, n')"
  shows "nd_client n' = nd_client n" and "nd_run_id n' = Some rid"
    and "(\<exists>err. res = Inl err \<and> n' = n\<lparr>nd_run_id := Some rid\<rparr>)
         \<or> (\<exists>dir. res = Inr dir \<and> n' = n\<lparr>nd_run_id := Some rid,
               nd_recorder := Some (opened_recorder rid dir)\<rparr>)"
  using assms by (auto simp: make_recorder_def Let_def split: if_splits)

lemma edge_settle_idle [simp]: "nd_recorder (edge_settle e n) = None"
  by (simp add: edge_settle_def node_running_def)

lemma edge_settle_keeps:
  "nd_client (edge_settle e n) = nd_client n" "ed_default_codec (edge_settle e n) = ed_default_codec n"
  by (simp_all add: edge_settle_def edge_stop_keeps)

lemma edge_settle_inv: "edge_inv n \<Longrightarrow> edge_inv (edge_settle e n)"
  by (simp add: edge_settle_def edge_stop_inv)

lemma edge_reset_keeps [simp]:
  "nd_recorder (edge_reset codec n) = nd_recorder n" "nd_client (edge_reset codec n) = nd_client n"
  "ed_sub (edge_reset codec n) = ed_sub n" "ed_result_pub (edge_reset codec n) = ed_result_pub n"
  "ed_encoder (edge_reset codec n) = ed_encoder n" "ed_decoder (edge_reset codec n) = ed_decoder n"
  "ed_frames (edge_reset codec n) = 0" "ed_codec (edge_reset codec n) = codec"
  by (simp_all add: edge_reset_def)

text \<open>Every way a start can end.\<close>

lemma edge_start_cases:
  assumes "edge_start e rid args n = (res, n')"
  obtains (same) "node_running n" "nd_run_id n = Some rid" "res = Inr ()" "n' = n"
  | (refused) err where "res = Inl err" "n' = edge_settle e n"
  | (no_recorder) err codec where "res = Inl err"
      "n' = (edge_reset codec (edge_settle e n))\<lparr>nd_run_id := Some rid\<rparr>"
  | (recording) codec dir where
      "sum_bind (run_codec (ed_default_codec n) args) edge_check_codec = Inr codec"
      "edge_wire e ((edge_reset codec (edge_settle e n))\<lparr>nd_run_id := Some rid,
         nd_recorder := Some (opened_recorder rid dir)\<rparr>) = (res, n')"
  using assms
  by (auto simp: edge_start_def Let_def edge_settle_keeps split: if_splits sum.splits prod.splits
      dest: make_recorder_cases(3))

text \<open>A recorder with nothing wired yet.\<close>

definition edge_fresh :: "string \<Rightarrow> edge \<Rightarrow> bool" where
  "edge_fresh rid n \<longleftrightarrow>
     (\<exists>r. nd_recorder n = Some r \<and> tr_run r = rid \<and> tr_samples r = [] \<and> recorder_wf r)
     \<and> nd_run_id n = Some rid \<and> ed_sub n = None \<and> ed_frames n = 0"

lemma edge_wire_fresh:
  assumes "edge_wire e n = (res, n')" and "edge_fresh rid n"
  shows "edge_inv n'" and "\<exists>r. nd_recorder n' = Some r \<and> tr_run r = rid \<and> nd_run_id n' = Some rid"
    and "nd_client n' = nd_client n"
  using edge_wire_keeps [OF assms(1)] assms(2) by (auto simp: edge_inv_def edge_fresh_def)

lemma edge_start_fresh:
  assumes "edge_inv n"
  shows "edge_fresh rid ((edge_reset codec (edge_settle e n))\<lparr>nd_run_id := Some rid,
           nd_recorder := Some (opened_recorder rid dir)\<rparr>)"
  using edge_settle_inv [OF assms, of e] by (simp add: edge_fresh_def edge_inv_def)

lemma edge_start_records:
  assumes "edge_inv n" and "edge_start e rid args n = (Inr u, n')"
  shows "\<exists>r. nd_recorder n' = Some r \<and> tr_run r = rid \<and> nd_run_id n' = Some rid"
  using assms(2)
proof (cases rule: edge_start_cases)
  case same
  then show ?thesis
    using assms(1) by (auto simp: node_running_def edge_inv_def)
next
  case (recording codec dir)
  show ?thesis
    using edge_wire_fresh(2) [OF recording(2) edge_start_fresh [OF assms(1)]] .
qed simp_all

lemma edge_start_inv:
  assumes "edge_inv n" and "edge_start e rid args n = (res, n')"
  shows "edge_inv n'"
  using assms(2)
proof (cases rule: edge_start_cases)
  case same
  then show ?thesis using assms(1) by simp
next
  case (refused err)
  then show ?thesis using edge_settle_inv [OF assms(1)] by simp
next
  case (no_recorder err codec)
  then show ?thesis
    using edge_settle_inv [OF assms(1), of e] by (simp add: edge_inv_def)
next
  case (recording codec dir)
  show ?thesis
    using edge_wire_fresh(1) [OF recording(2) edge_start_fresh [OF assms(1)]] .
qed

lemma edge_start_keeps: "edge_start e rid args n = (res, n') \<Longrightarrow> nd_client n' = nd_client n"
  by (erule edge_start_cases) (auto simp: edge_settle_keeps dest!: edge_wire_keeps)

lemma publish_result_keeps [simp]:
  "nd_recorder (publish_result_cloud b t m v n) = nd_recorder n"
  "nd_client (publish_result_cloud b t m v n) = nd_client n"
  "nd_run_id (publish_result_cloud b t m v n) = nd_run_id n"
  "ed_sub (publish_result_cloud b t m v n) = ed_sub n"
  "ed_topic (publish_result_cloud b t m v n) = ed_topic n"
  "ed_result_pub (publish_result_cloud b t m v n) = ed_result_pub n"
  "ed_encoder (publish_result_cloud b t m v n) = ed_encoder n"
  "ed_decoder (publish_result_cloud b t m v n) = ed_decoder n"
  "ed_frames (publish_result_cloud b t m v n) = ed_frames n"
  "ed_seq_gaps (publish_result_cloud b t m v n) = ed_seq_gaps n"
  "ed_last_seq (publish_result_cloud b t m v n) = ed_last_seq n"
  "ed_decode_errors (publish_result_cloud b t m v n) = ed_decode_errors n"
  by (simp_all add: publish_result_cloud_def)

lemma on_edge_cloud_keeps:
  "nd_client (on_edge_cloud recv d t b m n) = nd_client n"
  "nd_run_id (on_edge_cloud recv d t b m n) = nd_run_id n"
  "nd_recorder (on_edge_cloud recv d t b m n) = None \<longleftrightarrow> nd_recorder n = None"
  by (simp_all add: on_edge_cloud_def note_seq_def record_sample_def Let_def split: option.splits)

lemma on_edge_cloud_inv: "edge_inv n \<Longrightarrow> ed_sub n \<noteq> None \<Longrightarrow> edge_inv (on_edge_cloud recv d t b m n)"
  by (auto simp: edge_inv_def on_edge_cloud_def note_seq_def record_sample_def Let_def split: option.splits)

lemma edge_work_cloud:
  assumes "edge_work n n'"
  obtains rx fin tx coded m where "ed_sub n \<noteq> None" and "n' = on_edge_cloud rx fin tx coded m n"
  using assms by cases (auto simp: on_cloud_def on_cloud_gpcc_def split: sum.splits)

interpretation edge_run: run_lifecycle edge_class edge_work edge_inv
proof unfold_locales
  show "edge_inv n \<Longrightarrow> nk_start edge_class e rid args n = (Inr u, n') \<Longrightarrow>
      \<exists>r. nd_recorder n' = Some r \<and> tr_run r = rid \<and> nd_run_id n' = Some rid" for n e rid args u n'
    by (simp add: edge_start_records)
  show "edge_inv n \<Longrightarrow> nk_start edge_class e rid args n = (res, n') \<Longrightarrow> edge_inv n'" for n e rid args res n'
    by (simp add: edge_start_inv)
  show "nk_start edge_class e rid args n = (res, n') \<Longrightarrow> nd_client n' = nd_client n" for n e rid args res n'
    by (simp add: edge_start_keeps)
  show "edge_inv (n\<lparr>nd_last_status := ls, nd_client := c\<rparr>) = edge_inv n" for n ls c
    by (simp add: edge_inv_def)
  show "edge_inv n \<Longrightarrow> edge_work n n' \<Longrightarrow> edge_inv n'" for n n'
    by (auto elim!: edge_work_cloud simp: on_edge_cloud_inv)
  show "edge_work n n' \<Longrightarrow> nd_client n' = nd_client n \<and> nd_run_id n' = nd_run_id n
      \<and> (nd_recorder n' = None \<longleftrightarrow> nd_recorder n = None)" for n n'
    by (auto elim!: edge_work_cloud simp: on_edge_cloud_keeps)
  show "edge_inv n \<Longrightarrow> edge_inv (recorder_writes j n)" for n j
    by (auto simp: edge_inv_def recorder_writes_def)
qed (simp_all add: edge_stop_inv edge_stop_keeps)

end
