(* ===== verification/Render_Node.thy ===== *)
theory Render_Node
  imports Edge_Node
begin

text \<open>
  The renderer at the UE (ros2/src/mec_cast_render/mec_cast_render/render_node.py): a run builds a
  recorder and a viewer sink, then subscribes to the edge's result; every result is recorded, drawn or
  not. Its \<open>cloud_qos\<close> and its codec check are the edge's, duplicated in the source. The viewer is
  third-party: that it starts and with which address is \<open>ne_sink\<close>, that it draws is an argument.
\<close>

record render = node +
  rd_sink_kind :: string
  rd_reliability :: string
  rd_qos_depth :: int
  rd_default_codec :: string
  rd_codec :: string
  rd_topic :: string
  rd_sub :: "string option"
  rd_sink :: "string option option"
  rd_decoder :: bool
  rd_frames :: nat
  rd_drawn :: nat
  rd_decode_errors :: nat
  rd_seq_gaps :: nat
  rd_last_seq :: "int option"
  rd_progress_mark :: nat

definition render_params :: "render \<Rightarrow> pdict" where
  "render_params n =
     [(''sink'', JStr (rd_sink_kind n)), (''reliability'', JStr (rd_reliability n)),
      (''qos_depth'', JInt (rd_qos_depth n)), (''codec'', JStr (rd_codec n))]
     @ (case rd_sink n of
          Some (Some url) \<Rightarrow> if url = [] then [] else [(''viewer_url'', JStr url)]
        | _ \<Rightarrow> [])"

definition render_counters :: "render \<Rightarrow> (string \<times> int) list" where
  "render_counters n =
     [(''frames'', int (rd_frames n)), (''drawn'', int (rd_drawn n)),
      (''seq_gaps'', int (rd_seq_gaps n)), (''decode_errors'', int (rd_decode_errors n))]"

section \<open>A run\<close>

definition render_stop :: "nenv \<Rightarrow> render \<Rightarrow> pdict \<times> render" where
  "render_stop e n =
     (if \<not> node_running n then ([], n)
      else close_telemetry e (n\<lparr>rd_sub := None, rd_sink := None, rd_decoder := False\<rparr>))"

definition render_settle :: "nenv \<Rightarrow> render \<Rightarrow> render" where
  "render_settle e n = (if node_running n then snd (render_stop e n) else n)"

definition render_reset :: "string \<Rightarrow> render \<Rightarrow> render" where
  "render_reset codec n =
     n\<lparr>rd_codec := codec,
       rd_topic := (if codec = ''gpcc'' then ''mec_cast/result_gpcc'' else ''mec_cast/result''),
       rd_frames := 0, rd_drawn := 0, rd_decode_errors := 0\<rparr>"

text \<open>The decoder is made before the recorder, the sink and the subscription after it.\<close>

definition render_wire :: "nenv \<Rightarrow> render \<Rightarrow> (string + unit) \<times> render" where
  "render_wire e n =
     (case ne_sink e of
        Inl err \<Rightarrow> (Inl err, n)
      | Inr url \<Rightarrow>
          (let n1 = n\<lparr>rd_sink := Some url\<rparr>
           in case cloud_qos (rd_reliability n1) of
                Inl err \<Rightarrow> (Inl err, n1)
              | Inr _ \<Rightarrow> (Inr (), n1\<lparr>rd_sub := Some (rd_topic n1)\<rparr>)))"

definition render_start :: "nenv \<Rightarrow> string \<Rightarrow> json \<Rightarrow> render \<Rightarrow> (string + unit) \<times> render" where
  "render_start e rid args n =
     (if node_running n \<and> nd_run_id n = Some rid then (Inr (), n)
      else
        (let n0 = render_settle e n
         in case sum_bind (run_codec (rd_default_codec n0) args) edge_check_codec of
              Inl err \<Rightarrow> (Inl err, n0)
            | Inr codec \<Rightarrow>
                (let n1 = render_reset codec n0
                 in if codec = ''gpcc'' \<and> \<not> ne_codec e then (Inl ''codec library'', n1)
                    else
                      (case make_recorder ''render'' e rid
                              (n1\<lparr>rd_decoder := codec = ''gpcc'', rd_seq_gaps := 0, rd_last_seq := None,
                                  rd_progress_mark := 0\<rparr>) of
                         (Inl err, n2) \<Rightarrow> (Inl err, n2)
                       | (Inr _, n2) \<Rightarrow> render_wire e n2))))"

definition render_class :: "render node_class" where
  "render_class =
     \<lparr>nk_type = ''render'', nk_leaf = ''render'', nk_topic = (\<lambda>n. Some (rd_topic n)),
      nk_params = render_params, nk_counters = (\<lambda>e. render_counters),
      nk_streaming = (\<lambda>n. False), nk_subscribed = (\<lambda>n. rd_sub n \<noteq> None),
      nk_start = render_start, nk_stop = render_stop\<rparr>"

section \<open>A result\<close>

text \<open>\<open>points\<close> is what decoding gave, nothing where it raised; \<open>draws\<close> says whether the viewer
  took the frame.\<close>

definition on_result :: "int \<Rightarrow> int \<Rightarrow> bool \<Rightarrow> bool \<Rightarrow> cloud_msg \<Rightarrow> render \<Rightarrow> render" where
  "on_result recv_ns done_ns codec_error draws m n =
     (let n1 = n\<lparr>rd_seq_gaps := (case rd_last_seq n of
                                  None \<Rightarrow> rd_seq_gaps n
                                | Some l \<Rightarrow> if cm_seq m \<noteq> l + 1 then rd_seq_gaps n + 1 else rd_seq_gaps n),
                 rd_last_seq := Some (cm_seq m), rd_frames := rd_frames n + 1\<rparr>;
          drawn = (cm_points m \<noteq> None \<and> draws);
          n2 = (if cm_points m = None \<and> codec_error then n1\<lparr>rd_decode_errors := rd_decode_errors n1 + 1\<rparr> else n1);
          n3 = (if drawn then n2\<lparr>rd_drawn := rd_drawn n2 + 1\<rparr> else n2)
      in record_sample
           \<lparr>ts_seq = cm_seq m, ts_capture = cm_capture m, ts_send = cm_send m, ts_recv = recv_ns,
            ts_done = (if drawn then done_ns else 0), ts_bytes = cm_bytes m, ts_trace = cm_trace m\<rparr> n3)"

definition log_progress :: "render \<Rightarrow> nat option \<times> render" where
  "log_progress n =
     (if \<not> node_running n then (None, n)
      else (Some (rd_frames n - rd_progress_mark n), n\<lparr>rd_progress_mark := rd_frames n\<rparr>))"

inductive render_work :: "render \<Rightarrow> render \<Rightarrow> bool" where
  rw_result: "rd_sub n \<noteq> None \<Longrightarrow> render_work n (on_result recv done ce draws m n)"
| rw_progress: "render_work n (snd (log_progress n))"

section \<open>The renderer is a node\<close>

definition render_inv :: "render \<Rightarrow> bool" where
  "render_inv n \<longleftrightarrow>
     (\<forall>r. nd_recorder n = Some r \<longrightarrow> nd_run_id n = Some (tr_run r))
     \<and> (nd_recorder n = None \<longrightarrow> rd_sub n = None \<and> rd_sink n = None)
     \<and> (rd_sub n \<noteq> None \<longrightarrow> rd_sub n = Some (rd_topic n) \<and> rd_sink n \<noteq> None)
     \<and> (\<forall>r. nd_recorder n = Some r \<longrightarrow> length (tr_samples r) = rd_frames n)
     \<and> rd_drawn n \<le> rd_frames n
     \<and> (nd_recorder n \<noteq> None \<longrightarrow> rd_progress_mark n \<le> rd_frames n)"

lemma render_class_simps [simp]:
  "nk_start render_class = render_start" "nk_stop render_class = render_stop"
  by (simp_all add: render_class_def)

lemma render_stop_idle [simp]: "nd_recorder (snd (render_stop e n)) = None"
  by (auto simp: render_stop_def close_telemetry_def node_running_def split: option.splits)

lemma render_stop_keeps:
  "nd_client (snd (render_stop e n)) = nd_client n"
  "rd_default_codec (snd (render_stop e n)) = rd_default_codec n"
  by (auto simp: render_stop_def close_telemetry_def split: option.splits)

lemma render_stop_inv: "render_inv n \<Longrightarrow> render_inv (snd (render_stop e n))"
  by (auto simp: render_inv_def render_stop_def close_telemetry_def node_running_def split: option.splits)

lemma render_settle_idle [simp]: "nd_recorder (render_settle e n) = None"
  by (simp add: render_settle_def node_running_def)

lemma render_settle_keeps:
  "nd_client (render_settle e n) = nd_client n" "rd_default_codec (render_settle e n) = rd_default_codec n"
  by (simp_all add: render_settle_def render_stop_keeps)

lemma render_settle_inv: "render_inv n \<Longrightarrow> render_inv (render_settle e n)"
  by (simp add: render_settle_def render_stop_inv)

lemma render_reset_keeps [simp]:
  "nd_recorder (render_reset codec n) = nd_recorder n" "nd_client (render_reset codec n) = nd_client n"
  "nd_run_id (render_reset codec n) = nd_run_id n"
  "rd_sub (render_reset codec n) = rd_sub n" "rd_sink (render_reset codec n) = rd_sink n"
  "rd_frames (render_reset codec n) = 0" "rd_drawn (render_reset codec n) = 0"
  by (simp_all add: render_reset_def)

text \<open>What is left when the recorder has just been opened.\<close>

definition render_opened :: "nenv \<Rightarrow> string \<Rightarrow> string \<Rightarrow> string \<Rightarrow> render \<Rightarrow> render" where
  "render_opened e rid codec dir n =
     (render_reset codec (render_settle e n))\<lparr>rd_decoder := codec = ''gpcc'', rd_seq_gaps := 0,
        rd_last_seq := None, rd_progress_mark := 0, nd_run_id := Some rid,
        nd_recorder := Some (opened_recorder rid dir)\<rparr>"

lemma render_start_cases:
  assumes "render_start e rid args n = (res, n')"
  obtains (same) "node_running n" "nd_run_id n = Some rid" "res = Inr ()" "n' = n"
  | (refused) err where "res = Inl err" "n' = render_settle e n"
  | (no_codec) err codec where "res = Inl err" "n' = render_reset codec (render_settle e n)"
  | (no_recorder) err codec where "res = Inl err"
      "n' = (render_reset codec (render_settle e n))\<lparr>rd_decoder := codec = ''gpcc'', rd_seq_gaps := 0,
         rd_last_seq := None, rd_progress_mark := 0, nd_run_id := Some rid\<rparr>"
  | (recording) codec dir where "render_wire e (render_opened e rid codec dir n) = (res, n')"
proof -
  note cases = assms [unfolded render_start_def Let_def render_settle_keeps]
  show thesis
  proof (cases "sum_bind (run_codec (rd_default_codec n) args) edge_check_codec")
    case (Inl err)
    then show thesis
      using cases same refused by (auto split: if_splits)
  next
    case (Inr codec)
    let ?n1 = "(render_reset codec (render_settle e n))\<lparr>rd_decoder := codec = ''gpcc'', rd_seq_gaps := 0,
         rd_last_seq := None, rd_progress_mark := 0\<rparr>"
    obtain mres n2 where mk: "make_recorder ''render'' e rid ?n1 = (mres, n2)"
      by fastforce
    show thesis
    proof (cases "node_running n \<and> nd_run_id n = Some rid \<or> codec = ''gpcc'' \<and> \<not> ne_codec e")
      case True
      then show thesis
        using cases Inr same no_codec by (auto split: if_splits)
    next
      case False
      then have out: "(case mres of Inl err \<Rightarrow> (Inl err, n2) | Inr _ \<Rightarrow> render_wire e n2) = (res, n')"
        using cases Inr mk by auto
      from make_recorder_cases(3) [OF mk] show thesis
        using out no_recorder recording by (fastforce simp: render_opened_def)
    qed
  qed
qed

definition render_fresh :: "string \<Rightarrow> render \<Rightarrow> bool" where
  "render_fresh rid n \<longleftrightarrow>
     (\<exists>r. nd_recorder n = Some r \<and> tr_run r = rid \<and> tr_samples r = []) \<and> nd_run_id n = Some rid
     \<and> rd_sub n = None \<and> rd_frames n = 0 \<and> rd_drawn n = 0 \<and> rd_progress_mark n = 0"

lemma render_opened_fresh: "render_inv n \<Longrightarrow> render_fresh rid (render_opened e rid codec dir n)"
  using render_settle_inv [of n e] by (auto simp: render_opened_def render_fresh_def render_inv_def)

lemma render_opened_client [simp]: "nd_client (render_opened e rid codec dir n) = nd_client n"
  by (simp add: render_opened_def render_settle_keeps)

lemma render_wire_keeps:
  "render_wire e n = (res, n') \<Longrightarrow>
     nd_client n' = nd_client n \<and> nd_recorder n' = nd_recorder n \<and> nd_run_id n' = nd_run_id n
     \<and> rd_topic n' = rd_topic n \<and> rd_frames n' = rd_frames n \<and> rd_drawn n' = rd_drawn n
     \<and> rd_progress_mark n' = rd_progress_mark n
     \<and> (rd_sub n' = rd_sub n \<or> rd_sub n' = Some (rd_topic n) \<and> rd_sink n' \<noteq> None)"
  by (auto simp: render_wire_def Let_def split: if_splits sum.splits)

lemma render_wire_fresh:
  assumes "render_wire e n = (res, n')" and "render_fresh rid n"
  shows "render_inv n'" and "\<exists>r. nd_recorder n' = Some r \<and> tr_run r = rid \<and> nd_run_id n' = Some rid"
  using render_wire_keeps [OF assms(1)] assms(2) by (auto simp: render_inv_def render_fresh_def)

lemma render_start_records:
  assumes "render_inv n" and "render_start e rid args n = (Inr u, n')"
  shows "\<exists>r. nd_recorder n' = Some r \<and> tr_run r = rid \<and> nd_run_id n' = Some rid"
  using assms(2)
proof (cases rule: render_start_cases)
  case same
  then show ?thesis
    using assms(1) by (auto simp: node_running_def render_inv_def)
next
  case (recording codec dir)
  show ?thesis
    using render_wire_fresh(2) [OF recording render_opened_fresh [OF assms(1)]] .
qed simp_all

lemma render_start_inv:
  assumes "render_inv n" and "render_start e rid args n = (res, n')"
  shows "render_inv n'"
  using assms(2)
proof (cases rule: render_start_cases)
  case (recording codec dir)
  show ?thesis
    using render_wire_fresh(1) [OF recording render_opened_fresh [OF assms(1)]] .
qed (use assms(1) render_settle_inv [OF assms(1), of e] in \<open>simp_all add: render_inv_def\<close>)

lemma render_start_keeps: "render_start e rid args n = (res, n') \<Longrightarrow> nd_client n' = nd_client n"
  by (erule render_start_cases) (auto simp: render_settle_keeps dest!: render_wire_keeps)

lemma on_result_inv: "render_inv n \<Longrightarrow> rd_sub n \<noteq> None \<Longrightarrow> render_inv (on_result recv d ce b m n)"
  by (auto simp: render_inv_def on_result_def record_sample_def Let_def)

lemma log_progress_inv: "render_inv n \<Longrightarrow> render_inv (snd (log_progress n))"
  by (auto simp: render_inv_def log_progress_def)

lemma render_work_keeps:
  "render_work n n' \<Longrightarrow> nd_client n' = nd_client n \<and> nd_run_id n' = nd_run_id n
     \<and> (nd_recorder n' = None \<longleftrightarrow> nd_recorder n = None)"
  by (induction rule: render_work.induct)
     (auto simp: on_result_def record_sample_def log_progress_def Let_def)

interpretation render_run: run_lifecycle render_class render_work render_inv
proof unfold_locales
  show "render_inv n \<Longrightarrow> nk_start render_class e rid args n = (Inr u, n') \<Longrightarrow>
      \<exists>r. nd_recorder n' = Some r \<and> tr_run r = rid \<and> nd_run_id n' = Some rid" for n e rid args u n'
    by (simp add: render_start_records)
  show "render_inv n \<Longrightarrow> nk_start render_class e rid args n = (res, n') \<Longrightarrow> render_inv n'" for n e rid args res n'
    by (simp add: render_start_inv)
  show "nk_start render_class e rid args n = (res, n') \<Longrightarrow> nd_client n' = nd_client n" for n e rid args res n'
    by (simp add: render_start_keeps)
  show "render_inv (n\<lparr>nd_last_status := ls, nd_client := c\<rparr>) = render_inv n" for n ls c
    by (simp add: render_inv_def)
  show "render_inv n \<Longrightarrow> render_work n n' \<Longrightarrow> render_inv n'" for n n'
    by (auto elim!: render_work.cases simp: on_result_inv log_progress_inv)
  show "render_inv n \<Longrightarrow> render_inv (recorder_writes j n)" for n j
    by (auto simp: render_inv_def recorder_writes_def)
qed (simp_all add: render_stop_inv render_stop_keeps render_work_keeps)

end
