(* ===== verification/Lidar_Replay.thy ===== *)
theory Lidar_Replay
  imports Py_Prelude
begin

text \<open>
  Recorded lidar sweeps replayed frame by frame
  (ros2/src/mec_cast_lidar_client/mec_cast_lidar_client/replay.py): opening a dataset with every check
  it makes, which sweep a frame replays, and which of its points are sent.

  A file is what \<open>json.loads\<close> made of it or its length; \<open>np.linspace\<close> is exact, so the kept points
  are the floors of evenly spaced rationals. The frames an index lists lie inside its file, as the
  converter writes them.
\<close>

section \<open>A dataset\<close>

record replay =
  rp_name :: string
  rp_source :: string
  rp_frames :: "(int \<times> nat \<times> nat) list"
  rp_start :: nat
  rp_loop :: bool
  rp_max :: nat

definition resolve :: "(string \<Rightarrow> bool) \<Rightarrow> string \<Rightarrow> string \<Rightarrow> string + string" where
  "resolve is_file datasets_dir dataset =
     (if dataset = [] then Inl ''pattern=dataset needs a dataset''
      else if hd dataset = CHR ''/'' \<or> is_file (dataset @ ''/index.json'') then Inr dataset
      else Inr (str_or datasets_dir ''datasets'' @ ''/'' @ dataset))"

text \<open>One entry of the index: the scan, the offset and the count of its points.\<close>

definition frame_entry :: "json \<Rightarrow> (int \<times> nat \<times> nat) option" where
  "frame_entry v =
     (case v of
        JArr [JInt scan, JInt offset, JInt count, t] \<Rightarrow>
          if 0 \<le> offset \<and> 0 \<le> count then Some (scan, nat offset, nat count) else None
      | _ \<Rightarrow> None)"

fun frame_entries :: "json list \<Rightarrow> (int \<times> nat \<times> nat) list option" where
  "frame_entries [] = Some []"
| "frame_entries (v # vs) =
     (case frame_entry v of
        None \<Rightarrow> None
      | Some f \<Rightarrow> (case frame_entries vs of None \<Rightarrow> None | Some fs \<Rightarrow> Some (f # fs)))"

text \<open>The constructor; \<open>index\<close> is the content of index.json, \<open>len\<close> the length of points.f32.\<close>

definition new_replay ::
  "string \<Rightarrow> pdict option \<Rightarrow> nat option \<Rightarrow> int \<Rightarrow> bool \<Rightarrow> int \<Rightarrow> string + replay" where
  "new_replay name index len start loop max_points =
     (case index of
        None \<Rightarrow> Inl ''no dataset''
      | Some d \<Rightarrow>
          (if pget d ''format'' \<noteq> JStr ''mec-cast-lidar-replay'' \<or> \<not> py_eq_int (pget d ''version'') 1
           then Inl ''format''
           else
             (case pget d ''frames'' of
                JArr vs \<Rightarrow>
                  (case frame_entries vs of
                     None \<Rightarrow> Inl ''frames''
                   | Some fs \<Rightarrow>
                       (if fs = [] then Inl ''no frames''
                        else
                          (let total = fst (snd (last fs)) + snd (snd (last fs))
                           in if len \<noteq> Some (total * 12) then Inl ''size''
                              else if \<not> (0 \<le> start \<and> start < int (length fs)) then Inl ''dataset_start''
                              else Inr \<lparr>rp_name = name,
                                        rp_source = py_str (py_or (pget d ''source'') (JStr name)),
                                        rp_frames = fs, rp_start = nat start, rp_loop = loop,
                                        rp_max = nat (max 0 max_points)\<rparr>)))
              | _ \<Rightarrow> Inl ''frames'')))"

section \<open>Frames\<close>

definition index_of :: "replay \<Rightarrow> nat \<Rightarrow> nat option" where
  "index_of r seq =
     (let k = rp_start r + seq
      in if k < length (rp_frames r) then Some k
         else if rp_loop r then Some (k mod length (rp_frames r)) else None)"

definition scan_of :: "replay \<Rightarrow> nat \<Rightarrow> int option" where
  "scan_of r seq = map_option (\<lambda>k. fst (rp_frames r ! k)) (index_of r seq)"

text \<open>\<open>np.linspace(0, count - 1, m).astype(int64)\<close>.\<close>

definition linspace_index :: "nat \<Rightarrow> nat \<Rightarrow> nat \<Rightarrow> nat" where
  "linspace_index count m i = (if m = 1 then 0 else i * (count - 1) div (m - 1))"

definition frame_rows :: "replay \<Rightarrow> nat \<Rightarrow> nat list option" where
  "frame_rows r seq =
     map_option (\<lambda>k. case rp_frames r ! k of (scan, offset, count) \<Rightarrow>
       (if rp_max r \<noteq> 0 \<and> rp_max r < count
        then map (\<lambda>i. offset + linspace_index count (rp_max r) i) [0..<rp_max r]
        else [offset..<offset + count])) (index_of r seq)"

definition describe :: "replay \<Rightarrow> pdict" where
  "describe r =
     [(''dataset'', JStr (rp_name r)), (''dataset_source'', JStr (rp_source r)),
      (''dataset_frames'', JInt (int (length (rp_frames r)))), (''dataset_start'', JInt (int (rp_start r))),
      (''dataset_loop'', JBool (rp_loop r)), (''dataset_points'', JInt (int (rp_max r)))]"

section \<open>Lemmas\<close>

definition replay_wf :: "replay \<Rightarrow> bool" where
  "replay_wf r \<longleftrightarrow> rp_frames r \<noteq> [] \<and> rp_start r < length (rp_frames r)"

lemma new_replay_wf: "new_replay name index len start loop mx = Inr r \<Longrightarrow> replay_wf r"
  by (auto simp: new_replay_def replay_wf_def Let_def split: option.splits json.splits if_splits)

lemma index_of_loop:
  assumes "replay_wf r" and "rp_loop r"
  shows "index_of r seq = Some ((rp_start r + seq) mod length (rp_frames r))"
  using assms by (simp add: index_of_def Let_def)

lemma index_of_range: "replay_wf r \<Longrightarrow> index_of r seq = Some k \<Longrightarrow> k < length (rp_frames r)"
  by (auto simp: index_of_def replay_wf_def Let_def split: if_splits)

lemma linspace_less: "i < m \<Longrightarrow> m \<le> count \<Longrightarrow> linspace_index count m i < count"
proof -
  assume i: "i < m" and m: "m \<le> count"
  have "i * (count - 1) div (m - 1) \<le> count - 1" if "m \<noteq> 1"
  proof -
    have "i * (count - 1) \<le> (m - 1) * (count - 1)"
      using i by (intro mult_right_mono) auto
    then have "i * (count - 1) div (m - 1) \<le> (m - 1) * (count - 1) div (m - 1)"
      by (rule div_le_mono)
    also have "\<dots> = count - 1"
      using that i by simp
    finally show ?thesis .
  qed
  then show ?thesis
    using i m by (auto simp: linspace_index_def)
qed

lemma linspace_step:
  assumes "i < j" and "j < m" and "m \<le> count"
  shows "linspace_index count m i < linspace_index count m j"
proof -
  have m: "1 < m" "0 < m - 1" "m - 1 \<le> count - 1"
    using assms by auto
  have "i * (count - 1) div (m - 1) + 1 = (i * (count - 1) + (m - 1)) div (m - 1)"
    using m(2) by (subst div_add_self2) simp_all
  also have "\<dots> \<le> (i * (count - 1) + (count - 1)) div (m - 1)"
    using m by (intro div_le_mono add_left_mono) auto
  also have "\<dots> = (Suc i * (count - 1)) div (m - 1)"
    by (simp add: add.commute)
  also have "\<dots> \<le> j * (count - 1) div (m - 1)"
    using assms by (intro div_le_mono mult_right_mono) auto
  finally show ?thesis
    using m by (simp add: linspace_index_def)
qed

lemma linspace_ends:
  assumes "1 < m"
  shows "linspace_index count m 0 = 0" and "linspace_index count m (m - 1) = count - 1"
  using assms by (auto simp: linspace_index_def)

end
