(* ===== verification/Lidar_Client.thy ===== *)
theory Lidar_Client
  imports Edge_Node Lidar_Replay
begin

text \<open>
  The lidar client (ros2/src/mec_cast_lidar_client/mec_cast_lidar_client/publisher_node.py): the knobs a
  run sets, the start and the stop of a run, and the publishing of one frame.

  The points of a generated pattern come from numpy's random generator and are an argument, their
  number; a replayed frame is the list of its rows. \<open>ld_sent\<close> is what was published, in order.
\<close>

section \<open>State\<close>

datatype lidar_cloud = Generated nat | Dataset_Rows "nat list"

fun cloud_size :: "lidar_cloud \<Rightarrow> nat" where
  "cloud_size (Generated k) = k"
| "cloud_size (Dataset_Rows rows) = length rows"

record lidar_msg =
  lm_seq :: nat
  lm_capture :: int
  lm_send :: int
  lm_trace :: "nat list"
  lm_coded :: bool
  lm_cloud :: lidar_cloud

record lidar = node +
  ld_seed :: int
  ld_num_points :: int
  ld_rate :: "rat \<times> string"
  ld_pattern :: string
  ld_reliability :: string
  ld_qos_depth :: int
  ld_codec :: string
  ld_precision :: "rat \<times> string"
  ld_dataset :: string
  ld_dataset_start :: int
  ld_dataset_points :: int
  ld_dataset_loop :: bool
  ld_replay :: "replay option"
  ld_replay_ended :: bool
  ld_encoder :: bool
  ld_encode_errors :: nat
  ld_trace :: "nat list"
  ld_timer :: bool
  ld_seq :: nat
  ld_published :: nat
  ld_sent :: "lidar_msg list"

definition patterns :: "string list" where
  "patterns =
     [''uniform_cube'', ''rotating_plane'', ''sphere'', ''lidar_scan'', ''torus'', ''helix'', ''wave'',
      ''cylinder'', ''cube_edges'', ''swarm'', ''dataset'']"

definition lidar_check_codec :: "string \<Rightarrow> rat \<Rightarrow> string + unit" where
  "lidar_check_codec codec precision =
     (if codec \<notin> set codecs then Inl ''codec''
      else if \<not> 0 < precision then Inl ''codec_precision_m'' else Inr ())"

text \<open>16 bytes: those of the UUID, or the text's, cut and padded.\<close>

definition run_trace_id :: "(string \<Rightarrow> nat list option) \<Rightarrow> string \<Rightarrow> nat list" where
  "run_trace_id uuid rid =
     (case uuid rid of
        Some bs \<Rightarrow> bs
      | None \<Rightarrow> (let raw = take 16 (map of_char rid) in raw @ replicate (16 - length raw) 0))"

definition lidar_params :: "lidar \<Rightarrow> pdict" where
  "lidar_params n =
     dmerge (case ld_replay n of None \<Rightarrow> [] | Some r \<Rightarrow> describe r)
       [(''num_points'', JInt (ld_num_points n)), (''rate_hz'', JFloat (fst (ld_rate n)) (snd (ld_rate n))),
        (''seed'', JInt (ld_seed n)), (''pattern'', JStr (ld_pattern n)),
        (''reliability'', JStr (ld_reliability n)), (''qos_depth'', JInt (ld_qos_depth n)),
        (''codec'', JStr (ld_codec n)),
        (''codec_precision_m'', JFloat (fst (ld_precision n)) (snd (ld_precision n)))]"

definition lidar_counters :: "nenv \<Rightarrow> lidar \<Rightarrow> (string \<times> int) list" where
  "lidar_counters e n =
     [(''frames_published'', int (ld_published n)), (''seq_last'', max (int (ld_seq n) - 1) 0),
      (''samples_dropped'', (case nd_recorder n of None \<Rightarrow> 0 | Some r \<Rightarrow> ne_dropped e r)),
      (''encode_errors'', int (ld_encode_errors n))]"

section \<open>A run\<close>

text \<open>\<open>setattr(self, key, type(getattr(self, key))(args[key]))\<close> for each knob the command names, in the
  order of the source; a conversion that raises leaves the earlier ones set.\<close>

definition knobs :: "string list" where
  "knobs =
     [''num_points'', ''rate_hz'', ''seed'', ''pattern'', ''codec'', ''codec_precision_m'', ''dataset'',
      ''dataset_start'', ''dataset_points'', ''dataset_loop'']"

definition set_knob :: "nenv \<Rightarrow> string \<Rightarrow> json \<Rightarrow> lidar \<Rightarrow> lidar option" where
  "set_knob e key v n =
     (if key = ''num_points'' then map_option (\<lambda>i. n\<lparr>ld_num_points := i\<rparr>) (py_int v)
      else if key = ''rate_hz'' then map_option (\<lambda>x. n\<lparr>ld_rate := x\<rparr>) (ne_float e v)
      else if key = ''seed'' then map_option (\<lambda>i. n\<lparr>ld_seed := i\<rparr>) (py_int v)
      else if key = ''pattern'' then Some (n\<lparr>ld_pattern := py_str v\<rparr>)
      else if key = ''codec'' then Some (n\<lparr>ld_codec := py_str v\<rparr>)
      else if key = ''codec_precision_m'' then map_option (\<lambda>x. n\<lparr>ld_precision := x\<rparr>) (ne_float e v)
      else if key = ''dataset'' then Some (n\<lparr>ld_dataset := py_str v\<rparr>)
      else if key = ''dataset_start'' then map_option (\<lambda>i. n\<lparr>ld_dataset_start := i\<rparr>) (py_int v)
      else if key = ''dataset_points'' then map_option (\<lambda>i. n\<lparr>ld_dataset_points := i\<rparr>) (py_int v)
      else if key = ''dataset_loop'' then Some (n\<lparr>ld_dataset_loop := truthy v\<rparr>)
      else Some n)"

fun set_knobs :: "nenv \<Rightarrow> pdict \<Rightarrow> string list \<Rightarrow> lidar \<Rightarrow> bool \<times> lidar" where
  "set_knobs e args [] n = (True, n)"
| "set_knobs e args (key # ks) n =
     (if pget args key = JNull then set_knobs e args ks n
      else (case set_knob e key (pget args key) n of
              None \<Rightarrow> (False, n)
            | Some n' \<Rightarrow> set_knobs e args ks n'))"

definition lidar_stop :: "nenv \<Rightarrow> lidar \<Rightarrow> pdict \<times> lidar" where
  "lidar_stop e n =
     (if \<not> node_running n then ([], n)
      else close_telemetry e (n\<lparr>ld_timer := False, ld_encoder := False\<rparr>))"

definition lidar_settle :: "nenv \<Rightarrow> lidar \<Rightarrow> lidar" where
  "lidar_settle e n = (if node_running n then snd (lidar_stop e n) else n)"

definition run_knobs :: "nenv \<Rightarrow> json \<Rightarrow> lidar \<Rightarrow> bool \<times> lidar" where
  "run_knobs e args n =
     (if \<not> truthy args then (True, n)
      else (case args of JObj d \<Rightarrow> set_knobs e d knobs n | _ \<Rightarrow> (False, n)))"

text \<open>Opening the dataset of a replayed run.\<close>

definition open_replay :: "nenv \<Rightarrow> lidar \<Rightarrow> string + replay option" where
  "open_replay e n =
     (if ld_pattern n \<noteq> ''dataset'' then Inr None
      else
        sum_bind (resolve (\<lambda>f. ne_json e f \<noteq> None) (ne_datasets e) (ld_dataset n)) (\<lambda>path.
        sum_bind (new_replay path
                   (case ne_json e (path @ ''/index.json'') of Some (JObj d) \<Rightarrow> Some d | _ \<Rightarrow> None)
                   (ne_size e (path @ ''/points.f32'')) (ld_dataset_start n) (ld_dataset_loop n)
                   (ld_dataset_points n)) (\<lambda>r. Inr (Some r))))"

text \<open>The checks and openings before the recorder: left is the exception, with what was set before it.\<close>

definition lidar_prepare :: "nenv \<Rightarrow> json \<Rightarrow> lidar \<Rightarrow> (string + unit) \<times> lidar" where
  "lidar_prepare e args n =
     (case run_knobs e args n of
        (False, n1) \<Rightarrow> (Inl ''knob'', n1)
      | (True, n1) \<Rightarrow>
          (if ld_pattern n1 \<notin> set patterns then (Inl ''pattern'', n1)
           else
             (case lidar_check_codec (ld_codec n1) (fst (ld_precision n1)) of
                Inl err \<Rightarrow> (Inl err, n1)
              | Inr _ \<Rightarrow>
                  (let n2 = n1\<lparr>ld_replay := None, ld_replay_ended := False\<rparr>
                   in case open_replay e n2 of
                        Inl err \<Rightarrow> (Inl err, n2)
                      | Inr r \<Rightarrow>
                          (let n3 = n2\<lparr>ld_replay := r\<rparr>
                           in if ld_codec n3 = ''gpcc'' \<and> \<not> ne_codec e then (Inl ''codec library'', n3)
                              else (Inr (), n3\<lparr>ld_encoder := ld_codec n3 = ''gpcc'',
                                               ld_encode_errors := 0\<rparr>))))))"

definition lidar_open ::
  "nenv \<Rightarrow> string \<Rightarrow> lidar \<Rightarrow> (string + string) \<times> lidar" where
  "lidar_open e rid n =
     (let n1 = n\<lparr>ld_trace := run_trace_id (ne_uuid e) rid\<rparr>
      in if \<not> ne_rng e (ld_seed n1) then (Inl ''seed'', n1)
         else make_recorder ''pub'' e rid (n1\<lparr>ld_seq := 0, ld_published := 0\<rparr>))"

text \<open>\<open>1.0 / self.rate_hz\<close> raises at zero; the middleware may refuse another period.\<close>

definition lidar_start :: "nenv \<Rightarrow> string \<Rightarrow> json \<Rightarrow> lidar \<Rightarrow> (string + unit) \<times> lidar" where
  "lidar_start e rid args n =
     (if node_running n \<and> nd_run_id n = Some rid then (Inr (), n)
      else
        (case lidar_prepare e args (lidar_settle e n) of
           (Inl err, n1) \<Rightarrow> (Inl err, n1)
         | (Inr _, n1) \<Rightarrow>
             (case lidar_open e rid n1 of
                (Inl err, n2) \<Rightarrow> (Inl err, n2)
              | (Inr _, n2) \<Rightarrow>
                  (if fst (ld_rate n2) = 0 then (Inl ''float division by zero'', n2)
                   else if \<not> ne_timer e (1 / fst (ld_rate n2)) then (Inl ''timer'', n2)
                   else (Inr (), n2\<lparr>ld_timer := True\<rparr>)))))"

definition lidar_class :: "lidar node_class" where
  "lidar_class =
     \<lparr>nk_type = ''client'', nk_leaf = ''pub'', nk_topic = (\<lambda>n. None), nk_params = lidar_params,
      nk_counters = lidar_counters, nk_streaming = node_running, nk_subscribed = (\<lambda>n. False),
      nk_start = lidar_start, nk_stop = lidar_stop\<rparr>"

section \<open>A frame\<close>

definition frame_cloud :: "nat \<Rightarrow> lidar \<Rightarrow> lidar_cloud option" where
  "frame_cloud gen n =
     (case ld_replay n of
        Some r \<Rightarrow> map_option Dataset_Rows (frame_rows r (ld_seq n))
      | None \<Rightarrow> Some (Generated gen))"

text \<open>\<open>coded\<close>: the length of the coded frame, nothing where the encoder raised. \<open>gen\<close>: the points of
  a generated frame.\<close>

definition frame_sample :: "int \<Rightarrow> int \<Rightarrow> nat option \<Rightarrow> lidar_cloud \<Rightarrow> lidar \<Rightarrow> tsample" where
  "frame_sample capture_ns send_ns coded cloud n =
     \<lparr>ts_seq = int (ld_seq n), ts_capture = capture_ns, ts_send = send_ns, ts_recv = 0, ts_done = 0,
      ts_bytes = (if ld_encoder n then (case coded of None \<Rightarrow> 0 | Some b \<Rightarrow> b) else 12 * cloud_size cloud),
      ts_trace = ld_trace n\<rparr>"

definition publish_frame :: "int \<Rightarrow> int \<Rightarrow> nat option \<Rightarrow> nat \<Rightarrow> lidar \<Rightarrow> lidar" where
  "publish_frame capture_ns send_ns coded gen n =
     (if nd_recorder n = None then n
      else
        (case frame_cloud gen n of
           None \<Rightarrow> n\<lparr>ld_replay_ended := True\<rparr>
         | Some cloud \<Rightarrow>
             (if ld_encoder n \<and> coded = None
              then n\<lparr>ld_encode_errors := ld_encode_errors n + 1, ld_seq := ld_seq n + 1\<rparr>
              else
                (record_sample (frame_sample capture_ns send_ns coded cloud n) n)
                  \<lparr>ld_sent := ld_sent n @ [\<lparr>lm_seq = ld_seq n, lm_capture = capture_ns, lm_send = send_ns,
                                            lm_trace = ld_trace n, lm_coded = ld_encoder n, lm_cloud = cloud\<rparr>],
                   ld_seq := ld_seq n + 1, ld_published := ld_published n + 1\<rparr>)))"

inductive lidar_work :: "lidar \<Rightarrow> lidar \<Rightarrow> bool" where
  lw_frame: "ld_timer n \<Longrightarrow> lidar_work n (publish_frame capture send coded gen n)"

section \<open>The lidar client is a node\<close>

text \<open>The recorder holds one sample per published frame, numbered upwards without repetition; a sequence
  number not among them is a frame the encoder refused.\<close>

definition sample_seqs :: "tel_recorder \<Rightarrow> int list" where
  "sample_seqs r = map ts_seq (tr_samples r)"

definition lidar_inv :: "lidar \<Rightarrow> bool" where
  "lidar_inv n \<longleftrightarrow>
     (nd_recorder n = None \<longrightarrow> \<not> ld_timer n)
     \<and> (\<forall>r. nd_recorder n = Some r \<longrightarrow>
          nd_run_id n = Some (tr_run r) \<and> length (tr_samples r) = ld_published n
          \<and> ld_published n + ld_encode_errors n = ld_seq n
          \<and> sorted_wrt (<) (sample_seqs r) \<and> (\<forall>q \<in> set (sample_seqs r). 0 \<le> q \<and> q < int (ld_seq n)))"

lemma lidar_class_simps [simp]:
  "nk_start lidar_class = lidar_start" "nk_stop lidar_class = lidar_stop"
  by (simp_all add: lidar_class_def)

lemma lidar_stop_idle [simp]: "nd_recorder (snd (lidar_stop e n)) = None"
  by (auto simp: lidar_stop_def close_telemetry_def node_running_def split: option.splits)

lemma lidar_stop_keeps: "nd_client (snd (lidar_stop e n)) = nd_client n"
  by (auto simp: lidar_stop_def close_telemetry_def split: option.splits)

lemma lidar_stop_inv: "lidar_inv n \<Longrightarrow> lidar_inv (snd (lidar_stop e n))"
  by (auto simp: lidar_inv_def lidar_stop_def close_telemetry_def node_running_def split: option.splits)

lemma lidar_settle_idle [simp]: "nd_recorder (lidar_settle e n) = None"
  by (simp add: lidar_settle_def node_running_def)

lemma lidar_settle_timer: "lidar_inv n \<Longrightarrow> \<not> ld_timer (lidar_settle e n)"
  using lidar_stop_inv [of n e] by (auto simp: lidar_settle_def lidar_inv_def node_running_def)

lemma lidar_settle_client [simp]: "nd_client (lidar_settle e n) = nd_client n"
  by (simp add: lidar_settle_def lidar_stop_keeps)

definition same_base :: "lidar \<Rightarrow> lidar \<Rightarrow> bool" where
  "same_base n n' \<longleftrightarrow>
     nd_client n' = nd_client n \<and> nd_recorder n' = nd_recorder n \<and> ld_timer n' = ld_timer n"

lemma set_knob_base: "set_knob e k v n = Some n' \<Longrightarrow> same_base n n'"
  by (auto simp: set_knob_def same_base_def split: if_splits)

lemma set_knobs_base: "same_base n (snd (set_knobs e args ks n))"
proof (induction e args ks n rule: set_knobs.induct)
  case (2 e args key ks n)
  then show ?case
    by (auto simp: same_base_def dest!: set_knob_base split: option.splits)
qed (simp add: same_base_def)

lemma run_knobs_base: "same_base n (snd (run_knobs e args n))"
  using set_knobs_base [of n e _ knobs]
  by (auto simp: run_knobs_def same_base_def split: json.splits)

lemma lidar_prepare_base: "lidar_prepare e args n = (res, n') \<Longrightarrow> same_base n n'"
  using run_knobs_base [of n e args]
  by (auto simp: lidar_prepare_def same_base_def Let_def split: prod.splits bool.splits sum.splits if_splits)

lemma lidar_prepare_ok:
  "lidar_prepare e args n = (Inr u, n') \<Longrightarrow> ld_encode_errors n' = 0
     \<and> ld_encoder n' = (ld_codec n' = ''gpcc'') \<and> ld_codec n' \<in> set codecs"
  by (auto simp: lidar_prepare_def lidar_check_codec_def Let_def
      split: prod.splits bool.splits sum.splits if_splits)

text \<open>Every way a start can end.\<close>

definition lidar_fresh :: "string \<Rightarrow> lidar \<Rightarrow> bool" where
  "lidar_fresh rid n \<longleftrightarrow>
     (\<exists>r. nd_recorder n = Some r \<and> tr_run r = rid \<and> tr_samples r = []) \<and> nd_run_id n = Some rid
     \<and> ld_seq n = 0 \<and> ld_published n = 0 \<and> ld_encode_errors n = 0"

lemma lidar_fresh_inv: "lidar_fresh rid n \<Longrightarrow> lidar_inv n"
  by (auto simp: lidar_fresh_def lidar_inv_def sample_seqs_def)

lemma lidar_open_fresh:
  assumes "lidar_open e rid n = (Inr dir, n')" and "ld_encode_errors n = 0"
  shows "lidar_fresh rid n'"
  using assms by (auto simp: lidar_open_def make_recorder_def lidar_fresh_def Let_def split: if_splits)

lemma lidar_open_keeps:
  "lidar_open e rid n = (res, n') \<Longrightarrow> nd_client n' = nd_client n \<and> ld_timer n' = ld_timer n
     \<and> (\<forall>err. res = Inl err \<longrightarrow> nd_recorder n' = nd_recorder n)"
  by (auto simp: lidar_open_def make_recorder_def Let_def split: if_splits)

lemma lidar_start_cases:
  assumes "lidar_start e rid args n = (res, n')" and "lidar_inv n"
  obtains (same) "node_running n" "nd_run_id n = Some rid" "res = Inr ()" "n' = n"
  | (idle) err where "res = Inl err" "nd_recorder n' = None" "\<not> ld_timer n'" "nd_client n' = nd_client n"
  | (recording) n2 where "lidar_fresh rid n2" "nd_client n2 = nd_client n"
      "n' = n2 \<and> isl res \<or> n' = n2\<lparr>ld_timer := True\<rparr> \<and> res = Inr ()"
proof (cases "node_running n \<and> nd_run_id n = Some rid")
  case True
  then have "res = Inr () \<and> n' = n"
    using assms(1) by (simp add: lidar_start_def)
  with True show thesis
    by (intro same) simp_all
next
  case start: False
  obtain pres n1 where prep: "lidar_prepare e args (lidar_settle e n) = (pres, n1)"
    by fastforce
  have base: "nd_client n1 = nd_client n" "nd_recorder n1 = None" "\<not> ld_timer n1"
    using lidar_prepare_base [OF prep] lidar_settle_timer [OF assms(2)] by (simp_all add: same_base_def)
  show thesis
  proof (cases pres)
    case (Inl err)
    then have "res = Inl err" and "n' = n1"
      using assms(1) start prep by (simp_all add: lidar_start_def)
    with base show thesis
      by (intro idle) simp_all
  next
    case pres: (Inr u)
    obtain ores n2 where op: "lidar_open e rid n1 = (ores, n2)"
      by fastforce
    show thesis
    proof (cases ores)
      case (Inl err)
      then have "res = Inl err" and "n' = n2"
        using assms(1) start prep pres op by (simp_all add: lidar_start_def)
      moreover have "nd_recorder n2 = None" and "\<not> ld_timer n2" and "nd_client n2 = nd_client n"
        using lidar_open_keeps [OF op] base Inl by simp_all
      ultimately show thesis
        by (intro idle) simp_all
    next
      case (Inr dir)
      have "lidar_fresh rid n2"
        using lidar_open_fresh [OF op [unfolded Inr]] lidar_prepare_ok [OF prep [unfolded pres]] by simp
      moreover have "nd_client n2 = nd_client n"
        using lidar_open_keeps [OF op] base by simp
      moreover have "n' = n2 \<and> isl res \<or> n' = n2\<lparr>ld_timer := True\<rparr> \<and> res = Inr ()"
        using assms(1) start prep pres op Inr by (simp add: lidar_start_def split: if_splits) auto
      ultimately show thesis
        by (rule recording)
    qed
  qed
qed

lemma lidar_start_client: "lidar_start e rid args n = (res, n') \<Longrightarrow> nd_client n' = nd_client n"
  by (auto simp: lidar_start_def same_base_def split: prod.splits sum.splits if_splits
      dest!: lidar_prepare_base lidar_open_keeps)

lemma lidar_fresh_timer: "lidar_fresh rid n \<Longrightarrow> lidar_fresh rid (n\<lparr>ld_timer := b\<rparr>)"
  by (simp add: lidar_fresh_def)

lemma lidar_start_inv:
  assumes "lidar_inv n" and "lidar_start e rid args n = (res, n')"
  shows "lidar_inv n'"
  using assms(2,1)
proof (cases rule: lidar_start_cases)
  case (idle err)
  then show ?thesis by (simp add: lidar_inv_def)
next
  case (recording n2)
  then show ?thesis
    using lidar_fresh_inv [OF recording(1)] lidar_fresh_inv [OF lidar_fresh_timer [OF recording(1), of True]]
    by auto
qed (use assms(1) in simp)

lemma lidar_start_records:
  assumes "lidar_inv n" and "lidar_start e rid args n = (Inr u, n')"
  shows "\<exists>r. nd_recorder n' = Some r \<and> tr_run r = rid \<and> nd_run_id n' = Some rid"
  using assms(2,1)
proof (cases rule: lidar_start_cases)
  case same
  then show ?thesis using assms(1) by (auto simp: lidar_inv_def node_running_def)
next
  case (recording n2)
  then show ?thesis by (auto simp: lidar_fresh_def)
qed simp

lemma publish_frame_keeps:
  "nd_client (publish_frame c t b g n) = nd_client n" "nd_run_id (publish_frame c t b g n) = nd_run_id n"
  "nd_recorder (publish_frame c t b g n) = None \<longleftrightarrow> nd_recorder n = None"
  by (auto simp: publish_frame_def record_sample_def Let_def split: option.splits)

text \<open>What one call of the timer does to a run that is recording.\<close>

lemma publish_frame_cases:
  assumes "nd_recorder n = Some r"
  obtains (ended) "frame_cloud gen n = None" "publish_frame c t coded gen n = n\<lparr>ld_replay_ended := True\<rparr>"
  | (lost) cloud where "frame_cloud gen n = Some cloud" "ld_encoder n"
      "publish_frame c t coded gen n =
         n\<lparr>ld_encode_errors := ld_encode_errors n + 1, ld_seq := ld_seq n + 1\<rparr>"
  | (sent) cloud sample where "frame_cloud gen n = Some cloud" "ts_seq sample = int (ld_seq n)"
      "ts_capture sample = c" "ts_send sample = t"
      "publish_frame c t coded gen n =
         n\<lparr>nd_recorder := Some (try_record sample r),
           ld_sent := ld_sent n @ [\<lparr>lm_seq = ld_seq n, lm_capture = c, lm_send = t, lm_trace = ld_trace n,
                                    lm_coded = ld_encoder n, lm_cloud = cloud\<rparr>],
           ld_seq := ld_seq n + 1, ld_published := ld_published n + 1\<rparr>"
proof (cases "frame_cloud gen n")
  case None
  then show thesis
    using ended assms by (simp add: publish_frame_def)
next
  case (Some cloud)
  show thesis
  proof (cases "ld_encoder n \<and> coded = None")
    case True
    then show thesis
      using lost Some assms by (simp add: publish_frame_def)
  next
    case False
    have "publish_frame c t coded gen n =
         n\<lparr>nd_recorder := Some (try_record (frame_sample c t coded cloud n) r),
           ld_sent := ld_sent n @ [\<lparr>lm_seq = ld_seq n, lm_capture = c, lm_send = t, lm_trace = ld_trace n,
                                    lm_coded = ld_encoder n, lm_cloud = cloud\<rparr>],
           ld_seq := ld_seq n + 1, ld_published := ld_published n + 1\<rparr>"
      using False Some assms
      by (cases "ld_encoder n"; cases coded) (simp_all add: publish_frame_def record_sample_def)
    with Some show thesis
      by (intro sent [of cloud "frame_sample c t coded cloud n"]) (simp_all add: frame_sample_def)
  qed
qed

lemma publish_frame_inv:
  assumes "lidar_inv n" and "ld_timer n"
  shows "lidar_inv (publish_frame c t coded gen n)"
proof -
  obtain r where r: "nd_recorder n = Some r"
    using assms by (auto simp: lidar_inv_def)
  then show ?thesis
  proof (cases rule: publish_frame_cases [where c = c and t = t and coded = coded and gen = gen])
    case (sent cloud sample)
    then show ?thesis
      using assms r
      by (auto simp: lidar_inv_def sample_seqs_def sorted_wrt_append)
  qed (use assms r in \<open>auto simp: lidar_inv_def\<close>)
qed

interpretation lidar_run: run_lifecycle lidar_class lidar_work lidar_inv
proof unfold_locales
  show "lidar_inv n \<Longrightarrow> nk_start lidar_class e rid args n = (Inr u, n') \<Longrightarrow>
      \<exists>r. nd_recorder n' = Some r \<and> tr_run r = rid \<and> nd_run_id n' = Some rid" for n e rid args u n'
    by (simp add: lidar_start_records)
  show "lidar_inv n \<Longrightarrow> nk_start lidar_class e rid args n = (res, n') \<Longrightarrow> lidar_inv n'" for n e rid args res n'
    by (simp add: lidar_start_inv)
  show "nk_start lidar_class e rid args n = (res, n') \<Longrightarrow> nd_client n' = nd_client n" for n e rid args res n'
    by (simp add: lidar_start_client)
  show "lidar_inv (n\<lparr>nd_last_status := ls, nd_client := c\<rparr>) = lidar_inv n" for n ls c
    by (simp add: lidar_inv_def)
  show "lidar_inv n \<Longrightarrow> lidar_work n n' \<Longrightarrow> lidar_inv n'" for n n'
    by (auto elim!: lidar_work.cases simp: publish_frame_inv)
  show "lidar_work n n' \<Longrightarrow> nd_client n' = nd_client n \<and> nd_run_id n' = nd_run_id n
      \<and> (nd_recorder n' = None \<longleftrightarrow> nd_recorder n = None)" for n n'
    by (auto elim!: lidar_work.cases simp: publish_frame_keeps)
  show "lidar_inv n \<Longrightarrow> lidar_inv (recorder_writes j n)" for n j
    by (auto simp: lidar_inv_def recorder_writes_def sample_seqs_def)
qed (simp_all add: lidar_stop_inv lidar_stop_keeps)

section \<open>The codec of a run\<close>

lemma lidar_prepare_codec:
  "lidar_prepare e args n = (Inr u, n') \<Longrightarrow> ld_codec n' = ld_codec (snd (run_knobs e args n))"
  by (auto simp: lidar_prepare_def Let_def split: prod.splits bool.splits sum.splits if_splits)

lemma lidar_open_codec:
  "lidar_open e rid n = (res, n') \<Longrightarrow> ld_codec n' = ld_codec n \<and> ld_encoder n' = ld_encoder n"
  by (auto simp: lidar_open_def make_recorder_def Let_def split: if_splits)

lemma lidar_start_codec:
  assumes "lidar_start e rid args n = (Inr u, n')" and "\<not> node_running n"
  shows "ld_codec n' = ld_codec (snd (run_knobs e args n)) \<and> ld_encoder n' = (ld_codec n' = ''gpcc'')"
proof -
  have settle: "lidar_settle e n = n"
    using assms(2) by (simp add: lidar_settle_def)
  obtain n1 n2 where "lidar_prepare e args n = (Inr (), n1)" and "\<exists>dir. lidar_open e rid n1 = (Inr dir, n2)"
    and "n' = n2\<lparr>ld_timer := True\<rparr>"
    using assms by (auto simp: lidar_start_def settle split: prod.splits sum.splits if_splits)
  then show ?thesis
    using lidar_prepare_codec lidar_prepare_ok lidar_open_codec by fastforce
qed

lemma lidar_stop_codec: "ld_codec (snd (lidar_stop e n)) = ld_codec n"
  by (auto simp: lidar_stop_def close_telemetry_def split: option.splits)

lemma run_knobs_codec:
  "snd (run_knobs e JNull n) = n"
  "ld_codec (snd (run_knobs e (JObj [(''codec'', v)]) n)) = (if v = JNull then ld_codec n else py_str v)"
  by (simp_all add: run_knobs_def knobs_def set_knob_def pget_def)

end
