(* ===== verification/Node_Props.thy ===== *)
theory Node_Props
  imports Render_Node Lidar_Client Admin_Api
begin

text \<open>
  The properties of the measuring nodes: what they record, what they tell the admin, how the lidar
  client and the edge fit together, and the starts that are refused and yet leave a node recording.
\<close>

section \<open>Example nodes for the witnesses\<close>

definition example_nenv :: nenv where
  "example_nenv =
     \<lparr>ne_ack = (''a'', 1), ne_status = (''s'', 2), ne_goodbye = (''g'', 3), ne_publishers = (\<lambda>_. None),
      ne_effective = ''zenoh'', ne_rmw = [], ne_link = ''tcp'', ne_negative = (\<lambda>_. None),
      ne_report = (\<lambda>_. []), ne_opens = (\<lambda>_. True), ne_codec = True, ne_sink = Inl ''port in use'',
      ne_dropped = (\<lambda>_. 0), ne_float = (\<lambda>v. case v of JInt i \<Rightarrow> Some (of_int i, dec_int i) | _ \<Rightarrow> None),
      ne_json = (\<lambda>_. None), ne_size = (\<lambda>_. None), ne_datasets = [], ne_uuid = (\<lambda>_. None),
      ne_timer = (\<lambda>_. True), ne_rng = (\<lambda>seed. 0 \<le> seed)\<rparr>"

definition example_edge :: edge where
  "example_edge =
     \<lparr>nd_run_id = None, nd_recorder = None, nd_last_status = None,
      nd_client = new_client ''edge'' ''mec01'' ''ws://infra:8099/ws/node'' [] 0 [] [] 7,
      nd_autostart = True, nd_instance = 0, nd_runs_dir = ''runs'',
      ed_reliability = ''reliable'', ed_qos_depth = 10, ed_publish_result = True,
      ed_result_reliability = ''best_effort'', ed_result_depth = 1, ed_default_codec = ''none'',
      ed_codec = ''none'', ed_topic = cloud_topic, ed_sub = None, ed_result_pub = None, ed_encoder = False,
      ed_decoder = False, ed_result_errors = 0, ed_decode_errors = 0, ed_frames = 0,
      ed_results_published = 0, ed_seq_gaps = 0, ed_last_seq = None, ed_results = []\<rparr>"

definition example_render :: render where
  "example_render =
     \<lparr>nd_run_id = None, nd_recorder = None, nd_last_status = None,
      nd_client = new_client ''render'' ''ue1'' ''ws://infra:8099/ws/node'' [] 0 [] [] 7,
      nd_autostart = True, nd_instance = 0, nd_runs_dir = ''runs'',
      rd_sink_kind = ''rerun'', rd_reliability = ''best_effort'', rd_qos_depth = 1,
      rd_default_codec = ''none'', rd_codec = ''none'', rd_topic = ''mec_cast/result'', rd_sub = None,
      rd_sink = None, rd_decoder = False, rd_frames = 0, rd_drawn = 0, rd_decode_errors = 0,
      rd_seq_gaps = 0, rd_last_seq = None, rd_progress_mark = 0\<rparr>"

definition example_lidar :: lidar where
  "example_lidar =
     \<lparr>nd_run_id = None, nd_recorder = None, nd_last_status = None,
      nd_client = new_client ''client'' ''ue1'' ''ws://infra:8099/ws/node'' [] 0 [] [] 7,
      nd_autostart = False, nd_instance = 0, nd_runs_dir = ''runs'',
      ld_seed = 42, ld_num_points = 5000, ld_rate = (10, ''10.0''), ld_pattern = ''uniform_cube'',
      ld_reliability = ''reliable'', ld_qos_depth = 10, ld_codec = ''none'',
      ld_precision = (1 / 1000, ''0.001''), ld_dataset = [], ld_dataset_start = 0, ld_dataset_points = 0,
      ld_dataset_loop = True, ld_replay = None, ld_replay_ended = False, ld_encoder = False,
      ld_encode_errors = 0, ld_trace = replicate 16 0, ld_timer = False, ld_seq = 0, ld_published = 0,
      ld_sent = []\<rparr>"

lemma example_nodes:
  "node_made example_edge" "edge_inv example_edge"
  "node_made example_render" "render_inv example_render"
  "node_made example_lidar" "lidar_inv example_lidar"
  by (simp_all add: node_made_def example_edge_def example_render_def example_lidar_def new_client_def
      edge_inv_def render_inv_def lidar_inv_def)

text \<open>A node whose admin told it to record a run.\<close>

definition start_frame :: "pdict \<Rightarrow> pdict" where
  "start_frame args =
     [(''v'', JInt 1), (''type'', JStr ''command''), (''msg_id'', JStr ''m1''),
      (''payload'', JObj [(''command'', JStr ''run.start''), (''run_id'', JStr ''r1''), (''args'', JObj args)])]"

definition listening :: "('a node_scheme) node_class \<Rightarrow> pdict \<Rightarrow> 'a node_scheme \<Rightarrow> 'a node_scheme" where
  "listening k frame n0 =
     (let n1 = snd (node_bootstrap k example_nenv [] n0)
      in n1\<lparr>nd_client := on_received (\<lambda>_. True) (''p'', 4) (Inr (JObj frame))
                           (open_session (\<lambda>_. True) (''h'', 5) (nd_client n1))\<rparr>)"

definition commanded :: "('a node_scheme) node_class \<Rightarrow> pdict \<Rightarrow> 'a node_scheme \<Rightarrow> 'a node_scheme" where
  "commanded k frame n0 = snd (drain_node k example_nenv (listening k frame n0))"

lemma commanded_reachable:
  assumes "fst (node_bootstrap k example_nenv [] n0) = Inr ()"
    and "\<not> cl_connected (nd_client (snd (node_bootstrap k example_nenv [] n0)))"
    and "fst (drain_node k example_nenv (listening k frame n0)) = Inr ()"
  shows "node_reachable k work n0 (commanded k frame n0)"
proof -
  let ?n1 = "snd (node_bootstrap k example_nenv [] n0)"
  let ?c = "open_session (\<lambda>_. True) (''h'', 5) (nd_client ?n1)"
  have 1: "node_reachable k work n0 ?n1"
    using assms(1) by (intro nr_start [of k example_nenv "[]"]) (metis prod.collapse)
  have 2: "node_reachable k work n0 (?n1\<lparr>nd_client := ?c\<rparr>)"
    using nr_step [OF 1 nst_socket [OF ss_open [OF assms(2)]]] .
  have 3: "node_reachable k work n0 (listening k frame n0)"
    using nr_step [OF 2 nst_socket [OF ss_receive]] by (simp add: listening_def Let_def)
  show ?thesis
    by (rule nr_step [OF 3 nst_drain [of k example_nenv]]) (simp add: commanded_def prod_eq_iff assms(3))
qed

section \<open>What a node tells the admin\<close>

text \<open>C5. A node that reconnects in the middle of a run announces the run it is recording: in every state
  the edge can reach, the hello it sends on a new connection says \<open>running\<close> exactly when a recorder is
  open, and names that recorder's run.\<close>

theorem hello_tells_the_run:
  assumes "node_reachable edge_class edge_work n0 n" and "node_made n0" and "edge_inv n0"
    and "cl_enabled (nd_client n)" and "\<not> cl_stop (nd_client n)"
  shows "\<exists>i. cl_wire (open_session (\<lambda>_. True) st (nd_client n)) = cl_wire (nd_client n) @
           [W_Hello (cl_build ''hello'' (hello_dict i) (cl_node_id (nd_client n)) st)]
         \<and> (id_state i = ''running'' \<longleftrightarrow> nd_recorder n \<noteq> None)
         \<and> (\<forall>r. nd_recorder n = Some r \<longrightarrow> id_run_id i = Some (tr_run r))"
proof -
  have "edge_inv n" and "told n"
    using edge_run.reachable_holds [OF assms(1-3)] by blast+
  then show ?thesis
    using assms(4,5)
    by (intro exI [of _ "cl_identity (nd_client n)"])
       (auto simp: open_session_def transmit_def told_def edge_inv_def node_state_text_def node_running_def)
qed

lemma commanded_edge:
  "node_reachable edge_class edge_work example_edge (commanded edge_class (start_frame []) example_edge)"
  by (rule commanded_reachable) code_simp+

theorem hello_tells_the_run_witness:
  "let n = commanded edge_class (start_frame []) example_edge
   in \<exists>i. cl_wire (open_session (\<lambda>_. True) (''m'', 9) (nd_client n)) = cl_wire (nd_client n) @
           [W_Hello (cl_build ''hello'' (hello_dict i) (cl_node_id (nd_client n)) (''m'', 9))]
         \<and> id_state i = ''running'' \<and> id_run_id i = Some ''r1''"
proof -
  let ?n = "commanded edge_class (start_frame []) example_edge"
  have "cl_enabled (nd_client ?n)" and "\<not> cl_stop (nd_client ?n)" and "map_option tr_run (nd_recorder ?n) = Some ''r1''"
    by code_simp+
  then show ?thesis
    using hello_tells_the_run [OF commanded_edge example_nodes(1,2), of "(''m'', 9)"]
    unfolding Let_def by fastforce
qed

section \<open>What the edge records\<close>

text \<open>The sample of a cloud, and that \<open>_process\<close> offers it.\<close>

definition cloud_sample :: "int \<Rightarrow> int \<Rightarrow> cloud_msg \<Rightarrow> tsample" where
  "cloud_sample rx fin m =
     \<lparr>ts_seq = cm_seq m, ts_capture = cm_capture m, ts_send = cm_send m, ts_recv = rx,
      ts_done = (if cm_points m = None then 0 else fin), ts_bytes = cm_bytes m, ts_trace = cm_trace m\<rparr>"

lemma on_edge_cloud_sample:
  assumes "nd_recorder n = Some r"
  shows "nd_recorder (on_edge_cloud rx fin tx coded m n) = Some (try_record (cloud_sample rx fin m) r)"
    and "ed_frames (on_edge_cloud rx fin tx coded m n) = ed_frames n + 1"
  using assms
  by (auto simp: on_edge_cloud_def note_seq_def record_sample_def cloud_sample_def Let_def split: option.splits)

lemma plain_points_ok:
  "plain_points num bytes row = (if bytes = 12 * num then Inr (map row [0..<num])
     else Inl (if bytes mod 4 \<noteq> 0 then ''buffer size must be a multiple of element size'' else ''cannot reshape array''))"
  by (auto simp: plain_points_def)

text \<open>C8. Every cloud the edge processes is offered to the recorder of the current run exactly once, decoded or
  not, and its ring keeps it or counts it as dropped: the new sample carries the arrival stamp and the
  envelope's own stamps, with no processing stamp when the codec could not decode the cloud, and frames
  are samples kept plus samples dropped. An uncoded cloud whose bytes are not the rows it declares is
  the exception: it raises out of the callback with nothing offered and no frame counted.\<close>

theorem edge_records_every_cloud:
  assumes "node_reachable edge_class edge_work n0 n" and "node_made n0" and "edge_inv n0"
    and "ed_sub n \<noteq> None"
    and "(res, n') = (if coded_topic then (Inr (), on_cloud_gpcc rx fin tx coded decoded m n)
                      else on_cloud rx fin tx coded num row m n)"
  shows "\<exists>r r'. nd_recorder n = Some r \<and> nd_run_id n = Some (tr_run r) \<and> nd_recorder n' = Some r'
     \<and> (if \<not> coded_topic \<and> cm_bytes m \<noteq> 12 * num
        then (\<exists>err. res = Inl err) \<and> r' = r \<and> ed_frames n' = ed_frames n
        else res = Inr () \<and> ed_frames n' = ed_frames n + 1 \<and> ed_frames n' = length (tr_kept r') + tr_dropped r'
          \<and> (\<exists>t. r' = try_record t r \<and> ts_recv t = rx \<and> ts_seq t = cm_seq m \<and> ts_capture t = cm_capture m
                \<and> ts_send t = cm_send m \<and> ts_done t = (if coded_topic \<and> decoded = None then 0 else fin)))"
proof -
  have inv: "edge_inv n"
    using edge_run.reachable_holds [OF assms(1-3)] by blast
  then obtain r where r: "nd_recorder n = Some r" "nd_run_id n = Some (tr_run r)"
      "length (tr_samples r) = ed_frames n" "recorder_wf r"
    using assms(4) by (auto simp: edge_inv_def)
  note sample = on_edge_cloud_sample [OF r(1)]
  have kept: "length (tr_kept (try_record t r)) + tr_dropped (try_record t r) = ed_frames n + 1" for t
    using try_record_simps(4) [OF r(4), of t] r(3) by (simp add: recorder_wf_def)
  show ?thesis
  proof (cases "coded_topic \<or> cm_bytes m = 12 * num")
    case True
    then obtain m' where m': "res = Inr ()" "n' = on_edge_cloud rx fin tx coded m' n"
      "cm_seq m' = cm_seq m" "cm_capture m' = cm_capture m" "cm_send m' = cm_send m"
      "(cm_points m' = None) = (coded_topic \<and> decoded = None)"
      using assms(5) plain_points_ok [of num "cm_bytes m" row]
      by (auto simp: on_cloud_def on_cloud_gpcc_def split: if_splits)
    then show ?thesis
      using r(1,2) True kept sample [of rx fin tx coded m']
      by (auto intro!: exI [of _ "cloud_sample rx fin m'"] simp: cloud_sample_def)
  next
    case False
    then obtain err where "plain_points num (cm_bytes m) row = Inl err"
      using plain_points_ok [of num "cm_bytes m" row] by (cases "plain_points num (cm_bytes m) row") auto
    then show ?thesis
      using False assms(5) r(1,2) by (auto simp: on_cloud_def note_seq_def)
  qed
qed

text \<open>What the exception does: \<open>rclpy.spin\<close> ends, and the drain of the shared main closes the run, one bad
  cloud after the start of it.\<close>

lemma misshapen_cloud_ends_run:
  assumes "cm_bytes m \<noteq> 12 * num"
  shows "\<exists>err n'. on_cloud rx fin tx coded num row m n = (Inl err, n')
    \<and> nd_recorder (finish edge_class e n') = None \<and> ed_sub (finish edge_class e n') = (if node_running n then None else ed_sub n)"
proof -
  obtain err where "plain_points num (cm_bytes m) row = Inl err"
    using plain_points_ok [of num "cm_bytes m" row] assms by (cases "plain_points num (cm_bytes m) row") auto
  then show ?thesis
    by (auto simp: on_cloud_def finish_def edge_stop_def close_telemetry_def node_running_def note_seq_def
        split: option.splits)
qed

theorem edge_records_every_cloud_witness:
  "let n = commanded edge_class (start_frame []) example_edge;
       m = \<lparr>cm_capture = 5, cm_send = 6, cm_seq = 0, cm_trace = [], cm_bytes = 12, cm_points = None\<rparr>
   in (\<exists>r. nd_recorder (on_cloud_gpcc 9 10 11 True None m n) = Some r
          \<and> ed_frames (on_cloud_gpcc 9 10 11 True None m n) = length (tr_kept r) + tr_dropped r)
      \<and> ed_frames (snd (on_cloud 9 10 11 True 2 (\<lambda>_. (0, 0, 0)) m n)) = ed_frames n"
proof -
  let ?n = "commanded edge_class (start_frame []) example_edge"
  let ?m = "\<lparr>cm_capture = 5, cm_send = 6, cm_seq = 0, cm_trace = [], cm_bytes = 12, cm_points = None\<rparr>"
  have "ed_sub ?n \<noteq> None"
    by code_simp
  note C8 = edge_records_every_cloud [OF commanded_edge example_nodes(1,2) this, where rx = 9 and fin = 10 and tx = 11
      and coded = True and m = ?m and decoded = None and num = 2 and row = "\<lambda>_. (0, 0, 0)"]
  from C8 [of "Inr ()" _ True] C8 [of _ _ False, OF prod.collapse [THEN trans]] show ?thesis
    unfolding Let_def by auto
qed

text \<open>Half a voxel, along one axis.\<close>

lemma floor_centre:
  fixes x :: rat
  shows "\<bar>x - (of_int \<lfloor>x / voxel_size\<rfloor> + 1 / 2) * voxel_size\<bar> \<le> voxel_size / 2"
proof -
  have "of_int \<lfloor>x * 2\<rfloor> \<le> x * 2" and "x * 2 < of_int \<lfloor>x * 2\<rfloor> + 1"
    by linarith+
  then show ?thesis
    by (simp add: voxel_size_def abs_le_iff field_simps)
qed

text \<open>What the edge sends down covers what it received: every point of a cloud lies within half a
  voxel of a voxel centre in the result, along each axis; every centre is that of a point's voxel; no voxel
  is sent twice, so the result is never larger than the cloud.\<close>

theorem result_covers_cloud:
  "(\<forall>(x, y, z) \<in> set pts. \<exists>(a, b, c) \<in> set (map voxel_centre (voxels_of pts)).
       \<bar>x - a\<bar> \<le> voxel_size / 2 \<and> \<bar>y - b\<bar> \<le> voxel_size / 2 \<and> \<bar>z - c\<bar> \<le> voxel_size / 2)
   \<and> set (voxels_of pts) = voxel_of ` set pts
   \<and> distinct (voxels_of pts) \<and> length (voxels_of pts) \<le> length pts"
proof -
  have set_eq: "set (voxels_of pts) = voxel_of ` set pts"
    by (simp add: voxels_of_def)
  have "\<exists>q \<in> set (map voxel_centre (voxels_of pts)). case q of (a, b, c) \<Rightarrow>
       \<bar>x - a\<bar> \<le> voxel_size / 2 \<and> \<bar>y - b\<bar> \<le> voxel_size / 2 \<and> \<bar>z - c\<bar> \<le> voxel_size / 2"
    if "(x, y, z) \<in> set pts" for x y z
  proof (rule bexI [of _ "voxel_centre (voxel_of (x, y, z))"])
    show "voxel_centre (voxel_of (x, y, z)) \<in> set (map voxel_centre (voxels_of pts))"
      using that by (auto simp: set_eq)
  qed (use floor_centre in \<open>simp add: voxel_centre_def voxel_of_def\<close>)
  moreover have "length (voxels_of pts) \<le> length pts"
    using length_remdups_leq [of "sort (map voxel_of pts)"] by (simp add: voxels_of_def)
  ultimately show ?thesis
    using set_eq by (auto simp: voxels_of_def)
qed

theorem result_covers_cloud_witness:
  "length (voxels_of [(1 / 10, 1, 2), (2 / 10, 1, 2)]) \<le> 2"
  using result_covers_cloud [of "[(1 / 10, 1, 2), (2 / 10, 1, 2)]"] by simp

section \<open>The lidar client and the edge together\<close>

text \<open>What the edge receives: each message with its stamps.\<close>

definition edge_receives :: "(int \<times> int \<times> int \<times> bool \<times> cloud_msg) list \<Rightarrow> edge \<Rightarrow> edge" where
  "edge_receives = fold (\<lambda>(rx, fin, tx, coded, m). on_edge_cloud rx fin tx coded m)"

lemma on_edge_cloud_seq:
  "ed_last_seq (on_edge_cloud rx d t b m n) = Some (cm_seq m)"
  "ed_seq_gaps (on_edge_cloud rx d t b m n) =
     ed_seq_gaps n + (case ed_last_seq n of None \<Rightarrow> 0 | Some l \<Rightarrow> if cm_seq m = l + 1 then 0 else 1)"
  "ed_frames (on_edge_cloud rx d t b m n) = ed_frames n + 1"
  by (auto simp: on_edge_cloud_def note_seq_def record_sample_def Let_def split: option.splits)

lemma edge_receives_consecutive:
  assumes "map (\<lambda>(rx, fin, tx, coded, m). cm_seq m) evs = map int [k..<k + length evs]"
    and "ed_last_seq n = None \<or> ed_last_seq n = Some (int k - 1)"
  shows "ed_seq_gaps (edge_receives evs n) = ed_seq_gaps n \<and> ed_frames (edge_receives evs n) = ed_frames n + length evs"
  using assms
proof (induction evs arbitrary: k n)
  case (Cons ev evs)
  obtain rx d t b m where ev: "ev = (rx, d, t, b, m)"
    by (cases ev)
  have "[k..<k + length (ev # evs)] = k # [Suc k..<Suc k + length evs]"
    by (simp add: upt_conv_Cons del: upt_Suc)
  then have seq: "cm_seq m = int k" and rest: "map (\<lambda>(rx, fin, tx, coded, m). cm_seq m) evs
      = map int [Suc k..<Suc k + length evs]"
    using Cons.prems(1) by (simp_all add: ev del: upt_Suc)
  let ?n1 = "on_edge_cloud rx d t b m n"
  have "ed_seq_gaps ?n1 = ed_seq_gaps n" and "ed_last_seq ?n1 = Some (int (Suc k) - 1)"
    using Cons.prems(2) seq by (auto simp: on_edge_cloud_seq)
  then show ?case
    using Cons.IH [OF rest, of ?n1] by (simp add: edge_receives_def ev on_edge_cloud_seq(3))
qed (simp add: edge_receives_def)

lemma sorted_full:
  fixes xs :: "int list"
  assumes "sorted_wrt (<) xs" and "\<forall>x \<in> set xs. 0 \<le> x \<and> x < int m" and "length xs = m"
  shows "xs = map int [0..<m]"
proof -
  have "distinct xs" and "sorted xs"
    using assms(1) strict_sorted_iff by auto
  have "set xs \<subseteq> {0..<int m}"
    using assms(2) by auto
  moreover have "card (set xs) = card {0..<int m}"
    using \<open>distinct xs\<close> assms(3) by (simp add: distinct_card)
  ultimately have "set xs = {0..<int m}"
    by (simp add: card_subset_eq)
  also have "\<dots> = set (map int [0..<m])"
    by (auto simp: image_iff) (metis atLeastLessThan_iff nat_0_le nat_less_iff zero_le)
  finally show ?thesis
    using \<open>distinct xs\<close> \<open>sorted xs\<close>
    by (intro sorted_distinct_set_unique) (simp_all add: sorted_map distinct_map inj_on_def)
qed

end
