(* ===== verification/Node_Faults.thy ===== *)
theory Node_Faults
  imports Node_Props
begin

text \<open>
  The lidar client and the edge over a link that loses nothing, and the starts that are refused or
  half done and yet leave a node recording.
\<close>

lemma commanded_lidar:
  "node_reachable lidar_class lidar_work example_lidar (commanded lidar_class (start_frame []) example_lidar)"
  by (rule commanded_reachable) code_simp+

text \<open>C9. On a link that loses nothing the edge counts no gap: when the lidar client's encoder refused no
  frame and the edge receives exactly the frames the client recorded as sent, in their order, the edge
  records as many frames as the client and its gap counter stays at zero.\<close>

theorem lossless_link_no_gaps:
  assumes "node_reachable lidar_class lidar_work l0 l" and "node_made l0" and "lidar_inv l0"
    and "nd_recorder l = Some r" and "ld_encode_errors l = 0"
    and "map (\<lambda>(rx, fin, tx, coded, m). cm_seq m) evs = sample_seqs r"
    and "ed_last_seq n = None" and "ed_seq_gaps n = 0" and "ed_frames n = 0"
  shows "ed_seq_gaps (edge_receives evs n) = 0 \<and> ed_frames (edge_receives evs n) = ld_published l"
proof -
  have inv: "lidar_inv l"
    using lidar_run.reachable_holds [OF assms(1-3)] by blast
  then have full: "sample_seqs r = map int [0..<ld_seq l]" and len: "length (tr_samples r) = ld_seq l"
      "ld_published l = ld_seq l"
    using assms(4,5) by (auto simp: lidar_inv_def sample_seqs_def intro!: sorted_full)
  have "length evs = ld_seq l"
    using arg_cong [OF assms(6), of length] len by (simp add: sample_seqs_def)
  then show ?thesis
    using edge_receives_consecutive [of evs 0 n] assms(6-9) full len by simp
qed

theorem lossless_link_no_gaps_witness:
  "let l = publish_frame 5 6 None 3 (commanded lidar_class (start_frame []) example_lidar)
   in ed_seq_gaps (edge_receives [(9, 10, 11, True, \<lparr>cm_capture = 5, cm_send = 6, cm_seq = 0, cm_trace = [],
        cm_bytes = 36, cm_points = None\<rparr>)] example_edge) = 0 \<and> ld_published l = 1"
proof -
  let ?n = "commanded lidar_class (start_frame []) example_lidar"
  let ?l = "publish_frame 5 6 None 3 ?n"
  let ?evs = "[(9, 10, 11, True, \<lparr>cm_capture = 5, cm_send = 6, cm_seq = 0, cm_trace = [],
        cm_bytes = 36, cm_points = None\<rparr>)]"
  have "ld_timer ?n" by code_simp
  then have reach: "node_reachable lidar_class lidar_work example_lidar ?l"
    by (intro nr_step [OF commanded_lidar nst_work] lw_frame)
  have facts: "ld_encode_errors ?l = 0" "ld_published ?l = 1" "map_option sample_seqs (nd_recorder ?l) = Some [0]"
    by code_simp+
  then obtain r where r: "nd_recorder ?l = Some r" "sample_seqs r = [0]"
    by auto
  have "ed_seq_gaps (edge_receives ?evs example_edge) = 0
      \<and> ed_frames (edge_receives ?evs example_edge) = ld_published ?l"
    by (rule lossless_link_no_gaps [OF reach example_nodes(5,6) r(1) facts(1)])
       (simp_all add: r(2) example_edge_def)
  then show ?thesis
    using facts(2) by (simp add: Let_def)
qed

lemma lidar_stop_not_running: "\<not> node_running (snd (lidar_stop e n))"
  by (auto simp: lidar_stop_def close_telemetry_def node_running_def split: option.splits)

text \<open>A run's codec outlives the run on the lidar client but not on the edge: after a run with
  \<open>gpcc\<close>, a run that names no codec leaves the client coding its frames while the edge, back on its default,
  subscribes the topic of uncoded clouds, so no frame arrives.\<close>

theorem codec_outlives_run_on_client:
  assumes "lidar_start e1 r1 (JObj [(''codec'', JStr ''gpcc'')]) l = (Inr (), l1)" and "\<not> node_running l"
    and "lidar_start e2 r2 JNull (snd (lidar_stop e2 l1)) = (Inr (), l2)"
    and "edge_start e3 r2 JNull n = (Inr (), n2)" and "\<not> node_running n" and "ed_default_codec n = ''none''"
  shows "ld_codec l2 = ''gpcc'' \<and> ld_encoder l2 \<and> ed_codec n2 = ''none'' \<and> ed_sub n2 = Some cloud_topic"
proof -
  have "ld_codec l1 = ''gpcc''"
    using lidar_start_codec [OF assms(1,2)] by (simp add: run_knobs_codec)
  then have l2: "ld_codec l2 = ''gpcc'' \<and> ld_encoder l2"
    using lidar_start_codec [OF assms(3) lidar_stop_not_running] by (simp add: run_knobs_codec lidar_stop_codec)
  have "ed_codec n2 = ''none'' \<and> ed_sub n2 = Some cloud_topic"
    using assms(4)
  proof (cases rule: edge_start_cases)
    case (recording codec dir)
    then have "codec = ''none''"
      using assms(6) by (auto simp: run_codec_def edge_check_codec_def split: if_splits)
    then show ?thesis
      using recording(2) by (auto simp: edge_wire_def edge_reset_def Let_def split: sum.splits if_splits)
  qed (use assms(5) in simp_all)
  then show ?thesis
    using l2 by blast
qed

theorem codec_outlives_run_on_client_witness:
  "ld_codec (snd (lidar_start example_nenv ''r2'' JNull (snd (lidar_stop example_nenv
     (snd (lidar_start example_nenv ''r1'' (JObj [(''codec'', JStr ''gpcc'')]) example_lidar)))))) = ''gpcc''
   \<and> ed_sub (snd (edge_start example_nenv ''r2'' JNull example_edge)) = Some cloud_topic"
proof -
  let ?l1 = "snd (lidar_start example_nenv ''r1'' (JObj [(''codec'', JStr ''gpcc'')]) example_lidar)"
  let ?l2 = "lidar_start example_nenv ''r2'' JNull (snd (lidar_stop example_nenv ?l1))"
  let ?n2 = "edge_start example_nenv ''r2'' JNull example_edge"
  have "fst (lidar_start example_nenv ''r1'' (JObj [(''codec'', JStr ''gpcc'')]) example_lidar) = Inr ()"
    and "fst ?l2 = Inr ()" and "fst ?n2 = Inr ()" and "\<not> node_running example_lidar" and "\<not> node_running example_edge"
    and "ed_default_codec example_edge = ''none''"
    by code_simp+
  then show ?thesis
    using codec_outlives_run_on_client [of example_nenv "''r1''" example_lidar ?l1 example_nenv "''r2''" "snd ?l2"
        example_nenv example_edge "snd ?n2"]
    by (simp add: prod_eq_iff)
qed

text \<open>A viewer that does not start leaves the renderer half started: the run is refused, yet the recorder
  is open and nothing is subscribed; the node reports \<open>running\<close>, and a second command to start the same run
  is acknowledged without doing anything.\<close>

theorem failed_viewer_leaves_running:
  assumes "\<not> node_running n" and "render_inv n" and "ne_sink e = Inl err" and "\<forall>dir. ne_opens e dir"
    and "rd_default_codec n = ''none''"
  shows "\<exists>n'. render_start e rid JNull n = (Inl err, n') \<and> node_state_text n' = ''running'' \<and> rd_sub n' = None
     \<and> nd_run_id n' = Some rid \<and> render_start e' rid args n' = (Inr (), n')"
proof -
  have settle: "render_settle e n = n"
    using assms(1) by (simp add: render_settle_def)
  have "rd_sub n = None"
    using assms(1,2) by (auto simp: render_inv_def node_running_def)
  then show ?thesis
    using assms
    by (auto simp: render_start_def settle run_codec_def edge_check_codec_def codecs_def make_recorder_def render_wire_def
        node_state_text_def node_running_def Let_def)
qed

theorem failed_viewer_leaves_running_witness:
  "\<exists>n'. render_start example_nenv ''r1'' JNull example_render = (Inl ''port in use'', n')
     \<and> node_state_text n' = ''running'' \<and> rd_sub n' = None"
  using failed_viewer_leaves_running [of example_render example_nenv "''port in use''" "''r1''"] example_nodes(4)
  by (auto simp: example_render_def example_nenv_def node_running_def)

text \<open>The admin accepts a rate the client cannot run: parameters with a \<open>rate_hz\<close> of zero pass the check a
  run is created with, the lidar client then refuses the start, but only after its recorder is open, so
  it reports \<open>running\<close> and \<open>streaming\<close> and never sends a frame.\<close>

theorem zero_rate_never_streams:
  assumes "\<not> node_running l" and "lidar_inv l" and "ld_pattern l = ''uniform_cube''" and "ld_codec l = ''none''"
    and "0 < fst (ld_precision l)" and "\<forall>dir. ne_opens e dir" and "ne_rng e (ld_seed l)"
    and "ne_float e (JInt 0) = Some (0, t)"
  shows "check_params pd [(''rate_hz'', JInt 0)] = Inr [(''rate_hz'', JInt 0)]
     \<and> (\<exists>err l'. lidar_start e rid (JObj [(''rate_hz'', JInt 0)]) l = (Inl err, l')
          \<and> node_state_text l' = ''running'' \<and> nk_streaming lidar_class l' \<and> \<not> ld_timer l'
          \<and> (\<forall>l''. \<not> lidar_work l' l''))"
proof -
  have "lidar_settle e l = l" and timer: "\<not> ld_timer l"
    using assms(1,2) by (auto simp: lidar_settle_def lidar_inv_def node_running_def)
  moreover have "run_knobs e (JObj [(''rate_hz'', JInt 0)]) l = (True, l\<lparr>ld_rate := (0, t)\<rparr>)"
    using assms(8) by (simp add: run_knobs_def knobs_def set_knob_def pget_def)
  ultimately have "\<exists>err l'. lidar_start e rid (JObj [(''rate_hz'', JInt 0)]) l = (Inl err, l')
          \<and> node_running l' \<and> \<not> ld_timer l'"
    using assms(1,3-7)
    by (auto simp: lidar_start_def lidar_prepare_def lidar_check_codec_def codecs_def patterns_def open_replay_def
        lidar_open_def make_recorder_def node_running_def Let_def)
  moreover have "check_params pd [(''rate_hz'', JInt 0)] = Inr [(''rate_hz'', JInt 0)]"
    by (simp add: check_params_def refused_param_def param_checks_def pget_def)
  ultimately show ?thesis
    by (elim exE conjE, intro conjI exI) (auto simp: node_state_text_def lidar_class_def elim: lidar_work.cases)
qed

theorem zero_rate_never_streams_witness:
  "\<exists>err l'. lidar_start example_nenv ''r1'' (JObj [(''rate_hz'', JInt 0)]) example_lidar = (Inl err, l')
     \<and> node_state_text l' = ''running'' \<and> \<not> ld_timer l'"
proof -
  have "\<not> node_running example_lidar" and "ld_pattern example_lidar = ''uniform_cube''"
    and "ld_codec example_lidar = ''none''" and "0 < fst (ld_precision example_lidar)"
    and "\<forall>dir. ne_opens example_nenv dir" and "ne_rng example_nenv (ld_seed example_lidar)" and "ne_float example_nenv (JInt 0) = Some (0, dec_int 0)"
    by (simp_all add: example_lidar_def example_nenv_def node_running_def)
  note facts = zero_rate_never_streams [OF this(1) example_nodes(6) this(2-7), THEN conjunct2]
  from facts [of "''r1''"] show ?thesis
    by blast
qed

end
