(* ===== verification/Json_Feed.thy ===== *)
theory Json_Feed
  imports Xapp_Core
begin

text \<open>
  The xApp's E2 port over the JSON feed protocol (ran/xapp/src/mec_cast_xapp/adapters/jsonfeed.py), and
  the two transports that carry it: a WebSocket to gnb-sim (sim.py) and a child process
  (flexric.py).

  \<open>feed\<close> is the state of \<open>JsonFeedPort\<close>; a transport extends it. \<open>fd_calls\<close> is what the callbacks were
  called with, in order; a callback is a value of \<open>'c\<close> or \<open>'d\<close>, and is taken not to raise. A request
  that waits for its answer is given the messages the reader dispatches meanwhile. A transport's
  \<open>wire\<close> is what the present incarnation of the far end was sent: a new connection or a new process
  has forgotten everything. \<open>tx\<close> is the subclass's \<open>_send\<close>; false is an exception.
\<close>

section \<open>State\<close>

datatype ('c, 'd) feed_call = Indicated string 'c json | Controlled string 'd bool string

record ('c, 'd) feed =
  fd_next :: nat
  fd_subs :: "(string \<times> 'c) list"
  fd_reqs :: "(string \<times> pdict) list"
  fd_controls :: "(string \<times> 'd option) list"
  fd_waiting :: "string list"
  fd_data :: "(string \<times> pdict) list"
  fd_calls :: "('c, 'd) feed_call list"

datatype port_error = Send_Failed | No_Answer | Rejected string

section \<open>The protocol\<close>

definition call_back :: "pdict \<Rightarrow> ('c, 'd, 'z) feed_scheme \<Rightarrow> ('c, 'd, 'z) feed_scheme" where
  "call_back msg p =
     (let op = pget msg ''op''; i = py_str (pget msg ''id'')
      in if op = JStr ''indication''
         then (case (map_of (fd_subs p) i, map_of msg ''indication'') of
                 (Some c, Some ind) \<Rightarrow> p\<lparr>fd_calls := fd_calls p @ [Indicated i c ind]\<rparr>
               | _ \<Rightarrow> p)
         else if op = JStr ''control_ack''
         then (case map_of (fd_controls p) i of
                 None \<Rightarrow> p
               | Some cb \<Rightarrow>
                   p\<lparr>fd_controls := dpop i (fd_controls p),
                     fd_calls := fd_calls p @
                       (case cb of
                          None \<Rightarrow> []
                        | Some d \<Rightarrow> [Controlled i d (truthy (pget msg ''ok''))
                                       (py_str (py_or (pget msg ''detail'') (JStr [])))])\<rparr>)
         else p)"

definition reply_key :: "pdict \<Rightarrow> string" where
  "reply_key msg =
     (let op = pget msg ''op''
      in (if op = JStr ''subscribe_failed'' then ''subscribed'' else py_str op) @ '':''
         @ py_str (pget_or msg ''id'' (JStr [])))"

definition dispatch_msg :: "pdict \<Rightarrow> ('c, 'd, 'z) feed_scheme \<Rightarrow> ('c, 'd, 'z) feed_scheme" where
  "dispatch_msg msg p =
     (let p1 = call_back msg p
      in if reply_key msg \<in> set (fd_waiting p1)
         then p1\<lparr>fd_data := dput (reply_key msg) msg (fd_data p1)\<rparr>
         else p1)"

text \<open>\<open>_request\<close>: \<open>msgs\<close> is what arrives before the event or the timeout ends the wait.\<close>

definition end_wait :: "string \<Rightarrow> ('c, 'd, 'z) feed_scheme \<Rightarrow> ('c, 'd, 'z) feed_scheme" where
  "end_wait key p = p\<lparr>fd_waiting := removeAll key (fd_waiting p)\<rparr>"

definition feed_request ::
  "(pdict \<Rightarrow> ('c, 'd, 'z) feed_scheme \<Rightarrow> bool \<times> ('c, 'd, 'z) feed_scheme) \<Rightarrow> pdict \<Rightarrow> string \<Rightarrow> pdict list \<Rightarrow>
   ('c, 'd, 'z) feed_scheme \<Rightarrow> (port_error + pdict) \<times> ('c, 'd, 'z) feed_scheme" where
  "feed_request tx obj reply_op msgs p =
     (let key = reply_op @ '':'' @ py_str (pget_or obj ''id'' (JStr []))
      in case tx obj (p\<lparr>fd_waiting := key # fd_waiting p\<rparr>) of
           (False, p1) \<Rightarrow> (Inl Send_Failed, end_wait key p1)
         | (True, p1) \<Rightarrow>
             (let p2 = fold dispatch_msg msgs p1
              in case map_of (fd_data p2) key of
                   None \<Rightarrow> (Inl No_Answer, end_wait key p2)
                 | Some reply \<Rightarrow> (Inr reply, end_wait key (p2\<lparr>fd_data := dpop key (fd_data p2)\<rparr>))))"

text \<open>A subscription as it is sent, and sent again.\<close>

definition sub_msg :: "string \<Rightarrow> pdict \<Rightarrow> pdict" where
  "sub_msg sid req = dmerge req [(''op'', JStr ''subscribe''), (''id'', JStr sid)]"

definition resubscriptions :: "('c, 'd, 'z) feed_scheme \<Rightarrow> pdict list" where
  "resubscriptions p = map (\<lambda>(sid, req). sub_msg sid req) (fd_reqs p)"

section \<open>The E2 port\<close>

definition feed_nodes ::
  "(pdict \<Rightarrow> ('c, 'd, 'z) feed_scheme \<Rightarrow> bool \<times> ('c, 'd, 'z) feed_scheme) \<Rightarrow> pdict list \<Rightarrow>
   ('c, 'd, 'z) feed_scheme \<Rightarrow> json list \<times> ('c, 'd, 'z) feed_scheme" where
  "feed_nodes tx msgs p =
     (case feed_request tx [(''op'', JStr ''nodes'')] ''nodes'' msgs p of
        (Inl _, p1) \<Rightarrow> ([], p1)
      | (Inr reply, p1) \<Rightarrow>
          (case py_list (py_or (pget reply ''nodes'') (JArr [])) of None \<Rightarrow> [] | Some ns \<Rightarrow> ns, p1))"

definition feed_kpm_req :: "string \<Rightarrow> int \<Rightarrow> string list \<Rightarrow> int list \<Rightarrow> int \<Rightarrow> pdict" where
  "feed_kpm_req node style metrics ue_ids period_ms =
     [(''style'', JInt style), (''metrics'', JArr (map JStr metrics)), (''ue_ids'', JArr (map JInt ue_ids)),
      (''period_ms'', JInt period_ms), (''node'', JStr node)]"

definition sub_id :: "nat \<Rightarrow> string" where
  "sub_id n = ''kpm-'' @ dec_nat n"

definition control_id :: "nat \<Rightarrow> string" where
  "control_id n = ''ctl-'' @ dec_nat n"

definition feed_subscribe ::
  "(pdict \<Rightarrow> ('c, 'd, 'z) feed_scheme \<Rightarrow> bool \<times> ('c, 'd, 'z) feed_scheme) \<Rightarrow> pdict \<Rightarrow> 'c \<Rightarrow> pdict list \<Rightarrow>
   ('c, 'd, 'z) feed_scheme \<Rightarrow> (port_error + string) \<times> ('c, 'd, 'z) feed_scheme" where
  "feed_subscribe tx req c msgs p =
     (let sid = sub_id (fd_next p);
          p1 = p\<lparr>fd_next := fd_next p + 1, fd_subs := dput sid c (fd_subs p)\<rparr>
      in case feed_request tx (sub_msg sid req) ''subscribed'' msgs p1 of
           (Inl err, p2) \<Rightarrow> (Inl err, p2)
         | (Inr reply, p2) \<Rightarrow>
             (if pget reply ''op'' = JStr ''subscribe_failed''
              then (Inl (Rejected (py_str (py_or (pget reply ''detail'') (JStr ''no reason given'')))),
                    p2\<lparr>fd_subs := dpop sid (fd_subs p2)\<rparr>)
              else (Inr sid, p2\<lparr>fd_reqs := dput sid req (fd_reqs p2)\<rparr>)))"

definition feed_unsubscribe ::
  "(pdict \<Rightarrow> ('c, 'd, 'z) feed_scheme \<Rightarrow> bool \<times> ('c, 'd, 'z) feed_scheme) \<Rightarrow> string \<Rightarrow>
   ('c, 'd, 'z) feed_scheme \<Rightarrow> ('c, 'd, 'z) feed_scheme" where
  "feed_unsubscribe tx handle p =
     snd (tx [(''op'', JStr ''unsubscribe''), (''id'', JStr handle)]
           (p\<lparr>fd_subs := dpop handle (fd_subs p), fd_reqs := dpop handle (fd_reqs p)\<rparr>))"

definition control_msg :: "string \<Rightarrow> string \<Rightarrow> int \<Rightarrow> int \<Rightarrow> int \<Rightarrow> int \<Rightarrow> pdict" where
  "control_msg cid node ue lo hi ded =
     [(''op'', JStr ''control''), (''id'', JStr cid), (''action'', JStr ''prb_quota''), (''node'', JStr node),
      (''ue_id'', JInt ue), (''min_prb_ratio'', JInt lo), (''max_prb_ratio'', JInt hi),
      (''dedicated_prb_ratio'', JInt ded)]"

definition feed_control ::
  "(pdict \<Rightarrow> ('c, 'd, 'z) feed_scheme \<Rightarrow> bool \<times> ('c, 'd, 'z) feed_scheme) \<Rightarrow> string \<Rightarrow> int \<Rightarrow> int \<Rightarrow> int \<Rightarrow> int \<Rightarrow>
   'd option \<Rightarrow> ('c, 'd, 'z) feed_scheme \<Rightarrow> bool \<times> ('c, 'd, 'z) feed_scheme" where
  "feed_control tx node ue lo hi ded cb p =
     (let cid = control_id (fd_next p)
      in tx (control_msg cid node ue lo hi ded)
           (p\<lparr>fd_next := fd_next p + 1, fd_controls := dput cid cb (fd_controls p)\<rparr>))"

section \<open>The two transports\<close>

text \<open>Of a connection: none, usable, one that has failed and is not yet known to (every send on it
  raises), one known to be gone.\<close>

datatype link = Off | Up | Broken | Gone

record ('c, 'd) linked = "('c, 'd) feed" +
  lk_link :: link
  lk_wire :: "pdict list"
  lk_slice :: "string \<times> int \<times> int"

text \<open>\<open>opens\<close>: a new connection or process can be had. \<open>ok\<close>: which messages it takes.\<close>

record feed_env =
  fe_opens :: bool
  fe_ok :: "pdict \<Rightarrow> bool"

definition sim_send :: "feed_env \<Rightarrow> pdict \<Rightarrow> ('c, 'd) linked \<Rightarrow> bool \<times> ('c, 'd) linked" where
  "sim_send e obj p =
     (if lk_link p = Up
      then (if fe_ok e obj then (True, p\<lparr>lk_wire := lk_wire p @ [obj]\<rparr>) else (False, p\<lparr>lk_link := Off\<rparr>))
      else if lk_link p = Broken then (False, p\<lparr>lk_link := Off\<rparr>)
      else if \<not> fe_opens e then (False, p)
      else if \<not> list_all (fe_ok e) (resubscriptions p) then (False, p\<lparr>lk_link := Broken\<rparr>)
      else if fe_ok e obj
      then (True, p\<lparr>lk_link := Up, lk_wire := resubscriptions p @ [obj]\<rparr>)
      else (False, p\<lparr>lk_link := Off\<rparr>))"

text \<open>The reader's end: the connection dropped.\<close>

definition sim_lost :: "('c, 'd) linked \<Rightarrow> ('c, 'd) linked" where
  "sim_lost p = p\<lparr>lk_link := Off\<rparr>"

text \<open>The slice a quota names: PLMN, SST and SD.\<close>

definition slice_fields :: "string \<times> int \<times> int \<Rightarrow> pdict" where
  "slice_fields sl = (case sl of (plmn, sst, sd) \<Rightarrow> [(''plmn'', JStr plmn), (''sst'', JInt sst), (''sd'', JInt sd)])"

definition flexric_send :: "feed_env \<Rightarrow> pdict \<Rightarrow> ('c, 'd) linked \<Rightarrow> bool \<times> ('c, 'd) linked" where
  "flexric_send e obj0 p =
     (let obj = (if pget obj0 ''op'' = JStr ''control'' then dmerge obj0 (slice_fields (lk_slice p)) else obj0);
          again = (if lk_link p = Gone then resubscriptions p else [])
      in if lk_link p = Up
         then (if fe_ok e obj then (True, p\<lparr>lk_wire := lk_wire p @ [obj]\<rparr>) else (False, p\<lparr>lk_link := Broken\<rparr>))
         else if lk_link p = Broken then (False, p)
         else if \<not> fe_opens e then (False, p)
         else if \<not> list_all (fe_ok e) (again @ [obj]) then (False, p\<lparr>lk_link := Broken\<rparr>)
         else (True, p\<lparr>lk_link := Up, lk_wire := again @ [obj]\<rparr>))"

text \<open>The reader at the end of the process: who still waits for a subscription is told it was refused.\<close>

definition refused_msg :: "string \<Rightarrow> pdict" where
  "refused_msg key =
     [(''op'', JStr ''subscribe_failed''), (''id'', JStr (tl (dropWhile (\<lambda>c. c \<noteq> CHR '':'') key))),
      (''detail'', JStr ''bridge exited'')]"

definition flexric_exit :: "('c, 'd) linked \<Rightarrow> ('c, 'd) linked" where
  "flexric_exit p =
     fold (\<lambda>key. dispatch_msg (refused_msg key))
       (filter (\<lambda>key. take 11 key = ''subscribed:'') (fd_waiting p)) (p\<lparr>lk_link := Gone\<rparr>)"

definition new_port :: "string \<times> int \<times> int \<Rightarrow> ('c, 'd) linked" where
  "new_port slice =
     \<lparr>fd_next = 1, fd_subs = [], fd_reqs = [], fd_controls = [], fd_waiting = [], fd_data = [], fd_calls = [],
      lk_link = Off, lk_wire = [], lk_slice = slice\<rparr>"

section \<open>The life of a port\<close>

text \<open>The operations in any order, with messages and losses between them. \<open>tx\<close> takes what the send
  reads of the world, \<open>lost\<close> is what the transport's reader does when the link ends.\<close>

inductive port_step ::
  "('e \<Rightarrow> pdict \<Rightarrow> ('c, 'd, 'z) feed_scheme \<Rightarrow> bool \<times> ('c, 'd, 'z) feed_scheme) \<Rightarrow>
   (('c, 'd, 'z) feed_scheme \<Rightarrow> ('c, 'd, 'z) feed_scheme) \<Rightarrow>
   ('c, 'd, 'z) feed_scheme \<Rightarrow> ('c, 'd, 'z) feed_scheme \<Rightarrow> bool" for tx lost where
  ps_nodes: "port_step tx lost p (snd (feed_nodes (tx e) msgs p))"
| ps_subscribe: "port_step tx lost p (snd (feed_subscribe (tx e) req c msgs p))"
| ps_unsubscribe: "port_step tx lost p (feed_unsubscribe (tx e) handle p)"
| ps_control: "port_step tx lost p (snd (feed_control (tx e) node ue lo hi ded cb p))"
| ps_message: "port_step tx lost p (dispatch_msg msg p)"
| ps_lost: "port_step tx lost p (lost p)"

inductive port_reachable ::
  "('e \<Rightarrow> pdict \<Rightarrow> ('c, 'd, 'z) feed_scheme \<Rightarrow> bool \<times> ('c, 'd, 'z) feed_scheme) \<Rightarrow>
   (('c, 'd, 'z) feed_scheme \<Rightarrow> ('c, 'd, 'z) feed_scheme) \<Rightarrow>
   ('c, 'd, 'z) feed_scheme \<Rightarrow> ('c, 'd, 'z) feed_scheme \<Rightarrow> bool" for tx lost p0 where
  pr_start: "port_reachable tx lost p0 p0"
| pr_step: "port_reachable tx lost p0 p \<Longrightarrow> port_step tx lost p p' \<Longrightarrow> port_reachable tx lost p0 p'"

text \<open>The subscriptions the far end holds after what it was sent.\<close>

definition far_step :: "pdict \<Rightarrow> string set \<Rightarrow> string set" where
  "far_step m held =
     (if pget m ''op'' = JStr ''subscribe'' then insert (py_str (pget m ''id'')) held
      else if pget m ''op'' = JStr ''unsubscribe'' then held - {py_str (pget m ''id'')}
      else held)"

definition far_subs :: "pdict list \<Rightarrow> string set" where
  "far_subs wire = fold far_step wire {}"

section \<open>Lemmas\<close>

lemma call_back_keeps [simp]:
  "fd_next (call_back m p) = fd_next p" "fd_subs (call_back m p) = fd_subs p"
  "fd_reqs (call_back m p) = fd_reqs p" "fd_waiting (call_back m p) = fd_waiting p"
  "fd_data (call_back m p) = fd_data p" "feed.more (call_back m p) = feed.more p"
  by (auto simp: call_back_def Let_def split: option.splits)

lemma dispatch_keeps [simp]:
  "fd_next (dispatch_msg m p) = fd_next p" "fd_subs (dispatch_msg m p) = fd_subs p"
  "fd_reqs (dispatch_msg m p) = fd_reqs p" "fd_waiting (dispatch_msg m p) = fd_waiting p"
  "fd_controls (dispatch_msg m p) = fd_controls (call_back m p)"
  "fd_calls (dispatch_msg m p) = fd_calls (call_back m p)" "feed.more (dispatch_msg m p) = feed.more p"
  by (simp_all add: dispatch_msg_def Let_def)

lemma dispatches_keep [simp]:
  "fd_next (fold dispatch_msg ms p) = fd_next p" "fd_subs (fold dispatch_msg ms p) = fd_subs p"
  "fd_reqs (fold dispatch_msg ms p) = fd_reqs p" "fd_waiting (fold dispatch_msg ms p) = fd_waiting p"
  "feed.more (fold dispatch_msg ms p) = feed.more p"
  by (induction ms arbitrary: p) simp_all

lemma end_wait_keeps [simp]:
  "fd_next (end_wait k p) = fd_next p" "fd_subs (end_wait k p) = fd_subs p" "fd_reqs (end_wait k p) = fd_reqs p"
  "fd_controls (end_wait k p) = fd_controls p" "fd_calls (end_wait k p) = fd_calls p"
  "feed.more (end_wait k p) = feed.more p"
  by (simp_all add: end_wait_def)

lemma sub_msg_gets [simp]: "pget (sub_msg sid req) ''op'' = JStr ''subscribe''" "pget (sub_msg sid req) ''id'' = JStr sid"
  by (simp_all add: sub_msg_def)

lemma far_subs_append: "far_subs (w @ [m]) = far_step m (far_subs w)"
  by (simp add: far_subs_def)

lemma far_subs_resent: "far_subs (resubscriptions p) = set (keys (fd_reqs p))"
proof -
  have "fold far_step (map (\<lambda>(sid, req). sub_msg sid req) rs) held = held \<union> fst ` set rs" for rs held
    by (induction rs arbitrary: held) (auto simp: far_step_def)
  then show ?thesis
    by (auto simp: far_subs_def resubscriptions_def keys_def)
qed

section \<open>What a transport promises\<close>

text \<open>Nothing of the protocol's state changes in a send, and where the message went out, the far end has
  either gone on hearing everything, or is a new one that was sent all the subscriptions first.\<close>

definition same_feed :: "('c, 'd, 'z) feed_scheme \<Rightarrow> ('c, 'd, 'z) feed_scheme \<Rightarrow> bool" where
  "same_feed p q \<longleftrightarrow>
     fd_next q = fd_next p \<and> fd_subs q = fd_subs p \<and> fd_reqs q = fd_reqs p \<and> fd_controls q = fd_controls p
     \<and> fd_waiting q = fd_waiting p \<and> fd_data q = fd_data p \<and> fd_calls q = fd_calls p"

locale feed_transport =
  fixes tx :: "'e \<Rightarrow> pdict \<Rightarrow> ('c, 'd, 'z) feed_scheme \<Rightarrow> bool \<times> ('c, 'd, 'z) feed_scheme"
    and lost :: "('c, 'd, 'z) feed_scheme \<Rightarrow> ('c, 'd, 'z) feed_scheme"
    and up :: "('c, 'd, 'z) feed_scheme \<Rightarrow> bool"
    and wire :: "('c, 'd, 'z) feed_scheme \<Rightarrow> pdict list"
    and fresh :: "('c, 'd, 'z) feed_scheme \<Rightarrow> bool"
  assumes link_only: "feed.more q = feed.more p \<Longrightarrow> up q = up p \<and> wire q = wire p \<and> fresh q = fresh p"
    and tx_same: "same_feed p (snd (tx e m p))"
    and tx_sent: "tx e m p = (True, q) \<Longrightarrow> \<not> (fresh p \<and> fd_reqs p \<noteq> []) \<Longrightarrow>
      \<exists>m'. pget m' ''op'' = pget m ''op'' \<and> pget m' ''id'' = pget m ''id''
         \<and> wire q = (if up p then wire p else resubscriptions p) @ [m']"
    and tx_used: "fst (tx e m p) \<Longrightarrow> \<not> fresh (snd (tx e m p))"
    and tx_fresh: "fresh (snd (tx e m p)) \<Longrightarrow> fresh p"
    and tx_refused: "\<not> fst (tx e m p) \<Longrightarrow> \<not> up (snd (tx e m p))"
    and lost_reqs: "fd_reqs (lost p) = fd_reqs p"
    and lost_calls: "fd_controls (lost p) = fd_controls p" "fd_calls (lost p) = fd_calls p" "fd_next (lost p) = fd_next p"
    and lost_down: "\<not> up (lost p)" and lost_used: "fresh (lost p) \<Longrightarrow> fresh p"
begin

text \<open>The far end knows the subscriptions the port holds; a port that never sent holds none.\<close>

definition knows :: "('c, 'd, 'z) feed_scheme \<Rightarrow> bool" where
  "knows p \<longleftrightarrow>
     (up p \<longrightarrow> set (keys (fd_reqs p)) \<subseteq> far_subs (wire p))
     \<and> (fresh p \<longrightarrow> fd_reqs p = [])"

lemma link_updates:
  "up (p\<lparr>fd_waiting := w\<rparr>) = up p" "wire (p\<lparr>fd_waiting := w\<rparr>) = wire p" "fresh (p\<lparr>fd_waiting := w\<rparr>) = fresh p"
  "up (p\<lparr>fd_subs := s\<rparr>) = up p" "wire (p\<lparr>fd_subs := s\<rparr>) = wire p" "fresh (p\<lparr>fd_subs := s\<rparr>) = fresh p"
  "up (p\<lparr>fd_reqs := r\<rparr>) = up p" "wire (p\<lparr>fd_reqs := r\<rparr>) = wire p" "fresh (p\<lparr>fd_reqs := r\<rparr>) = fresh p"
  "up (p\<lparr>fd_next := i\<rparr>) = up p" "wire (p\<lparr>fd_next := i\<rparr>) = wire p" "fresh (p\<lparr>fd_next := i\<rparr>) = fresh p"
  "up (p\<lparr>fd_controls := c\<rparr>) = up p" "wire (p\<lparr>fd_controls := c\<rparr>) = wire p" "fresh (p\<lparr>fd_controls := c\<rparr>) = fresh p"
  by (rule link_only [THEN conjunct1] link_only [THEN conjunct2, THEN conjunct1]
      link_only [THEN conjunct2, THEN conjunct2], simp)+

lemma tx_reqs [simp]: "fd_reqs (snd (tx e m p)) = fd_reqs p" "fd_waiting (snd (tx e m p)) = fd_waiting p"
  using tx_same [of p e m] by (simp_all add: same_feed_def)

lemma tx_knows:
  assumes "knows p" and "pget m ''op'' = JStr ''unsubscribe'' \<Longrightarrow> py_str (pget m ''id'') \<notin> set (keys (fd_reqs p))"
  shows "knows (snd (tx e m p))"
    and "fst (tx e m p) \<Longrightarrow> pget m ''op'' = JStr ''subscribe'' \<Longrightarrow>
      insert (py_str (pget m ''id'')) (set (keys (fd_reqs p))) \<subseteq> far_subs (wire (snd (tx e m p)))"
proof -
  obtain b q where tx: "tx e m p = (b, q)"
    by (cases "tx e m p")
  have reqs: "fd_reqs q = fd_reqs p"
    using tx_reqs [of e m p] tx by simp
  have sent: "set (keys (fd_reqs p)) \<subseteq> far_subs (wire q)
      \<and> (pget m ''op'' = JStr ''subscribe'' \<longrightarrow> py_str (pget m ''id'') \<in> far_subs (wire q))" if b: b
  proof -
    let ?w = "if up p then wire p else resubscriptions p"
    have "set (keys (fd_reqs p)) \<subseteq> far_subs ?w"
      using assms(1) by (simp add: knows_def link_updates far_subs_resent)
    moreover obtain m' where "pget m' ''op'' = pget m ''op''" and "pget m' ''id'' = pget m ''id''"
      and w: "wire q = ?w @ [m']"
      using tx_sent [of e m p q] tx b assms(1) by (auto simp: knows_def link_updates)
    moreover from calculation have "far_step m' (far_subs ?w) = far_step m (far_subs ?w)"
      by (simp add: far_step_def)
    ultimately show ?thesis
      unfolding w far_subs_append using assms(2) by (auto simp: far_step_def)
  qed
  have "fresh q \<Longrightarrow> fd_reqs p = []"
    using tx_fresh [of e m p] tx assms(1) by (simp add: knows_def link_updates)
  then show "knows (snd (tx e m p))"
    using sent tx_refused [of e m p] tx reqs by (cases b) (auto simp: knows_def link_updates)
  show "insert (py_str (pget m ''id'')) (set (keys (fd_reqs p))) \<subseteq> far_subs (wire (snd (tx e m p)))"
    if "fst (tx e m p)" "pget m ''op'' = JStr ''subscribe''"
    using sent that tx by simp
qed

lemma knows_cong: "feed.more q = feed.more p \<Longrightarrow> fd_reqs q = fd_reqs p \<Longrightarrow> knows q = knows p"
  using link_only [of q p] by (simp add: knows_def link_updates)

lemma request_knows:
  assumes "knows p" and "pget m ''op'' \<noteq> JStr ''unsubscribe''"
    and "feed_request (tx e) m op msgs p = (res, q)"
  shows "knows q" and "fd_reqs q = fd_reqs p"
    and "res = Inr r \<Longrightarrow> pget m ''op'' = JStr ''subscribe'' \<Longrightarrow>
      insert (py_str (pget m ''id'')) (set (keys (fd_reqs p))) \<subseteq> far_subs (wire q)
      \<and> \<not> fresh q"
proof -
  let ?key = "op @ '':'' @ py_str (pget_or m ''id'' (JStr []))"
  let ?p = "p\<lparr>fd_waiting := ?key # fd_waiting p\<rparr>"
  obtain b p1 where tx: "tx e m ?p = (b, p1)"
    by (cases "tx e m ?p")
  have k: "knows ?p"
    using assms(1) by (simp add: knows_def link_updates)
  have p1: "knows p1" "fd_reqs p1 = fd_reqs p"
    using tx_knows(1) [OF k, of m e] assms(2) tx tx_reqs [of e m ?p] by simp_all
  have q: "feed.more q = feed.more p1" "fd_reqs q = fd_reqs p1"
    using assms(3) tx by (auto simp: feed_request_def Let_def split: option.splits bool.splits)
  show "knows q" and "fd_reqs q = fd_reqs p"
    using p1 q by (simp_all add: knows_cong [OF q])
  assume "res = Inr r" and sub: "pget m ''op'' = JStr ''subscribe''"
  then have b
    using assms(3) tx by (auto simp: feed_request_def Let_def split: bool.splits)
  then show "insert (py_str (pget m ''id'')) (set (keys (fd_reqs p))) \<subseteq> far_subs (wire q)
      \<and> \<not> fresh q"
    using link_only [OF q(1)] tx_knows(2) [OF k, of m e] tx_used [of e m ?p] sub tx q by simp
qed

lemma step_knows:
  assumes "port_step tx lost p q" and "knows p"
  shows "knows q"
  using assms
proof (induction rule: port_step.induct)
  case (ps_nodes p e msgs)
  obtain r q where r: "feed_request (tx e) [(''op'', JStr ''nodes'')] ''nodes'' msgs p = (r, q)"
    by (cases "feed_request (tx e) [(''op'', JStr ''nodes'')] ''nodes'' msgs p")
  then have "knows q"
    using request_knows(1) [OF ps_nodes _ r] by (simp add: pget_def)
  then show ?case
    using r by (simp add: feed_nodes_def split: sum.splits)
next
  case (ps_subscribe p e req c msgs)
  define sid where "sid = sub_id (fd_next p)"
  define p1 where "p1 = p\<lparr>fd_next := fd_next p + 1, fd_subs := dput sid c (fd_subs p)\<rparr>"
  have "knows p1"
    using ps_subscribe by (simp add: knows_def link_updates p1_def)
  moreover obtain r q where r: "feed_request (tx e) (sub_msg sid req) ''subscribed'' msgs p1 = (r, q)"
    by (cases "feed_request (tx e) (sub_msg sid req) ''subscribed'' msgs p1")
  ultimately have q: "knows q" "fd_reqs q = fd_reqs p1"
    and inr: "\<And>x. r = Inr x \<Longrightarrow> insert sid (set (keys (fd_reqs q))) \<subseteq> far_subs (wire q) \<and> \<not> fresh q"
    using request_knows [of p1 "sub_msg sid req" e "''subscribed''" msgs r q] by auto
  have "feed_subscribe (tx e) req c msgs p =
      (case r of
         Inl err \<Rightarrow> (Inl err, q)
       | Inr reply \<Rightarrow>
           (if pget reply ''op'' = JStr ''subscribe_failed''
            then (Inl (Rejected (py_str (py_or (pget reply ''detail'') (JStr ''no reason given'')))),
                  q\<lparr>fd_subs := dpop sid (fd_subs q)\<rparr>)
            else (Inr sid, q\<lparr>fd_reqs := dput sid req (fd_reqs q)\<rparr>)))"
    unfolding feed_subscribe_def Let_def sid_def [symmetric] p1_def [symmetric] r by (simp split: sum.splits)
  then show ?case
    using q(1) inr by (auto simp: knows_def link_updates keys_dput split: sum.splits)
next
  case (ps_unsubscribe p e handle)
  let ?p = "p\<lparr>fd_subs := dpop handle (fd_subs p), fd_reqs := dpop handle (fd_reqs p)\<rparr>"
  have "knows ?p"
    using ps_unsubscribe by (auto simp: knows_def link_updates keys_dpop)
  then show ?case
    using tx_knows(1) [of ?p "[(''op'', JStr ''unsubscribe''), (''id'', JStr handle)]" e]
    by (simp add: feed_unsubscribe_def pget_def keys_dpop)
next
  case (ps_control p e node ue lo hi ded cb)
  let ?p = "p\<lparr>fd_next := fd_next p + 1, fd_controls := dput (control_id (fd_next p)) cb (fd_controls p)\<rparr>"
  have "knows ?p"
    using ps_control by (simp add: knows_def link_updates)
  then show ?case
    using tx_knows(1) [of ?p "control_msg (control_id (fd_next p)) node ue lo hi ded" e]
    by (simp add: feed_control_def Let_def control_msg_def pget_def)
next
  case (ps_message p msg)
  then show ?case
    by (simp add: knows_cong [of "dispatch_msg msg p" p])
next
  case (ps_lost p)
  then show ?case
    using lost_down lost_used lost_reqs by (simp add: knows_def link_updates)
qed

lemma reachable_knows:
  assumes "port_reachable tx lost p0 p" and "fd_reqs p0 = []" and "\<not> up p0"
  shows "up p \<Longrightarrow> set (keys (fd_reqs p)) \<subseteq> far_subs (wire p)"
proof -
  have "knows p0"
    using assms(2,3) by (simp add: knows_def link_updates)
  with assms(1) have "knows p"
    by (induction rule: port_reachable.induct) (simp_all add: step_knows)
  then show "up p \<Longrightarrow> set (keys (fd_reqs p)) \<subseteq> far_subs (wire p)"
    by (simp add: knows_def link_updates)
qed

end

section \<open>Outcomes of controls\<close>

text \<open>The ids of the controls whose outcome was told.\<close>

definition told_ids :: "('c, 'd) feed_call list \<Rightarrow> string list" where
  "told_ids calls = concat (map (\<lambda>c. case c of Controlled i d ok t \<Rightarrow> [i] | _ \<Rightarrow> []) calls)"

definition told_once :: "('c, 'd, 'z) feed_scheme \<Rightarrow> bool" where
  "told_once p \<longleftrightarrow>
     distinct (told_ids (fd_calls p)) \<and> set (told_ids (fd_calls p)) \<inter> set (keys (fd_controls p)) = {}
     \<and> set (told_ids (fd_calls p)) \<union> set (keys (fd_controls p)) \<subseteq> control_id ` {..<fd_next p}"

lemma control_id_inject: "control_id m = control_id n \<longleftrightarrow> m = n"
  by (auto simp: control_id_def dest: dec_nat_inject)

lemma told_ids_simps [simp]:
  "told_ids [] = []" "told_ids (xs @ ys) = told_ids xs @ told_ids ys" "told_ids [Indicated i c v] = []"
  "told_ids [Controlled i d ok t] = [i]"
  by (simp_all add: told_ids_def)

lemma call_back_told: "told_once p \<Longrightarrow> told_once (call_back m p)"
  by (auto simp: told_once_def call_back_def Let_def keys_dpop dest: map_of_keys_Some split: option.splits)

lemma told_once_cong:
  "fd_calls q = fd_calls p \<Longrightarrow> fd_controls q = fd_controls p \<Longrightarrow> fd_next q = fd_next p \<Longrightarrow> told_once q = told_once p"
  by (simp add: told_once_def)

lemma dispatch_told: "told_once p \<Longrightarrow> told_once (dispatch_msg m p)"
  using call_back_told [of p m] told_once_cong [of "dispatch_msg m p" "call_back m p"] by simp

lemma dispatches_told: "told_once p \<Longrightarrow> told_once (fold dispatch_msg ms p)"
  by (induction ms arbitrary: p) (simp_all add: dispatch_told)

lemma told_grows:
  assumes "told_once p" and "fd_calls q = fd_calls p" and "fd_controls q = fd_controls p" and "fd_next p \<le> fd_next q"
  shows "told_once q"
  using assms order_less_le_trans by (fastforce simp: told_once_def)

context feed_transport
begin

lemma tx_told: "told_once p \<Longrightarrow> told_once (snd (tx e m p))"
  using tx_same [of p e m] told_once_cong [of "snd (tx e m p)" p] by (simp add: same_feed_def)

lemma request_told:
  assumes "told_once p" and "feed_request (tx e) m op msgs p = (res, q)"
  shows "told_once q"
proof -
  let ?key = "op @ '':'' @ py_str (pget_or m ''id'' (JStr []))"
  let ?p = "p\<lparr>fd_waiting := ?key # fd_waiting p\<rparr>"
  obtain b p1 where tx: "tx e m ?p = (b, p1)"
    by (cases "tx e m ?p")
  have "told_once ?p"
    using assms(1) by (rule told_grows) simp_all
  then have p1: "told_once p1"
    using tx_told [of ?p e m] tx by simp
  let ?p2 = "fold dispatch_msg msgs p1"
  have "fd_calls q = fd_calls (if b then ?p2 else p1) \<and> fd_controls q = fd_controls (if b then ?p2 else p1)
      \<and> fd_next q = fd_next (if b then ?p2 else p1)"
    using assms(2) tx by (auto simp: feed_request_def Let_def split: option.splits bool.splits)
  then show ?thesis
    using p1 dispatches_told [OF p1, of msgs] told_once_cong [of q "if b then ?p2 else p1"] by auto
qed

lemma step_told:
  assumes "port_step tx lost p q" and "told_once p"
  shows "told_once q"
  using assms
proof (induction rule: port_step.induct)
  case (ps_nodes p e msgs)
  then show ?case
    using request_told [of p e "[(''op'', JStr ''nodes'')]" "''nodes''" msgs]
    by (auto simp: feed_nodes_def split: prod.splits sum.splits)
next
  case (ps_subscribe p e req c msgs)
  let ?p = "p\<lparr>fd_next := fd_next p + 1, fd_subs := dput (sub_id (fd_next p)) c (fd_subs p)\<rparr>"
  obtain r q where req: "feed_request (tx e) (sub_msg (sub_id (fd_next p)) req) ''subscribed'' msgs ?p = (r, q)"
    by (cases "feed_request (tx e) (sub_msg (sub_id (fd_next p)) req) ''subscribed'' msgs ?p")
  have "told_once ?p"
    using ps_subscribe by (rule told_grows) simp_all
  then have q: "told_once q"
    by (rule request_told [OF _ req])
  have "told_once (q\<lparr>fd_subs := a\<rparr>)" "told_once (q\<lparr>fd_reqs := b\<rparr>)" for a b
    using q told_once_cong [of "q\<lparr>fd_subs := a\<rparr>" q] told_once_cong [of "q\<lparr>fd_reqs := b\<rparr>" q] by simp_all
  then show ?case
    using q unfolding feed_subscribe_def Let_def req by (simp split: sum.splits)
next
  case (ps_unsubscribe p e handle)
  let ?p = "p\<lparr>fd_subs := dpop handle (fd_subs p), fd_reqs := dpop handle (fd_reqs p)\<rparr>"
  have "told_once ?p"
    using ps_unsubscribe by (rule told_grows) simp_all
  then show ?case
    unfolding feed_unsubscribe_def by (rule tx_told)
next
  case (ps_control p e node ue lo hi ded cb)
  let ?p = "p\<lparr>fd_next := fd_next p + 1, fd_controls := dput (control_id (fd_next p)) cb (fd_controls p)\<rparr>"
  have "told_once ?p"
    using ps_control by (auto simp: told_once_def keys_dput control_id_inject less_Suc_eq)
  then show ?case
    unfolding feed_control_def Let_def by (rule tx_told)
next
  case (ps_message p msg)
  then show ?case by (rule dispatch_told)
next
  case (ps_lost p)
  then show ?case
    using told_once_cong [of "lost p" p] lost_calls by simp
qed

lemma reachable_told:
  assumes "port_reachable tx lost p0 p" and "fd_calls p0 = []" and "fd_controls p0 = []"
  shows "distinct (told_ids (fd_calls p))"
proof -
  have "told_once p0"
    using assms(2,3) by (simp add: told_once_def keys_def)
  with assms(1) have "told_once p"
    by (induction rule: port_reachable.induct) (simp_all add: step_told)
  then show ?thesis
    by (simp add: told_once_def)
qed

end

section \<open>Both transports keep the promise\<close>

lemma same_feed_links [simp]:
  "same_feed p p" "same_feed p (p\<lparr>lk_link := l\<rparr>)" "same_feed p (p\<lparr>lk_wire := w\<rparr>)"
  "same_feed p (p\<lparr>lk_link := l, lk_wire := w\<rparr>)"
  by (simp_all add: same_feed_def)

lemma linked_more: "feed.more q = feed.more (p :: ('c, 'd) linked) \<Longrightarrow> lk_link q = lk_link p \<and> lk_wire q = lk_wire p"
  by (cases p, cases q) simp

lemma slice_keeps:
  "pget (dmerge m (slice_fields sl)) ''op'' = pget m ''op''" "pget (dmerge m (slice_fields sl)) ''id'' = pget m ''id''"
  by (simp_all add: slice_fields_def split: prod.splits)

lemma sim_send_effect:
  "same_feed p (snd (sim_send e m p))"
  "fst (sim_send e m p) \<Longrightarrow>
     lk_wire (snd (sim_send e m p)) = (if lk_link p = Up then lk_wire p else resubscriptions p) @ [m]"
  "\<not> fst (sim_send e m p) \<Longrightarrow> lk_link (snd (sim_send e m p)) \<noteq> Up"
  by (simp_all add: sim_send_def split: if_split_asm)

text \<open>A quota carries the slice too.\<close>

definition on_bridge :: "('c, 'd) linked \<Rightarrow> pdict \<Rightarrow> pdict" where
  "on_bridge p m = (if pget m ''op'' = JStr ''control'' then dmerge m (slice_fields (lk_slice p)) else m)"

lemma on_bridge_keeps:
  "pget (on_bridge p m) ''op'' = pget m ''op''" "pget (on_bridge p m) ''id'' = pget m ''id''"
  by (simp_all add: on_bridge_def slice_keeps)

lemma flexric_send_bridge:
  "flexric_send e m p =
     (let obj = on_bridge p m; again = (if lk_link p = Gone then resubscriptions p else [])
      in if lk_link p = Up
         then (if fe_ok e obj then (True, p\<lparr>lk_wire := lk_wire p @ [obj]\<rparr>) else (False, p\<lparr>lk_link := Broken\<rparr>))
         else if lk_link p = Broken then (False, p)
         else if \<not> fe_opens e then (False, p)
         else if \<not> list_all (fe_ok e) (again @ [obj]) then (False, p\<lparr>lk_link := Broken\<rparr>)
         else (True, p\<lparr>lk_link := Up, lk_wire := again @ [obj]\<rparr>))"
  by (simp only: flexric_send_def on_bridge_def)

lemma flexric_send_effect:
  "same_feed p (snd (flexric_send e m p))"
  "fst (flexric_send e m p) \<Longrightarrow>
     lk_wire (snd (flexric_send e m p)) =
       (if lk_link p = Up then lk_wire p else if lk_link p = Gone then resubscriptions p else []) @ [on_bridge p m]
     \<and> lk_link (snd (flexric_send e m p)) \<noteq> Off \<and> lk_link p \<noteq> Broken"
  "\<not> fst (flexric_send e m p) \<Longrightarrow> lk_link (snd (flexric_send e m p)) \<noteq> Up"
  "lk_link (snd (flexric_send e m p)) = Off \<Longrightarrow> lk_link p = Off"
  by (simp_all add: flexric_send_bridge Let_def split: if_split_asm del: list_all_append)

interpretation sim: feed_transport sim_send sim_lost "\<lambda>p. lk_link p = Up" lk_wire "\<lambda>p. False"
proof unfold_locales
  fix p q :: "('c, 'd) linked" and e m
  show "\<exists>m'. pget m' ''op'' = pget m ''op'' \<and> pget m' ''id'' = pget m ''id''
      \<and> lk_wire q = (if lk_link p = Up then lk_wire p else resubscriptions p) @ [m']"
    if "sim_send e m p = (True, q)"
    using sim_send_effect(2) [of e m p] by (intro exI [of _ m]) (simp add: that)
  show "(lk_link q = Up) = (lk_link p = Up) \<and> lk_wire q = lk_wire p \<and> False = False"
    if "feed.more q = feed.more p"
    using linked_more [OF that] by simp
qed (simp_all add: sim_send_effect sim_lost_def)

lemma refused_call_back: "call_back (refused_msg key) p = p"
  by (simp add: call_back_def refused_msg_def pget_def)

lemma exit_dispatches:
  "fd_controls (fold (\<lambda>key. dispatch_msg (refused_msg key)) ks p) = fd_controls p"
  "fd_calls (fold (\<lambda>key. dispatch_msg (refused_msg key)) ks p) = fd_calls p"
  "fd_next (fold (\<lambda>key. dispatch_msg (refused_msg key)) ks p) = fd_next p"
  "feed.more (fold (\<lambda>key. dispatch_msg (refused_msg key)) ks p) = feed.more p"
  "fd_reqs (fold (\<lambda>key. dispatch_msg (refused_msg key)) ks p) = fd_reqs p"
  by (induction ks arbitrary: p) (simp_all add: refused_call_back)

lemma flexric_exit_effect:
  "fd_controls (flexric_exit p) = fd_controls p" "fd_calls (flexric_exit p) = fd_calls p"
  "fd_next (flexric_exit p) = fd_next p" "fd_reqs (flexric_exit p) = fd_reqs p" "lk_link (flexric_exit p) = Gone"
  using linked_more [OF exit_dispatches(4),
      of "filter (\<lambda>key. take 11 key = ''subscribed:'') (fd_waiting p)" "p\<lparr>lk_link := Gone\<rparr>"]
  by (simp_all add: flexric_exit_def exit_dispatches)

lemma flexric_sent:
  assumes "flexric_send e m p = (True, q)" and "\<not> (lk_link p = Off \<and> fd_reqs p \<noteq> [])"
  shows "lk_wire q = (if lk_link p = Up then lk_wire p else resubscriptions p) @ [on_bridge p m]"
proof -
  have w: "lk_wire q = (if lk_link p = Up then lk_wire p else if lk_link p = Gone then resubscriptions p else [])
      @ [on_bridge p m]" and "lk_link p \<noteq> Broken"
    using flexric_send_effect(2) [of e m p] assms(1) by simp_all
  then have "lk_link p = Up \<or> lk_link p = Gone \<or> (lk_link p = Off \<and> resubscriptions p = [])"
    using assms(2) by (cases "lk_link p") (simp_all add: resubscriptions_def)
  then show ?thesis
    using w by auto
qed

lemma flexric_links:
  "feed.more q = feed.more (p :: ('c, 'd) linked) \<Longrightarrow>
     (lk_link q = Up) = (lk_link p = Up) \<and> lk_wire q = lk_wire p \<and> (lk_link q = Off) = (lk_link p = Off)"
  using linked_more [of q p] by simp

lemma flexric_used: "fst (flexric_send e m p) \<Longrightarrow> lk_link (snd (flexric_send e m p)) \<noteq> Off"
  using flexric_send_effect(2) by blast

interpretation flexric: feed_transport flexric_send flexric_exit "\<lambda>p. lk_link p = Up" lk_wire "\<lambda>p. lk_link p = Off"
proof
  fix p q :: "('c, 'd) linked" and e m
  assume "flexric_send e m p = (True, q)" and "\<not> (lk_link p = Off \<and> fd_reqs p \<noteq> [])"
  then have "lk_wire q = (if lk_link p = Up then lk_wire p else resubscriptions p) @ [on_bridge p m]"
    by (rule flexric_sent)
  then show "\<exists>m'. pget m' ''op'' = pget m ''op'' \<and> pget m' ''id'' = pget m ''id''
      \<and> lk_wire q = (if lk_link p = Up then lk_wire p else resubscriptions p) @ [m']"
    using on_bridge_keeps by blast
qed (rule flexric_links flexric_send_effect(1) flexric_used flexric_send_effect(4) flexric_send_effect(3),
     assumption | rule flexric_send_effect(1) | simp add: flexric_exit_effect)+

end
