(* ===== verification/Feed_Props.thy ===== *)
theory Feed_Props
  imports Json_Feed
begin

text \<open>
  What the JSON feed port promises over both transports (ran/xapp/src/mec_cast_xapp/adapters): the
  subscriptions outlive a reconnect, an outcome is told once, and a subscription that was given up keeps
  its callback.
\<close>

section \<open>Subscriptions\<close>

text \<open>C18. Over either transport, in any order of operations, messages and losses: while the link is up, the
  far end, which forgets at every new connection or process, was sent every subscription the port holds
  and was not told to drop it since.\<close>

theorem subscriptions_survive_reconnect:
  assumes "port_reachable sim_send sim_lost (new_port slice) p
      \<or> port_reachable flexric_send flexric_exit (new_port slice) p"
    and "lk_link p = Up" and "sid \<in> set (keys (fd_reqs p))"
  shows "sid \<in> far_subs (lk_wire p)"
  using assms sim.reachable_knows [of "new_port slice" p] flexric.reachable_knows [of "new_port slice" p]
  by (auto simp: new_port_def)

section \<open>Outcomes\<close>

text \<open>C19. The outcome of a control request is told at most once, whatever acknowledgements the far end sends
  and however often it sends them.\<close>

theorem control_outcome_at_most_once:
  assumes "port_reachable sim_send sim_lost (new_port slice) p
      \<or> port_reachable flexric_send flexric_exit (new_port slice) p"
  shows "distinct (told_ids (fd_calls p))"
  using assms sim.reachable_told [of "new_port slice" p] flexric.reachable_told [of "new_port slice" p]
  by (auto simp: new_port_def)

section \<open>A subscription that was given up\<close>

lemma indicated:
  assumes "map_of (fd_subs p) i = Some c" and "pget m ''op'' = JStr ''indication''"
    and "py_str (pget m ''id'') = i" and "map_of m ''indication'' = Some ind"
  shows "Indicated i c ind \<in> set (fd_calls (dispatch_msg m p))"
  using assms by (simp add: call_back_def)

lemma request_subs:
  assumes "\<And>m q. fd_subs (snd (tx m q)) = fd_subs q" and "feed_request tx m op msgs p = (r, q)"
  shows "fd_subs q = fd_subs p"
proof -
  define p' where "p' = p\<lparr>fd_waiting := (op @ '':'' @ py_str (pget_or m ''id'' (JStr []))) # fd_waiting p\<rparr>"
  obtain b p1 where "tx m p' = (b, p1)"
    by (cases "tx m p'")
  then have "fd_subs p1 = fd_subs p" and "fd_subs q = fd_subs p1"
    using assms(1) [of m p'] assms(2)
    by (auto simp: feed_request_def Let_def p'_def split: bool.splits option.splits)
  then show ?thesis by simp
qed

lemma failed_subscribe_subs:
  assumes "\<And>m q. fd_subs (snd (tx m q)) = fd_subs q"
    and "feed_subscribe tx req c msgs p = (Inl err, q)" and "err = Send_Failed \<or> err = No_Answer"
  shows "map_of (fd_subs q) (sub_id (fd_next p)) = Some c"
proof -
  define sid where "sid = sub_id (fd_next p)"
  define p1 where "p1 = p\<lparr>fd_next := fd_next p + 1, fd_subs := dput sid c (fd_subs p)\<rparr>"
  obtain r q' where r: "feed_request tx (sub_msg sid req) ''subscribed'' msgs p1 = (r, q')"
    by (cases "feed_request tx (sub_msg sid req) ''subscribed'' msgs p1")
  have "q = q'"
    using assms(2,3) unfolding feed_subscribe_def Let_def sid_def [symmetric] p1_def [symmetric] r
    by (auto split: sum.splits if_splits)
  then show ?thesis
    using request_subs [OF assms(1) r] by (simp add: p1_def flip: sid_def)
qed

lemma transports_keep_subs: "fd_subs (snd (sim_send e m p)) = fd_subs p" "fd_subs (snd (flexric_send e m p)) = fd_subs p"
  using sim_send_effect(1) [of p e m] flexric_send_effect(1) [of p e m] by (simp_all add: same_feed_def)

text \<open>A subscription whose answer does not come in time raises, and yet its callback stays: when the
  answer was only late, the indications that follow are handed to a subscription the caller has given
  up, beside those of its next attempt.\<close>

theorem given_up_subscription_delivers:
  assumes "feed_subscribe (sim_send e) req c msgs p = (Inl No_Answer, q)"
  shows "Indicated (sub_id (fd_next p)) c ind
    \<in> set (fd_calls (dispatch_msg [(''op'', JStr ''indication''), (''id'', JStr (sub_id (fd_next p))),
                                     (''indication'', ind)] q))"
  using failed_subscribe_subs [of "sim_send e", OF transports_keep_subs(1) assms]
  by (intro indicated) (simp_all add: pget_def)

section \<open>Witnesses\<close>

definition easy :: feed_env where
  "easy = \<lparr>fe_opens = True, fe_ok = (\<lambda>m. True)\<rparr>"

definition answered :: "pdict" where
  "answered = [(''op'', JStr ''subscribed''), (''id'', JStr ''kpm-1'')]"

definition after_loss :: "(nat, nat) linked" where
  "after_loss =
     snd (feed_control (sim_send easy) ''n1'' 1 0 50 0 (Some 7)
       (sim_lost (snd (feed_subscribe (sim_send easy) (feed_kpm_req ''n1'' 4 [''A''] [1] 100) 5 [answered]
         (new_port (''00101'', 1, 1))))))"

lemma after_loss_reachable: "port_reachable sim_send sim_lost (new_port (''00101'', 1, 1)) after_loss"
  unfolding after_loss_def
  by (rule pr_step [OF pr_step [OF pr_step [OF pr_start ps_subscribe] ps_lost] ps_control])

lemma after_loss_up: "lk_link after_loss = Up \<and> ''kpm-1'' \<in> set (keys (fd_reqs after_loss))"
  by code_simp

theorem subscriptions_survive_reconnect_witness: "''kpm-1'' \<in> far_subs (lk_wire after_loss)"
  using subscriptions_survive_reconnect [of "(''00101'', 1, 1)" after_loss "''kpm-1''"] after_loss_reachable
    after_loss_up by simp

definition acked :: "(nat, nat) linked" where
  "acked =
     (let ack = [(''op'', JStr ''control_ack''), (''id'', JStr ''ctl-2''), (''ok'', JBool True)]
      in dispatch_msg ack (dispatch_msg ack after_loss))"

theorem control_outcome_at_most_once_witness:
  "distinct (told_ids (fd_calls acked)) \<and> fd_calls acked = [Controlled ''ctl-2'' 7 True []]"
proof
  have "port_reachable sim_send sim_lost (new_port (''00101'', 1, 1)) acked"
    unfolding acked_def Let_def by (rule pr_step [OF pr_step [OF after_loss_reachable ps_message] ps_message])
  then show "distinct (told_ids (fd_calls acked))"
    using control_outcome_at_most_once by blast
  show "fd_calls acked = [Controlled ''ctl-2'' 7 True []]"
    by code_simp
qed

definition silent :: "(port_error + string) \<times> (nat, nat) linked" where
  "silent = feed_subscribe (sim_send easy) (feed_kpm_req ''n1'' 4 [] [] 100) 5 [] (new_port (''00101'', 1, 1))"

lemma silent_err: "fst silent = Inl No_Answer"
  by code_simp

theorem given_up_subscription_delivers_witness:
  "Indicated (sub_id 1) 5 JNull
    \<in> set (fd_calls (dispatch_msg [(''op'', JStr ''indication''), (''id'', JStr (sub_id 1)), (''indication'', JNull)]
         (snd silent)))"
proof -
  have "feed_subscribe (sim_send easy) (feed_kpm_req ''n1'' 4 [] [] 100) 5 [] (new_port (''00101'', 1, 1) :: (nat, nat) linked)
      = (Inl No_Answer, snd silent)"
    using silent_err unfolding silent_def by (metis prod.collapse)
  from given_up_subscription_delivers [OF this, of JNull] show ?thesis
    by (simp add: new_port_def)
qed

end
