(* ===== verification/Gnb_Sim.thy ===== *)
theory Gnb_Sim
  imports Ran_Normalise
begin

text \<open>
  The gNB simulator (ran/sim/gnb_sim.py): a report as it goes out in a round, the random walk over its
  figures, the caps of PRB-quota controls, the KPM view of the same report, the E2 feed and the
  subscribers of the JSON feed.

  A report is walked in place by the code; here the walk returns it changed, and threads what it reads
  and writes along the way. \<open>None\<close> is an exception. Values are exact rationals; \<open>frepr\<close> is the
  \<open>repr\<close> of a float. The draws of \<open>random.Random\<close> are two streams and the number of draws made.
\<close>

section \<open>Reports and their UEs\<close>

text \<open>\<open>v or []\<close>, walked for dictionaries: anything else that is not empty raises on its first element.\<close>

definition list_or_none :: "json \<Rightarrow> json list option" where
  "list_or_none v = (if truthy v then (case v of JArr xs \<Rightarrow> Some xs | _ \<Rightarrow> None) else Some [])"

definition cell_list :: "json \<Rightarrow> json list option" where
  "cell_list c = (case c of JObj d \<Rightarrow> list_or_none (pget d ''ue_list'') | _ \<Rightarrow> None)"

text \<open>The list of the old layout is walked without \<open>or []\<close>.\<close>

definition own_list :: "json \<Rightarrow> json list option" where
  "own_list v = (case v of JArr xs \<Rightarrow> Some xs | JStr [] \<Rightarrow> Some [] | JObj [] \<Rightarrow> Some [] | _ \<Rightarrow> None)"

definition ue_lists :: "pdict \<Rightarrow> json list list option" where
  "ue_lists report =
     Option.bind (list_or_none (pget report ''cells'')) (\<lambda>cells.
     Option.bind (map_option_list cell_list cells) (\<lambda>ls.
       case map_of report ''ue_list'' of
         None \<Rightarrow> Some ls
       | Some v \<Rightarrow> map_option (\<lambda>l. ls @ [l]) (own_list v)))"

definition ue_fields :: "pdict \<Rightarrow> json" where
  "ue_fields entry = (case map_of entry ''ue_container'' of None \<Rightarrow> JObj entry | Some v \<Rightarrow> v)"

definition entry_ue :: "json \<Rightarrow> json option" where
  "entry_ue e = (case e of JObj d \<Rightarrow> Some (ue_fields d) | _ \<Rightarrow> None)"

definition sim_ues :: "pdict \<Rightarrow> json list option" where
  "sim_ues report = Option.bind (ue_lists report) (\<lambda>ls. map_option_list entry_ue (concat ls))"

section \<open>Walking a report\<close>

fun walk_list :: "('s \<Rightarrow> 'a \<Rightarrow> ('s \<times> 'a) option) \<Rightarrow> 's \<Rightarrow> 'a list \<Rightarrow> ('s \<times> 'a list) option" where
  "walk_list f s [] = Some (s, [])"
| "walk_list f s (x # xs) =
     Option.bind (f s x) (\<lambda>(s1, y). map_option (\<lambda>(s2, ys). (s2, y # ys)) (walk_list f s1 xs))"

definition walk_entry :: "('s \<Rightarrow> json \<Rightarrow> ('s \<times> json) option) \<Rightarrow> 's \<Rightarrow> json \<Rightarrow> ('s \<times> json) option" where
  "walk_entry f s e =
     (case e of
        JObj d \<Rightarrow>
          map_option (\<lambda>(s1, u). (s1, case map_of d ''ue_container'' of
                                       None \<Rightarrow> u
                                     | Some _ \<Rightarrow> JObj (dput ''ue_container'' u d)))
            (f s (ue_fields d))
      | _ \<Rightarrow> None)"

definition walk_cell :: "('s \<Rightarrow> json \<Rightarrow> ('s \<times> json) option) \<Rightarrow> 's \<Rightarrow> json \<Rightarrow> ('s \<times> json) option" where
  "walk_cell f s c =
     (case c of
        JObj d \<Rightarrow>
          Option.bind (cell_list c) (\<lambda>es.
            map_option (\<lambda>(s1, es'). (s1, if es = [] then c else JObj (dput ''ue_list'' (JArr es') d)))
              (walk_list (walk_entry f) s es))
      | _ \<Rightarrow> None)"

definition walk_ues :: "('s \<Rightarrow> json \<Rightarrow> ('s \<times> json) option) \<Rightarrow> 's \<Rightarrow> pdict \<Rightarrow> ('s \<times> pdict) option" where
  "walk_ues f s report =
     Option.bind (list_or_none (pget report ''cells'')) (\<lambda>cells.
     Option.bind (walk_list (walk_cell f) s cells) (\<lambda>(s1, cells').
       let r1 = (if cells = [] then report else dput ''cells'' (JArr cells') report)
       in case map_of report ''ue_list'' of
            None \<Rightarrow> Some (s1, r1)
          | Some v \<Rightarrow>
              Option.bind (own_list v) (\<lambda>es.
                map_option (\<lambda>(s2, es'). (s2, if es = [] then r1 else dput ''ue_list'' (JArr es') r1))
                  (walk_list (walk_entry f) s1 es))))"

section \<open>Numbers\<close>

text \<open>What arithmetic takes: a boolean counts as a number.\<close>

fun py_num :: "json \<Rightarrow> rat option" where
  "py_num (JInt i) = Some (of_int i)"
| "py_num (JBool b) = Some (if b then 1 else 0)"
| "py_num (JFloat r t) = Some r"
| "py_num _ = None"

definition round_to :: "nat \<Rightarrow> rat \<Rightarrow> rat" where
  "round_to digits r = of_int (py_round (r * 10 ^ digits)) / 10 ^ digits"

definition flt :: "(rat \<Rightarrow> string) \<Rightarrow> rat \<Rightarrow> json" where
  "flt frepr r = JFloat r (frepr r)"

text \<open>\<open>if key in ue: ue[key] = f(ue[key])\<close>, where \<open>f\<close> is arithmetic.\<close>

definition upd_num :: "string \<Rightarrow> (rat \<Rightarrow> json) \<Rightarrow> pdict \<Rightarrow> pdict option" where
  "upd_num key f ue =
     (case map_of ue key of
        None \<Rightarrow> Some ue
      | Some v \<Rightarrow> map_option (\<lambda>n. dput key (f n) ue) (py_num v))"

section \<open>The random walk\<close>

record walk =
  wk_drift :: "(int \<times> rat) list"
  wk_gauss :: nat
  wk_ints :: nat

definition drift_of :: "(nat \<Rightarrow> rat) \<Rightarrow> int \<Rightarrow> walk \<Rightarrow> rat" where
  "drift_of gauss rnti w =
     max (- 6) (min 3 ((case map_of (wk_drift w) rnti of None \<Rightarrow> 0 | Some d \<Rightarrow> d) + gauss (wk_gauss w)))"

definition walked_index :: "int \<Rightarrow> int \<Rightarrow> rat \<Rightarrow> rat \<Rightarrow> json" where
  "walked_index lo hi d n = JInt (max lo (min hi (py_round (n + d))))"

fun walk_noks :: "(nat \<Rightarrow> int) \<Rightarrow> rat \<Rightarrow> string list \<Rightarrow> nat \<Rightarrow> pdict \<Rightarrow> (nat \<times> pdict) option" where
  "walk_noks rint d [] i ue = Some (i, ue)"
| "walk_noks rint d (key # ks) i ue =
     (case map_of ue key of
        None \<Rightarrow> walk_noks rint d ks i ue
      | Some v \<Rightarrow>
          Option.bind (py_num v) (\<lambda>n.
            walk_noks rint d ks (i + 1) (dput key (JInt (max 0 (trunc_rat (n * (1 - d / 3)) + rint i))) ue)))"

definition walk_ue ::
  "(rat \<Rightarrow> string) \<Rightarrow> (nat \<Rightarrow> rat) \<Rightarrow> (nat \<Rightarrow> int) \<Rightarrow> walk \<Rightarrow> json \<Rightarrow> (walk \<times> json) option" where
  "walk_ue frepr gauss rint w u =
     (case u of
        JObj ue \<Rightarrow>
          Option.bind (py_int (pget_or ue ''rnti'' (JInt 0))) (\<lambda>rnti.
            let d = drift_of gauss rnti w; rate = (\<lambda>n. flt frepr (round_to 1 (n * max (1 / 5) (1 + d / 10))))
            in Option.bind (upd_num ''dl_mcs'' (walked_index 0 27 d) ue) (\<lambda>ue.
               Option.bind (upd_num ''ul_mcs'' (walked_index 0 27 d) ue) (\<lambda>ue.
               Option.bind (upd_num ''cqi'' (walked_index 1 15 d) ue) (\<lambda>ue.
               Option.bind (upd_num ''pusch_snr_db'' (\<lambda>n. flt frepr (round_to 1 (n + d))) ue) (\<lambda>ue.
               Option.bind (upd_num ''dl_brate'' rate ue) (\<lambda>ue.
               Option.bind (upd_num ''ul_brate'' rate ue) (\<lambda>ue.
                 map_option (\<lambda>(i, ue).
                     (\<lparr>wk_drift = dput rnti d (wk_drift w), wk_gauss = wk_gauss w + 1, wk_ints = i\<rparr>, JObj ue))
                   (walk_noks rint d [''dl_nof_nok'', ''ul_nof_nok''] (wk_ints w) ue))))))))
      | _ \<Rightarrow> None)"

definition walk_report ::
  "(rat \<Rightarrow> string) \<Rightarrow> (nat \<Rightarrow> rat) \<Rightarrow> (nat \<Rightarrow> int) \<Rightarrow> walk \<Rightarrow> pdict \<Rightarrow> (walk \<times> pdict) option" where
  "walk_report frepr gauss rint w report = walk_ues (walk_ue frepr gauss rint) w report"

section \<open>The E2 node\<close>

record e2_sim =
  e2_node :: string
  e2_latest :: "pdict option"
  e2_caps :: "(int \<times> int) list"

text \<open>\<open>key in ue\<close>: of a dictionary, a list or a text; \<open>None\<close> where it raises.\<close>

definition has_key :: "string \<Rightarrow> json \<Rightarrow> bool option" where
  "has_key key u =
     (case u of
        JObj d \<Rightarrow> Some (map_of d key \<noteq> None)
      | JArr xs \<Rightarrow> Some (JStr key \<in> set xs)
      | JStr s \<Rightarrow> Some (contains key s)
      | _ \<Rightarrow> None)"

definition cap_field :: "(rat \<Rightarrow> string) \<Rightarrow> int \<Rightarrow> string \<Rightarrow> json \<Rightarrow> json option" where
  "cap_field frepr ratio key u =
     Option.bind (has_key key u) (\<lambda>here.
       if \<not> here then Some u
       else (case u of
               JObj d \<Rightarrow> map_option JObj (upd_num key (\<lambda>n. flt frepr (round_to 1 (n * of_int ratio / 100))) d)
             | _ \<Rightarrow> None))"

definition cap_ue :: "(rat \<Rightarrow> string) \<Rightarrow> int option \<Rightarrow> json \<Rightarrow> json option" where
  "cap_ue frepr ratio u =
     (case ratio of
        None \<Rightarrow> Some u
      | Some r \<Rightarrow> Option.bind (cap_field frepr r ''dl_brate'' u) (cap_field frepr r ''ul_brate''))"

definition cap_next :: "(rat \<Rightarrow> string) \<Rightarrow> (int \<times> int) list \<Rightarrow> nat \<Rightarrow> json \<Rightarrow> (nat \<times> json) option" where
  "cap_next frepr caps i u = map_option (\<lambda>v. (i + 1, v)) (cap_ue frepr (map_of caps (int i)) u)"

definition apply_caps :: "(rat \<Rightarrow> string) \<Rightarrow> (int \<times> int) list \<Rightarrow> pdict \<Rightarrow> pdict option" where
  "apply_caps frepr caps report = map_option snd (walk_ues (cap_next frepr caps) 0 report)"

definition e2_update :: "pdict \<Rightarrow> e2_sim \<Rightarrow> e2_sim" where
  "e2_update report s = s\<lparr>e2_latest := Some report\<rparr>"

definition sim_control :: "pdict \<Rightarrow> e2_sim \<Rightarrow> ((bool \<times> string) \<times> e2_sim) option" where
  "sim_control msg s =
     (if pget msg ''action'' \<noteq> JStr ''prb_quota''
      then Some ((False, ''unsupported action '' @ py_repr (pget msg ''action'')), s)
      else
        Option.bind (py_int (pget_or msg ''min_prb_ratio'' (JInt 0))) (\<lambda>lo.
        Option.bind (py_int (pget_or msg ''max_prb_ratio'' (JInt 100))) (\<lambda>hi.
          if \<not> (0 \<le> lo \<and> lo \<le> hi \<and> hi \<le> 100)
          then Some ((False, ''bad ratios min='' @ dec_int lo @ '' max='' @ dec_int hi), s)
          else
            map_option (\<lambda>ue.
                ((True, []), s\<lparr>e2_caps := (if 100 \<le> hi then dpop ue (e2_caps s) else dput ue hi (e2_caps s))\<rparr>))
              (py_int (pget_or msg ''ue_id'' (JInt 0))))))"

section \<open>The KPM view\<close>

definition ue_get :: "json \<Rightarrow> string \<Rightarrow> json option" where
  "ue_get u key = (case u of JObj d \<Rightarrow> Some (pget_or d key (JInt 0)) | _ \<Rightarrow> None)"

definition ue_num :: "json \<Rightarrow> string \<Rightarrow> rat option" where
  "ue_num u key = Option.bind (ue_get u key) py_num"

definition kpm_names :: "string list" where
  "kpm_names =
     [''DRB.UEThpDl'', ''DRB.UEThpUl'', ''DRB.RlcSduTransmittedVolumeDL'', ''DRB.RlcSduTransmittedVolumeUL'',
      ''DRB.RlcPacketDropRateDl'', ''DRB.PacketSuccessRateUlgNBUu'', ''CQI'', ''RSRP'', ''RSRQ'']"

definition success_rate :: "json \<Rightarrow> rat option" where
  "success_rate u =
     Option.bind (ue_num u ''ul_nof_ok'') (\<lambda>ok.
       map_option (\<lambda>nok. round_to 2 (100 * ok / max 1 (ok + nok))) (ue_num u ''ul_nof_nok''))"

definition kpm_from_ue :: "(rat \<Rightarrow> string) \<Rightarrow> string \<Rightarrow> json \<Rightarrow> rat \<Rightarrow> json option" where
  "kpm_from_ue frepr m u s =
     (if m = ''DRB.UEThpDl'' then map_option (\<lambda>n. flt frepr (n / 1000)) (ue_num u ''dl_brate'')
      else if m = ''DRB.UEThpUl'' then map_option (\<lambda>n. flt frepr (n / 1000)) (ue_num u ''ul_brate'')
      else if m = ''DRB.RlcSduTransmittedVolumeDL''
      then map_option (\<lambda>n. flt frepr (n * s / 1000)) (ue_num u ''dl_brate'')
      else if m = ''DRB.RlcSduTransmittedVolumeUL''
      then map_option (\<lambda>n. flt frepr (n * s / 1000)) (ue_num u ''ul_brate'')
      else if m = ''DRB.PacketSuccessRateUlgNBUu'' then map_option (flt frepr) (success_rate u)
      else if m = ''CQI'' then ue_get u ''cqi''
      else Some (JInt 0))"

text \<open>The sum over the UEs, an integer as long as no float is in it.\<close>

definition py_add :: "(rat \<Rightarrow> string) \<Rightarrow> json \<Rightarrow> json \<Rightarrow> json option" where
  "py_add frepr a b =
     Option.bind (py_num a) (\<lambda>m. map_option (\<lambda>n.
       (case (a, b) of
          (JFloat _ _, _) \<Rightarrow> flt frepr (m + n)
        | (_, JFloat _ _) \<Rightarrow> flt frepr (m + n)
        | _ \<Rightarrow> JInt (trunc_rat (m + n)))) (py_num b))"

fun kpm_sum :: "(rat \<Rightarrow> string) \<Rightarrow> string \<Rightarrow> rat \<Rightarrow> json \<Rightarrow> json list \<Rightarrow> json option" where
  "kpm_sum frepr m s acc [] = Some acc"
| "kpm_sum frepr m s acc (u # us) =
     Option.bind (kpm_from_ue frepr m u s) (\<lambda>v. Option.bind (py_add frepr acc v) (\<lambda>t. kpm_sum frepr m s t us))"

text \<open>\<open>xs[i]\<close>, where a negative index counts from the end.\<close>

definition py_index :: "'a list \<Rightarrow> int \<Rightarrow> 'a option" where
  "py_index xs i =
     (let j = (if i < 0 then i + int (length xs) else i)
      in if 0 \<le> j \<and> j < int (length xs) then Some (xs ! nat j) else None)"

text \<open>One list of one value for each measurement.\<close>

definition meas_of :: "(string \<Rightarrow> json option) \<Rightarrow> string list \<Rightarrow> pdict option" where
  "meas_of f known = map_option_list (\<lambda>m. map_option (\<lambda>v. (m, JArr [v])) (f m)) (uniq known)"

definition per_ue :: "(rat \<Rightarrow> string) \<Rightarrow> string list \<Rightarrow> rat \<Rightarrow> json \<Rightarrow> pdict option" where
  "per_ue frepr known s u = meas_of (\<lambda>m. kpm_from_ue frepr m u s) known"

definition meas_dict :: "pdict \<Rightarrow> int \<Rightarrow> pdict" where
  "meas_dict data period = [(''measData'', JObj data), (''granulPeriod'', JInt period)]"

definition ue_meas :: "(rat \<Rightarrow> string) \<Rightarrow> string list \<Rightarrow> int \<Rightarrow> json list \<Rightarrow> int list \<Rightarrow> pdict option" where
  "ue_meas frepr known period us wanted =
     map_option (dmerge [])
       (map_option_list (\<lambda>i.
          Option.bind (py_index us i) (\<lambda>u.
            map_option (\<lambda>d. (dec_int i, JObj (meas_dict d period))) (per_ue frepr known (of_int period / 1000) u)))
         (filter (\<lambda>i. i < int (length us)) wanted))"

definition meas_part ::
  "(rat \<Rightarrow> string) \<Rightarrow> int \<Rightarrow> string list \<Rightarrow> int list \<Rightarrow> int \<Rightarrow> json list \<Rightarrow> pdict option" where
  "meas_part frepr style known ue_ids period us =
     (let s = of_int period / 1000
      in if style = 2
         then (let idx = (case ue_ids of [] \<Rightarrow> 0 | i # _ \<Rightarrow> i)
               in map_option (\<lambda>d. meas_dict d period)
                    (if idx < int (length us) then Option.bind (py_index us idx) (per_ue frepr known s)
                     else meas_of (\<lambda>m. Some (JInt 0)) known))
         else if style = 1
         then map_option (\<lambda>d. meas_dict d period) (meas_of (\<lambda>m. kpm_sum frepr m s (JInt 0) us) known)
         else
           map_option (\<lambda>d. [(''ueMeasData'', JObj d)])
             (ue_meas frepr known period us (if style = 5 then ue_ids else map int [0..<length us])))"

definition indication ::
  "(rat \<Rightarrow> string) \<Rightarrow> int \<Rightarrow> int \<Rightarrow> string list \<Rightarrow> int list \<Rightarrow> int \<Rightarrow> e2_sim \<Rightarrow> pdict option" where
  "indication frepr now_ns style metrics ue_ids period s =
     Option.bind (case e2_latest s of None \<Rightarrow> Some [] | Some report \<Rightarrow> sim_ues report) (\<lambda>us.
       map_option (\<lambda>m.
           [(''e2_node_id'', JStr (e2_node s)), (''collect_start_ns'', JInt (now_ns - period * 1000000)),
            (''meas'', JObj m)])
         (meas_part frepr style (filter (\<lambda>m. m \<in> set kpm_names) metrics) ue_ids period us))"

section \<open>The E2 feed\<close>

text \<open>A connection: its subscriptions, each the number of the thread that serves it, and the threads.
  \<open>em_over\<close>: told to stop. \<open>em_fault\<close>: ended by an exception, or because the client was gone when it sent.\<close>

record emitter =
  em_sid :: string
  em_req :: pdict
  em_over :: bool
  em_fault :: bool

record e2_conn =
  cn_subs :: "(string \<times> nat) list"
  cn_emitters :: "emitter list"
  cn_sent :: "pdict list"

definition new_conn :: e2_conn where
  "new_conn = \<lparr>cn_subs = [], cn_emitters = [], cn_sent = []\<rparr>"

definition conn_send :: "pdict \<Rightarrow> e2_conn \<Rightarrow> e2_conn" where
  "conn_send m c = c\<lparr>cn_sent := cn_sent c @ [m]\<rparr>"

definition stop_emitter :: "nat \<Rightarrow> e2_conn \<Rightarrow> e2_conn" where
  "stop_emitter k c = c\<lparr>cn_emitters := (cn_emitters c)[k := (cn_emitters c ! k)\<lparr>em_over := True\<rparr>]\<rparr>"

definition end_emitter :: "nat \<Rightarrow> e2_conn \<Rightarrow> e2_conn" where
  "end_emitter k c = c\<lparr>cn_emitters := (cn_emitters c)[k := (cn_emitters c ! k)\<lparr>em_fault := True\<rparr>]\<rparr>"

text \<open>One message of the handler; \<open>None\<close> for a message that is no JSON, \<open>None\<close> of the result for an
  exception, which closes the connection.\<close>

definition e2_handle :: "json option \<Rightarrow> e2_sim \<times> e2_conn \<Rightarrow> (e2_sim \<times> e2_conn) option" where
  "e2_handle raw sc =
     (case sc of (s, c) \<Rightarrow>
        case raw of
          None \<Rightarrow> Some (s, c)
        | Some (JObj msg) \<Rightarrow>
            (let op = pget msg ''op''; sid = py_str (pget msg ''id'')
             in if op = JStr ''nodes''
                then Some (s, conn_send [(''op'', JStr ''nodes''), (''nodes'', JArr [JStr (e2_node s)])] c)
                else if op = JStr ''subscribe''
                then Some (s, (conn_send [(''op'', JStr ''subscribed''), (''id'', JStr sid)] c)
                       \<lparr>cn_subs := dput sid (length (cn_emitters c)) (cn_subs c),
                         cn_emitters := cn_emitters c @ [\<lparr>em_sid = sid, em_req = msg, em_over = False, em_fault = False\<rparr>]\<rparr>)
                else if op = JStr ''unsubscribe''
                then Some (s, case map_of (cn_subs c) sid of
                                None \<Rightarrow> c
                              | Some k \<Rightarrow> stop_emitter k (c\<lparr>cn_subs := dpop sid (cn_subs c)\<rparr>))
                else if op = JStr ''control''
                then map_option (\<lambda>((ok, detail), s1).
                         (s1, conn_send [(''op'', JStr ''control_ack''), (''id'', pget msg ''id''), (''ok'', JBool ok),
                                         (''detail'', JStr detail)] c)) (sim_control msg s)
                else Some (s, c))
        | Some _ \<Rightarrow> None)"

definition e2_closed :: "e2_conn \<Rightarrow> e2_conn" where
  "e2_closed c = fold stop_emitter (vals (cn_subs c)) c"

text \<open>A turn of a subscription's thread. \<open>Some None\<close>: nothing to tell yet.\<close>

definition emit_period :: "pdict \<Rightarrow> int option" where
  "emit_period req = map_option (max 1000) (py_int (py_or (pget req ''period_ms'') (JInt 1000)))"

text \<open>\<open>m in KPM_FROM_UE\<close> takes only what can be a key of a dictionary.\<close>

definition metric_name :: "json \<Rightarrow> string list option" where
  "metric_name m = (case m of JStr t \<Rightarrow> Some [t] | JArr _ \<Rightarrow> None | JObj _ \<Rightarrow> None | _ \<Rightarrow> Some [])"

definition emit_turn :: "(rat \<Rightarrow> string) \<Rightarrow> int \<Rightarrow> e2_sim \<Rightarrow> emitter \<Rightarrow> pdict option option" where
  "emit_turn frepr now_ns s em =
     (let req = em_req em
      in Option.bind (emit_period req) (\<lambda>period.
           if e2_latest s = None then Some None
           else
             Option.bind (py_int (py_or (pget req ''style'') (JInt 5))) (\<lambda>style.
             Option.bind (py_list (py_or (pget req ''metrics'') (JArr []))) (\<lambda>ms.
             Option.bind (map_option_list metric_name ms) (\<lambda>names.
             Option.bind (py_list (py_or (pget req ''ue_ids'') (JArr [JInt 0]))) (\<lambda>us.
             Option.bind (map_option_list py_int us) (\<lambda>ue_ids.
               map_option (\<lambda>ind.
                   Some [(''op'', JStr ''indication''), (''id'', JStr (em_sid em)), (''indication'', JObj ind)])
                 (indication frepr now_ns style (concat names) ue_ids period s))))))))"

text \<open>\<open>sends\<close>: the send does not raise.\<close>

definition conn_emit :: "(rat \<Rightarrow> string) \<Rightarrow> int \<Rightarrow> bool \<Rightarrow> nat \<Rightarrow> e2_sim \<Rightarrow> e2_conn \<Rightarrow> e2_conn" where
  "conn_emit frepr now_ns sends k s c =
     (if length (cn_emitters c) \<le> k \<or> em_over (cn_emitters c ! k) \<or> em_fault (cn_emitters c ! k) then c
      else (case emit_turn frepr now_ns s (cn_emitters c ! k) of
              None \<Rightarrow> end_emitter k c
            | Some None \<Rightarrow> c
            | Some (Some m) \<Rightarrow> if sends then conn_send m c else end_emitter k c))"

section \<open>A round\<close>

definition restamp_cell :: "string \<Rightarrow> json \<Rightarrow> json option" where
  "restamp_cell stamp c =
     Option.bind (has_key ''timestamp'' c) (\<lambda>here.
       if \<not> here then Some c
       else (case c of JObj d \<Rightarrow> Some (JObj (dput ''timestamp'' (JStr stamp) d)) | _ \<Rightarrow> None))"

definition restamp :: "string \<Rightarrow> pdict \<Rightarrow> pdict option" where
  "restamp stamp report =
     (let r1 = (if map_of report ''timestamp'' = None then report else dput ''timestamp'' (JStr stamp) report)
      in Option.bind (list_or_none (pget report ''cells'')) (\<lambda>cells.
           map_option (\<lambda>cells'. if cells = [] then r1 else dput ''cells'' (JArr cells') r1)
             (map_option_list (restamp_cell stamp) cells)))"

text \<open>What a round sends, and leaves in the E2 node and the walk; without a model the report goes out as
  the fixture has it.\<close>

definition sim_round ::
  "(rat \<Rightarrow> string) \<Rightarrow> (nat \<Rightarrow> rat) \<Rightarrow> (nat \<Rightarrow> int) \<Rightarrow> string \<Rightarrow> pdict \<Rightarrow> e2_sim \<Rightarrow> walk option \<Rightarrow>
   (pdict \<times> e2_sim \<times> walk option) option" where
  "sim_round frepr gauss rint stamp report s model =
     Option.bind (restamp stamp report) (\<lambda>r1.
     Option.bind (case model of
                    None \<Rightarrow> Some (None, r1)
                  | Some w \<Rightarrow> map_option (\<lambda>(w1, r2). (Some w1, r2)) (walk_report frepr gauss rint w r1)) (\<lambda>(model1, r2).
       map_option (\<lambda>r3. (r3, e2_update r3 s, model1)) (apply_caps frepr (e2_caps s) r2)))"

section \<open>Subscribers of the JSON feed\<close>

text \<open>The clients, told apart by a number; \<open>takes\<close>: the sends that do not raise.\<close>

definition subs_add :: "nat \<Rightarrow> nat list \<Rightarrow> nat list" where
  "subs_add ws clients = List.insert ws clients"

definition subs_discard :: "nat \<Rightarrow> nat list \<Rightarrow> nat list" where
  "subs_discard ws clients = removeAll ws clients"

definition broadcast :: "(nat \<Rightarrow> bool) \<Rightarrow> nat list \<Rightarrow> nat \<times> nat list" where
  "broadcast takes clients =
     fold (\<lambda>ws (sent, cs). if takes ws then (sent + 1, cs) else (sent, subs_discard ws cs)) clients (0, clients)"

definition ws_command :: "json option \<Rightarrow> nat \<Rightarrow> nat list \<Rightarrow> nat list \<times> json list" where
  "ws_command raw ws clients =
     (let cmd = (case raw of Some (JObj d) \<Rightarrow> pget d ''cmd'' | _ \<Rightarrow> JNull)
      in if cmd = JStr ''metrics_subscribe''
         then (subs_add ws clients, [JObj [(''cmd'', JStr ''metrics_subscribe'')]])
         else if cmd = JStr ''metrics_unsubscribe''
         then (subs_discard ws clients, [JObj [(''cmd'', JStr ''metrics_unsubscribe'')]])
         else (clients, []))"

section \<open>The fixture and the addresses\<close>

text \<open>\<open>parse\<close> is \<open>json.loads\<close>; the texts are the file's lines. The left side is the exit.\<close>

definition fixture_line :: "string \<Rightarrow> bool" where
  "fixture_line line \<longleftrightarrow> strip line \<noteq> [] \<and> hd (strip line) \<noteq> CHR ''#''"

definition load_fixture :: "(string \<Rightarrow> json option) \<Rightarrow> string list \<Rightarrow> string + json list" where
  "load_fixture parse ls =
     (case map_option_list (\<lambda>l. parse (strip l)) (filter fixture_line ls) of
        None \<Rightarrow> Inl ''not JSON''
      | Some [] \<Rightarrow> Inl ''no reports''
      | Some rs \<Rightarrow> Inr rs)"

text \<open>The host is what stands before the last colon.\<close>

definition split_hostport :: "string \<Rightarrow> string \<Rightarrow> (string \<times> int) option" where
  "split_hostport fallback value =
     (let r = rev value; port = rev (takeWhile (\<lambda>c. c \<noteq> CHR '':'') r);
          host = rev (drop 1 (dropWhile (\<lambda>c. c \<noteq> CHR '':'') r))
      in map_option (\<lambda>p. (str_or host fallback, p)) (int_text port))"

end
