(* ===== verification/Gnb_Props.thy ===== *)
theory Gnb_Props
  imports Gnb_Sim Kpm_Monitor
begin

text \<open>
  What the simulator keeps of a report (ran/sim/gnb_sim.py): the walk over it reaches every UE once, a
  cap falls on its UE alone, the random walk stays in range, and the KPM view tells the same rates as
  the report, through the normalisers of both.
\<close>

section \<open>The walk reaches every UE once\<close>

lemma walk_list_append:
  assumes "walk_list f s xs = Some (s1, xs')" and "walk_list f s1 ys = Some (s2, ys')"
  shows "walk_list f s (xs @ ys) = Some (s2, xs' @ ys')"
  using assms by (induction xs arbitrary: s xs') (auto simp: bind_eq_Some_conv)

lemma walk_list_concat:
  "walk_list (walk_list f) s ls = Some (s', ls') \<Longrightarrow> walk_list f s (concat ls) = Some (s', concat ls')"
proof (induction ls arbitrary: s ls')
  case (Cons l ls)
  then obtain s1 l' ls2 where "walk_list f s l = Some (s1, l')"
    and "walk_list (walk_list f) s1 ls = Some (s', ls2)" and "ls' = l' # ls2"
    by (auto simp: bind_eq_Some_conv)
  then show ?case
    using walk_list_append [OF _ Cons.IH] by simp
qed simp

lemma walk_list_seen:
  assumes "\<And>s x s' y. g s x = Some (s', y) \<Longrightarrow> \<exists>u v. p x = Some u \<and> p y = Some v \<and> f s u = Some (s', v)"
    and "walk_list g s xs = Some (s', ys)"
  shows "\<exists>us vs. map_option_list p xs = Some us \<and> map_option_list p ys = Some vs \<and> walk_list f s us = Some (s', vs)"
  using assms(2)
proof (induction xs arbitrary: s ys)
  case (Cons x xs)
  then obtain s1 y ys' where "g s x = Some (s1, y)" and ys: "walk_list g s1 xs = Some (s', ys')" "ys = y # ys'"
    by (auto simp: bind_eq_Some_conv)
  from assms(1) [OF this(1)] Cons.IH [OF ys(1)] show ?case
    using ys(2) by fastforce
qed simp

lemma walk_list_length: "walk_list f s xs = Some (s', ys) \<Longrightarrow> length ys = length xs"
  by (induction xs arbitrary: s ys) (auto simp: bind_eq_Some_conv)

text \<open>What is done to a UE of the layout without the wrapper leaves it such.\<close>

definition plain :: "json \<Rightarrow> bool" where
  "plain u \<longleftrightarrow> (\<exists>d. u = JObj d \<and> map_of d ''ue_container'' = None)"

definition keeps_plain :: "('s \<Rightarrow> json \<Rightarrow> ('s \<times> json) option) \<Rightarrow> bool" where
  "keeps_plain f \<longleftrightarrow> (\<forall>s u s' v. f s u = Some (s', v) \<longrightarrow> plain u \<longrightarrow> plain v)"

lemma walk_entry_seen:
  assumes "keeps_plain f" and "walk_entry f s e = Some (s', e')"
  shows "\<exists>u v. entry_ue e = Some u \<and> entry_ue e' = Some v \<and> f s u = Some (s', v)"
proof -
  obtain d where e: "e = JObj d"
    using assms(2) by (auto simp: walk_entry_def split: json.splits)
  then obtain v where f: "f s (ue_fields d) = Some (s', v)"
    and e': "e' = (case map_of d ''ue_container'' of None \<Rightarrow> v | Some _ \<Rightarrow> JObj (dput ''ue_container'' v d))"
    using assms(2) by (auto simp: walk_entry_def)
  have "entry_ue e' = Some v"
  proof (cases "map_of d ''ue_container''")
    case None
    then have "plain v"
      using assms(1) f by (auto simp: keeps_plain_def plain_def ue_fields_def)
    then show ?thesis
      using e' None by (auto simp: plain_def entry_ue_def ue_fields_def)
  qed (simp add: e' entry_ue_def ue_fields_def)
  then show ?thesis
    using e f by (auto simp: entry_ue_def)
qed

lemma walk_cell_seen:
  assumes "walk_cell f s c = Some (s', c')"
  shows "\<exists>es es'. cell_list c = Some es \<and> cell_list c' = Some es' \<and> walk_list (walk_entry f) s es = Some (s', es')"
proof -
  obtain d es es' where c: "c = JObj d" "cell_list c = Some es" and w: "walk_list (walk_entry f) s es = Some (s', es')"
    and c': "c' = (if es = [] then c else JObj (dput ''ue_list'' (JArr es') d))"
    using assms by (auto simp: walk_cell_def bind_eq_Some_conv split: json.splits)
  have "cell_list c' = Some es'"
    using c c' w walk_list_length [OF w] by (auto simp: cell_list_def list_or_none_def)
  then show ?thesis
    using c(2) w by blast
qed

lemma own_list_JArr [simp]: "own_list (JArr xs) = Some xs"
  by (simp add: own_list_def)

lemma list_or_none_JArr [simp]: "list_or_none (JArr xs) = Some xs"
  by (simp add: list_or_none_def)

lemma walk_ues_lists:
  assumes "walk_ues f s r = Some (s', r')"
  shows "\<exists>ls ls'. ue_lists r = Some ls \<and> ue_lists r' = Some ls'
    \<and> walk_list (walk_entry f) s (concat ls) = Some (s', concat ls')"
proof -
  obtain cells s1 cells' where cells: "list_or_none (pget r ''cells'') = Some cells"
    and w: "walk_list (walk_cell f) s cells = Some (s1, cells')"
    using assms by (auto simp: walk_ues_def bind_eq_Some_conv)
  define r1 where "r1 = (if cells = [] then r else dput ''cells'' (JArr cells') r)"
  have r1: "list_or_none (pget r1 ''cells'') = Some cells'" "map_of r1 ''ue_list'' = map_of r ''ue_list''"
    using cells walk_list_length [OF w] by (auto simp: r1_def)
  obtain ls ls' where ls: "map_option_list cell_list cells = Some ls" "map_option_list cell_list cells' = Some ls'"
    and c: "walk_list (walk_list (walk_entry f)) s ls = Some (s1, ls')"
    using walk_list_seen [of "walk_cell f" cell_list "walk_list (walk_entry f)", OF walk_cell_seen w] by blast
  note c = walk_list_concat [OF c]
  show ?thesis
  proof (cases "map_of r ''ue_list''")
    case None
    then have "s' = s1" "r' = r1"
      using assms cells w by (simp_all add: walk_ues_def r1_def)
    then show ?thesis
      using cells ls c r1 None by (simp add: ue_lists_def)
  next
    case (Some v)
    then obtain es es' where es: "own_list v = Some es" and v: "walk_list (walk_entry f) s1 es = Some (s', es')"
      and r': "r' = (if es = [] then r1 else dput ''ue_list'' (JArr es') r1)"
      using assms cells w unfolding walk_ues_def r1_def Let_def by (auto simp: bind_eq_Some_conv)
    have "list_or_none (pget r' ''cells'') = Some cells'" "\<exists>v'. map_of r' ''ue_list'' = Some v' \<and> own_list v' = Some es'"
      using r' r1 Some es walk_list_length [OF v] by auto
    then have "ue_lists r' = Some (ls' @ [es'])"
      using ls by (auto simp: ue_lists_def)
    moreover have "ue_lists r = Some (ls @ [es])"
      using cells ls Some es by (simp add: ue_lists_def)
    ultimately show ?thesis
      using walk_list_append [OF c v] by fastforce
  qed
qed

lemma walk_ues_seen:
  assumes "walk_ues f s r = Some (s', r')" and "keeps_plain f"
  obtains us vs where "sim_ues r = Some us" and "sim_ues r' = Some vs" and "walk_list f s us = Some (s', vs)"
proof -
  obtain ls ls' where ls: "ue_lists r = Some ls" "ue_lists r' = Some ls'"
    and w: "walk_list (walk_entry f) s (concat ls) = Some (s', concat ls')"
    using walk_ues_lists [OF assms(1)] by blast
  show ?thesis
    using walk_list_seen [of "walk_entry f" entry_ue f, OF walk_entry_seen [OF assms(2)] w] that
    by (auto simp: sim_ues_def ls)
qed

lemma walk_list_nth:
  assumes "walk_list f (0::nat) us = Some (s', vs)" and "\<And>i u j v. f i u = Some (j, v) \<Longrightarrow> j = i + 1" and "i < length us"
  shows "\<exists>j. f i (us ! i) = Some (j, vs ! i)"
proof -
  have "walk_list f k us = Some (s', vs) \<Longrightarrow> \<exists>j. f (k + i) (us ! i) = Some (j, vs ! i)" for k
    using assms(3)
  proof (induction us arbitrary: k vs i)
    case (Cons u us)
    then obtain v vs' where f: "f k u = Some (k + 1, v)" and w: "walk_list f (k + 1) us = Some (s', vs')" "vs = v # vs'"
      using assms(2) by (fastforce simp: bind_eq_Some_conv)
    show ?case
      using Cons.IH [OF w(1)] Cons.prems(2) f w(2) by (cases i) auto
  qed simp
  from this [of 0] show ?thesis
    using assms(1) by simp
qed


section \<open>Caps\<close>

lemma upd_num_Some:
  assumes "upd_num key f d = Some d'"
  shows "map_of d' = (map_of d)(key := map_option (\<lambda>v. f (the (py_num v))) (map_of d key))"
  using assms by (auto simp: upd_num_def fun_eq_iff split: option.splits)

lemma upd_num_plain: "upd_num key f d = Some d' \<Longrightarrow> key \<noteq> ''ue_container'' \<Longrightarrow> plain (JObj d) \<Longrightarrow> plain (JObj d')"
  by (simp add: plain_def upd_num_Some)

definition scaled :: "(rat \<Rightarrow> string) \<Rightarrow> int \<Rightarrow> json \<Rightarrow> json" where
  "scaled frepr ratio v = flt frepr (round_to 1 (the (py_num v) * of_int ratio / 100))"

lemma cap_field_dict:
  assumes "cap_field frepr ratio key (JObj d) = Some v"
  shows "\<exists>d'. v = JObj d' \<and> map_of d' = (map_of d)(key := map_option (scaled frepr ratio) (map_of d key))"
proof (cases "map_of d key = None")
  case True
  then show ?thesis
    using assms by (auto simp: cap_field_def has_key_def fun_upd_idem)
next
  case False
  then obtain d' where "v = JObj d'"
    and "upd_num key (\<lambda>n. flt frepr (round_to 1 (n * of_int ratio / 100))) d = Some d'"
    using assms by (auto simp: cap_field_def has_key_def)
  then show ?thesis
    using upd_num_Some by (auto simp: scaled_def [abs_def])
qed

lemma cap_ue_dict:
  assumes "cap_ue frepr (Some ratio) (JObj d) = Some v"
  shows "\<exists>d'. v = JObj d' \<and> (\<forall>key. map_of d' key =
    (if key \<in> {''dl_brate'', ''ul_brate''} then map_option (scaled frepr ratio) (map_of d key) else map_of d key))"
proof -
  obtain u where u: "cap_field frepr ratio ''dl_brate'' (JObj d) = Some u"
    and v: "cap_field frepr ratio ''ul_brate'' u = Some v"
    using assms by (auto simp: cap_ue_def bind_eq_Some_conv)
  obtain d1 where "u = JObj d1"
    and "map_of d1 = (map_of d)(''dl_brate'' := map_option (scaled frepr ratio) (map_of d ''dl_brate''))"
    using cap_field_dict [OF u] by blast
  then show ?thesis
    using cap_field_dict [of frepr ratio "''ul_brate''" d1 v] v by auto
qed

lemma cap_keeps_plain: "keeps_plain (cap_next frepr caps)"
proof -
  have "plain v" if "cap_ue frepr r u = Some v" "plain u" for r u v
  proof (cases r)
    case (Some ratio)
    then show ?thesis
      using that cap_ue_dict [of frepr ratio _ v] by (fastforce simp: plain_def)
  qed (use that in \<open>simp add: cap_ue_def\<close>)
  then show ?thesis
    by (auto simp: keeps_plain_def cap_next_def)
qed

text \<open>A cap falls on the UE it names and on nothing else: when a report goes through the caps, the UEs
  stay in place; one without a cap is untouched; of one with a cap only the two rates change, each
  to its share, and every other field is what it was.\<close>

theorem cap_touches_only_its_ue:
  assumes "apply_caps frepr caps r = Some r'"
  shows "\<exists>us vs. sim_ues r = Some us \<and> sim_ues r' = Some vs \<and> length vs = length us
    \<and> (\<forall>i < length us.
         (map_of caps (int i) = None \<longrightarrow> vs ! i = us ! i)
         \<and> (\<forall>ratio d. map_of caps (int i) = Some ratio \<and> us ! i = JObj d \<longrightarrow>
              (\<exists>d'. vs ! i = JObj d' \<and> (\<forall>key. map_of d' key =
                 (if key \<in> {''dl_brate'', ''ul_brate''} then map_option (scaled frepr ratio) (map_of d key)
                  else map_of d key)))))"
proof -
  obtain n where "walk_ues (cap_next frepr caps) 0 r = Some (n, r')"
    using assms by (auto simp: apply_caps_def)
  then obtain us vs where us: "sim_ues r = Some us" "sim_ues r' = Some vs"
    and w: "walk_list (cap_next frepr caps) 0 us = Some (n, vs)"
    by (rule walk_ues_seen [OF _ cap_keeps_plain])
  have c: "cap_ue frepr (map_of caps (int i)) (us ! i) = Some (vs ! i)" if "i < length us" for i
    using walk_list_nth [OF w _ that] by (auto simp: cap_next_def)
  have "vs ! i = us ! i" if "i < length us" "map_of caps (int i) = None" for i
    using c [of i] that by (simp add: cap_ue_def)
  moreover have "\<exists>d'. vs ! i = JObj d' \<and> (\<forall>key. map_of d' key =
      (if key \<in> {''dl_brate'', ''ul_brate''} then map_option (scaled frepr ratio) (map_of d key) else map_of d key))"
    if "i < length us" "map_of caps (int i) = Some ratio \<and> us ! i = JObj d" for i ratio d
    using c [of i] that cap_ue_dict [of frepr ratio d "vs ! i"] by simp
  ultimately show ?thesis
    using us walk_list_length [OF w] by blast
qed

section \<open>Both sources tell of the same UEs\<close>

lemma entry_ue_object: "entry_ue e = Some (JObj d) \<Longrightarrow> ue_object e = Some d"
  by (auto simp: entry_ue_def ue_fields_def ue_object_def split: json.splits option.splits)

lemma set_map_filter: "(\<exists>x \<in> set xs. f x = Some y) \<Longrightarrow> y \<in> set (List.map_filter f xs)"
  by (force simp: List.map_filter_def)

lemma map_option_list_mem:
  assumes "map_option_list f xs = Some ys" and "y \<in> set ys"
  shows "\<exists>x \<in> set xs. f x = Some y"
  using assms by (induction xs arbitrary: ys) (auto split: option.splits)

lemma listed_entries:
  assumes "list_or_none v = Some es \<or> own_list v = Some es" and "e \<in> set es" and "entry_ue e = Some (JObj d)"
  shows "d \<in> set (listed_ues v)"
proof -
  have "v = JArr es"
    using assms(1,2) by (auto simp: list_or_none_def own_list_def split: json.splits if_splits list.splits)
  then show ?thesis
    using assms(2) entry_ue_object [OF assms(3)] by (auto simp: listed_ues_def intro: set_map_filter)
qed

lemma sim_ue_reported:
  assumes "sim_ues r = Some us" and "JObj d \<in> set us"
  shows "\<exists>t cell. reported_in fiso r t cell d"
proof -
  obtain ls where ls: "ue_lists r = Some ls" and "map_option_list entry_ue (concat ls) = Some us"
    using assms(1) by (auto simp: sim_ues_def bind_eq_Some_conv)
  then obtain l e where e: "l \<in> set ls" "e \<in> set l" "entry_ue e = Some (JObj d)"
    using map_option_list_mem assms(2) by fastforce
  obtain cells cs where cells: "list_or_none (pget r ''cells'') = Some cells"
    and cs: "map_option_list cell_list cells = Some cs"
    and own: "l \<in> set cs \<or> (\<exists>v. map_of r ''ue_list'' = Some v \<and> own_list v = Some l)"
    using ls e(1) by (auto simp: ue_lists_def bind_eq_Some_conv split: option.splits)
  from own show ?thesis
  proof
    assume "l \<in> set cs"
    then obtain c where c: "JObj c \<in> set cells" and l: "list_or_none (pget c ''ue_list'') = Some l"
      using map_option_list_mem [OF cs] by (force simp: cell_list_def split: json.splits)
    have "items_or_none (pget r ''cells'') = Some cells"
      using cells by (auto simp: list_or_none_def items_or_none_def split: json.splits if_splits)
    then show ?thesis
      using c listed_entries [of "pget c ''ue_list''" l e d] l e unfolding reported_in_def by blast
  next
    assume "\<exists>v. map_of r ''ue_list'' = Some v \<and> own_list v = Some l"
    then show ?thesis
      using listed_entries [of _ l e d] e unfolding reported_in_def by (metis option.simps(5) pget_def)
  qed
qed

lemma dmerge_append: "distinct (keys d @ keys e) \<Longrightarrow> dmerge d e = d @ e"
proof (induction d e rule: dmerge.induct)
  case (2 d k v e)
  have "dput k v d = d @ [(k, v)]" if "k \<notin> set (keys d)" for d
    using that by (induction d) (auto simp: keys_def)
  then show ?case
    using 2 by (auto simp: keys_def)
qed simp

lemma py_index_nat [simp]: "py_index us (int i) = (if i < length us then Some (us ! i) else None)"
  by (simp add: py_index_def)

lemma dec_int_nat_inject: "dec_int (int i) = dec_int (int j) \<longleftrightarrow> i = j"
  using dec_nat_inject by (auto simp: dec_int_def)

definition ue_meas_entry :: "(rat \<Rightarrow> string) \<Rightarrow> string list \<Rightarrow> int \<Rightarrow> json list \<Rightarrow> int \<Rightarrow> (string \<times> json) option" where
  "ue_meas_entry frepr known period us i =
     Option.bind (py_index us i) (\<lambda>u.
       map_option (\<lambda>d. (dec_int i, JObj (meas_dict d period))) (per_ue frepr known (of_int period / 1000) u))"

lemma ue_meas_entry_nth:
  assumes "ue_meas_entry frepr known period us (int i) = Some e" and "i < length us"
  shows "\<exists>data. per_ue frepr known (of_int period / 1000) (us ! i) = Some data
    \<and> e = (dec_int (int i), JObj (meas_dict data period))"
  using assms by (auto simp: ue_meas_entry_def)

lemma map_of_dmerge: "map_of (dmerge d e) k = (case map_of (rev e) k of Some v \<Rightarrow> Some v | None \<Rightarrow> map_of d k)"
  by (induction d e rule: dmerge.induct) (auto simp: map_add_def split: option.splits)

lemma dec_nat_digits: "set (dec_nat n) \<subseteq> digit ` {..<10}"
proof (induction n rule: dec_nat.induct)
  case (1 n)
  then show ?case by (subst dec_nat.simps) (auto simp: image_iff)
qed

lemma dec_int_inject: "dec_int i = dec_int j \<longleftrightarrow> i = j"
proof -
  have minus: "CHR ''-'' \<notin> digit ` {..<10}"
    by (auto simp: digit_def dest!: arg_cong [where f = "of_char :: char \<Rightarrow> nat"])
  have "dec_nat n \<noteq> CHR ''-'' # xs" for n xs
    using dec_nat_digits [of n] minus by auto
  then have minus: "dec_nat n \<noteq> CHR ''-'' # xs" "CHR ''-'' # xs \<noteq> dec_nat n" for n xs
    by metis+
  have "i = j" if "dec_int i = dec_int j"
    using that minus by (auto simp: dec_int_def split: if_splits dest!: dec_nat_inject)
  then show ?thesis
    by blast
qed

text \<open>Each UE that is wanted and there is has its entry, whatever else is wanted and however often.\<close>

lemma ue_meas_mem:
  assumes "ue_meas frepr known period us wanted = Some d" and "int i \<in> set wanted" and "i < length us"
  shows "\<exists>data. per_ue frepr known (of_int period / 1000) (us ! i) = Some data
    \<and> (dec_int (int i), JObj (meas_dict data period)) \<in> set d"
proof -
  let ?f = "ue_meas_entry frepr known period us"
  let ?w = "filter (\<lambda>i. i < int (length us)) wanted"
  obtain es where es: "list_all2 (\<lambda>i e. ?f i = Some e) ?w es" and d: "d = dmerge [] es"
    using assms(1) by (auto simp: ue_meas_def map_option_list_Some simp flip: ue_meas_entry_def)
  have key: "fst e = dec_int j" if "?f j = Some e" for j e
    using that by (auto simp: ue_meas_entry_def bind_eq_Some_conv)
  obtain k where k: "k < length ?w" "?w ! k = int i"
    using assms(2,3) in_set_conv_nth [of "int i" ?w] by auto
  then have "?f (int i) = Some (es ! k)" and len: "k < length es"
    using list_all2_nthD [OF es, of k] list_all2_lengthD [OF es] by auto
  then obtain data where data: "per_ue frepr known (of_int period / 1000) (us ! i) = Some data"
    and e: "es ! k = (dec_int (int i), JObj (meas_dict data period))"
    using ue_meas_entry_nth assms(3) by blast
  have "v = JObj (meas_dict data period)" if v: "(dec_int (int i), v) \<in> set es" for v
  proof -
    obtain l where l: "l < length es" "es ! l = (dec_int (int i), v)"
      using v by (auto simp: in_set_conv_nth)
    then have "?f (?w ! l) = Some (dec_int (int i), v)"
      using list_all2_nthD2 [OF es, of l] by simp
    moreover from this have "?w ! l = int i"
      using key by (fastforce simp: dec_int_inject)
    ultimately show ?thesis
      using \<open>?f (int i) = Some (es ! k)\<close> e by simp
  qed
  moreover have "(dec_int (int i), JObj (meas_dict data period)) \<in> set es"
    using e len nth_mem by metis
  ultimately have "map_of (rev es) (dec_int (int i)) = Some (JObj (meas_dict data period))"
    by (metis map_of_SomeD set_rev weak_map_of_SomeI)
  then have "map_of d (dec_int (int i)) = Some (JObj (meas_dict data period))"
    by (simp add: d map_of_dmerge)
  then show ?thesis
    using data map_of_SomeD by fast
qed

lemma kpm_ue_rows_mem:
  assumes "kpm_ue_rows cell ues t0 granul = Some rows" and "(i, JObj (meas_dict data period)) \<in> set ues"
    and "0 < period" and "data \<noteq> []"
  shows "set (kpm_rows cell (''e2:'' @ i) ''ue'' data t0 period) \<subseteq> set rows"
  using assms(1,2)
proof (induction cell ues t0 granul arbitrary: rows rule: kpm_ue_rows.induct)
  case (2 cell ue_id m ues t0 granul)
  obtain g d rows' where "py_int (py_or (pget m ''granulPeriod'') (JInt granul)) = Some g"
    and "py_or (pget m ''measData'') (JObj []) = JObj d"
    and r: "kpm_ue_rows cell ues t0 granul = Some rows'"
    and rows: "rows = kpm_rows cell (''e2:'' @ ue_id) ''ue'' d t0 g @ rows'"
    using "2.prems"(1)
    by (cases "py_or (pget m ''measData'') (JObj [])") (auto simp: bind_eq_Some_conv)
  show ?case
  proof (cases "(ue_id, JObj m) = (i, JObj (meas_dict data period))")
    case True
    then have "g = period" "d = data"
      using assms(3,4) \<open>py_int _ = Some g\<close> \<open>py_or _ _ = JObj d\<close> by (auto simp: meas_dict_def pget_def py_or_def)
    then show ?thesis
      using True rows by auto
  next
    case False
    then show ?thesis
      using "2.IH" [OF _ _ r] "2.prems"(2) \<open>py_int _ = Some g\<close> \<open>py_or _ _ = JObj d\<close> rows by auto
  qed
qed auto

lemma per_ue_mem:
  assumes "per_ue frepr known s u = Some data" and "m \<in> set known"
  shows "\<exists>v. kpm_from_ue frepr m u s = Some v \<and> (m, JArr [v]) \<in> set data"
proof -
  have "list_all2 (\<lambda>m e. map_option (\<lambda>v. (m, JArr [v])) (kpm_from_ue frepr m u s) = Some e) (uniq known) data"
    using assms(1) by (simp add: per_ue_def meas_of_def map_option_list_Some)
  moreover obtain k where "k < length (uniq known)" "uniq known ! k = m"
    using assms(2) by (metis in_set_conv_nth uniq_set)
  ultimately show ?thesis
    by (force simp: list_all2_conv_all_nth)
qed

lemma number_py_num: "number v = Some n \<Longrightarrow> py_num v = Some n"
  by (cases v) simp_all

lemma normalise_kpm_simple:
  assumes "t0 \<noteq> 0" and "d \<noteq> []"
  shows "normalise_kpm [(''e2_node_id'', JStr node), (''collect_start_ns'', JInt t0),
      (''meas'', JObj [(''ueMeasData'', JObj d)])] = map_option (sort_key kpm_key) (kpm_ue_rows node d t0 0)"
proof -
  have "py_or (JStr node) (JStr []) = JStr node"
    by (simp add: py_or_def)
  then show ?thesis
    using assms by (simp add: normalise_kpm_def pget_def kpm_own_rows_def py_or_def [of "JInt t0"]
        py_or_def [of "JObj d"] py_or_def [of "JObj [(''ueMeasData'', JObj d)]"])
qed

text \<open>The UEs that an indication of a style tells of, the styles 1 and 3 aside: one, some, all.\<close>

definition told_ue :: "int \<Rightarrow> int list \<Rightarrow> nat \<Rightarrow> bool" where
  "told_ue style ids i \<longleftrightarrow>
     style = 2 \<and> ids \<noteq> [] \<and> hd ids = int i \<or> style = 4 \<or> style = 5 \<and> int i \<in> set ids"

text \<open>The capability on a run whose parameters name the UEs, or leave the default.\<close>

definition kpm_runs :: "int \<Rightarrow> int list \<Rightarrow> kpm \<Rightarrow> bool" where
  "kpm_runs style ids k \<longleftrightarrow>
     km_style k = style \<and> (\<exists>p. km_params k = Some p \<and> py_or (pget p ''kpm_ue_ids'') (JArr [JInt 0]) = JArr (map JInt ids))"

lemma own_rows:
  assumes "normalise_kpm (dput ''ue_id'' (JInt j) [(''e2_node_id'', JStr node), (''collect_start_ns'', JInt t0),
      (''meas'', JObj (meas_dict data period))]) = Some rows"
    and "t0 \<noteq> 0" and "0 < period"
  shows "set (kpm_rows node (''e2:'' @ dec_int j) ''ue'' data t0 period) \<subseteq> set rows"
  using assms
  by (auto simp: normalise_kpm_def pget_def kpm_own_rows_def meas_dict_def py_or_def py_str_def)

lemma indication_rows:
  assumes "indication frepr now style metrics ids period s = Some ind" and "on_indication ind k = Some (Some ind')"
    and "normalise_kpm ind' = Some rows" and "kpm_runs style ids k" and "told_ue style ids i"
    and "e2_latest s = Some r" and "sim_ues r = Some us" and "i < length us"
    and "m \<in> set metrics" and "m \<in> set kpm_names" and "0 < period" and "now \<noteq> period * 1000000"
    and "kpm_from_ue frepr m (us ! i) (of_int period / 1000) = Some v" and "number v = Some n"
    and "kpm_canonical m = (canon, unit, scale)"
  shows "mk_sample ''kpm'' (now - period * 1000000) (e2_node s) (''e2:'' @ dec_int (int i)) (''ue.'' @ canon) (n * scale) unit
    \<in> set rows"
proof -
  let ?known = "filter (\<lambda>m. m \<in> set kpm_names) metrics" and ?t0 = "now - period * 1000000"
  obtain part where part: "meas_part frepr style ?known ids period us = Some part"
    and ind: "ind = [(''e2_node_id'', JStr (e2_node s)), (''collect_start_ns'', JInt ?t0), (''meas'', JObj part)]"
    using assms(1) by (auto simp: indication_def assms(6,7))
  have rows: "set (kpm_rows (e2_node s) (''e2:'' @ dec_int (int i)) ''ue'' data ?t0 period) \<subseteq> set rows"
    if data: "per_ue frepr ?known (of_int period / 1000) (us ! i) = Some data" and "data \<noteq> []" for data
  proof (cases "style = 2")
    case True
    then obtain ids' where ids: "ids = int i # ids'"
      using assms(5) by (cases ids) (auto simp: told_ue_def)
    then have "part = meas_dict data period"
      using part data assms(8) by (auto simp: meas_part_def Let_def True)
    moreover have "ind' = dput ''ue_id'' (JInt (int i)) ind"
      using assms(2,4) by (auto simp: on_indication_def kpm_runs_def True ids ind first_item_def)
    ultimately show ?thesis
      using own_rows [of "int i" "e2_node s" ?t0 data period rows] assms(3,11,12) by (simp add: ind)
  next
    case False
    then have "style = 4 \<or> style = 5 \<and> int i \<in> set ids"
      using assms(5) by (simp add: told_ue_def)
    then obtain d wanted where d: "ue_meas frepr ?known period us wanted = Some d" "int i \<in> set wanted"
      and p: "part = [(''ueMeasData'', JObj d)]"
      using part assms(8) by (auto simp: meas_part_def Let_def split: if_splits)
    then have mem: "(dec_int (int i), JObj (meas_dict data period)) \<in> set d"
      using ue_meas_mem [OF d assms(8)] data by auto
    have "ind' = ind"
      using assms(2,4) False by (auto simp: on_indication_def kpm_runs_def)
    then obtain more where more: "kpm_ue_rows (e2_node s) d ?t0 0 = Some more" and rows: "set more \<subseteq> set rows"
      using assms(3,12) mem normalise_kpm_simple [of ?t0 d "e2_node s"] by (cases "d = []") (auto simp: ind p)
    show ?thesis
      using kpm_ue_rows_mem [OF more mem assms(11) that(2)] rows by blast
  qed
  obtain data where data: "per_ue frepr ?known (of_int period / 1000) (us ! i) = Some data"
  proof (cases "style = 2")
    case True
    then show ?thesis
      using that part assms(5,8) by (cases ids) (auto simp: meas_part_def Let_def told_ue_def)
  next
    case False
    then have "style = 4 \<or> style = 5 \<and> int i \<in> set ids"
      using assms(5) by (simp add: told_ue_def)
    then obtain d wanted where "ue_meas frepr ?known period us wanted = Some d" "int i \<in> set wanted"
      using part assms(8) by (auto simp: meas_part_def Let_def split: if_splits)
    then show ?thesis
      using that ue_meas_mem assms(8) by blast
  qed
  have v: "(m, JArr [v]) \<in> set data"
    using per_ue_mem [OF data, of m] assms(9,10,13) by auto
  then have "data \<noteq> []"
    by auto
  then show ?thesis
    using rows [OF data] kpm_rows_at [OF v, of 0 n ?t0 canon unit scale period "e2_node s" "''e2:'' @ dec_int (int i)" "''ue''"]
      assms(12,14,15) by auto
qed

definition rate_fields :: "(string \<times> string \<times> string) list" where
  "rate_fields =
     [(''dl_brate'', ''DRB.UEThpDl'', ''ue.dl_throughput_bps''),
      (''ul_brate'', ''DRB.UEThpUl'', ''ue.ul_throughput_bps'')]"

lemma rate_tables:
  assumes "(field, m, metric) \<in> set rate_fields"
  shows "canonical json_ue_table ''ue'' field = (metric, ''bit/s'', 1)" and "field \<notin> identity_fields"
    and "m \<in> set kpm_names" and "metric = ''ue.'' @ fst (kpm_canonical m)"
    and "snd (kpm_canonical m) = (''bit/s'', 1000)"
proof -
  have "list_all (\<lambda>(field, m, metric). canonical json_ue_table ''ue'' field = (metric, ''bit/s'', 1)
      \<and> field \<notin> identity_fields \<and> m \<in> set kpm_names \<and> metric = ''ue.'' @ fst (kpm_canonical m)
      \<and> snd (kpm_canonical m) = (''bit/s'', 1000)) rate_fields"
    by code_simp
  then show "canonical json_ue_table ''ue'' field = (metric, ''bit/s'', 1)" and "field \<notin> identity_fields"
    and "m \<in> set kpm_names" and "metric = ''ue.'' @ fst (kpm_canonical m)"
    and "snd (kpm_canonical m) = (''bit/s'', 1000)"
    using assms unfolding list_all_iff by fast+
qed
lemma rate_value:
  assumes "(field, m, metric) \<in> set rate_fields" and "map_of d field = Some v" and "py_num v = Some n"
  shows "kpm_from_ue frepr m (JObj d) s = Some (flt frepr (n / 1000))"
proof -
  have "ue_num (JObj d) field = Some n"
    using assms(2,3) by (simp add: ue_num_def ue_get_def pget_or_def)
  moreover have "field = ''dl_brate'' \<and> m = ''DRB.UEThpDl'' \<or> field = ''ul_brate'' \<and> m = ''DRB.UEThpUl''"
    using assms(1) by (auto simp: rate_fields_def)
  ultimately show ?thesis
    by (elim disjE conjE) (simp_all add: kpm_from_ue_def)
qed

text \<open>C20. Both sources agree on the rates: for every UE of the report the simulator last sent that has a
  rate, the KPM indication of that report, as the capability passes it on, and the report itself, each
  through its normaliser, give the same rate under the same metric and in the same unit, in the one
  as the UE's E2 id and in the other as its RNTI. The indication is of the style a subscription asked
  for: the UE is the first one asked for in style 2, which is the default, one of those asked for in
  style 5, and any of the report's in style 4; a metric of the rate is among those asked for.\<close>

theorem both_sources_agree:
  assumes "e2_latest s = Some r" and "sim_ues r = Some us" and "i < length us" and "us ! i = JObj d"
    and "(field, m, metric) \<in> set rate_fields" and "map_of d field = Some v" and "number v = Some n"
    and "indication frepr now style metrics ids period s = Some ind" and "m \<in> set metrics" and "told_ue style ids i"
    and "kpm_runs style ids k" and "on_indication ind k = Some (Some ind')"
    and "0 < period" and "now \<noteq> period * 1000000"
    and "normalise_kpm ind' = Some krows" and "normalise_json fiso (JObj r) index = Some (jrows, index')"
  shows "mk_sample ''kpm'' (now - period * 1000000) (e2_node s) (''e2:'' @ dec_int (int i)) metric n ''bit/s'' \<in> set krows
    \<and> (\<exists>t cell. mk_sample ''json'' t cell (rnti_of d) metric n ''bit/s'' \<in> set jrows)"
proof
  note t = rate_tables [OF assms(5)]
  have "kpm_canonical m = (fst (kpm_canonical m), ''bit/s'', 1000)"
    using t(5) by (metis prod.collapse)
  moreover have "kpm_from_ue frepr m (us ! i) (of_int period / 1000) = Some (flt frepr (n / 1000))"
    unfolding assms(4) using rate_value [OF assms(5,6) number_py_num [OF assms(7)]] .
  moreover have "number (flt frepr (n / 1000)) = Some (n / 1000)"
    by (simp add: flt_def)
  ultimately show "mk_sample ''kpm'' (now - period * 1000000) (e2_node s) (''e2:'' @ dec_int (int i)) metric n ''bit/s'' \<in> set krows"
    using indication_rows [OF assms(8,12,15,11,10,1-3,9) t(3) assms(13,14)] unfolding t(4) by force
  obtain t' cell where "reported_in fiso r t' cell d"
    using sim_ue_reported [OF assms(2), of d] assms(3,4) nth_mem by metis
  from reported_ue_rows [OF assms(16) this] show "\<exists>t cell. mk_sample ''json'' t cell (rnti_of d) metric n ''bit/s'' \<in> set jrows"
    using fields_number [OF map_of_SomeD [OF assms(6)] assms(7) t(2,1)] by (force simp: set_rows_at)
qed

section \<open>The walk stays in range\<close>

definition index_within :: "int \<Rightarrow> int \<Rightarrow> json option \<Rightarrow> bool" where
  "index_within lo hi v = (case v of None \<Rightarrow> True | Some (JInt i) \<Rightarrow> lo \<le> i \<and> i \<le> hi | _ \<Rightarrow> False)"

definition count_sane :: "json option \<Rightarrow> bool" where
  "count_sane v = (case v of None \<Rightarrow> True | Some (JInt i) \<Rightarrow> 0 \<le> i | _ \<Rightarrow> False)"

definition walked_ue :: "json \<Rightarrow> bool" where
  "walked_ue u =
     (case u of
        JObj d \<Rightarrow>
          index_within 0 27 (map_of d ''dl_mcs'') \<and> index_within 0 27 (map_of d ''ul_mcs'')
          \<and> index_within 1 15 (map_of d ''cqi'')
          \<and> count_sane (map_of d ''dl_nof_nok'') \<and> count_sane (map_of d ''ul_nof_nok'')
      | _ \<Rightarrow> False)"

definition drifts_bounded :: "walk \<Rightarrow> bool" where
  "drifts_bounded w \<longleftrightarrow> (\<forall>rnti d. map_of (wk_drift w) rnti = Some d \<longrightarrow> - 6 \<le> d \<and> d \<le> 3)"

lemma walked_index_within: "lo \<le> hi \<Longrightarrow> index_within lo hi (map_option (\<lambda>v. walked_index lo hi d (f v)) x)"
  by (auto simp: index_within_def walked_index_def split: option.splits)

lemma walk_noks_effect:
  assumes "walk_noks rint d ks i ue = Some (j, ue')"
  shows "(k \<notin> set ks \<longrightarrow> map_of ue' k = map_of ue k) \<and> (k \<in> set ks \<longrightarrow> count_sane (map_of ue' k))"
  using assms
proof (induction ks arbitrary: i ue)
  case (Cons key ks)
  show ?case
  proof (cases "map_of ue key")
    case None
    then show ?thesis
      using Cons.IH [of i ue] Cons.prems by (auto simp: count_sane_def)
  next
    case (Some v)
    then obtain n where "walk_noks rint d ks (i + 1)
        (dput key (JInt (max 0 (trunc_rat (n * (1 - d / 3)) + rint i))) ue) = Some (j, ue')"
      using Cons.prems by (auto simp: bind_eq_Some_conv)
    from Cons.IH [OF this] show ?thesis
      by (auto simp: count_sane_def split: if_splits)
  qed
qed simp

lemma walk_ue_effect:
  assumes "walk_ue frepr gauss rint w u = Some (w', v)"
  shows "walked_ue v" and "plain u \<Longrightarrow> plain v"
    and "\<exists>rnti. wk_drift w' = dput rnti (drift_of gauss rnti w) (wk_drift w)"
proof -
  obtain ue where u: "u = JObj ue"
    using assms by (auto simp: walk_ue_def split: json.splits)
  obtain rnti d d1 d2 d3 d4 d5 d6 d7 i f g where d: "d = drift_of gauss rnti w"
    and 1: "upd_num ''dl_mcs'' (walked_index 0 27 d) ue = Some d1"
      "upd_num ''ul_mcs'' (walked_index 0 27 d) d1 = Some d2" "upd_num ''cqi'' (walked_index 1 15 d) d2 = Some d3"
      "upd_num ''pusch_snr_db'' f d3 = Some d4" "upd_num ''dl_brate'' g d4 = Some d5"
      "upd_num ''ul_brate'' g d5 = Some d6"
    and 2: "walk_noks rint d [''dl_nof_nok'', ''ul_nof_nok''] (wk_ints w) d6 = Some (i, d7)"
    and v: "v = JObj d7" "wk_drift w' = dput rnti d (wk_drift w)"
    using assms unfolding u walk_ue_def Let_def by (auto simp: bind_eq_Some_conv)
  note m = walk_noks_effect [OF 2] 1 [THEN upd_num_Some]
  have same: "map_of d7 k = map_of ue k"
    if "k \<notin> {''dl_mcs'', ''ul_mcs'', ''cqi'', ''pusch_snr_db'', ''dl_brate'', ''ul_brate'', ''dl_nof_nok'', ''ul_nof_nok''}" for k
    using that m(1) [of k] by (simp add: m(2-))
  have "map_of d7 ''dl_mcs'' = map_option (\<lambda>v. walked_index 0 27 d (the (py_num v))) (map_of ue ''dl_mcs'')"
    "map_of d7 ''ul_mcs'' = map_option (\<lambda>v. walked_index 0 27 d (the (py_num v))) (map_of ue ''ul_mcs'')"
    "map_of d7 ''cqi'' = map_option (\<lambda>v. walked_index 1 15 d (the (py_num v))) (map_of ue ''cqi'')"
    using m(1) by (simp_all add: m(2-))
  then show "walked_ue v"
    using m(1) [of "''dl_nof_nok''"] m(1) [of "''ul_nof_nok''"] by (simp add: walked_ue_def v(1) walked_index_within)
  show "plain v" if "plain u"
    using that same [of "''ue_container''"] by (simp add: plain_def u v(1))
  show "\<exists>rnti. wk_drift w' = dput rnti (drift_of gauss rnti w) (wk_drift w)"
    using v(2) d by blast
qed

lemma drift_bounds: "- 6 \<le> drift_of gauss rnti w" "drift_of gauss rnti w \<le> 3"
  by (simp_all add: drift_of_def)

lemma walk_ue_drifts: "walk_ue frepr gauss rint w u = Some (w', v) \<Longrightarrow> drifts_bounded w \<Longrightarrow> drifts_bounded w'"
  using walk_ue_effect(3) [of frepr gauss rint w u w' v] drift_bounds by (auto simp: drifts_bounded_def split: if_splits)

lemma walk_list_inv:
  assumes "walk_list f s us = Some (s', vs)" and "I s"
    and "\<And>s u s' v. f s u = Some (s', v) \<Longrightarrow> I s \<Longrightarrow> I s' \<and> P v"
  shows "I s' \<and> list_all P vs"
  using assms(1,2)
proof (induction us arbitrary: s vs)
  case (Cons u us)
  then obtain s1 v vs' where "f s u = Some (s1, v)" and "walk_list f s1 us = Some (s', vs')" and "vs = v # vs'"
    by (auto simp: bind_eq_Some_conv)
  then show ?case
    using Cons.IH Cons.prems(2) assms(3) by fastforce
qed simp

text \<open>However the draws fall, the walk stays within what a gNB can report: after it the MCS and CQI of
  every UE are indices of their tables, no counter of failures is negative, and every UE's drift,
  which the next round starts from, is between -6 and 3.\<close>

theorem walk_stays_in_range:
  assumes "walk_report frepr gauss rint w r = Some (w', r')" and "drifts_bounded w"
  shows "drifts_bounded w' \<and> (\<exists>vs. sim_ues r' = Some vs \<and> list_all walked_ue vs)"
proof -
  have "keeps_plain (walk_ue frepr gauss rint)"
    using walk_ue_effect(2) by (auto simp: keeps_plain_def)
  then obtain us vs where v: "sim_ues r' = Some vs" and w: "walk_list (walk_ue frepr gauss rint) w us = Some (w', vs)"
    using walk_ues_seen [OF assms(1) [unfolded walk_report_def]] by metis
  have "drifts_bounded w' \<and> list_all walked_ue vs"
    using w assms(2) by (rule walk_list_inv) (use walk_ue_effect(1) walk_ue_drifts in blast)
  then show ?thesis
    using v by blast
qed

section \<open>Witnesses\<close>

definition no_repr :: "rat \<Rightarrow> string" where
  "no_repr r = []"

definition example_report :: pdict where
  "example_report =
     [(''cells'', JArr [JObj [(''ue_list'', JArr [JObj [(''rnti'', JInt 7), (''dl_brate'', JInt 4), (''cqi'', JInt 9)],
                                              JObj [(''rnti'', JInt 8), (''dl_brate'', JInt 6)]])]])]"

definition example_ue :: "nat \<Rightarrow> pdict" where
  "example_ue i =
     (if i = 0 then [(''rnti'', JInt 7), (''dl_brate'', JInt 4), (''cqi'', JInt 9)]
      else [(''rnti'', JInt 8), (''dl_brate'', JInt 6)])"

lemma example_ues: "sim_ues example_report = Some [JObj (example_ue 0), JObj (example_ue 1)]"
  by code_simp

definition example_capped :: pdict where
  "example_capped = the (apply_caps no_repr [(1, 50)] example_report)"

lemma example_apply: "apply_caps no_repr [(1, 50)] example_report = Some example_capped"
proof -
  have "apply_caps no_repr [(1, 50)] example_report \<noteq> None"
    by code_simp
  then show ?thesis
    by (simp add: example_capped_def)
qed

lemma example_rate:
  "scaled no_repr 50 (JInt 6) = JFloat 3 []" "map_of (example_ue 1) ''dl_brate'' = Some (JInt 6)"
  by code_simp+

theorem cap_touches_only_its_ue_witness:
  "\<exists>vs d'. sim_ues example_capped = Some vs \<and> vs ! 0 = JObj (example_ue 0) \<and> vs ! 1 = JObj d'
     \<and> map_of d' ''dl_brate'' = Some (JFloat 3 [])"
  using cap_touches_only_its_ue [OF example_apply]
proof (elim exE conjE)
  fix us vs
  assume us: "sim_ues example_report = Some us" and vs: "sim_ues example_capped = Some vs"
    and all: "\<forall>i < length us. (map_of [(1, 50)] (int i) = None \<longrightarrow> vs ! i = us ! i)
      \<and> (\<forall>ratio d. map_of [(1, 50)] (int i) = Some ratio \<and> us ! i = JObj d \<longrightarrow>
           (\<exists>d'. vs ! i = JObj d' \<and> (\<forall>key. map_of d' key =
              (if key \<in> {''dl_brate'', ''ul_brate''} then map_option (scaled no_repr ratio) (map_of d key)
               else map_of d key))))"
  have u: "us = [JObj (example_ue 0), JObj (example_ue 1)]"
    using us by (simp add: example_ues)
  have "vs ! 0 = JObj (example_ue 0)"
    using all [rule_format, THEN conjunct1, of 0] by (simp add: u)
  moreover obtain d' where "vs ! 1 = JObj d'" and d': "\<forall>key. map_of d' key =
      (if key \<in> {''dl_brate'', ''ul_brate''} then map_option (scaled no_repr 50) (map_of (example_ue 1) key)
       else map_of (example_ue 1) key)"
    using all [THEN spec, of 1] by (auto simp: u)
  moreover have "map_of d' ''dl_brate'' = Some (JFloat 3 [])"
    using d' [THEN spec, of "''dl_brate''"] by (simp add: example_rate [unfolded One_nat_def])
  ultimately show ?thesis
    using vs by blast
qed

definition example_e2 :: e2_sim where
  "example_e2 = \<lparr>e2_node = ''g'', e2_latest = Some example_report, e2_caps = []\<rparr>"

text \<open>The second UE, asked for in style 2.\<close>

definition example_kpm :: kpm where
  "example_kpm = new_kpm\<lparr>km_params := Some [(''kpm_ue_ids'', JArr [JInt 1])]\<rparr>"

definition example_ind :: pdict where
  "example_ind = the (indication no_repr 9 2 [''DRB.UEThpDl''] [1] 1 example_e2)"

definition example_passed :: pdict where
  "example_passed = the (the (on_indication example_ind example_kpm))"

lemma example_runs:
  "indication no_repr 9 2 [''DRB.UEThpDl''] [1] 1 example_e2 \<noteq> None" "normalise_kpm example_passed \<noteq> None"
  "on_indication example_ind example_kpm = Some (Some example_passed)"
  "normalise_json (\<lambda>_. None) (JObj example_report) None \<noteq> None"
  "km_style example_kpm = 2"
  by code_simp+

lemma example_kpm_runs: "kpm_runs 2 [1] example_kpm"
  using example_runs(5) by (simp add: kpm_runs_def example_kpm_def pget_def py_or_def)

theorem both_sources_agree_witness:
  "\<exists>krows jrows index'. normalise_kpm example_passed = Some krows
     \<and> normalise_json (\<lambda>_. None) (JObj example_report) None = Some (jrows, index')
     \<and> mk_sample ''kpm'' (- 999991) ''g'' (''e2:'' @ dec_int (int 1)) ''ue.dl_throughput_bps'' 6 ''bit/s'' \<in> set krows
     \<and> (\<exists>t cell. mk_sample ''json'' t cell (rnti_of (example_ue 1)) ''ue.dl_throughput_bps'' 6 ''bit/s'' \<in> set jrows)"
proof -
  obtain krows jrows index' where k: "normalise_kpm example_passed = Some krows"
    and j: "normalise_json (\<lambda>_. None) (JObj example_report) None = Some (jrows, index')"
    using example_runs by fastforce
  have i: "indication no_repr 9 2 [''DRB.UEThpDl''] [1] 1 example_e2 = Some example_ind"
    using example_runs(1) by (simp add: example_ind_def)
  have e: "e2_latest example_e2 = Some example_report" "e2_node example_e2 = ''g''"
    "(''dl_brate'', ''DRB.UEThpDl'', ''ue.dl_throughput_bps'') \<in> set rate_fields"
    "map_of (example_ue 1) ''dl_brate'' = Some (JInt 6)" "told_ue 2 [1] 1"
    by (simp_all add: example_e2_def rate_fields_def example_ue_def told_ue_def)
  show ?thesis
    using both_sources_agree [OF e(1) example_ues, of 1, OF _ _ e(3,4) _ i _ e(5) example_kpm_runs example_runs(3) _ _ k j]
      k j e(2) by simp
qed

definition example_walked :: "walk \<times> pdict" where
  "example_walked =
     the (walk_report no_repr (\<lambda>i. 5) (\<lambda>i. 1) \<lparr>wk_drift = [], wk_gauss = 0, wk_ints = 0\<rparr> example_report)"

lemma example_walks:
  "walk_report no_repr (\<lambda>i. 5) (\<lambda>i. 1) \<lparr>wk_drift = [], wk_gauss = 0, wk_ints = 0\<rparr> example_report \<noteq> None"
  by code_simp

theorem walk_stays_in_range_witness:
  "drifts_bounded (fst example_walked)
     \<and> (\<exists>vs. sim_ues (snd example_walked) = Some vs \<and> list_all walked_ue vs)"
proof -
  have "walk_report no_repr (\<lambda>i. 5) (\<lambda>i. 1) \<lparr>wk_drift = [], wk_gauss = 0, wk_ints = 0\<rparr> example_report
      = Some (fst example_walked, snd example_walked)"
    using example_walks by (simp add: example_walked_def)
  from walk_stays_in_range [OF this] show ?thesis
    by (simp add: drifts_bounded_def)
qed

end
