(* ===== verification/Gnb_Feed.thy ===== *)
theory Gnb_Feed
  imports Gnb_Props Json_Feed Rc_Control
begin

text \<open>
  The xApp against the simulator: the port of adapters/jsonfeed.py and adapters/sim.py, the RC
  capability, and the E2 feed of ran/sim/gnb_sim.py at the other end of the wire.

  The specification of a far end in \<open>Json_Feed\<close>, the set \<open>far_subs\<close> of the subscriptions it was left
  with, is refined by what the simulator's handler keeps.
\<close>

section \<open>A connection's life\<close>

text \<open>The handler takes a message, the thread of a subscription has a turn, the simulator has a new
  report.\<close>

datatype e2_event =
    Got pdict
  | Turn int bool nat
  | Report pdict

definition e2_event :: "(rat \<Rightarrow> string) \<Rightarrow> e2_event \<Rightarrow> e2_sim \<times> e2_conn \<Rightarrow> (e2_sim \<times> e2_conn) option" where
  "e2_event frepr ev sc =
     (case ev of
        Got m \<Rightarrow> e2_handle (Some (JObj m)) sc
      | Turn now_ns sends k \<Rightarrow> Some (fst sc, conn_emit frepr now_ns sends k (fst sc) (snd sc))
      | Report r \<Rightarrow> Some (e2_update r (fst sc), snd sc))"

fun e2_run :: "(rat \<Rightarrow> string) \<Rightarrow> e2_event list \<Rightarrow> e2_sim \<times> e2_conn \<Rightarrow> (e2_sim \<times> e2_conn) option" where
  "e2_run frepr [] sc = Some sc"
| "e2_run frepr (ev # evs) sc = Option.bind (e2_event frepr ev sc) (e2_run frepr evs)"

text \<open>The messages among them.\<close>

fun e2_wire :: "e2_event list \<Rightarrow> pdict list" where
  "e2_wire [] = []"
| "e2_wire (ev # evs) = (case ev of Got m \<Rightarrow> m # e2_wire evs | _ \<Rightarrow> e2_wire evs)"

lemma e2_run_append: "e2_run frepr (xs @ ys) sc = Option.bind (e2_run frepr xs sc) (e2_run frepr ys)"
proof (induction xs arbitrary: sc)
  case (Cons ev xs)
  then show ?case by (cases "e2_event frepr ev sc") simp_all
qed simp

lemma e2_wire_append [simp]: "e2_wire (xs @ ys) = e2_wire xs @ e2_wire ys"
  by (induction xs) (simp_all split: e2_event.splits)

lemma e2_wire_messages [simp]: "e2_wire (map Got ms) = ms"
  by (induction ms) simp_all

text \<open>Each subscription has its own thread, which nobody has told to stop.\<close>

definition served :: "e2_conn \<Rightarrow> string \<Rightarrow> nat \<Rightarrow> bool" where
  "served c sid k \<longleftrightarrow>
     k < length (cn_emitters c) \<and> em_sid (cn_emitters c ! k) = sid \<and> \<not> em_over (cn_emitters c ! k)"

definition all_served :: "e2_conn \<Rightarrow> bool" where
  "all_served c \<longleftrightarrow> distinct (keys (cn_subs c)) \<and> (\<forall>sid k. map_of (cn_subs c) sid = Some k \<longrightarrow> served c sid k)"

lemma conn_send_keeps [simp]:
  "cn_subs (conn_send m c) = cn_subs c" "cn_emitters (conn_send m c) = cn_emitters c"
  by (simp_all add: conn_send_def)

lemma handle_refines:
  assumes "e2_handle (Some (JObj m)) (s, c) = Some (s', c')" and "all_served c"
  shows "all_served c' \<and> set (keys (cn_subs c')) = far_step m (set (keys (cn_subs c)))"
proof -
  let ?op = "pget m ''op''" and ?sid = "py_str (pget m ''id'')"
  consider (sub) "?op = JStr ''subscribe''" | (unsub) "?op = JStr ''unsubscribe''"
    | (other) "?op \<noteq> JStr ''subscribe''" "?op \<noteq> JStr ''unsubscribe''"
    by blast
  then show ?thesis
  proof cases
    case sub
    then have c': "cn_subs c' = dput ?sid (length (cn_emitters c)) (cn_subs c)"
      "cn_emitters c' = cn_emitters c @ [\<lparr>em_sid = ?sid, em_req = m, em_over = False, em_fault = False\<rparr>]"
      using assms(1) by (auto simp: e2_handle_def Let_def)
    have "served c' sid k" if "map_of (cn_subs c') sid = Some k" for sid k
      using that assms(2) c' by (auto simp: all_served_def served_def nth_append split: if_splits)
    then show ?thesis
      using assms(2) sub by (auto simp: all_served_def c' keys_dput far_step_def)
  next
    case unsub
    show ?thesis
    proof (cases "map_of (cn_subs c) ?sid")
      case None
      then have "c' = c"
        using assms(1) unsub by (auto simp: e2_handle_def Let_def)
      then show ?thesis
        using None assms(2) unsub by (auto simp: far_step_def map_of_keys_None)
    next
      case (Some k)
      then have c': "cn_subs c' = dpop ?sid (cn_subs c)"
        "cn_emitters c' = (cn_emitters c)[k := (cn_emitters c ! k)\<lparr>em_over := True\<rparr>]"
        using assms(1) unsub by (auto simp: e2_handle_def Let_def stop_emitter_def)
      have k: "served c ?sid k"
        using assms(2) Some by (simp add: all_served_def)
      have "served c' sid j" if "map_of (cn_subs c') sid = Some j" for sid j
      proof -
        have "sid \<noteq> ?sid" "served c sid j"
          using that assms(2) by (auto simp: c' all_served_def split: if_splits)
        then have "j \<noteq> k"
          using k by (auto simp: served_def)
        then show ?thesis
          using \<open>served c sid j\<close> by (simp add: served_def c')
      qed
      then show ?thesis
        using assms(2) unsub by (auto simp: all_served_def c' keys_dpop far_step_def distinct_removeAll)
    qed
  next
    case other
    then have "cn_subs c' = cn_subs c" "cn_emitters c' = cn_emitters c"
      using assms(1) by (auto simp: e2_handle_def Let_def split: if_split_asm)
    then show ?thesis
      using assms(2) other by (simp add: all_served_def served_def far_step_def)
  qed
qed

lemma emit_keeps [simp]:
  "cn_subs (conn_emit frepr now sends k s c) = cn_subs c"
  "length (cn_emitters (conn_emit frepr now sends k s c)) = length (cn_emitters c)"
  by (auto simp: conn_emit_def end_emitter_def split: option.splits)

lemma emit_thread [simp]:
  "j < length (cn_emitters c) \<Longrightarrow>
     em_sid (cn_emitters (conn_emit frepr now sends k s c) ! j) = em_sid (cn_emitters c ! j)"
  "j < length (cn_emitters c) \<Longrightarrow>
     em_over (cn_emitters (conn_emit frepr now sends k s c) ! j) = em_over (cn_emitters c ! j)"
  by (auto simp: conn_emit_def end_emitter_def nth_list_update split: option.splits)

lemma emit_refines: "all_served c \<Longrightarrow> all_served (conn_emit frepr now sends k s c)"
  by (auto simp: all_served_def served_def)

lemma run_refines:
  "e2_run frepr evs (s, new_conn) = Some (s', c) \<Longrightarrow> all_served c \<and> set (keys (cn_subs c)) = far_subs (e2_wire evs)"
proof (induction evs arbitrary: s' c rule: rev_induct)
  case Nil
  then show ?case by (auto simp: new_conn_def all_served_def keys_def far_subs_def)
next
  case (snoc ev evs)
  then obtain s1 c1 where 1: "e2_run frepr evs (s, new_conn) = Some (s1, c1)"
    and 2: "e2_event frepr ev (s1, c1) = Some (s', c)"
    by (auto simp: e2_run_append bind_eq_Some_conv)
  show ?case
  proof (cases ev)
    case (Got m)
    then show ?thesis
      using handle_refines [of m s1 c1 s' c] 2 snoc.IH [OF 1] by (simp add: e2_event_def far_subs_append)
  next
    case (Turn now sends k)
    then show ?thesis
      using 2 snoc.IH [OF 1] emit_refines by (auto simp: e2_event_def)
  next
    case (Report r)
    then show ?thesis
      using 2 snoc.IH [OF 1] by (auto simp: e2_event_def)
  qed
qed

text \<open>A thread that has ended otherwise had a turn that raised: in what it told, or in the send.\<close>

definition turn_raised :: "(rat \<Rightarrow> string) \<Rightarrow> e2_event list \<Rightarrow> e2_sim \<times> e2_conn \<Rightarrow> nat \<Rightarrow> bool" where
  "turn_raised frepr evs sc k \<longleftrightarrow>
     (\<exists>evs1 now sends evs2 s1 c1. evs = evs1 @ Turn now sends k # evs2 \<and> e2_run frepr evs1 sc = Some (s1, c1)
        \<and> (emit_turn frepr now s1 (cn_emitters c1 ! k) = None \<or> \<not> sends))"

lemma turn_raised_later: "turn_raised frepr evs sc k \<Longrightarrow> turn_raised frepr (evs @ [ev]) sc k"
  unfolding turn_raised_def by fastforce

lemma handle_faults:
  assumes "e2_handle (Some (JObj m)) (s, c) = Some (s', c')" and "k < length (cn_emitters c')"
    and "em_fault (cn_emitters c' ! k)"
  shows "k < length (cn_emitters c) \<and> em_fault (cn_emitters c ! k)"
proof -
  have "em_fault (cn_emitters (stop_emitter j d) ! k) = em_fault (cn_emitters d ! k)" for j and d :: e2_conn
    by (cases "j < length (cn_emitters d)") (auto simp: stop_emitter_def nth_list_update list_update_beyond)
  moreover have "length (cn_emitters (stop_emitter j d)) = length (cn_emitters d)" for j d
    by (simp add: stop_emitter_def)
  ultimately show ?thesis
    using assms by (auto simp: e2_handle_def Let_def nth_append less_Suc_eq split: if_splits option.splits)
qed

lemma emit_faults:
  assumes "em_fault (cn_emitters (conn_emit frepr now sends j s c) ! k)" and "\<not> em_fault (cn_emitters c ! k)"
    and "k < length (cn_emitters c)"
  shows "j = k \<and> (emit_turn frepr now s (cn_emitters c ! k) = None \<or> \<not> sends)"
  using assms by (auto simp: conn_emit_def end_emitter_def nth_list_update split: option.splits if_splits)

lemma faults_raised:
  "e2_run frepr evs (s, new_conn) = Some (s', c) \<Longrightarrow> k < length (cn_emitters c) \<Longrightarrow> em_fault (cn_emitters c ! k) \<Longrightarrow>
     turn_raised frepr evs (s, new_conn) k"
proof (induction evs arbitrary: s' c rule: rev_induct)
  case Nil
  then show ?case by (auto simp: new_conn_def)
next
  case (snoc ev evs)
  then obtain s1 c1 where 1: "e2_run frepr evs (s, new_conn) = Some (s1, c1)"
    and 2: "e2_event frepr ev (s1, c1) = Some (s', c)"
    by (auto simp: e2_run_append bind_eq_Some_conv)
  show ?case
  proof (cases "k < length (cn_emitters c1) \<and> em_fault (cn_emitters c1 ! k)")
    case True
    then show ?thesis
      using turn_raised_later [OF snoc.IH [OF 1]] by blast
  next
    case False
    then show ?thesis
    proof (cases ev)
      case (Turn now sends j)
      have "j = k \<and> (emit_turn frepr now s1 (cn_emitters c1 ! k) = None \<or> \<not> sends)"
        using emit_faults [of frepr now sends j s1 c1 k] 2 False snoc.prems(2,3) by (auto simp: e2_event_def Turn)
      then show ?thesis
        using 1 unfolding turn_raised_def Turn by blast
    qed (use 2 False snoc.prems(2,3) handle_faults in \<open>auto simp: e2_event_def\<close>)
  qed
qed

text \<open>C22. Port and simulator together: whatever the port was asked to do and however often the connection
  was lost, once it is up again the simulator that took the port's messages, with turns of its threads
  and new reports between them in any order, serves every subscription the port holds: each has a
  thread of its own, which nobody has told to stop and which has ended only if one of its own turns
  raised, in making the indication or because the client was gone.\<close>

theorem simulator_serves_subscriptions:
  assumes "port_reachable sim_send sim_lost (new_port slice) p" and "lk_link p = Up"
    and "e2_run frepr evs (s, new_conn) = Some (s', c)" and "e2_wire evs = lk_wire p"
    and "sid \<in> set (keys (fd_reqs p))"
  shows "\<exists>k. map_of (cn_subs c) sid = Some k \<and> served c sid k
    \<and> (em_fault (cn_emitters c ! k) \<longrightarrow> turn_raised frepr evs (s, new_conn) k)"
proof -
  have "set (keys (fd_reqs p)) \<subseteq> far_subs (lk_wire p)"
    using sim.reachable_knows [OF assms(1)] assms(2) by (simp add: new_port_def)
  then have "sid \<in> set (keys (cn_subs c))" and "all_served c"
    using run_refines [OF assms(3)] assms(4,5) by auto
  then obtain k where "map_of (cn_subs c) sid = Some k" and "served c sid k"
    by (cases "map_of (cn_subs c) sid") (auto simp: all_served_def map_of_keys_None)
  then show ?thesis
    using faults_raised [OF assms(3), of k] by (auto simp: served_def)
qed

section \<open>Quotas\<close>

text \<open>A request of the RC capability as the port sends it.\<close>

definition quota_msg :: "string \<Rightarrow> control_req \<Rightarrow> pdict" where
  "quota_msg cid r =
     control_msg cid (cr_node r) (cr_ue r) (q_min (cr_quota r)) (q_max (cr_quota r)) (q_ded (cr_quota r))"

definition quota_wire :: "control_req list \<Rightarrow> pdict list" where
  "quota_wire rs = map (\<lambda>(i, r). quota_msg (control_id i) r) (enumerate 1 rs)"

lemma quota_control:
  "\<exists>ok detail caps. sim_control (quota_msg cid r) s = Some ((ok, detail), s\<lparr>e2_caps := caps\<rparr>)
     \<and> (\<forall>u. u \<noteq> cr_ue r \<longrightarrow> map_of caps u = map_of (e2_caps s) u)
     \<and> (cr_quota r = default_quota \<longrightarrow> map_of caps (cr_ue r) = None)"
proof (cases "0 \<le> q_min (cr_quota r) \<and> q_min (cr_quota r) \<le> q_max (cr_quota r) \<and> q_max (cr_quota r) \<le> 100")
  case True
  then show ?thesis
    by (auto simp: sim_control_def quota_msg_def control_msg_def pget_def pget_or_def default_quota_def)
next
  case False
  then have "\<exists>detail. sim_control (quota_msg cid r) s = Some ((False, detail), s\<lparr>e2_caps := e2_caps s\<rparr>)"
    by (auto simp: sim_control_def quota_msg_def control_msg_def pget_def pget_or_def)
  moreover have "cr_quota r \<noteq> default_quota"
    using False by (auto simp: default_quota_def)
  ultimately show ?thesis
    by blast
qed

lemma quota_handled:
  "\<exists>caps c'. e2_handle (Some (JObj (quota_msg cid r))) (s, c) = Some (s\<lparr>e2_caps := caps\<rparr>, c')
     \<and> (\<forall>u. u \<noteq> cr_ue r \<longrightarrow> map_of caps u = map_of (e2_caps s) u)
     \<and> (cr_quota r = default_quota \<longrightarrow> map_of caps (cr_ue r) = None)"
proof -
  obtain ok detail caps where "sim_control (quota_msg cid r) s = Some ((ok, detail), s\<lparr>e2_caps := caps\<rparr>)"
    "(\<forall>u. u \<noteq> cr_ue r \<longrightarrow> map_of caps u = map_of (e2_caps s) u)
     \<and> (cr_quota r = default_quota \<longrightarrow> map_of caps (cr_ue r) = None)"
    using quota_control by blast
  moreover have "pget (quota_msg cid r) ''op'' = JStr ''control''"
    by (simp add: quota_msg_def control_msg_def pget_def)
  ultimately show ?thesis
    by (auto simp: e2_handle_def Let_def)
qed

text \<open>The quota a UE was last given, whatever the node: the simulator does not look at it.\<close>

definition sim_quota :: "control_req list \<Rightarrow> int \<Rightarrow> quota" where
  "sim_quota rs u = fold (\<lambda>r q. if cr_ue r = u then cr_quota r else q) rs default_quota"

lemma quotas_taken:
  "e2_wire evs = map (\<lambda>(i, r). quota_msg (control_id i) r) irs \<Longrightarrow>
     \<exists>s' c'. e2_run frepr evs (s, c) = Some (s', c')
       \<and> (e2_caps s = [] \<longrightarrow> (\<forall>u. sim_quota (map snd irs) u = default_quota \<longrightarrow> map_of (e2_caps s') u = None))"
proof (induction evs arbitrary: irs rule: rev_induct)
  case (snoc ev evs)
  show ?case
  proof (cases ev)
    case (Got m)
    then obtain js i r where irs: "irs = js @ [(i, r)]" and m: "m = quota_msg (control_id i) r"
      and js: "e2_wire evs = map (\<lambda>(i, r). quota_msg (control_id i) r) js"
      using snoc.prems by (cases irs rule: rev_cases) auto
    obtain s1 c1 where 1: "e2_run frepr evs (s, c) = Some (s1, c1)"
      and c1: "e2_caps s = [] \<longrightarrow> (\<forall>u. sim_quota (map snd js) u = default_quota \<longrightarrow> map_of (e2_caps s1) u = None)"
      using snoc.IH [OF js] by blast
    obtain caps c' where "e2_handle (Some (JObj m)) (s1, c1) = Some (s1\<lparr>e2_caps := caps\<rparr>, c')"
      and "\<forall>u. u \<noteq> cr_ue r \<longrightarrow> map_of caps u = map_of (e2_caps s1) u"
      and "cr_quota r = default_quota \<longrightarrow> map_of caps (cr_ue r) = None"
      using quota_handled unfolding m by blast
    then show ?thesis
      using 1 c1 by (simp add: e2_run_append e2_event_def Got irs sim_quota_def)
  next
    case (Turn now sends k)
    then show ?thesis
      using snoc by (fastforce simp: e2_run_append e2_event_def)
  next
    case (Report r)
    then show ?thesis
      using snoc by (fastforce simp: e2_run_append e2_event_def e2_update_def)
  qed
qed (simp add: exI)

text \<open>On a steady node, every request names it.\<close>

lemma step_ports:
  assumes "rc_step node s s'" and "rc_inv node s" and "list_all (\<lambda>r. cr_node r = node) (rc_port s)"
  shows "list_all (\<lambda>r. cr_node r = node) (rc_port s')"
  using assms
proof (induction rule: rc_step.induct)
  case (rs_policy x s raw)
  then show ?case
    by (auto simp: on_policy_def steady_def rc_send_accepted Let_def write_marker_def rc_inv_def
        split: sum.splits option.splits)
next
  case (rs_tick x s)
  show ?case
  proof (cases "rc_policy s")
    case (Some p)
    have x: "xe_refuses x = (\<lambda>_. None)"
      using rs_tick by (simp add: steady_def)
    note d = due_steps_result [OF x, of p "xe_mono x - rc_applied_at s" s]
    have "rc_node s = node"
      using rs_tick Some by (simp add: rc_inv_def)
    then show ?thesis
      using rs_tick d Some by (auto simp: rc_tick_def Let_def rc_revert_def rc_send_accepted [OF x] clear_marker_def list_all_iff)
  qed (use rs_tick in \<open>simp add: rc_tick_def\<close>)
next
  case (rs_stop x s outcomes)
  have "rc_port (wait_outcomes os s) = rc_port s" for os s
    by (induction os s rule: wait_outcomes.induct) (simp_all add: rc_outcome_def rc_done_def)
  then show ?case
    using rs_stop
    by (auto simp: rc_on_stop_def rc_revert_def steady_def rc_send_accepted clear_marker_def rc_inv_def
        split: option.splits)
next
  case (rs_outcome ok detail req s)
  then show ?case by (simp add: rc_outcome_def rc_done_def)
qed

lemma reachable_ports: "rc_reachable node s \<Longrightarrow> list_all (\<lambda>r. cr_node r = node) (rc_port s)"
proof (induction rule: rc_reachable.induct)
  case (rr_step s s')
  then show ?case
    using step_ports rc_reachable_inv by blast
qed (simp add: new_rc_def)

lemma sim_quota_node:
  assumes "list_all (\<lambda>r. cr_node r = node) (rc_port s)"
  shows "sim_quota (rc_port s) u = last_quota s node u"
proof -
  have "fold (\<lambda>r q. if cr_ue r = u then cr_quota r else q) rs q
      = fold (\<lambda>r q. if cr_node r = node \<and> cr_ue r = u then cr_quota r else q) rs q"
    if "list_all (\<lambda>r. cr_node r = node) rs" for rs q
    using that by (induction rs arbitrary: q) auto
  from this [OF assms] show ?thesis
    by (simp add: sim_quota_def last_quota_def)
qed

lemma uncapped_walk:
  assumes "\<And>u. map_of caps u = None" and "walk_list (cap_next frepr caps) i us = Some (j, vs)"
  shows "vs = us"
  using assms(2) by (induction us arbitrary: i vs) (auto simp: cap_next_def cap_ue_def assms(1) bind_eq_Some_conv)

text \<open>C24. A run's policy ends at the radio: after the stop of a run on a steady node (one E2 node, every
  request taken by the port, a marker that can be written), the simulator that was sent the
  capability's requests, with turns of its threads and new reports between them, caps no UE, and the
  reports it sends from then on carry the figures of every UE as they are.\<close>

theorem stopped_run_frees_simulator:
  assumes "rc_reachable node s" and "steady node x" and "e2_caps far = []"
    and "e2_wire evs = quota_wire (rc_port (rc_on_stop x outcomes s))"
  shows "\<exists>far' c'. e2_run frepr evs (far, c) = Some (far', c')
    \<and> (\<forall>u. map_of (e2_caps far') u = None)
    \<and> (\<forall>r r'. apply_caps frepr (e2_caps far') r = Some r' \<longrightarrow> sim_ues r' = sim_ues r)"
proof -
  let ?s = "rc_on_stop x outcomes s"
  have reach: "rc_reachable node ?s"
    using assms(1,2) by (intro rr_step [OF _ rs_stop])
  have quiet: "\<not> capped ?s node u" for u
    using rc_reachable_inv [OF reach] rc_on_stop_quiet [OF assms(2)] by (auto simp: rc_inv_def)
  then have q: "sim_quota (rc_port ?s) u = default_quota" for u
    by (simp add: sim_quota_node [OF reachable_ports [OF reach]] capped_def)
  obtain far' c' where run: "e2_run frepr evs (far, c) = Some (far', c')"
    and free: "\<And>u. map_of (e2_caps far') u = None"
    using quotas_taken [OF assms(4) [unfolded quota_wire_def], of frepr far c] assms(3) q by auto
  have "sim_ues r' = sim_ues r" if caps: "apply_caps frepr (e2_caps far') r = Some r'" for r r'
  proof -
    obtain n where "walk_ues (cap_next frepr (e2_caps far')) 0 r = Some (n, r')"
      using caps by (auto simp: apply_caps_def)
    then obtain us vs where "sim_ues r = Some us" and "sim_ues r' = Some vs"
      and "walk_list (cap_next frepr (e2_caps far')) 0 us = Some (n, vs)"
      by (rule walk_ues_seen [OF _ cap_keeps_plain])
    then show ?thesis
      using uncapped_walk [OF free] by simp
  qed
  then show ?thesis
    using run free by blast
qed

section \<open>Witnesses\<close>

definition open_env :: feed_env where
  "open_env = \<lparr>fe_opens = True, fe_ok = (\<lambda>m. True)\<rparr>"

definition resumed :: "(nat, nat) linked" where
  "resumed =
     snd (feed_nodes (sim_send open_env) []
       (sim_lost (snd (feed_subscribe (sim_send open_env) (feed_kpm_req ''n1'' 4 [''A''] [1] 100) 5
         [[(''op'', JStr ''subscribed''), (''id'', JStr ''kpm-1'')]] (new_port (''00101'', 1, 1))))))"

lemma resumed_reachable: "port_reachable sim_send sim_lost (new_port (''00101'', 1, 1)) resumed"
  unfolding resumed_def by (rule pr_step [OF pr_step [OF pr_step [OF pr_start ps_subscribe] ps_lost] ps_nodes])

definition idle_sim :: e2_sim where
  "idle_sim = \<lparr>e2_node = ''gnb'', e2_latest = None, e2_caps = []\<rparr>"

text \<open>Between the messages a report comes; after them the thread has two turns, the second one to a client
  that is gone.\<close>

definition resumed_events :: "e2_event list" where
  "resumed_events = Report [] # map Got (lk_wire resumed) @ [Turn 7000000000 True 0, Turn 8000000000 False 0]"

definition resumed_far :: "e2_sim \<times> e2_conn" where
  "resumed_far = the (e2_run no_repr resumed_events (idle_sim, new_conn))"

lemma resumed_runs:
  "lk_link resumed = Up" "''kpm-1'' \<in> set (keys (fd_reqs resumed))"
  "e2_run no_repr resumed_events (idle_sim, new_conn) \<noteq> None"
  "e2_wire resumed_events = lk_wire resumed"
  by code_simp+

lemma resumed_ended: "map em_fault (cn_emitters (snd resumed_far)) = [True]"
  by code_simp

theorem simulator_serves_subscriptions_witness:
  "\<exists>k. map_of (cn_subs (snd resumed_far)) ''kpm-1'' = Some k \<and> served (snd resumed_far) ''kpm-1'' k"
proof -
  have "e2_run no_repr resumed_events (idle_sim, new_conn) = Some (fst resumed_far, snd resumed_far)"
    using resumed_runs(3) by (simp add: resumed_far_def)
  from simulator_serves_subscriptions [OF resumed_reachable resumed_runs(1) this resumed_runs(4,2)] show ?thesis
    by blast
qed

theorem stopped_run_frees_simulator_witness:
  "\<exists>far' c'. e2_run no_repr (Report [] # map Got (quota_wire (rc_port (rc_on_stop example_xenv [] capped_rc))))
         (idle_sim, new_conn) = Some (far', c')
     \<and> (\<forall>u. map_of (e2_caps far') u = None)"
  using stopped_run_frees_simulator [OF capped_rc_reachable example_steady, of idle_sim
      "Report [] # map Got (quota_wire (rc_port (rc_on_stop example_xenv [] capped_rc)))" "[]" no_repr new_conn]
  by (auto simp: idle_sim_def)

end
