(* ===== verification/Osc_Port.thy ===== *)
theory Osc_Port
  imports Ran_Normalise
begin

text \<open>
  The xApp's E2 port on the OSC near-RT RIC (ran/xapp/src/mec_cast_xapp/adapters/osc.py).

  Two halves: the controls that wait for an acknowledgement, first in first out because an
  acknowledgement names no request, and the subscriptions of oran-sc-ric's \<open>xAppBase\<close>, which is a
  parameter (\<open>sdk\<close>, \<open>sdk_unsub\<close>, \<open>confirm\<close>) with the table it keeps. A callback is a value of \<open>'d\<close> and is
  taken not to raise.
\<close>

section \<open>Controls\<close>

record 'd osc =
  os_pending :: "(rat \<times> 'd option) list"
  os_told :: "('d \<times> bool \<times> string) list"

definition control_timeout :: rat where
  "control_timeout = 5"

definition tell :: "'d option \<Rightarrow> bool \<Rightarrow> string \<Rightarrow> 'd osc \<Rightarrow> 'd osc" where
  "tell cb ok detail p = (case cb of None \<Rightarrow> p | Some d \<Rightarrow> p\<lparr>os_told := os_told p @ [(d, ok, detail)]\<rparr>)"

definition osc_answer :: "bool \<Rightarrow> 'd osc \<Rightarrow> 'd osc" where
  "osc_answer ok p =
     (case os_pending p of
        [] \<Rightarrow> p
      | (t, cb) # rest \<Rightarrow> tell cb ok (if ok then [] else ''RIC_CONTROL_FAILURE'') (p\<lparr>os_pending := rest\<rparr>))"

definition no_ack :: string where
  "no_ack = ''no RIC_CONTROL_ACK within 5 s''"

function osc_expire :: "rat \<Rightarrow> 'd osc \<Rightarrow> 'd osc" where
  "osc_expire now p =
     (if os_pending p = [] \<or> now - fst (hd (os_pending p)) < control_timeout then p
      else osc_expire now (tell (snd (hd (os_pending p))) False no_ack (p\<lparr>os_pending := tl (os_pending p)\<rparr>)))"
  by pat_completeness auto
termination
  by (relation "measure (\<lambda>(now, p). length (os_pending p))")
    (auto simp: tell_def neq_Nil_conv split: option.splits)

declare osc_expire.simps [simp del]

text \<open>The request waits before it is sent, and goes on waiting when the send raises, which is \<open>False\<close>.\<close>

definition osc_control :: "rat \<Rightarrow> 'd option \<Rightarrow> bool \<Rightarrow> 'd osc \<Rightarrow> bool \<times> 'd osc" where
  "osc_control now cb sent p = (sent, p\<lparr>os_pending := os_pending p @ [(now, cb)]\<rparr>)"

definition new_osc :: "'d osc" where
  "new_osc = \<lparr>os_pending = [], os_told = []\<rparr>"

section \<open>Nodes\<close>

text \<open>The answer of the E2 manager; no answer means no node, an entry that is no record raises.\<close>

definition node_name :: "json \<Rightarrow> json list option" where
  "node_name n =
     (case n of
        JObj d \<Rightarrow>
          if pget d ''connectionStatus'' = JStr ''CONNECTED'' then map_option (\<lambda>v. [v]) (map_of d ''inventoryName'')
          else Some []
      | _ \<Rightarrow> None)"

definition osc_nodes :: "json option \<Rightarrow> json list option" where
  "osc_nodes answer =
     (case answer of
        None \<Rightarrow> Some []
      | Some v \<Rightarrow> Option.bind (py_list v) (\<lambda>ns. map_option concat (map_option_list node_name ns)))"

section \<open>Subscriptions\<close>

text \<open>A subscription object: its identity, its id as text and the event instance the RIC gave it.\<close>

record osc_sub =
  ob_ref :: nat
  ob_id :: string
  ob_event :: "int option"

type_synonym osc_table = "(int \<times> osc_sub) list"

datatype sdk_call = Style1 string int "string list" | Style2 string int int "string list"
  | Style5 string int "int list" "string list"

datatype osc_error = Sdk_Raised | No_Ue | Style_Not_Wired int | Sub_Refused

definition sdk_call_of ::
  "string \<Rightarrow> int \<Rightarrow> string list \<Rightarrow> int list \<Rightarrow> int \<Rightarrow> osc_error + sdk_call" where
  "sdk_call_of node style metrics ue_ids period =
     (if style = 1 then Inr (Style1 node period metrics)
      else if style = 2
      then (case ue_ids of [] \<Rightarrow> Inl No_Ue | u # _ \<Rightarrow> Inr (Style2 node period u metrics))
      else if style = 5
      then (case ue_ids of
              [] \<Rightarrow> Inl No_Ue
            | [u] \<Rightarrow> Inr (Style5 node period [u, u + 1] metrics)
            | _ \<Rightarrow> Inr (Style5 node period ue_ids metrics))
      else Inl (Style_Not_Wired style))"

definition osc_unsubscribe :: "(string \<Rightarrow> osc_table \<Rightarrow> osc_table option) \<Rightarrow> string \<Rightarrow> osc_table \<Rightarrow> osc_table option" where
  "osc_unsubscribe sdk_unsub handle subs =
     (if handle = [] then Some subs
      else map_option (filter (\<lambda>(k, s). ob_id s \<noteq> handle)) (sdk_unsub handle subs))"

text \<open>\<open>confirm\<close>: the event instance the object has when the wait for the notification ends, and the
  table by then.\<close>

definition osc_subscribe ::
  "(sdk_call \<Rightarrow> osc_table \<Rightarrow> osc_table option) \<Rightarrow> (string \<Rightarrow> osc_table \<Rightarrow> osc_table option) \<Rightarrow>
   (nat \<Rightarrow> osc_table \<Rightarrow> int option \<times> osc_table) \<Rightarrow>
   string \<Rightarrow> int \<Rightarrow> string list \<Rightarrow> int list \<Rightarrow> int \<Rightarrow> osc_table \<Rightarrow> (osc_error + string) \<times> osc_table" where
  "osc_subscribe sdk sdk_unsub confirm node style metrics ue_ids period subs =
     (case sdk_call_of node style metrics ue_ids period of
        Inl e \<Rightarrow> (Inl e, subs)
      | Inr call \<Rightarrow>
          (case sdk call subs of
             None \<Rightarrow> (Inl Sdk_Raised, subs)
           | Some subs1 \<Rightarrow>
               (case filter (\<lambda>s. ob_ref s \<notin> set (map ob_ref (vals subs))) (vals subs1) of
                  [] \<Rightarrow> (Inr [], subs1)
                | sub # _ \<Rightarrow>
                    (case confirm (ob_ref sub) subs1 of
                       (event, subs2) \<Rightarrow>
                         if event = Some 0
                         then (case osc_unsubscribe sdk_unsub (ob_id sub) subs2 of
                                 None \<Rightarrow> (Inl Sdk_Raised, subs2)
                               | Some subs3 \<Rightarrow> (Inl Sub_Refused, subs3))
                         else (Inr (ob_id sub), subs2)))))"

section \<open>Indications\<close>

text \<open>The start of collection as the SDK decodes it; \<open>Moment\<close> is a date, as seconds since the epoch.\<close>

datatype start_time = Moment rat | Plain_Number rat | Other_Time

fun to_ns :: "start_time \<Rightarrow> int" where
  "to_ns (Moment s) = trunc_rat (s * 1000000) * 1000"
| "to_ns (Plain_Number n) = trunc_rat n"
| "to_ns Other_Time = 0"

definition osc_indication :: "string \<Rightarrow> start_time \<Rightarrow> pdict \<Rightarrow> int \<Rightarrow> int list \<Rightarrow> pdict" where
  "osc_indication agent start meas style ue_ids =
     [(''e2_node_id'', JStr agent), (''collect_start_ns'', JInt (to_ns start)), (''meas'', JObj meas)]
     @ (case ue_ids of u # _ \<Rightarrow> if style = 2 then [(''ue_id'', JInt u)] else [] | [] \<Rightarrow> [])"

section \<open>The life of the controls\<close>

datatype 'd osc_event = Control rat "'d option" bool | Answer bool | Expire rat

fun osc_apply :: "'d osc_event \<Rightarrow> 'd osc \<Rightarrow> 'd osc" where
  "osc_apply (Control now cb sent) p = snd (osc_control now cb sent p)"
| "osc_apply (Answer ok) p = osc_answer ok p"
| "osc_apply (Expire now) p = osc_expire now p"

definition osc_run :: "'d osc_event list \<Rightarrow> 'd osc" where
  "osc_run evs = fold osc_apply evs new_osc"

text \<open>The callbacks asked for, and those that still wait.\<close>

definition asked :: "'d osc_event list \<Rightarrow> 'd list" where
  "asked evs = concat (map (\<lambda>e. case e of Control now (Some d) sent \<Rightarrow> [d] | _ \<Rightarrow> []) evs)"

definition waiting :: "'d osc \<Rightarrow> 'd list" where
  "waiting p = concat (map (\<lambda>(t, cb). case cb of None \<Rightarrow> [] | Some d \<Rightarrow> [d]) (os_pending p))"

fun event_time :: "'d osc_event \<Rightarrow> rat option" where
  "event_time (Control now cb sent) = Some now"
| "event_time (Expire now) = Some now"
| "event_time (Answer ok) = None"

definition clock_of :: "'d osc_event list \<Rightarrow> rat list" where
  "clock_of evs = List.map_filter event_time evs"

section \<open>Lemmas\<close>

lemma tell_keeps [simp]: "os_pending (tell cb ok detail p) = os_pending p"
  by (simp add: tell_def split: option.splits)

lemma tell_told: "map fst (os_told (tell cb ok detail p)) = map fst (os_told p) @ (case cb of None \<Rightarrow> [] | Some d \<Rightarrow> [d])"
  by (simp add: tell_def split: option.splits)

lemma osc_expire_pending:
  "os_pending (osc_expire now p) = dropWhile (\<lambda>(t, cb). control_timeout \<le> now - t) (os_pending p)"
proof (induction now p rule: osc_expire.induct)
  case (1 now p)
  show ?case
    using 1 by (cases "os_pending p") (auto simp: osc_expire.simps [of now p] not_le)
qed

lemma osc_expire_told:
  "map fst (os_told (osc_expire now p)) @ waiting (osc_expire now p) = map fst (os_told p) @ waiting p"
proof (induction now p rule: osc_expire.induct)
  case (1 now p)
  show ?case
    using 1 by (cases "os_pending p")
      (auto simp: osc_expire.simps [of now p] waiting_def tell_told)
qed

lemma osc_event_told:
  "map fst (os_told (osc_apply e p)) @ waiting (osc_apply e p) = map fst (os_told p) @ waiting p @ asked [e]"
  by (cases e)
    (auto simp: osc_control_def osc_answer_def waiting_def asked_def tell_told osc_expire_told [unfolded waiting_def]
      split: list.splits option.splits)

lemma osc_told_waiting: "map fst (os_told (osc_run evs)) @ waiting (osc_run evs) = asked evs"
proof (induction evs rule: rev_induct)
  case Nil
  then show ?case by (simp add: osc_run_def new_osc_def waiting_def asked_def)
next
  case (snoc e evs)
  then show ?case
    using osc_event_told [of e "osc_run evs"] by (simp add: osc_run_def asked_def)
qed

lemma clock_of_append [simp]: "clock_of (xs @ ys) = clock_of xs @ clock_of ys"
  by (simp add: clock_of_def List.map_filter_def)

lemma clock_of_single [simp]: "clock_of [e] = (case event_time e of None \<Rightarrow> [] | Some t \<Rightarrow> [t])"
  by (simp add: clock_of_def List.map_filter_def split: option.splits)

lemma pending_ordered:
  assumes "sorted (clock_of evs)"
  shows "sorted (map fst (os_pending (osc_run evs))) \<and> set (map fst (os_pending (osc_run evs))) \<subseteq> set (clock_of evs)"
  using assms
proof (induction evs rule: rev_induct)
  case Nil
  then show ?case by (simp add: osc_run_def new_osc_def)
next
  case (snoc e evs)
  then have ih: "sorted (map fst (os_pending (osc_run evs)))" "set (map fst (os_pending (osc_run evs))) \<subseteq> set (clock_of evs)"
    by (simp_all add: sorted_append)
  have run: "osc_run (evs @ [e]) = osc_apply e (osc_run evs)"
    by (simp add: osc_run_def)
  show ?case
  proof (cases e)
    case (Control now cb sent)
    have "\<forall>t \<in> set (clock_of evs). t \<le> now"
      using snoc.prems by (simp add: Control sorted_append)
    then show ?thesis
      using ih by (auto simp: run [unfolded Control] Control osc_control_def sorted_append)
  next
    case (Answer ok)
    then show ?thesis
      using ih by (auto simp: run [unfolded Answer] Answer osc_answer_def image_subset_iff split: list.splits)
  next
    case (Expire now)
    have d: "sorted (map fst (dropWhile P xs)) \<and> set (dropWhile P xs) \<subseteq> set xs"
      if "sorted (map fst xs)" for P and xs :: "(rat \<times> 'a option) list"
      using that by (induction xs) auto
    show ?thesis
      using ih d [OF ih(1)] by (fastforce simp: run [unfolded Expire] Expire osc_expire_pending)
  qed
qed

section \<open>The outcome of each control\<close>

text \<open>What is promised, without a queue: a ledger of every control asked for, with the outcome it has had.
  An answer decides the first control still open; a pass of the receive loop decides each one that has
  been open for the timeout; no outcome is changed afterwards.\<close>

type_synonym 'd ledger = "(rat \<times> 'd option \<times> (bool \<times> string) option) list"

fun decide_first :: "bool \<times> string \<Rightarrow> 'd ledger \<Rightarrow> 'd ledger" where
  "decide_first out [] = []"
| "decide_first out ((t, cb, None) # l) = (t, cb, Some out) # l"
| "decide_first out ((t, cb, Some q) # l) = (t, cb, Some q) # decide_first out l"

definition decide_old :: "rat \<Rightarrow> 'd ledger \<Rightarrow> 'd ledger" where
  "decide_old now l =
     map (\<lambda>(t, cb, q). (t, cb, if q = None \<and> control_timeout \<le> now - t then Some (False, no_ack) else q)) l"

fun ledger_step :: "'d osc_event \<Rightarrow> 'd ledger \<Rightarrow> 'd ledger" where
  "ledger_step (Control now cb sent) l = l @ [(now, cb, None)]"
| "ledger_step (Answer ok) l = decide_first (ok, if ok then [] else ''RIC_CONTROL_FAILURE'') l"
| "ledger_step (Expire now) l = decide_old now l"

definition ledger :: "'d osc_event list \<Rightarrow> 'd ledger" where
  "ledger evs = fold ledger_step evs []"

definition decided :: "'d ledger \<Rightarrow> ('d \<times> bool \<times> string) list" where
  "decided l = concat (map (\<lambda>(t, cb, q). case (cb, q) of (Some d, Some out) \<Rightarrow> [(d, out)] | _ \<Rightarrow> []) l)"

definition undecided :: "'d ledger \<Rightarrow> (rat \<times> 'd option) list" where
  "undecided l = concat (map (\<lambda>(t, cb, q). if q = None then [(t, cb)] else []) l)"

definition settled :: "(rat \<times> 'd option \<times> bool \<times> string) list \<Rightarrow> 'd ledger" where
  "settled ds = map (\<lambda>(t, cb, out). (t, cb, Some out)) ds"

definition unsettled :: "(rat \<times> 'd option) list \<Rightarrow> 'd ledger" where
  "unsettled us = map (\<lambda>(t, cb). (t, cb, None)) us"

lemma decided_append [simp]: "decided (l @ m) = decided l @ decided m"
  by (simp add: decided_def)

lemma decided_unsettled [simp]: "decided (unsettled us) = []"
  by (auto simp: decided_def unsettled_def split: option.splits)

lemma undecided_split [simp]: "undecided (settled ds @ unsettled us) = us"
proof -
  have "undecided (unsettled us) = us"
    by (induction us) (auto simp: undecided_def unsettled_def)
  moreover have "undecided (settled ds) = []"
    by (auto simp: undecided_def settled_def)
  ultimately show ?thesis
    by (simp add: undecided_def)
qed

lemma settled_append [simp]: "settled (ds @ es) = settled ds @ settled es"
  by (simp add: settled_def)

lemma decide_first_split: "decide_first out (settled ds @ l) = settled ds @ decide_first out l"
  by (induction ds) (auto simp: settled_def)

lemma decide_first_settled [simp]: "decide_first out (settled ds) = settled ds"
  using decide_first_split [of out ds "[]"] by simp

lemma decide_first_unsettled: "decide_first out (unsettled ((t, cb) # us)) = settled [(t, cb, out)] @ unsettled us"
  by (simp add: unsettled_def settled_def)

lemma decide_old_split:
  "decide_old now (settled ds @ l) = settled ds @ decide_old now l"
  by (auto simp: decide_old_def settled_def)

text \<open>Of controls in the order of their times the old ones come first.\<close>

lemma decide_old_unsettled:
  assumes "sorted (map fst us)"
  shows "decide_old now (unsettled us)
    = settled (map (\<lambda>(t, cb). (t, cb, False, no_ack)) (takeWhile (\<lambda>(t, cb). control_timeout \<le> now - t) us))
      @ unsettled (dropWhile (\<lambda>(t, cb). control_timeout \<le> now - t) us)"
  using assms
proof (induction us)
  case (Cons u us)
  obtain t cb where u: "u = (t, cb)"
    by (cases u)
  show ?case
  proof (cases "control_timeout \<le> now - t")
    case True
    then show ?thesis
      using Cons by (simp add: u decide_old_def unsettled_def settled_def)
  next
    case False
    then have "\<forall>(t', cb') \<in> set us. \<not> control_timeout \<le> now - t'"
      using Cons.prems by (fastforce simp: u)
    then have "decide_old now (unsettled us) = unsettled us"
      by (induction us) (auto simp: decide_old_def unsettled_def)
    then show ?thesis
      using False by (simp add: u decide_old_def unsettled_def settled_def)
  qed
qed (simp add: decide_old_def unsettled_def settled_def)

lemma osc_expire_outcomes:
  "os_told (osc_expire now p) = os_told p
     @ decided (settled (map (\<lambda>(t, cb). (t, cb, False, no_ack)) (takeWhile (\<lambda>(t, cb). control_timeout \<le> now - t) (os_pending p))))"
proof (induction now p rule: osc_expire.induct)
  case (1 now p)
  show ?case
    using 1 by (cases "os_pending p")
      (auto simp: osc_expire.simps [of now p] decided_def settled_def tell_def not_le split: option.splits)
qed

lemma ledger_kept:
  assumes "sorted (clock_of evs)"
  shows "\<exists>ds. ledger evs = settled ds @ unsettled (os_pending (osc_run evs)) \<and> os_told (osc_run evs) = decided (settled ds)"
  using assms
proof (induction evs rule: rev_induct)
  case Nil
  then show ?case
    by (intro exI [of _ "[]"]) (simp add: ledger_def osc_run_def new_osc_def settled_def unsettled_def decided_def)
next
  case (snoc e evs)
  then obtain ds where l: "ledger evs = settled ds @ unsettled (os_pending (osc_run evs))"
    and t: "os_told (osc_run evs) = decided (settled ds)"
    by (auto simp: sorted_append)
  have o: "sorted (map fst (os_pending (osc_run evs)))"
    using pending_ordered [of evs] snoc.prems by (simp add: sorted_append)
  have run: "osc_run (evs @ [e]) = osc_apply e (osc_run evs)" "ledger (evs @ [e]) = ledger_step e (ledger evs)"
    by (simp_all add: osc_run_def ledger_def)
  show ?case
  proof (cases e)
    case (Control now cb sent)
    show ?thesis
      unfolding run by (intro exI [of _ ds]) (simp add: Control l t osc_control_def unsettled_def)
  next
    case (Answer ok)
    show ?thesis
    proof (cases "os_pending (osc_run evs)")
      case Nil
      then show ?thesis
        unfolding run by (intro exI [of _ ds]) (simp add: Answer l t osc_answer_def decide_first_split unsettled_def)
    next
      case (Cons u us)
      obtain t' cb where u: "u = (t', cb)"
        by (cases u)
      let ?out = "(ok, if ok then [] else ''RIC_CONTROL_FAILURE'')"
      have "ledger_step e (ledger evs) = settled (ds @ [(t', cb, ?out)]) @ unsettled us"
        by (simp add: Answer l Cons u decide_first_split decide_first_unsettled del: if_split_asm)
      moreover have "osc_apply e (osc_run evs) = tell cb ok (if ok then [] else ''RIC_CONTROL_FAILURE'') ((osc_run evs)\<lparr>os_pending := us\<rparr>)"
        by (simp add: Answer Cons u osc_answer_def)
      moreover have "os_told (tell cb ok detail p) = os_told p @ decided (settled [(t', cb, ok, detail)])" for detail and p :: "'a osc"
        by (simp add: tell_def decided_def settled_def split: option.splits)
      ultimately show ?thesis
        unfolding run by (intro exI [of _ "ds @ [(t', cb, ?out)]"]) (simp add: t)
    qed
  next
    case (Expire now)
    let ?old = "takeWhile (\<lambda>(t, cb). control_timeout \<le> now - t) (os_pending (osc_run evs))"
    show ?thesis
      unfolding run
      by (intro exI [of _ "ds @ map (\<lambda>(t, cb). (t, cb, False, no_ack)) ?old"])
         (simp add: Expire l t decide_old_split decide_old_unsettled [OF o] osc_expire_pending osc_expire_outcomes)
  qed
qed

text \<open>C25. Every control is told its outcome once, in the order the requests were made, or still waits for it:
  whatever answers and passes of the receive loop come, what was told followed by what waits is what
  was asked for; and, with a clock that does not go back, what was told and what waits is what the
  ledger has: a control is told what the answer says that came while it was the oldest one waiting
  (whichever control the answer was for, since it names none), or, once it has waited for the timeout,
  that none came.\<close>

theorem osc_outcomes_in_order:
  "map fst (os_told (osc_run evs)) @ waiting (osc_run evs) = asked evs
   \<and> (sorted (clock_of evs) \<longrightarrow>
        os_told (osc_run evs) = decided (ledger evs) \<and> os_pending (osc_run evs) = undecided (ledger evs)
        \<and> (\<exists>ds us. ledger evs = settled ds @ unsettled us))"
  using osc_told_waiting ledger_kept by fastforce

text \<open>No control waits for ever: with a clock that does not go back, a pass of the receive loop leaves
  only controls that have waited less than the timeout.\<close>

theorem osc_controls_expire:
  assumes "sorted (clock_of (evs @ [Expire now]))" and "(t, cb) \<in> set (os_pending (osc_run (evs @ [Expire now])))"
  shows "now - t < control_timeout"
proof -
  have "sorted (map fst (os_pending (osc_run evs)))"
    using pending_ordered [of evs] assms(1) by (simp add: sorted_append)
  moreover have "(t, cb) \<in> set (dropWhile (\<lambda>(t, cb). control_timeout \<le> now - t) (os_pending (osc_run evs)))"
    using assms(2) by (simp add: osc_run_def osc_expire_pending)
  moreover have "now - t < control_timeout"
    if "sorted (map fst xs)" "(t, cb) \<in> set (dropWhile (\<lambda>(t, cb). control_timeout \<le> now - t) xs)" for xs
    using that by (induction xs) (auto split: if_splits)
  ultimately show ?thesis by blast
qed

text \<open>An acknowledgement that comes late is taken for another's: once every waiting control has been
  given up, the acknowledgement that then arrives is told to the control sent next, whose own
  outcome is still open.\<close>

theorem late_answer_misattributed:
  assumes "\<forall>(t, cb) \<in> set (os_pending p). control_timeout \<le> now - t"
  shows "os_told (osc_answer True (snd (osc_control later (Some d) sent (osc_expire now p))))
    = os_told (osc_expire now p) @ [(d, True, [])]"
proof -
  have "os_pending (osc_expire now p) = []"
    using assms by (auto simp: osc_expire_pending dropWhile_eq_Nil_conv)
  then show ?thesis
    by (simp add: osc_answer_def osc_control_def tell_def)
qed

lemma osc_expire_keeps: "x \<in> set (os_told p) \<Longrightarrow> x \<in> set (os_told (osc_expire now p))"
proof (induction now p rule: osc_expire.induct)
  case (1 now p)
  then show ?case
    by (cases "os_pending p") (auto simp: osc_expire.simps [of now p] tell_def split: option.splits)
qed

lemma given_up_told:
  assumes "(t0, Some d) \<in> set (os_pending p)" and "\<forall>(t, cb) \<in> set (os_pending p). control_timeout \<le> now - t"
  shows "(d, False, no_ack) \<in> set (os_told (osc_expire now p))"
  using assms
proof (induction now p rule: osc_expire.induct)
  case (1 now p)
  obtain t cb rest where p: "os_pending p = (t, cb) # rest"
    using "1.prems"(1) by (cases "os_pending p") auto
  then have t: "\<not> now - t < control_timeout"
    using "1.prems"(2) by auto
  let ?p = "tell cb False no_ack (p\<lparr>os_pending := rest\<rparr>)"
  have e: "osc_expire now p = osc_expire now ?p"
    using t by (simp add: osc_expire.simps [of now p] p)
  show ?case
  proof (cases "(t, cb) = (t0, Some d)")
    case True
    then have "(d, False, no_ack) \<in> set (os_told ?p)"
      by (simp add: tell_def)
    then show ?thesis
      unfolding e by (rule osc_expire_keeps)
  next
    case False
    then show ?thesis
      using "1.IH" "1.prems" p t by (auto simp: e)
  qed
qed

text \<open>A control that could not be sent is told about twice: the send raises, so the caller knows it
  failed, and yet the request waits, so that its callback is told of a failure again.\<close>

theorem failed_send_told_again:
  assumes "osc_control now (Some d) False p = (False, p')" and "now + control_timeout \<le> later"
    and "\<forall>(t, cb) \<in> set (os_pending p). t \<le> now"
  shows "(d, False, no_ack) \<in> set (os_told (osc_expire later p'))"
proof (rule given_up_told)
  have p': "os_pending p' = os_pending p @ [(now, Some d)]"
    using assms(1) by (auto simp: osc_control_def)
  then show "(now, Some d) \<in> set (os_pending p')"
    by simp
  show "\<forall>(t, cb) \<in> set (os_pending p'). control_timeout \<le> later - t"
    using assms(2,3) by (fastforce simp: p')
qed

section \<open>Subscriptions that were refused\<close>

text \<open>A subscription the E2 node refuses leaves nothing: the one the call made is gone from the table.\<close>

lemma refused_subscription_removed:
  assumes "osc_subscribe sdk sdk_unsub confirm node style metrics ue_ids period subs = (Inl Sub_Refused, subs')"
  shows "\<exists>call subs1 sub. sdk call subs = Some subs1 \<and> sub \<in> set (vals subs1) \<and> ob_ref sub \<notin> ob_ref ` set (vals subs)
    \<and> (ob_id sub \<noteq> [] \<longrightarrow> (\<forall>s \<in> set (vals subs'). ob_id s \<noteq> ob_id sub))"
proof -
  obtain call subs1 sub more subs2 where call: "sdk call subs = Some subs1"
    and new: "filter (\<lambda>s. ob_ref s \<notin> set (map ob_ref (vals subs))) (vals subs1) = sub # more"
    and un: "osc_unsubscribe sdk_unsub (ob_id sub) subs2 = Some subs'"
    using assms by (auto simp: osc_subscribe_def sdk_call_of_def split: sum.splits option.splits list.splits prod.splits if_splits)
  have "sub \<in> set (vals subs1)" "ob_ref sub \<notin> ob_ref ` set (vals subs)"
    using Cons_eq_filterD [OF new [symmetric]] by auto
  moreover have "ob_id sub \<noteq> [] \<longrightarrow> (\<forall>s \<in> set (vals subs'). ob_id s \<noteq> ob_id sub)"
    using un by (auto simp: osc_unsubscribe_def vals_def)
  ultimately show ?thesis
    using call by blast
qed

section \<open>Witnesses\<close>

definition two_controls :: "nat osc_event list" where
  "two_controls = [Control 0 (Some 1) True, Control 2 (Some 2) True, Answer True]"

text \<open>One is answered, one is given up, one waits.\<close>

definition three_controls :: "nat osc_event list" where
  "three_controls = [Control 0 (Some 1) True, Control 2 (Some 2) True, Control 4 (Some 3) True, Answer False, Expire 7]"

theorem osc_outcomes_in_order_witness:
  "os_told (osc_run three_controls) = [(1, False, ''RIC_CONTROL_FAILURE''), (2, False, no_ack)]
   \<and> os_pending (osc_run three_controls) = [(4, Some 3)]"
proof -
  have "sorted (clock_of three_controls)" "decided (ledger three_controls) = [(1, False, ''RIC_CONTROL_FAILURE''), (2, False, no_ack)]"
      "undecided (ledger three_controls) = [(4, Some 3)]"
    by code_simp+
  then show ?thesis
    using osc_outcomes_in_order [of three_controls] by simp
qed

theorem osc_controls_expire_witness:
  "6 - 2 < control_timeout \<and> os_pending (osc_run (two_controls @ [Expire 6])) = [(2, Some 2)]"
proof
  show p: "os_pending (osc_run (two_controls @ [Expire 6])) = [(2, Some 2)]"
    by code_simp
  show "6 - 2 < control_timeout"
    by (rule osc_controls_expire [of two_controls 6 2 "Some 2"])
       (simp_all add: p, simp add: two_controls_def clock_of_def List.map_filter_def)
qed

theorem late_answer_misattributed_witness:
  "os_told (osc_answer True (snd (osc_control 7 (Some 2) True (osc_expire 6 (osc_run [Control 0 (Some (1 :: nat)) True])))))
    = [(1, False, no_ack), (2, True, [])]"
proof -
  have "\<forall>(t, cb) \<in> set (os_pending (osc_run [Control 0 (Some (1 :: nat)) True])). control_timeout \<le> 6 - t"
    "os_told (osc_expire 6 (osc_run [Control 0 (Some (1 :: nat)) True])) = [(1, False, no_ack)]"
    by code_simp+
  from late_answer_misattributed [OF this(1), of 7 2 True] this(2) show ?thesis
    by simp
qed

theorem failed_send_told_again_witness:
  "(1 :: nat, False, no_ack) \<in> set (os_told (osc_expire 8 (snd (osc_control 3 (Some 1) False new_osc))))"
  by (rule failed_send_told_again [of 3 _ new_osc])
     (simp_all add: osc_control_def new_osc_def control_timeout_def)

end
