(* ===== verification/As_Of.thy ===== *)
theory As_Of
  imports Py_Prelude
begin

text \<open>
  What the two join tools share (tools/ran_join.py and tools/media_join.py): the latest sample at or
  before a time, by binary search in sorted time stamps, and the period a series was sampled with.
  \<open>bisect_right\<close> is the loop of Python's \<open>bisect\<close>, \<open>median\<close> is \<open>statistics.median\<close>, whose
  mean of two stamps is exact here.
\<close>

section \<open>Rows of a file\<close>

text \<open>A row is the dictionary \<open>csv.DictReader\<close> makes of it; \<open>int_col\<close> is \<open>int(r[c])\<close>.\<close>

type_synonym csv_row = "(string \<times> string) list"

definition get_text :: "csv_row \<Rightarrow> string \<Rightarrow> string" where
  "get_text r c = (case map_of r c of None \<Rightarrow> [] | Some s \<Rightarrow> s)"

definition int_col :: "csv_row \<Rightarrow> string \<Rightarrow> int option" where
  "int_col r c = Option.bind (map_of r c) int_text"

definition frame_rows_of :: "csv_row list \<Rightarrow> csv_row list" where
  "frame_rows_of rows =
     filter (\<lambda>r. (case map_of r ''kind'' of None \<Rightarrow> ''frame'' | Some k \<Rightarrow> k) = ''frame'') rows"

section \<open>The search\<close>

function bisect_loop :: "int list \<Rightarrow> int \<Rightarrow> nat \<Rightarrow> nat \<Rightarrow> nat" where
  "bisect_loop ts t lo hi =
     (if lo < hi
      then (let mid = (lo + hi) div 2
            in if t < ts ! mid then bisect_loop ts t lo mid else bisect_loop ts t (mid + 1) hi)
      else lo)"
  by pat_completeness auto

termination
  by (relation "measure (\<lambda>(ts, t, lo, hi). hi - lo)") auto

declare bisect_loop.simps [simp del]

definition bisect_right :: "int list \<Rightarrow> int \<Rightarrow> nat" where
  "bisect_right ts t = bisect_loop ts t 0 (length ts)"

definition as_of_index :: "int list \<Rightarrow> int \<Rightarrow> int \<Rightarrow> nat option" where
  "as_of_index ts max_age t =
     (let i = int (bisect_right ts t) - 1
      in if i < 0 \<or> t - ts ! nat i > max_age then None else Some (nat i))"

section \<open>The period of a series\<close>

definition gaps :: "int list \<Rightarrow> int list" where
  "gaps ts = map (\<lambda>(a, b). b - a) (filter (\<lambda>(a, b). a < b) (zip ts (tl ts)))"

definition median :: "int list \<Rightarrow> rat" where
  "median xs =
     (let s = sort xs; n = length xs
      in if odd n then of_int (s ! (n div 2))
         else (of_int (s ! (n div 2 - 1)) + of_int (s ! (n div 2))) / 2)"

definition period_of :: "int list \<Rightarrow> int" where
  "period_of gs = (if gs = [] then 1000000000 else trunc_rat (median gs))"

section \<open>Lemmas\<close>

lemma bisect_loop_splits:
  assumes "sorted ts" and "lo \<le> hi" and "hi \<le> length ts"
    and "\<forall>i < lo. ts ! i \<le> t" and "\<forall>i. hi \<le> i \<and> i < length ts \<longrightarrow> t < ts ! i"
  shows "bisect_loop ts t lo hi \<le> length ts
    \<and> (\<forall>i < bisect_loop ts t lo hi. ts ! i \<le> t)
    \<and> (\<forall>i. bisect_loop ts t lo hi \<le> i \<and> i < length ts \<longrightarrow> t < ts ! i)"
  using assms
proof (induction ts t lo hi rule: bisect_loop.induct)
  case (1 ts t lo hi)
  define mid where "mid = (lo + hi) div 2"
  show ?case
  proof (cases "lo < hi")
    case False
    have eq: "bisect_loop ts t lo hi = lo"
      using False by (subst bisect_loop.simps) simp
    have "lo = hi"
      using False "1.prems"(2) by simp
    then show ?thesis
      unfolding eq using "1.prems"(3-5) by blast
  next
    case True
    then have mid: "lo \<le> mid" "mid < hi"
      by (simp_all add: mid_def)
    have up: "\<forall>i. mid \<le> i \<and> i < length ts \<longrightarrow> ts ! mid \<le> ts ! i"
      using "1.prems"(1) by (simp add: sorted_iff_nth_mono)
    have down: "\<forall>i \<le> mid. ts ! i \<le> ts ! mid"
      using "1.prems"(1,3) mid by (simp add: sorted_iff_nth_mono)
    show ?thesis
    proof (cases "t < ts ! mid")
      case low: True
      have eq: "bisect_loop ts t lo hi = bisect_loop ts t lo mid"
        using True low by (subst bisect_loop.simps) (simp add: mid_def Let_def)
      have above: "\<forall>i. mid \<le> i \<and> i < length ts \<longrightarrow> t < ts ! i"
        using up low order.strict_trans2 by blast
      have "mid \<le> length ts"
        using mid "1.prems"(3) by simp
      then show ?thesis
        unfolding eq using "1.IH"(1) [OF True mid_def low "1.prems"(1) mid(1) _ "1.prems"(4) above] by blast
    next
      case high: False
      have eq: "bisect_loop ts t lo hi = bisect_loop ts t (mid + 1) hi"
        using True high by (subst bisect_loop.simps) (simp add: mid_def Let_def)
      have below: "\<forall>i < mid + 1. ts ! i \<le> t"
        using down high by (simp add: less_Suc_eq_le) (meson linorder_not_less order.trans)
      have "mid + 1 \<le> hi"
        using mid by simp
      then show ?thesis
        unfolding eq using "1.IH"(2) [OF True mid_def high "1.prems"(1) _ "1.prems"(3) below "1.prems"(5)] by blast
    qed
  qed
qed

lemma bisect_right_splits:
  assumes "sorted ts"
  shows "bisect_right ts t \<le> length ts" and "i < bisect_right ts t \<Longrightarrow> ts ! i \<le> t"
    and "bisect_right ts t \<le> i \<Longrightarrow> i < length ts \<Longrightarrow> t < ts ! i"
  using bisect_loop_splits [OF assms, of 0 "length ts" t] by (simp_all add: bisect_right_def)

text \<open>The search finds the last stamp at or before the time.\<close>

lemma as_of_index_Some:
  assumes "sorted ts"
  shows "as_of_index ts max_age t = Some i \<longleftrightarrow>
     i < length ts \<and> ts ! i \<le> t \<and> (\<forall>j. i < j \<and> j < length ts \<longrightarrow> t < ts ! j) \<and> t - ts ! i \<le> max_age"
proof -
  note split = bisect_right_splits [OF assms, where t = t]
  have "i + 1 = bisect_right ts t"
    if "i < length ts" "ts ! i \<le> t" "\<forall>j. i < j \<and> j < length ts \<longrightarrow> t < ts ! j" for i
  proof -
    have "\<not> bisect_right ts t \<le> i"
      using split(3) [of i] that by fastforce
    moreover have "\<not> i + 1 < bisect_right ts t"
      using split(1) split(2) [of "i + 1"] that(3) by fastforce
    ultimately show ?thesis by simp
  qed
  moreover have "i < length ts \<and> ts ! i \<le> t \<and> (\<forall>j. i < j \<and> j < length ts \<longrightarrow> t < ts ! j)"
    if "i + 1 = bisect_right ts t" for i
    using split(1) split(2) [of i] split(3) that by auto
  moreover have "as_of_index ts max_age t = Some i \<longleftrightarrow> i + 1 = bisect_right ts t \<and> t - ts ! i \<le> max_age"
    by (cases "bisect_right ts t") (auto simp: as_of_index_def Let_def)
  ultimately show ?thesis by blast
qed

lemma as_of_index_None:
  assumes "sorted ts"
  shows "as_of_index ts max_age t = None \<longleftrightarrow> (\<forall>s \<in> set ts. s \<le> t \<longrightarrow> max_age < t - s)"
proof
  assume none: "as_of_index ts max_age t = None"
  show "\<forall>s \<in> set ts. s \<le> t \<longrightarrow> max_age < t - s"
  proof (intro ballI impI)
    fix s assume "s \<in> set ts" and "s \<le> t"
    then obtain i where i: "i < length ts" "ts ! i = s"
      by (auto simp: in_set_conv_nth)
    let ?b = "bisect_right ts t"
    have b: "i < ?b"
      using bisect_right_splits(3) [OF assms, where t = t and i = i] i \<open>s \<le> t\<close> by fastforce
    then have "ts ! i \<le> ts ! (?b - 1)"
      using assms bisect_right_splits(1) [OF assms, of t] by (intro sorted_nth_mono) auto
    moreover have "max_age < t - ts ! (?b - 1)"
      using none b by (cases ?b) (auto simp: as_of_index_def Let_def split: if_splits)
    ultimately show "max_age < t - s"
      using i by simp
  qed
next
  assume old: "\<forall>s \<in> set ts. s \<le> t \<longrightarrow> max_age < t - s"
  show "as_of_index ts max_age t = None"
  proof (rule ccontr)
    assume "as_of_index ts max_age t \<noteq> None"
    then obtain i where "as_of_index ts max_age t = Some i" by blast
    then show False
      using old by (auto simp: as_of_index_Some [OF assms])
  qed
qed

lemma gaps_positive: "g \<in> set (gaps ts) \<Longrightarrow> 0 < g"
  by (auto simp: gaps_def)

lemma median_between:
  assumes "xs \<noteq> []"
  shows "of_int (Min (set xs)) \<le> median xs" and "median xs \<le> of_int (Max (set xs))"
proof -
  let ?s = "sort xs" and ?n = "length xs"
  have mem: "\<And>i. i < ?n \<Longrightarrow> ?s ! i \<in> set xs"
    by (metis length_sort nth_mem set_sort)
  have low: "\<And>i. i < ?n \<Longrightarrow> (of_int (Min (set xs)) :: rat) \<le> of_int (?s ! i)"
    using mem by simp
  have high: "\<And>i. i < ?n \<Longrightarrow> (of_int (?s ! i) :: rat) \<le> of_int (Max (set xs))"
    using mem by simp
  have "0 < ?n"
    using assms by simp
  then have i: "?n div 2 < ?n" "?n div 2 - 1 < ?n"
    by linarith+
  show "of_int (Min (set xs)) \<le> median xs" and "median xs \<le> of_int (Max (set xs))"
    using low [OF i(1)] low [OF i(2)] high [OF i(1)] high [OF i(2)]
    by (auto simp: median_def Let_def)
qed

lemma period_of_between:
  assumes "gs \<noteq> []" and "\<forall>g \<in> set gs. 0 < g"
  shows "Min (set gs) \<le> period_of gs" and "period_of gs \<le> Max (set gs)"
proof -
  have "0 < Min (set gs)"
    using assms by simp
  then have "0 < (of_int (Min (set gs)) :: rat)"
    by (simp only: of_int_0_less_iff)
  then have "\<not> median gs < 0"
    using median_between(1) [OF assms(1)] by linarith
  then have p: "period_of gs = \<lfloor>median gs\<rfloor>"
    using assms(1) by (simp add: period_of_def trunc_rat_def)
  show "Min (set gs) \<le> period_of gs"
    using median_between(1) [OF assms(1)] by (simp only: p le_floor_iff)
  have "\<lfloor>median gs\<rfloor> \<le> \<lfloor>of_int (Max (set gs)) :: rat\<rfloor>"
    using median_between(2) [OF assms(1)] by (rule floor_mono)
  then show "period_of gs \<le> Max (set gs)"
    by (simp only: p floor_of_int)
qed

lemma period_of_positive:
  assumes "\<forall>g \<in> set gs. 0 < g"
  shows "0 < period_of gs"
proof (cases "gs = []")
  case False
  then have "0 < Min (set gs)"
    using assms by simp
  then show ?thesis
    using period_of_between(1) [OF False assms] by simp
qed (simp add: period_of_def)

end
