(* ===== verification/Ran_Join.thy ===== *)
theory Ran_Join
  imports As_Of Ran_Normalise
begin

text \<open>
  tools/ran_join.py: the RAN state every frame of a run met. A RAN row is a \<open>sample\<close> of
  \<open>Ran_Normalise\<close>; a row of a CSV file is the dictionary \<open>csv.DictReader\<close> makes of it. Left is what
  ends the program: \<open>Exit\<close> for its own \<open>SystemExit\<close>, \<open>Raised\<close> for any other exception. The
  age a cell prints, in milliseconds with three digits, is the exact age in nanoseconds here; the
  printed summary is not modelled.
\<close>

section \<open>Input\<close>

datatype join_error = Exit string | Raised

text \<open>\<open>fs\<close>: what \<open>json.loads\<close> makes of a line, nothing where it raises.\<close>

fun renormalise ::
  "(string \<Rightarrow> iso_time option) \<Rightarrow> json option list \<Rightarrow> ue_index option \<Rightarrow> join_error + sample list" where
  "renormalise fiso [] index = Inr []"
| "renormalise fiso (None # lines) index = renormalise fiso lines index"
| "renormalise fiso (Some report # lines) index =
     (case normalise_json fiso report index of
        None \<Rightarrow> Inl Raised
      | Some (rows, index') \<Rightarrow> map_sum id (\<lambda>rest. rows @ rest) (renormalise fiso lines index'))"

definition load_ran ::
  "(string \<Rightarrow> iso_time option) \<Rightarrow> string \<Rightarrow> sample list option \<Rightarrow> json option list option \<Rightarrow>
   join_error + sample list" where
  "load_ran fiso source kpi raw =
     (case kpi of
        Some rows \<Rightarrow> Inr rows
      | None \<Rightarrow>
          (case raw of
             Some lines \<Rightarrow> if source = ''json'' then renormalise fiso lines (Some [])
                           else Inl (Exit ''no RAN data'')
           | None \<Rightarrow> Inl (Exit ''no RAN data'')))"

section \<open>The UE\<close>

text \<open>\<open>key in ids\<close> and then \<open>ids[key]\<close>, for the entry of a node in the run's map.\<close>

definition ran_id :: "string \<Rightarrow> json \<Rightarrow> join_error + json option" where
  "ran_id key ids =
     (case ids of
        JObj d \<Rightarrow> Inr (map_of d key)
      | JStr s \<Rightarrow> if contains key s then Inl Raised else Inr None
      | JArr xs \<Rightarrow> if JStr key \<in> set xs then Inl Raised else Inr None
      | _ \<Rightarrow> Inl Raised)"

definition node_ue :: "pdict option \<Rightarrow> string \<Rightarrow> string \<Rightarrow> join_error + string option" where
  "node_ue manifest node source =
     (case manifest of
        None \<Rightarrow> Inr None
      | Some m \<Rightarrow>
          (case py_or (pget m ''ue_map'') (JObj []) of
             JObj ue_map \<Rightarrow>
               (if \<not> truthy (pget ue_map node) then Inr None
                else if source = ''kpm''
                then map_sum id (map_option (\<lambda>v. ''e2:'' @ py_str v)) (ran_id ''e2_ue_id'' (pget ue_map node))
                else map_sum id (map_option py_str) (ran_id ''rnti'' (pget ue_map node)))
           | _ \<Rightarrow> Inl Raised))"

definition ues_of :: "sample list \<Rightarrow> string list" where
  "ues_of rows = remdups (sort (filter (\<lambda>u. u \<noteq> []) (map sm_ue rows)))"

definition uplink_of :: "sample list \<Rightarrow> string \<Rightarrow> rat" where
  "uplink_of rows ue =
     sum_list (map sm_value (filter (\<lambda>r. sm_metric r = ''ue.ul_throughput_bps'' \<and> sm_ue r = ue) rows))"

text \<open>The end of \<open>pick_ue\<close>: a UE given by its RAN id, or the one with the most uplink.\<close>

definition known_ue :: "sample list \<Rightarrow> string \<Rightarrow> join_error + string" where
  "known_ue rows ue =
     (let ues = ues_of rows
      in if ue \<noteq> [] then (if ue \<notin> set ues then Inl (Exit ''not in the data'') else Inr ue)
         else (case ues of
                 [] \<Rightarrow> Inl (Exit ''no per-UE rows'')
               | [u] \<Rightarrow> Inr u
               | u # us \<Rightarrow> Inr (first_max (uplink_of rows) u us)))"

text \<open>\<open>wanted\<close> is the option's text, empty when it is not given.\<close>

definition pick_ue :: "sample list \<Rightarrow> string \<Rightarrow> pdict option \<Rightarrow> string \<Rightarrow> join_error + string" where
  "pick_ue rows wanted manifest source =
     sum_bind
       (if wanted \<noteq> [] \<and> wanted \<notin> set (ues_of rows)
        then sum_bind (node_ue manifest wanted source)
               (\<lambda>mapped. case mapped of None \<Rightarrow> Inl (Exit ''not a UE'') | Some u \<Rightarrow> Inr u)
        else Inr wanted)
       (known_ue rows)"

section \<open>The series\<close>

definition in_series :: "sample list \<Rightarrow> string \<Rightarrow> sample \<Rightarrow> bool" where
  "in_series rows ue r \<longleftrightarrow>
     0 < sm_ts r
     \<and> (sm_ue r = ue \<or> (sm_ue r = [] \<and> sm_cell r \<in> sm_cell ` {q \<in> set rows. sm_ue q = ue}))"

definition points_of :: "sample list \<Rightarrow> string \<Rightarrow> string \<Rightarrow> (int \<times> rat) list" where
  "points_of rows ue m =
     sort (map (\<lambda>r. (sm_ts r, sm_value r)) (filter (\<lambda>r. in_series rows ue r \<and> sm_metric r = m) rows))"

definition series :: "sample list \<Rightarrow> string \<Rightarrow> (string \<times> (int \<times> rat) list) list" where
  "series rows ue =
     map (\<lambda>m. (m, points_of rows ue m)) (uniq (map sm_metric (filter (in_series rows ue) rows)))"

definition report_period_ns :: "(string \<times> (int \<times> rat) list) list \<Rightarrow> int" where
  "report_period_ns s = period_of (concat (map (\<lambda>(m, pts). gaps (map fst pts)) s))"

section \<open>The join\<close>

text \<open>A cell: the value and its age, or blank.\<close>

definition join_cell :: "(int \<times> rat) list \<Rightarrow> int \<Rightarrow> int \<Rightarrow> (rat \<times> int) option" where
  "join_cell pts max_age t =
     map_option (\<lambda>i. (snd (pts ! i), t - fst (pts ! i))) (as_of_index (map fst pts) max_age t)"

record joined =
  jn_seq :: string
  jn_at :: int
  jn_network :: string
  jn_e2e :: string
  jn_cells :: "(string \<times> (rat \<times> int) option) list"

definition frame_time :: "string \<Rightarrow> csv_row \<Rightarrow> join_error + int" where
  "frame_time col r =
     (case map_of r col of
        None \<Rightarrow> Inl Raised
      | Some s \<Rightarrow> if s = [] then Inr 0 else (case int_text s of None \<Rightarrow> Inl Raised | Some t \<Rightarrow> Inr t))"

definition join_frame ::
  "(string \<times> (int \<times> rat) list) list \<Rightarrow> int \<Rightarrow> string \<Rightarrow> csv_row \<Rightarrow> join_error + joined option" where
  "join_frame s max_age col r =
     sum_bind (frame_time col r) (\<lambda>t.
       if t \<le> 0 then Inr None
       else
         (case map_of r ''seq'' of
            None \<Rightarrow> Inl Raised
          | Some q \<Rightarrow>
              Inr (Some \<lparr>jn_seq = q, jn_at = t, jn_network = get_text r ''network_ns'',
                         jn_e2e = get_text r ''e2e_ns'',
                         jn_cells = map (\<lambda>(m, pts). (m, join_cell pts max_age t)) (sort_key fst s)\<rparr>)))"

fun join_frames ::
  "(string \<times> (int \<times> rat) list) list \<Rightarrow> int \<Rightarrow> string \<Rightarrow> csv_row list \<Rightarrow> join_error + joined list" where
  "join_frames s max_age col [] = Inr []"
| "join_frames s max_age col (r # rs) =
     sum_bind (join_frame s max_age col r) (\<lambda>j.
       map_sum id (\<lambda>js. (case j of None \<Rightarrow> js | Some x \<Rightarrow> x # js)) (join_frames s max_age col rs))"

text \<open>\<open>main\<close>, up to the table. The option, in milliseconds, is absent or 0 for the default.\<close>

definition max_age_of :: "rat option \<Rightarrow> int \<Rightarrow> int" where
  "max_age_of ms dflt =
     (case ms of None \<Rightarrow> dflt | Some m \<Rightarrow> if m = 0 then dflt else trunc_rat (m * 1000000))"

definition ran_join ::
  "(string \<Rightarrow> iso_time option) \<Rightarrow> string \<Rightarrow> string \<Rightarrow> rat option \<Rightarrow> string \<Rightarrow> sample list option \<Rightarrow>
   json option list option \<Rightarrow> csv_row list \<Rightarrow> pdict option \<Rightarrow> join_error + joined list" where
  "ran_join fiso source wanted max_age_ms col kpi raw samples manifest =
     sum_bind (load_ran fiso source kpi raw) (\<lambda>rows.
     sum_bind (pick_ue rows wanted manifest source) (\<lambda>ue.
       let s = series rows ue
       in join_frames s (max_age_of max_age_ms (2 * report_period_ns s)) col (frame_rows_of samples)))"

section \<open>Lemmas\<close>

lemma sorted_points: "sorted (points_of rows ue m)"
  by (simp add: points_of_def)

lemma set_points:
  "(t, v) \<in> set (points_of rows ue m) \<longleftrightarrow>
     (\<exists>r \<in> set rows. in_series rows ue r \<and> sm_metric r = m \<and> sm_ts r = t \<and> sm_value r = v)"
  by (auto simp: points_of_def)

lemma ues_of_set: "set (ues_of rows) = sm_ue ` set rows - {[]}"
  by (auto simp: ues_of_def)

lemma set_series: "(m, pts) \<in> set (series rows ue) \<Longrightarrow> pts = points_of rows ue m"
  by (auto simp: series_def)

text \<open>A cell is the last point at or before the time, when that is young enough.\<close>

lemma join_cell_Some:
  assumes "sorted pts" and "join_cell pts max_age t = Some (v, age)"
  shows "(t - age, v) \<in> set pts" and "0 \<le> age" and "age \<le> max_age"
    and "p \<in> set pts \<Longrightarrow> fst p \<le> t \<Longrightarrow> p \<le> (t - age, v)"
proof -
  have sorted: "sorted (map fst pts)"
    using assms(1) by (auto simp: sorted_map less_eq_prod_def elim!: sorted_wrt_mono_rel [rotated])
  obtain i where i: "as_of_index (map fst pts) max_age t = Some i" "v = snd (pts ! i)" "age = t - fst (pts ! i)"
    using assms(2) by (auto simp: join_cell_def)
  note at_i = i(1) [unfolded as_of_index_Some [OF sorted]]
  then have "pts ! i = (t - age, v)"
    using i by (simp add: prod_eq_iff)
  then show "(t - age, v) \<in> set pts"
    using at_i nth_mem [of i pts] by simp
  show "0 \<le> age" and "age \<le> max_age"
    using at_i i(3) by auto
  show "p \<le> (t - age, v)" if p: "p \<in> set pts" "fst p \<le> t"
  proof -
    obtain k where k: "k < length pts" "pts ! k = p"
      using p(1) by (auto simp: in_set_conv_nth)
    then have "\<not> i < k"
      using at_i p(2) by auto
    then have "pts ! k \<le> pts ! i"
      using assms(1) at_i k(1) by (intro sorted_nth_mono) auto
    then show ?thesis
      using k(2) \<open>pts ! i = (t - age, v)\<close> by simp
  qed
qed

lemma join_cell_None:
  assumes "sorted pts" and "join_cell pts max_age t = None" and "p \<in> set pts" and "fst p \<le> t"
  shows "max_age < t - fst p"
proof -
  have sorted: "sorted (map fst pts)"
    using assms(1) by (auto simp: sorted_map less_eq_prod_def elim!: sorted_wrt_mono_rel [rotated])
  show ?thesis
    using assms(2-4) as_of_index_None [OF sorted, of max_age t] by (auto simp: join_cell_def)
qed

lemma join_frames_mem:
  assumes "join_frames s max_age col rs = Inr js" and "j \<in> set js"
  shows "\<exists>r \<in> set rs. join_frame s max_age col r = Inr (Some j)"
  using assms
proof (induction rs arbitrary: js)
  case (Cons r rs)
  obtain x where x: "join_frame s max_age col r = Inr x"
    using Cons.prems(1) by (cases "join_frame s max_age col r") simp_all
  moreover obtain ks where "join_frames s max_age col rs = Inr ks"
    using Cons.prems(1) x by (cases "join_frames s max_age col rs") simp_all
  ultimately show ?case
    using Cons by (cases x) auto
qed simp

section \<open>Properties\<close>

text \<open>C26. The join is an as-of join: a cell of the table holds the value of the latest sample of its metric,
  for the chosen UE or its cell, at or before the frame's time (of equal stamps the largest
  value), no older than the bound; and it is blank only when every such sample is older.\<close>

theorem ran_join_as_of:
  assumes "ran_join fiso source wanted ms col kpi raw samples manifest = Inr js" and "j \<in> set js"
    and "(m, cell) \<in> set (jn_cells j)"
  shows "\<exists>rows ue. load_ran fiso source kpi raw = Inr rows \<and> pick_ue rows wanted manifest source = Inr ue
     \<and> (let max_age = max_age_of ms (2 * report_period_ns (series rows ue));
            earlier = (\<lambda>r. r \<in> set rows \<and> in_series rows ue r \<and> sm_metric r = m \<and> sm_ts r \<le> jn_at j)
        in case cell of
             None \<Rightarrow> \<forall>r. earlier r \<longrightarrow> max_age < jn_at j - sm_ts r
           | Some (v, age) \<Rightarrow> 0 \<le> age \<and> age \<le> max_age
               \<and> (\<exists>r. earlier r \<and> sm_ts r = jn_at j - age \<and> sm_value r = v)
               \<and> (\<forall>r. earlier r \<longrightarrow> (sm_ts r, sm_value r) \<le> (jn_at j - age, v)))"
proof -
  obtain rows ue where rows: "load_ran fiso source kpi raw = Inr rows"
    and ue: "pick_ue rows wanted manifest source = Inr ue"
    and js: "join_frames (series rows ue) (max_age_of ms (2 * report_period_ns (series rows ue))) col
               (frame_rows_of samples) = Inr js"
    using assms(1) by (auto simp: ran_join_def Let_def elim!: sum_bind_InrE)
  let ?age = "max_age_of ms (2 * report_period_ns (series rows ue))"
  obtain r where "join_frame (series rows ue) ?age col r = Inr (Some j)"
    using join_frames_mem [OF js assms(2)] by blast
  then have "(m, cell) \<in> set (map (\<lambda>(m, pts). (m, join_cell pts ?age (jn_at j))) (series rows ue))"
    using assms(3) by (auto simp: join_frame_def elim!: sum_bind_InrE split: if_splits option.splits)
  then have cell: "cell = join_cell (points_of rows ue m) ?age (jn_at j)"
    by (auto dest: set_series)
  have mem: "(sm_ts q, sm_value q) \<in> set (points_of rows ue m)"
    if "q \<in> set rows" "in_series rows ue q" "sm_metric q = m" for q
    using that by (auto simp: set_points)
  show ?thesis
  proof (cases cell)
    case None
    then show ?thesis
      using rows ue join_cell_None [OF sorted_points cell [unfolded None, symmetric]] mem
      by (intro exI [of _ rows] exI [of _ ue]) (fastforce simp: Let_def)
  next
    case (Some c)
    then obtain v age where c: "cell = Some (v, age)"
      by (cases c) simp
    note found = join_cell_Some [OF sorted_points cell [unfolded c, symmetric]]
    have "\<exists>q. q \<in> set rows \<and> in_series rows ue q \<and> sm_metric q = m \<and> sm_ts q = jn_at j - age \<and> sm_value q = v"
      using found(1) by (auto simp: set_points)
    then show ?thesis
      using rows ue c found(2,3) found(4) [OF mem]
      by (intro exI [of _ rows] exI [of _ ue]) (fastforce simp: Let_def)
  qed
qed

lemma known_ue_Inr:
  assumes "known_ue rows w = Inr ue"
  shows "ue \<in> set (ues_of rows)" and "w \<noteq> [] \<Longrightarrow> ue = w"
    and "w = [] \<Longrightarrow> \<forall>u \<in> set (ues_of rows). uplink_of rows u \<le> uplink_of rows ue"
proof -
  have "w = [] \<Longrightarrow> \<exists>u us. ues_of rows = u # us \<and> ue = first_max (uplink_of rows) u us"
    using assms by (auto simp: known_ue_def first_max_def Let_def split: list.splits)
  then show "ue \<in> set (ues_of rows)" and "w \<noteq> [] \<Longrightarrow> ue = w"
    and "w = [] \<Longrightarrow> \<forall>u \<in> set (ues_of rows). uplink_of rows u \<le> uplink_of rows ue"
    using assms first_max_fold [of "uplink_of rows"]
    by (auto simp: known_ue_def Let_def simp del: insert_iff split: if_splits)
qed

text \<open>The UE the tool settles on is one of the data; without the option it is one that sent the most
  uplink, and with an option that names a UE of the data it is that one.\<close>

theorem picked_ue_is_in_data:
  assumes "pick_ue rows wanted manifest source = Inr ue"
  shows "ue \<noteq> [] \<and> (\<exists>r \<in> set rows. sm_ue r = ue)
     \<and> (wanted = [] \<longrightarrow> (\<forall>r \<in> set rows. sm_ue r \<noteq> [] \<longrightarrow> uplink_of rows (sm_ue r) \<le> uplink_of rows ue))
     \<and> (wanted \<in> set (ues_of rows) \<longrightarrow> ue = wanted)"
proof -
  obtain w where w: "known_ue rows w = Inr ue" "wanted = [] \<longrightarrow> w = []" "wanted \<in> set (ues_of rows) \<longrightarrow> w = wanted"
    using assms by (auto simp: pick_ue_def elim!: sum_bind_InrE split: if_splits)
  have "[] \<notin> set (ues_of rows)"
    by (simp add: ues_of_set)
  then show ?thesis
    using known_ue_Inr [OF w(1)] w(2,3) by (auto simp: ues_of_set)
qed

text \<open>A run with two reports of one UE, 10 ns apart, and a frame after the second.\<close>

definition example_rows :: "sample list" where
  "example_rows =
     [mk_sample ''json'' 10 ''1'' ''70'' ''ue.cqi'' 9 ''index'', mk_sample ''json'' 20 ''1'' ''70'' ''ue.cqi'' 12 ''index'',
      mk_sample ''json'' 20 ''1'' [] ''cell.load'' 3 []]"

definition example_frames :: "csv_row list" where
  "example_frames =
     [[(''seq'', ''0''), (''capture_ns'', ''25'')], [(''seq'', ''1''), (''capture_ns'', ''99'')]]"

lemma example_join:
  "ran_join (\<lambda>_. None) ''json'' [] None ''capture_ns'' (Some example_rows) None example_frames None =
     Inr [\<lparr>jn_seq = ''0'', jn_at = 25, jn_network = [], jn_e2e = [],
             jn_cells = [(''cell.load'', Some (3, 5)), (''ue.cqi'', Some (12, 5))]\<rparr>,
          \<lparr>jn_seq = ''1'', jn_at = 99, jn_network = [], jn_e2e = [],
             jn_cells = [(''cell.load'', None), (''ue.cqi'', None)]\<rparr>]"
  by code_simp

theorem ran_join_as_of_witness:
  "\<exists>rows. load_ran (\<lambda>_. None) ''json'' (Some example_rows) None = Inr rows
     \<and> (\<forall>r \<in> set rows. in_series rows ''70'' r \<and> sm_metric r = ''ue.cqi'' \<and> sm_ts r \<le> 25 \<longrightarrow> sm_ts r \<le> 20)"
proof -
  have ue: "pick_ue example_rows [] None ''json'' = Inr ''70''"
    by code_simp
  show ?thesis
    using ran_join_as_of [OF example_join, where m = "''ue.cqi''" and cell = "Some (12, 5)", OF list.set_intros(1)] ue
    by (auto simp: load_ran_def Let_def)
qed

theorem picked_ue_is_in_data_witness: "\<exists>r \<in> set example_rows. sm_ue r = ''70''"
proof -
  have "pick_ue example_rows [] None ''json'' = Inr ''70''"
    by code_simp
  from picked_ue_is_in_data [OF this] show ?thesis by blast
qed

end
