(* ===== verification/Media_Join.thy ===== *)
theory Media_Join
  imports As_Of Xapp_Core
begin

text \<open>
  tools/media_join.py: the frames of a media run joined across its sites, with the state of WebRTC
  at the time of each. \<open>None\<close> is an exception, a missing column or a text that is no number; \<open>flt\<close>
  is \<open>float(text)\<close>. Values are exact rationals. The printed summary is not modelled.
\<close>

section \<open>Frames\<close>

datatype media_cell = Text string | Num rat

record media_frame =
  mf_seq :: int
  mf_capture :: int
  mf_uplink :: int
  mf_relay :: int
  mf_downlink :: int
  mf_receiver :: int
  mf_e2e :: int
  mf_state :: "(string \<times> media_cell) list"

text \<open>\<open>load_frames\<close>: a later row of a frame takes the place of an earlier one.\<close>

fun keyed_frames :: "csv_row list \<Rightarrow> (string \<times> csv_row) list \<Rightarrow> (string \<times> csv_row) list option" where
  "keyed_frames [] d = Some d"
| "keyed_frames (r # rs) d = Option.bind (map_of r ''seq'') (\<lambda>q. keyed_frames rs (dput q r d))"

definition load_frames :: "csv_row list option \<Rightarrow> (string \<times> csv_row) list option" where
  "load_frames file = (case file of None \<Rightarrow> Some [] | Some rows \<Rightarrow> keyed_frames (frame_rows_of rows) [])"

definition media_frame_of :: "string \<Rightarrow> csv_row \<Rightarrow> csv_row \<Rightarrow> media_frame option" where
  "media_frame_of q r v =
     Option.bind (int_text q) (\<lambda>seq.
     Option.bind (int_col v ''capture_ns'') (\<lambda>capture.
     Option.bind (int_col r ''network_ns'') (\<lambda>uplink.
     Option.bind (int_col r ''processing_ns'') (\<lambda>relay.
     Option.bind (int_col v ''recv_ns'') (\<lambda>recv.
     Option.bind (int_col r ''process_done_ns'') (\<lambda>done_ns.
     Option.bind (int_col v ''processing_ns'') (\<lambda>receiver.
     Option.bind (int_col v ''e2e_ns'') (\<lambda>e2e.
       Some \<lparr>mf_seq = seq, mf_capture = capture, mf_uplink = uplink, mf_relay = relay,
             mf_downlink = recv - done_ns, mf_receiver = receiver, mf_e2e = e2e, mf_state = []\<rparr>))))))))"

fun matched_frames ::
  "(string \<times> csv_row) list \<Rightarrow> (string \<times> csv_row) list \<Rightarrow> media_frame list option" where
  "matched_frames relay [] = Some []"
| "matched_frames relay ((q, v) # vs) =
     (case map_of relay q of
        None \<Rightarrow> matched_frames relay vs
      | Some r \<Rightarrow>
          Option.bind (media_frame_of q r v) (\<lambda>f. map_option (\<lambda>fs. f # fs) (matched_frames relay vs)))"

definition join_media ::
  "(string \<times> csv_row) list \<Rightarrow> (string \<times> csv_row) list \<Rightarrow> media_frame list option" where
  "join_media relay receiver = map_option (sort_key mf_capture) (matched_frames relay receiver)"

section \<open>WebRTC's statistics\<close>

definition stat_num :: "(string \<Rightarrow> rat option) \<Rightarrow> string \<Rightarrow> rat option" where
  "stat_num flt v = (if v = [] then None else flt v)"

record stat =
  st_ts :: int
  st_row :: csv_row
  st_bitrate :: "int option"
  st_lost :: "rat option"

text \<open>\<open>round(x, 3)\<close>, and the rate a counter grew at between two rows \<open>dt\<close> seconds apart.\<close>

definition round3 :: "rat \<Rightarrow> rat" where
  "round3 x = of_int (py_round (x * 1000)) / 1000"

definition rate_of ::
  "(string \<Rightarrow> rat option) \<Rightarrow> string \<Rightarrow> csv_row \<Rightarrow> csv_row \<Rightarrow> rat \<Rightarrow> rat option option" where
  "rate_of flt c prev cur dt =
     Option.bind (map_of prev c) (\<lambda>a.
     Option.bind (map_of cur c) (\<lambda>b.
       Some (case (stat_num flt a, stat_num flt b) of
               (Some x, Some y) \<Rightarrow> Some ((y - x) / dt) | _ \<Rightarrow> None)))"

definition stat_of ::
  "(string \<Rightarrow> rat option) \<Rightarrow> (int \<times> csv_row) option \<Rightarrow> int \<times> csv_row \<Rightarrow> stat option" where
  "stat_of flt prev cur =
     (let bare = \<lparr>st_ts = fst cur, st_row = snd cur, st_bitrate = None, st_lost = None\<rparr>
      in case prev of
           None \<Rightarrow> Some bare
         | Some (t0, r0) \<Rightarrow>
             (let dt = of_int (fst cur - t0) / 1000000000
              in if dt \<le> 0 then Some bare
                 else
                   Option.bind (rate_of flt ''bytes'' r0 (snd cur) dt) (\<lambda>bytes.
                   Option.bind (rate_of flt ''packets_lost'' r0 (snd cur) dt) (\<lambda>lost.
                     Some (bare\<lparr>st_bitrate := map_option (\<lambda>x. py_round (x * 8)) bytes,
                                st_lost := map_option round3 lost\<rparr>)))))"

fun stats_from :: "(string \<Rightarrow> rat option) \<Rightarrow> (int \<times> csv_row) option \<Rightarrow> (int \<times> csv_row) list \<Rightarrow> stat list option" where
  "stats_from flt prev [] = Some []"
| "stats_from flt prev (cur # rest) =
     Option.bind (stat_of flt prev cur) (\<lambda>s. map_option (\<lambda>ss. s # ss) (stats_from flt (Some cur) rest))"

text \<open>The rows of the first stream of a direction, in time order.\<close>

definition stamped :: "csv_row \<Rightarrow> (int \<times> csv_row) option" where
  "stamped r = map_option (\<lambda>t. (t, r)) (int_col r ''ts_ns'')"

definition stream_stats ::
  "(string \<Rightarrow> rat option) \<Rightarrow> string \<Rightarrow> csv_row list \<Rightarrow> stat list option option" where
  "stream_stats flt direction rows =
     (case filter (\<lambda>r. map_of r ''direction'' = Some direction) rows of
        [] \<Rightarrow> Some None
      | r # rs \<Rightarrow>
          Option.bind (map_option_list stamped (filter (\<lambda>q. map_of q ''peer'' = map_of r ''peer'') (r # rs)))
            (\<lambda>ps. map_option Some (stats_from flt None (sort_key fst ps))))"

definition node_stats ::
  "(string \<Rightarrow> rat option) \<Rightarrow> string \<Rightarrow> csv_row list \<Rightarrow> ((string \<times> string) \<times> stat list) list option" where
  "node_stats flt node file =
     (if \<exists>r \<in> set file. map_of r ''kind'' = None then None
      else
        (let rows = filter (\<lambda>r. map_of r ''kind'' = Some ''video'') file
         in if \<exists>r \<in> set rows. map_of r ''direction'' = None \<or> map_of r ''peer'' = None then None
            else
              Option.bind (stream_stats flt ''in'' rows) (\<lambda>i.
              Option.bind (stream_stats flt ''out'' rows) (\<lambda>out.
                Some ((case i of None \<Rightarrow> [] | Some s \<Rightarrow> [((node, ''in''), s)])
                      @ (case out of None \<Rightarrow> [] | Some s \<Rightarrow> [((node, ''out''), s)]))))))"

fun load_stats ::
  "(string \<Rightarrow> rat option) \<Rightarrow> (string \<Rightarrow> csv_row list option) \<Rightarrow> string list \<Rightarrow>
   ((string \<times> string) \<times> stat list) list option" where
  "load_stats flt files [] = Some []"
| "load_stats flt files (node # nodes) =
     (case files node of
        None \<Rightarrow> load_stats flt files nodes
      | Some rows \<Rightarrow>
          Option.bind (node_stats flt node rows) (\<lambda>s. map_option (\<lambda>ss. s @ ss) (load_stats flt files nodes)))"

section \<open>The state of a frame\<close>

definition media_state :: "(string \<times> string \<times> string \<times> string) list" where
  "media_state =
     [(''send_bwe_bps'', ''sender'', ''out'', ''bwe_bps''),
      (''send_target_bps'', ''sender'', ''out'', ''target_bps''),
      (''send_bitrate_bps'', ''sender'', ''out'', ''bitrate_bps''),
      (''send_fps'', ''sender'', ''out'', ''fps''),
      (''send_height'', ''sender'', ''out'', ''height''),
      (''send_quality_limitation'', ''sender'', ''out'', ''quality_limitation''),
      (''uplink_jitter_ms'', ''relay'', ''in'', ''jitter_ms''),
      (''uplink_loss_fraction'', ''relay'', ''in'', ''loss_fraction''),
      (''uplink_rtt_ms'', ''relay'', ''in'', ''rtt_ms''),
      (''downlink_jitter_ms'', ''receiver'', ''in'', ''jitter_ms''),
      (''downlink_lost_per_s'', ''receiver'', ''in'', ''lost_per_s''),
      (''recv_bitrate_bps'', ''receiver'', ''in'', ''bitrate_bps''),
      (''recv_jitter_buffer_ms'', ''receiver'', ''in'', ''jitter_buffer_ms''),
      (''recv_freezes'', ''receiver'', ''in'', ''freezes''),
      (''recv_nacks'', ''receiver'', ''in'', ''nacks''),
      (''recv_plis'', ''receiver'', ''in'', ''plis'')]"

definition stat_field :: "stat \<Rightarrow> string \<Rightarrow> media_cell" where
  "stat_field s c =
     (if c = ''bitrate_bps'' then (case st_bitrate s of None \<Rightarrow> Text [] | Some b \<Rightarrow> Num (of_int b))
      else if c = ''lost_per_s'' then (case st_lost s of None \<Rightarrow> Text [] | Some l \<Rightarrow> Num l)
      else Text (get_text (st_row s) c))"

definition period_ns :: "stat list \<Rightarrow> int" where
  "period_ns s = period_of (gaps (map st_ts s))"

definition as_of :: "stat list \<Rightarrow> int \<Rightarrow> int \<Rightarrow> stat option" where
  "as_of s t max_age = map_option (\<lambda>i. s ! i) (as_of_index (map st_ts s) max_age t)"

definition state_cell ::
  "((string \<times> string) \<times> stat list) list \<Rightarrow> int option \<Rightarrow> int \<Rightarrow> string \<times> string \<Rightarrow> string \<Rightarrow> media_cell" where
  "state_cell series max_age t key field =
     (case map_of series key of
        None \<Rightarrow> Text []
      | Some s \<Rightarrow>
          (case as_of s t (case max_age of None \<Rightarrow> 2 * period_ns s | Some a \<Rightarrow> a) of
             None \<Rightarrow> Text []
           | Some row \<Rightarrow> stat_field row field))"

definition attach_state ::
  "((string \<times> string) \<times> stat list) list \<Rightarrow> int option \<Rightarrow> media_frame \<Rightarrow> media_frame" where
  "attach_state series max_age f =
     f\<lparr>mf_state := map (\<lambda>(col, node, direction, field).
          (col, state_cell series max_age (mf_capture f) (node, direction) field)) media_state\<rparr>"

text \<open>\<open>main\<close>, up to the table; nothing inside \<open>Some\<close> is the exit when a site has no frames.\<close>

definition media_join ::
  "(string \<Rightarrow> rat option) \<Rightarrow> csv_row list option \<Rightarrow> csv_row list option \<Rightarrow> (string \<Rightarrow> csv_row list option) \<Rightarrow>
   rat option \<Rightarrow> media_frame list option option" where
  "media_join flt relay_file receiver_file stats_files max_age_ms =
     Option.bind (load_frames relay_file) (\<lambda>relay.
     Option.bind (load_frames receiver_file) (\<lambda>receiver.
       if relay = [] \<or> receiver = [] then Some None
       else
         Option.bind (join_media relay receiver) (\<lambda>frames.
         Option.bind (load_stats flt stats_files [''sender'', ''relay'', ''receiver'']) (\<lambda>series.
           Some (Some (map (attach_state series (map_option (\<lambda>m. trunc_rat (m * 1000000)) max_age_ms)) frames))))))"

section \<open>Lemmas\<close>

lemma keyed_frames_set:
  "keyed_frames rs d = Some e \<Longrightarrow> set e \<subseteq> set d \<union> {(q, r). r \<in> set rs \<and> map_of r ''seq'' = Some q}"
proof (induction rs arbitrary: d)
  case (Cons r rs)
  then show ?case
    using set_dput_subset by (fastforce simp: bind_eq_Some_conv)
qed simp

lemma matched_frames_mem:
  assumes "matched_frames relay vs = Some fs" and "f \<in> set fs"
  shows "\<exists>p \<in> set vs. \<exists>r. map_of relay (fst p) = Some r \<and> media_frame_of (fst p) r (snd p) = Some f"
  using assms
proof (induction relay vs arbitrary: fs rule: matched_frames.induct)
  case (2 relay q v vs)
  show ?case
  proof (cases "map_of relay q")
    case None
    then show ?thesis
      using "2.IH"(1) "2.prems" by simp
  next
    case (Some r)
    then obtain g gs where g: "media_frame_of q r v = Some g" "matched_frames relay vs = Some gs" "fs = g # gs"
      using "2.prems"(1) by (auto simp: bind_eq_Some_conv)
    then show ?thesis
      using "2.IH"(2) [OF Some g(1,2)] "2.prems"(2) Some by auto
  qed
qed simp

lemma matched_frames_seqs:
  "matched_frames relay vs = Some fs \<Longrightarrow>
     map (\<lambda>f. Some (mf_seq f)) fs = map (\<lambda>(q, v). int_text q) (filter (\<lambda>(q, v). map_of relay q \<noteq> None) vs)"
  by (induction relay vs arbitrary: fs rule: matched_frames.induct)
     (auto simp: bind_eq_Some_conv media_frame_of_def split: option.splits)

lemma stats_from_stamps: "stats_from flt prev ps = Some ss \<Longrightarrow> map st_ts ss = map fst ps"
  by (induction flt prev ps arbitrary: ss rule: stats_from.induct)
     (auto simp: bind_eq_Some_conv stat_of_def Let_def split: option.splits prod.splits if_splits)

lemma stream_stats_sorted:
  "stream_stats flt direction rows = Some (Some s) \<Longrightarrow> sorted (map st_ts s)"
  by (auto simp: stream_stats_def bind_eq_Some_conv dest!: stats_from_stamps split: list.splits)

lemma node_stats_sorted:
  assumes "node_stats flt node file = Some ss" and "(k, s) \<in> set ss"
  shows "sorted (map st_ts s)"
proof -
  obtain rows i out where "stream_stats flt ''in'' rows = Some i" and "stream_stats flt ''out'' rows = Some out"
    and "i = Some s \<or> out = Some s"
    using assms by (auto simp: node_stats_def bind_eq_Some_conv Let_def split: if_splits option.splits)
  then show ?thesis
    using stream_stats_sorted by blast
qed

lemma load_stats_sorted: "load_stats flt files nodes = Some ss \<Longrightarrow> (k, s) \<in> set ss \<Longrightarrow> sorted (map st_ts s)"
  by (induction nodes arbitrary: ss) (auto simp: bind_eq_Some_conv intro: node_stats_sorted split: option.splits)

text \<open>What the recorder derives from a sample's stamps (the telemetry library's rule).\<close>

definition derived_columns :: "csv_row \<Rightarrow> bool" where
  "derived_columns r \<longleftrightarrow>
     (case (int_col r ''capture_ns'', int_col r ''send_ns'', int_col r ''recv_ns'', int_col r ''process_done_ns'') of
        (Some capture, Some sent, Some recv, Some done_ns) \<Rightarrow>
          int_col r ''network_ns'' = Some (recv - sent)
          \<and> int_col r ''processing_ns'' = Some (done_ns - recv)
          \<and> int_col r ''e2e_ns'' = Some (done_ns - capture)
      | _ \<Rightarrow> False)"

section \<open>Properties\<close>

text \<open>The legs of a frame make up its way: over rows whose derived columns follow the recorder's rule,
  the time from capture to sending, the uplink, the relay, the downlink and the receiver add up to the
  end-to-end delay; the frames come in capture order.\<close>

theorem media_legs_add_up:
  assumes "join_media relay receiver = Some fs" and "f \<in> set fs"
    and "\<forall>r \<in> snd ` set relay. derived_columns r" and "\<forall>v \<in> snd ` set receiver. derived_columns v"
  shows "\<exists>q r v sent. map_of relay q = Some r \<and> (q, v) \<in> set receiver \<and> int_text q = Some (mf_seq f)
     \<and> int_col r ''send_ns'' = Some sent
     \<and> (sent - mf_capture f) + mf_uplink f + mf_relay f + mf_downlink f + mf_receiver f = mf_e2e f
     \<and> sorted (map mf_capture fs)"
proof -
  obtain gs where gs: "matched_frames relay receiver = Some gs" "fs = sort_key mf_capture gs"
    using assms(1) by (auto simp: join_media_def)
  then obtain q r v where m: "(q, v) \<in> set receiver" "map_of relay q = Some r" "media_frame_of q r v = Some f"
    using matched_frames_mem [OF gs(1)] assms(2) by (metis prod.collapse set_sort)
  have "derived_columns r" and "derived_columns v"
    using assms(3,4) m(1) map_of_SomeD [OF m(2)] by force+
  then obtain sent where "int_col r ''send_ns'' = Some sent"
    and "(sent - mf_capture f) + mf_uplink f + mf_relay f + mf_downlink f + mf_receiver f = mf_e2e f"
    using m(3) by (auto simp: derived_columns_def media_frame_of_def bind_eq_Some_conv split: option.splits)
  moreover have "int_text q = Some (mf_seq f)"
    using m(3) by (auto simp: media_frame_of_def bind_eq_Some_conv)
  ultimately show ?thesis
    using m(1,2) gs(2) by (intro exI conjI) (auto simp: sorted_sort_key)
qed

definition example_relay :: csv_row where
  "example_relay =
     [(''seq'', ''7''), (''capture_ns'', ''10''), (''send_ns'', ''12''), (''recv_ns'', ''20''),
      (''process_done_ns'', ''21''), (''network_ns'', ''8''), (''processing_ns'', ''1''), (''e2e_ns'', ''11'')]"

definition example_receiver :: csv_row where
  "example_receiver =
     [(''seq'', ''7''), (''capture_ns'', ''10''), (''send_ns'', ''21''), (''recv_ns'', ''30''),
      (''process_done_ns'', ''45''), (''network_ns'', ''9''), (''processing_ns'', ''15''), (''e2e_ns'', ''35'')]"

theorem media_legs_add_up_witness:
  "\<exists>f. join_media [(''7'', example_relay)] [(''7'', example_receiver)] = Some [f]
     \<and> (12 - mf_capture f) + mf_uplink f + mf_relay f + mf_downlink f + mf_receiver f = mf_e2e f"
proof -
  have j: "join_media [(''7'', example_relay)] [(''7'', example_receiver)] =
      Some [\<lparr>mf_seq = 7, mf_capture = 10, mf_uplink = 8, mf_relay = 1, mf_downlink = 9, mf_receiver = 15,
             mf_e2e = 35, mf_state = []\<rparr>]"
    by code_simp
  have d: "derived_columns example_relay" "derived_columns example_receiver" "int_col example_relay ''send_ns'' = Some 12"
    by code_simp+
  show ?thesis
    using media_legs_add_up [OF j list.set_intros(1)] d j by auto
qed

text \<open>C27. The state of a frame is the last one known: a filled cell comes from the latest row of its stream at
  or before the frame's capture, no older than the bound.\<close>

theorem media_state_as_of:
  assumes "load_stats flt files nodes = Some series" and "map_of series (node, direction) = Some s"
    and "state_cell series max_age t (node, direction) field \<noteq> Text []"
  shows "\<exists>row \<in> set s. state_cell series max_age t (node, direction) field = stat_field row field
     \<and> st_ts row \<le> t \<and> t - st_ts row \<le> (case max_age of None \<Rightarrow> 2 * period_ns s | Some a \<Rightarrow> a)
     \<and> (\<forall>q \<in> set s. st_ts q \<le> t \<longrightarrow> st_ts q \<le> st_ts row)"
proof -
  let ?age = "case max_age of None \<Rightarrow> 2 * period_ns s | Some a \<Rightarrow> a"
  have sorted: "sorted (map st_ts s)"
    using load_stats_sorted [OF assms(1)] map_of_SomeD [OF assms(2)] by blast
  obtain i where i: "as_of_index (map st_ts s) ?age t = Some i"
      "state_cell series max_age t (node, direction) field = stat_field (s ! i) field"
    using assms(2,3) by (auto simp: state_cell_def as_of_def split: option.splits)
  note at_i = i(1) [unfolded as_of_index_Some [OF sorted]]
  have "st_ts q \<le> st_ts (s ! i)" if "q \<in> set s" "st_ts q \<le> t" for q
  proof -
    obtain k where "k < length s" "s ! k = q"
      using \<open>q \<in> set s\<close> by (auto simp: in_set_conv_nth)
    moreover from this have "\<not> i < k"
      using at_i \<open>st_ts q \<le> t\<close> by auto
    ultimately show ?thesis
      using sorted_nth_mono [OF sorted, of k i] at_i by auto
  qed
  then show ?thesis
    using at_i i(2) by (intro bexI [of _ "s ! i"]) auto
qed

definition example_stats :: "csv_row list" where
  "example_stats =
     map (\<lambda>(t, jitter). [(''kind'', ''video''), (''direction'', ''in''), (''peer'', ''p''), (''ts_ns'', t),
            (''bytes'', []), (''packets_lost'', []), (''jitter_ms'', jitter)])
       [(''40'', ''5''), (''20'', ''3'')]"

theorem media_state_as_of_witness:
  "\<exists>series. load_stats (\<lambda>_. None) (\<lambda>n. if n = ''relay'' then Some example_stats else None) [''relay''] = Some series
     \<and> state_cell series None 45 (''relay'', ''in'') ''jitter_ms'' = Text ''5''
     \<and> (\<exists>s. map_of series (''relay'', ''in'') = Some s \<and> (\<exists>row \<in> set s. st_ts row \<le> 45
            \<and> (\<forall>q \<in> set s. st_ts q \<le> 45 \<longrightarrow> st_ts q \<le> st_ts row)))"
proof -
  let ?load = "load_stats (\<lambda>_. None) (\<lambda>n. if n = ''relay'' then Some example_stats else None) [''relay'']"
  let ?row = "\<lambda>t x j. \<lparr>st_ts = t, st_row = [(''kind'', ''video''), (''direction'', ''in''), (''peer'', ''p''),
      (''ts_ns'', x), (''bytes'', []), (''packets_lost'', []), (''jitter_ms'', j)], st_bitrate = None, st_lost = None\<rparr>"
  let ?s = "[?row 20 ''20'' ''3'', ?row 40 ''40'' ''5'']"
  have l: "?load = Some [((''relay'', ''in''), ?s)]"
    by code_simp
  have c: "state_cell [((''relay'', ''in''), ?s)] None 45 (''relay'', ''in'') ''jitter_ms'' = Text ''5''"
    by code_simp
  then have "state_cell [((''relay'', ''in''), ?s)] None 45 (''relay'', ''in'') ''jitter_ms'' \<noteq> Text []"
    by simp
  from media_state_as_of [OF l _ this, of ?s]
  have "\<exists>row \<in> set ?s. st_ts row \<le> 45 \<and> (\<forall>q \<in> set ?s. st_ts q \<le> 45 \<longrightarrow> st_ts q \<le> st_ts row)"
    by (auto simp del: set_simps)
  then show ?thesis
    using l c by (intro exI [of _ "[((''relay'', ''in''), ?s)]"] conjI exI [of _ ?s]) simp_all
qed

end
