(* ===== verification/Gpcc_Codec.thy ===== *)
theory Gpcc_Codec
  imports Edge_Node "HOL-Library.Multiset"
begin

text \<open>
  The G-PCC codec's binding (ros2/src/mec_cast_codec/mec_cast_codec/gpcc.py): its checks, and what it
  creates and frees in the C library.

  The library is a parameter: \<open>tmc3_env\<close> holds the status of each of its calls and what they deliver.
  \<open>tmc3\<close> is the account of its handles: the ones alive, and whether one was used or freed that was not.
  A create that fails leaves no handle. \<open>__del__\<close>, which is \<open>close\<close>, is not modelled apart.
\<close>

section \<open>The library's handles\<close>

record tmc3 =
  tm_next :: nat
  tm_live :: "nat list"
  tm_fault :: bool

definition no_handles :: tmc3 where
  "no_handles = \<lparr>tm_next = 0, tm_live = [], tm_fault = False\<rparr>"

definition tm_new :: "tmc3 \<Rightarrow> nat \<times> tmc3" where
  "tm_new t = (tm_next t, t\<lparr>tm_next := tm_next t + 1, tm_live := tm_next t # tm_live t\<rparr>)"

definition tm_use :: "nat \<Rightarrow> tmc3 \<Rightarrow> tmc3" where
  "tm_use h t = (if h \<in> set (tm_live t) then t else t\<lparr>tm_fault := True\<rparr>)"

definition tm_free :: "nat \<Rightarrow> tmc3 \<Rightarrow> tmc3" where
  "tm_free h t =
     (if h \<in> set (tm_live t) then t\<lparr>tm_live := remove1 h (tm_live t)\<rparr> else t\<lparr>tm_fault := True\<rparr>)"

record tmc3_env =
  te_create :: int
  te_reopen :: int
  te_encode :: int
  te_bytes :: "nat list"
  te_push :: int
  te_end :: int
  te_next :: int
  te_info :: int
  te_get :: int
  te_points :: "point list"

datatype codec_error = Value_Error string | Codec_Error int | Closed | No_Frame

text \<open>\<open>_check\<close>.\<close>

definition tm_check :: "int \<Rightarrow> codec_error + int" where
  "tm_check status = (if status < 0 then Inl (Codec_Error status) else Inr status)"

section \<open>Options\<close>

definition codec_scale :: "rat option \<Rightarrow> codec_error + rat" where
  "codec_scale precision =
     (case precision of
        None \<Rightarrow> Inr 1
      | Some p \<Rightarrow> if 0 < p then Inr (1 / p) else Inl (Value_Error ''precision_m must be positive or None''))"

definition seq_size :: nat where
  "seq_size = 2097151"

text \<open>\<open>fmt\<close> prints the scale with twelve digits.\<close>

definition encoder_options :: "(rat \<Rightarrow> string) \<Rightarrow> rat option \<Rightarrow> point \<Rightarrow> codec_error + string list" where
  "encoder_options fmt precision origin =
     (case origin of (x, y, z) \<Rightarrow>
        map_sum id (\<lambda>scale.
          [''inputScale='' @ fmt scale, ''srcUnit=metre'', ''srcUnitLength=1'', ''autoSeqBbox=0'',
           ''seqOrigin='' @ join '','' (map (\<lambda>v. dec_int \<lfloor>v * scale\<rfloor>) [x, y, z]),
           ''seqSizeWhd='' @ join '','' [dec_nat seq_size, dec_nat seq_size, dec_nat seq_size],
           ''mergeDuplicatedPoints=0'', ''interPredictionEnabled=0'', ''randomAccessPeriod=1''])
        (codec_scale precision))"

section \<open>The encoder\<close>

datatype dtype = Int32 | Float32 | Other_Dtype

record encoder =
  en_precision :: "rat option"
  en_origin :: point
  en_handle :: "nat option"

definition en_dtype :: "encoder \<Rightarrow> dtype" where
  "en_dtype enc = (if en_precision enc = None then Int32 else Float32)"

text \<open>An array: its shape, its type and, where it has three columns, its rows.\<close>

record cloud_array =
  ca_shape :: "nat list"
  ca_dtype :: dtype
  ca_points :: "point list"

definition open_encoder ::
  "tmc3_env \<Rightarrow> (rat \<Rightarrow> string) \<Rightarrow> rat option \<Rightarrow> point \<Rightarrow> tmc3 \<Rightarrow> (codec_error + encoder) \<times> tmc3" where
  "open_encoder e fmt precision origin t =
     (case encoder_options fmt precision origin of
        Inl err \<Rightarrow> (Inl err, t)
      | Inr opts \<Rightarrow>
          (case tm_check (te_create e) of
             Inl err \<Rightarrow> (Inl err, t)
           | Inr _ \<Rightarrow>
               (case tm_new t of
                  (h, t1) \<Rightarrow> (Inr \<lparr>en_precision = precision, en_origin = origin, en_handle = Some h\<rparr>, t1))))"

definition lowest :: "point list \<Rightarrow> point" where
  "lowest pts =
     (case pts of
        [] \<Rightarrow> (0, 0, 0)
      | p # ps \<Rightarrow> fold (\<lambda>(x, y, z) (a, b, c). (min a x, min b y, min c z)) ps p)"

definition below_origin :: "point \<Rightarrow> point \<Rightarrow> bool" where
  "below_origin low origin =
     (case (low, origin) of ((x, y, z), (a, b, c)) \<Rightarrow> x < a \<or> y < b \<or> z < c)"

definition encode :: "tmc3_env \<Rightarrow> encoder \<Rightarrow> cloud_array \<Rightarrow> tmc3 \<Rightarrow> (codec_error + nat list) \<times> tmc3" where
  "encode e enc c t =
     (if length (ca_shape c) \<noteq> 2 \<or> ca_shape c ! 1 \<noteq> 3 \<or> ca_dtype c \<noteq> en_dtype enc
      then (Inl (Value_Error ''shape or dtype''), t)
      else if ca_shape c ! 0 = 0 then (Inl (Value_Error ''an empty cloud cannot be coded''), t)
      else if below_origin (lowest (ca_points c)) (en_origin enc)
      then (Inl (Value_Error ''a point lies below the coding origin''), t)
      else
        (case en_handle enc of
           None \<Rightarrow> (Inl Closed, t)
         | Some h \<Rightarrow>
             (let t1 = tm_use h t
              in case tm_check (te_encode e) of
                   Inl err \<Rightarrow> (Inl err, t1)
                 | Inr _ \<Rightarrow>
                     (case tm_new t1 of
                        (packet, t2) \<Rightarrow> (Inr (te_bytes e), tm_free packet (tm_use packet t2))))))"

definition close_encoder :: "encoder \<Rightarrow> tmc3 \<Rightarrow> encoder \<times> tmc3" where
  "close_encoder enc t =
     (case en_handle enc of
        None \<Rightarrow> (enc, t)
      | Some h \<Rightarrow> (enc\<lparr>en_handle := None\<rparr>, tm_free h t))"

section \<open>The decoder\<close>

text \<open>\<open>_positions\<close>: metres as they come, indices rounded to integers.\<close>

definition rint_point :: "(rat \<Rightarrow> int) \<Rightarrow> point \<Rightarrow> point" where
  "rint_point rint p = (case p of (x, y, z) \<Rightarrow> (of_int (rint x), of_int (rint y), of_int (rint z)))"

definition positions ::
  "tmc3_env \<Rightarrow> (rat \<Rightarrow> int) \<Rightarrow> dtype \<Rightarrow> nat \<Rightarrow> tmc3 \<Rightarrow> (codec_error + point list) \<times> tmc3" where
  "positions e rint dt frame t =
     (let t1 = tm_use frame t
      in (case tm_check (te_info e) of
            Inl err \<Rightarrow> Inl err
          | Inr _ \<Rightarrow>
              (case tm_check (te_get e) of
                 Inl err \<Rightarrow> Inl err
               | Inr _ \<Rightarrow> Inr (if dt = Int32 then map (rint_point rint) (te_points e) else te_points e)),
          t1))"

type_synonym decoder = "nat option"

definition open_decoder :: "int \<Rightarrow> tmc3 \<Rightarrow> (codec_error + nat) \<times> tmc3" where
  "open_decoder status t =
     (case tm_check status of
        Inl err \<Rightarrow> (Inl err, t)
      | Inr _ \<Rightarrow> (case tm_new t of (h, t1) \<Rightarrow> (Inr h, t1)))"

text \<open>Push, end of frame or of stream, and the frame, whose handle exists from then on.\<close>

definition pull_frame :: "tmc3_env \<Rightarrow> nat \<Rightarrow> tmc3 \<Rightarrow> (codec_error + nat) \<times> tmc3" where
  "pull_frame e h t =
     (let t1 = tm_use h t
      in case tm_check (te_push e) of
           Inl err \<Rightarrow> (Inl err, t1)
         | Inr _ \<Rightarrow>
             (case tm_check (te_end e) of
                Inl err \<Rightarrow> (Inl err, t1)
              | Inr _ \<Rightarrow>
                  (case tm_check (te_next e) of
                     Inl err \<Rightarrow> (Inl err, t1)
                   | Inr s \<Rightarrow>
                       if s = 1 then (Inl No_Frame, t1)
                       else (case tm_new t1 of (frame, t2) \<Rightarrow> (Inr frame, t2)))))"

text \<open>A decoder after a bad frame: closed, and opened again, where the second may raise in place of the
  first.\<close>

definition decode ::
  "tmc3_env \<Rightarrow> (rat \<Rightarrow> int) \<Rightarrow> dtype \<Rightarrow> decoder \<Rightarrow> tmc3 \<Rightarrow> (codec_error + point list) \<times> decoder \<times> tmc3" where
  "decode e rint dt d t =
     (case d of
        None \<Rightarrow> (Inl Closed, None, t)
      | Some h \<Rightarrow>
          (case pull_frame e h t of
             (Inl err, t1) \<Rightarrow>
               (case open_decoder (te_reopen e) (tm_free h t1) of
                  (Inl err2, t2) \<Rightarrow> (Inl err2, None, t2)
                | (Inr h2, t2) \<Rightarrow> (Inl err, Some h2, t2))
           | (Inr frame, t1) \<Rightarrow>
               (case positions e rint dt frame t1 of
                  (res, t2) \<Rightarrow> (res, Some h, tm_free frame t2))))"

definition close_decoder :: "decoder \<Rightarrow> tmc3 \<Rightarrow> decoder \<times> tmc3" where
  "close_decoder d t = (None, case d of None \<Rightarrow> t | Some h \<Rightarrow> tm_free h t)"

text \<open>\<open>decode\<close> of the module: one frame by a decoder of its own.\<close>

definition decode_once ::
  "tmc3_env \<Rightarrow> (rat \<Rightarrow> int) \<Rightarrow> dtype \<Rightarrow> tmc3 \<Rightarrow> (codec_error + point list) \<times> tmc3" where
  "decode_once e rint dt t =
     (case open_decoder (te_create e) t of
        (Inl err, t1) \<Rightarrow> (Inl err, t1)
      | (Inr h, t1) \<Rightarrow>
          (case pull_frame e h t1 of
             (Inl err, t2) \<Rightarrow> (Inl err, tm_free h t2)
           | (Inr frame, t2) \<Rightarrow>
               (case positions e rint dt frame t2 of
                  (res, t3) \<Rightarrow> (res, tm_free h (tm_free frame t3)))))"

section \<open>A node's codecs\<close>

text \<open>An encoder and a decoder in any order of calls; opening happens where there is none.\<close>

type_synonym codecs = "encoder option \<times> decoder \<times> tmc3"

inductive codec_step :: "codecs \<Rightarrow> codecs \<Rightarrow> bool" where
  cs_open_encoder: "open_encoder e fmt precision origin t = (Inr enc, t') \<Longrightarrow>
     codec_step (None, d, t) (Some enc, d, t')"
| cs_no_encoder: "open_encoder e fmt precision origin t = (Inl err, t') \<Longrightarrow>
     codec_step (None, d, t) (None, d, t')"
| cs_encode: "codec_step (Some enc, d, t) (Some enc, d, snd (encode e enc c t))"
| cs_close_encoder: "close_encoder enc t = (enc', t') \<Longrightarrow> codec_step (Some enc, d, t) (Some enc', d, t')"
| cs_drop_encoder: "en_handle enc = None \<Longrightarrow> codec_step (Some enc, d, t) (None, d, t)"
| cs_open_decoder: "open_decoder status t = (Inr h, t') \<Longrightarrow> codec_step (en, None, t) (en, Some h, t')"
| cs_no_decoder: "open_decoder status t = (Inl err, t') \<Longrightarrow> codec_step (en, None, t) (en, None, t')"
| cs_decode: "decode e rint dt d t = (res, d', t') \<Longrightarrow> codec_step (en, d, t) (en, d', t')"
| cs_close_decoder: "close_decoder d t = (d', t') \<Longrightarrow> codec_step (en, d, t) (en, d', t')"
| cs_once: "codec_step (en, d, t) (en, d, snd (decode_once e rint dt t))"

inductive codec_reachable :: "codecs \<Rightarrow> bool" where
  cr_start: "codec_reachable (None, None, no_handles)"
| cr_step: "codec_reachable s \<Longrightarrow> codec_step s s' \<Longrightarrow> codec_reachable s'"

definition held :: "encoder option \<Rightarrow> decoder \<Rightarrow> nat list" where
  "held en d =
     (case en of None \<Rightarrow> [] | Some enc \<Rightarrow> (case en_handle enc of None \<Rightarrow> [] | Some h \<Rightarrow> [h]))
     @ (case d of None \<Rightarrow> [] | Some h \<Rightarrow> [h])"

text \<open>Exactly the handles held are alive, each once, and none was misused.\<close>

definition accounted :: "tmc3 \<Rightarrow> nat list \<Rightarrow> bool" where
  "accounted t hs \<longleftrightarrow>
     \<not> tm_fault t \<and> distinct (tm_live t) \<and> distinct hs \<and> set (tm_live t) = set hs \<and> (\<forall>h \<in> set hs. h < tm_next t)"

section \<open>Lemmas\<close>

lemma accounted_new: "accounted t hs \<Longrightarrow> tm_new t = (h, t') \<Longrightarrow> accounted t' (h # hs)"
  by (auto simp: accounted_def tm_new_def)

lemma accounted_use [simp]: "accounted t hs \<Longrightarrow> h \<in> set hs \<Longrightarrow> tm_use h t = t"
  by (simp add: accounted_def tm_use_def)

lemma accounted_free: "accounted t hs \<Longrightarrow> h \<in> set hs \<Longrightarrow> accounted (tm_free h t) (remove1 h hs)"
  by (auto simp: accounted_def tm_free_def)

lemma accounted_perm: "accounted t hs \<Longrightarrow> distinct hs' \<Longrightarrow> set hs' = set hs \<Longrightarrow> accounted t hs'"
  by (simp add: accounted_def)

lemma accounted_distinct: "accounted t hs \<Longrightarrow> distinct hs"
  by (simp add: accounted_def)

lemma open_decoder_accounted:
  assumes "accounted t hs"
  shows "open_decoder status t = (Inr h, t') \<Longrightarrow> accounted t' (h # hs)"
    and "open_decoder status t = (Inl err, t') \<Longrightarrow> accounted t' hs"
  using assms accounted_new by (auto simp: open_decoder_def split: sum.splits prod.splits)

lemma open_encoder_accounted:
  assumes "accounted t hs"
  shows "open_encoder e fmt precision origin t = (Inr enc, t') \<Longrightarrow> \<exists>h. en_handle enc = Some h \<and> accounted t' (h # hs)"
    and "open_encoder e fmt precision origin t = (Inl err, t') \<Longrightarrow> accounted t' hs"
  using assms accounted_new by (auto simp: open_encoder_def split: sum.splits prod.splits)

lemma encode_accounted:
  assumes "accounted t hs" and "set (held (Some enc) None) \<subseteq> set hs"
  shows "accounted (snd (encode e enc c t)) hs"
proof -
  have "accounted (tm_free p (tm_use p t')) hs" if "tm_new t = (p, t')" for p t'
  proof -
    have a: "accounted t' (p # hs)"
      using accounted_new [OF assms(1) that] .
    then have "accounted (tm_free p t') hs"
      using accounted_free [of t' "p # hs" p] by simp
    then show ?thesis
      using a by simp
  qed
  then show ?thesis
    using assms by (auto simp: encode_def held_def Let_def split: sum.splits prod.splits option.splits)
qed

lemma pull_frame_accounted:
  assumes "accounted t hs" and "h \<in> set hs"
  shows "pull_frame e h t = (Inr frame, t') \<Longrightarrow> accounted t' (frame # hs)"
    and "pull_frame e h t = (Inl err, t') \<Longrightarrow> accounted t' hs"
  using assms accounted_new
  by (auto simp: pull_frame_def Let_def split: sum.splits prod.splits if_splits)

lemma positions_accounted:
  "accounted t (frame # hs) \<Longrightarrow> positions e rint dt frame t = (res, t') \<Longrightarrow> accounted (tm_free frame t') hs"
  using accounted_free [of t "frame # hs" frame] by (auto simp: positions_def Let_def)

lemma decode_accounted:
  assumes "accounted t (hs @ (case d of None \<Rightarrow> [] | Some h \<Rightarrow> [h]))" and "decode e rint dt d t = (res, d', t')"
  shows "accounted t' (hs @ (case d' of None \<Rightarrow> [] | Some h \<Rightarrow> [h]))"
proof (cases d)
  case None
  then show ?thesis
    using assms by (simp add: decode_def)
next
  case (Some h)
  have a: "accounted t (hs @ [h])" and h: "h \<notin> set hs" and d: "distinct hs"
    using assms(1) Some accounted_distinct [OF assms(1)] by simp_all
  obtain r t1 where p: "pull_frame e h t = (r, t1)"
    by (cases "pull_frame e h t")
  show ?thesis
  proof (cases r)
    case (Inl err)
    then have "accounted t1 (hs @ [h])"
      using pull_frame_accounted(2) [OF a, of h e err t1] p by simp
    from accounted_free [OF this, of h] have f: "accounted (tm_free h t1) hs"
      using h by (simp add: remove1_append)
    obtain q t2 where q: "open_decoder (te_reopen e) (tm_free h t1) = (q, t2)"
      by (cases "open_decoder (te_reopen e) (tm_free h t1)")
    show ?thesis
    proof (cases q)
      case (Inl err2)
      then show ?thesis
        using assms(2) Some p \<open>r = Inl err\<close> q open_decoder_accounted(2) [OF f] by (auto simp: decode_def)
    next
      case (Inr h2)
      then have "accounted t2 (h2 # hs)"
        using q open_decoder_accounted(1) [OF f] by simp
      then have "accounted t2 (hs @ [h2])"
        using accounted_distinct by (fastforce intro: accounted_perm)
      then show ?thesis
        using assms(2) Some p \<open>r = Inl err\<close> q Inr by (auto simp: decode_def)
    qed
  next
    case (Inr frame)
    then have b: "accounted t1 (frame # hs @ [h])"
      using pull_frame_accounted(1) [OF a, of h e frame t1] p by simp
    obtain res' t2 where "positions e rint dt frame t1 = (res', t2)"
      by (cases "positions e rint dt frame t1")
    then show ?thesis
      using assms(2) Some p Inr positions_accounted [OF b] by (auto simp: decode_def)
  qed
qed

lemma decode_once_accounted:
  assumes "accounted t hs"
  shows "accounted (snd (decode_once e rint dt t)) hs"
proof -
  obtain r t1 where o: "open_decoder (te_create e) t = (r, t1)"
    by (cases "open_decoder (te_create e) t")
  show ?thesis
  proof (cases r)
    case (Inl err)
    then show ?thesis
      using o open_decoder_accounted(2) [OF assms] by (simp add: decode_once_def)
  next
    case (Inr h)
    then have a: "accounted t1 (h # hs)"
      using o open_decoder_accounted(1) [OF assms] by simp
    have free: "accounted (tm_free h t') hs" if "accounted t' (h # hs)" for t'
      using accounted_free [OF that, of h] by simp
    obtain q t2 where q: "pull_frame e h t1 = (q, t2)"
      by (cases "pull_frame e h t1")
    show ?thesis
    proof (cases q)
      case (Inl err)
      then show ?thesis
        using o Inr q pull_frame_accounted(2) [OF a, of h e err t2] free by (simp add: decode_once_def)
    next
      case (Inr frame)
      then have "accounted t2 (frame # h # hs)"
        using q pull_frame_accounted(1) [OF a, of h e frame t2] by simp
      moreover obtain res t3 where "positions e rint dt frame t2 = (res, t3)"
        by (cases "positions e rint dt frame t2")
      ultimately show ?thesis
        using o \<open>r = Inr h\<close> q Inr positions_accounted free by (simp add: decode_once_def)
    qed
  qed
qed

lemma close_encoder_accounted:
  assumes "accounted t (held (Some enc) d)" and "close_encoder enc t = (enc', t')"
  shows "accounted t' (held (Some enc') d)"
proof (cases "en_handle enc")
  case (Some h)
  have "accounted (tm_free h t) (remove1 h (held (Some enc) d))"
    using assms(1) by (rule accounted_free) (simp add: held_def Some)
  then show ?thesis
    using assms(2) by (auto simp: held_def Some close_encoder_def)
qed (use assms in \<open>simp add: close_encoder_def\<close>)

lemma close_decoder_accounted:
  assumes "accounted t (held en d)" and "close_decoder d t = (d', t')"
  shows "accounted t' (held en d')"
proof (cases d)
  case (Some h)
  have "accounted (tm_free h t) (remove1 h (held en d))"
    using assms(1) by (rule accounted_free) (simp add: held_def Some)
  moreover have "remove1 h (held en d) = held en None"
    using accounted_distinct [OF assms(1)] by (auto simp: held_def Some remove1_append split: option.splits)
  ultimately show ?thesis
    using assms(2) by (auto simp: Some close_decoder_def)
qed (use assms in \<open>auto simp: close_decoder_def\<close>)

lemma codec_step_accounted:
  assumes "codec_step (en, d, t) (en', d', t')" and "accounted t (held en d)"
  shows "accounted t' (held en' d')"
  using assms
proof (cases rule: codec_step.cases)
  case (cs_open_encoder e fmt precision origin enc)
  obtain h where "en_handle enc = Some h" and "accounted t' (h # held en d)"
    using open_encoder_accounted(1) [OF assms(2), of e fmt precision origin enc t'] cs_open_encoder by blast
  then show ?thesis
    using cs_open_encoder by (simp add: held_def)
next
  case (cs_no_encoder e fmt precision origin err)
  then show ?thesis
    using open_encoder_accounted(2) [OF assms(2)] by blast
next
  case (cs_encode enc e c)
  then show ?thesis
    using encode_accounted [OF assms(2), of enc e c] by (simp add: held_def)
next
  case (cs_close_encoder enc enc')
  then show ?thesis
    using close_encoder_accounted assms(2) by simp
next
  case (cs_drop_encoder enc)
  then show ?thesis
    using assms(2) by (simp add: held_def)
next
  case (cs_open_decoder status h)
  have "accounted t' (h # held en d)"
    using open_decoder_accounted(1) [OF assms(2), of status h t'] cs_open_decoder by blast
  then have "accounted t' (held en d @ [h])"
    using accounted_distinct by (fastforce intro: accounted_perm)
  then show ?thesis
    using cs_open_decoder by (simp add: held_def)
next
  case (cs_no_decoder status err)
  then show ?thesis
    using open_decoder_accounted(2) [OF assms(2)] by blast
next
  case (cs_decode e rint dt res)
  then show ?thesis
    using decode_accounted [of t "held en None" d e rint dt res d' t'] assms(2) by (simp add: held_def)
next
  case (cs_close_decoder)
  then show ?thesis
    using close_decoder_accounted assms(2) by simp
next
  case (cs_once e rint dt)
  then show ?thesis
    using decode_once_accounted [OF assms(2)] by simp
qed

section \<open>Properties\<close>

text \<open>C23. The binding neither leaks nor misuses: in any order of calls, whatever each of them returns, the
  library's live handles are exactly the encoder's and the decoder's, each once; every packet and
  frame has been given back, and no handle is used or freed that is not alive.\<close>

theorem codec_handles_accounted:
  assumes "codec_reachable (en, d, t)"
  shows "accounted t (held en d)"
  using assms
proof (induction "(en, d, t)" arbitrary: en d t rule: codec_reachable.induct)
  case cr_start
  show ?case by (simp add: accounted_def no_handles_def held_def)
next
  case (cr_step s)
  obtain en0 d0 t0 where s: "s = (en0, d0, t0)"
    by (rule prod_cases3)
  show ?case
    using codec_step_accounted [of en0 d0 t0] cr_step s by blast
qed

text \<open>What is at or above the origin along every axis.\<close>

lemma lowest_fold:
  "fold (\<lambda>(x, y, z) (a, b, c). (min a x, min b y, min c z)) ps (u :: rat, v :: rat, w :: rat) = (a, b, c) \<Longrightarrow>
     a \<le> u \<and> b \<le> v \<and> c \<le> w \<and> (\<forall>(x, y, z) \<in> set ps. a \<le> x \<and> b \<le> y \<and> c \<le> z)"
proof (induction ps arbitrary: u v w)
  case (Cons p ps)
  obtain x y z where p: "p = (x, y, z)"
    by (cases p) auto
  show ?case
    using Cons.IH [of "min u x" "min v y" "min w z"] Cons.prems by (auto simp: p)
qed simp

lemma lowest_below:
  assumes "(x, y, z) \<in> set pts" and "lowest pts = (a, b, c)"
  shows "a \<le> x \<and> b \<le> y \<and> c \<le> z"
proof -
  obtain u v w ps where p: "pts = (u, v, w) # ps"
    using assms(1) by (cases pts) auto
  from lowest_fold [of ps u v w a b c] assms show ?thesis
    by (auto simp: p lowest_def)
qed

lemma encode_above_origin:
  assumes "encode e enc c t = (Inr bytes, t')" and "q \<in> set (ca_points c)"
  shows "\<not> below_origin q (en_origin enc)"
proof -
  have "\<not> below_origin (lowest (ca_points c)) (en_origin enc)"
    using assms(1) by (auto simp: encode_def split: if_splits)
  then show ?thesis
    using lowest_below [of _ _ _ "ca_points c"] assms(2)
    by (cases q, cases "lowest (ca_points c)", cases "en_origin enc") (fastforce simp: below_origin_def)
qed

text \<open>A point as the codec gives it back: truncated to the precision.\<close>

definition quantised :: "rat \<Rightarrow> point \<Rightarrow> point" where
  "quantised p q = (case q of (x, y, z) \<Rightarrow> (of_int \<lfloor>x / p\<rfloor> * p, of_int \<lfloor>y / p\<rfloor> * p, of_int \<lfloor>z / p\<rfloor> * p))"

lemma floor_of_floor:
  assumes "0 < (k :: rat)" and "k = of_nat n"
  shows "\<lfloor>of_int \<lfloor>y\<rfloor> / k\<rfloor> = \<lfloor>y / k\<rfloor>"
proof (rule antisym)
  have "(of_int \<lfloor>y\<rfloor> :: rat) / k \<le> y / k"
    using assms(1) by (simp add: divide_right_mono)
  then show "\<lfloor>of_int \<lfloor>y\<rfloor> / k\<rfloor> \<le> \<lfloor>y / k\<rfloor>"
    by (rule floor_mono)
next
  have "of_int \<lfloor>y / k\<rfloor> * k \<le> y"
    using assms(1) by (simp add: pos_le_divide_eq [symmetric])
  then have "of_int (\<lfloor>y / k\<rfloor> * int n) \<le> y"
    by (simp add: assms(2))
  then have "\<lfloor>y / k\<rfloor> * int n \<le> \<lfloor>y\<rfloor>"
    by (simp add: le_floor_iff)
  then have "of_int \<lfloor>y / k\<rfloor> * k \<le> (of_int \<lfloor>y\<rfloor> :: rat)"
    unfolding assms(2) by (metis of_int_le_iff of_int_mult of_int_of_nat_eq)
  then show "\<lfloor>y / k\<rfloor> \<le> \<lfloor>of_int \<lfloor>y\<rfloor> / k\<rfloor>"
    using assms(1) by (simp add: le_floor_iff pos_le_divide_eq)
qed

lemma voxel_of_quantised:
  assumes "0 < p" and "voxel_size = of_nat k * p"
  shows "voxel_of (quantised p q) = voxel_of q"
proof -
  have k: "(0 :: rat) < of_nat k"
    using assms by (cases k) (auto simp: voxel_size_def)
  have "\<lfloor>of_int \<lfloor>x / p\<rfloor> * p / voxel_size\<rfloor> = \<lfloor>x / voxel_size\<rfloor>" for x
    using floor_of_floor [OF k refl, of "x / p"] assms(1) by (simp add: assms(2) mult.commute)
  then show ?thesis
    by (cases q) (simp add: voxel_of_def quantised_def)
qed

text \<open>Inside the sequence box the encoder is opened with.\<close>

definition in_seq_box :: "rat \<Rightarrow> point \<Rightarrow> point \<Rightarrow> bool" where
  "in_seq_box p origin q =
     (case (origin, q) of ((a, b, c), (x, y, z)) \<Rightarrow>
        (let w = of_nat seq_size * p in x < a + w \<and> y < b + w \<and> z < c + w))"

text \<open>The voxels of a cloud do not depend on the order of its points.\<close>

lemma voxels_of_perm:
  assumes "mset (map voxel_of ps) = mset (map voxel_of qs)"
  shows "voxels_of ps = voxels_of qs"
proof -
  have "sort (map voxel_of ps) = sort (map voxel_of qs)"
    using assms by (intro properties_for_sort) simp_all
  then show ?thesis
    by (simp add: voxels_of_def)
qed

lemma voxels_of_quantised:
  assumes "0 < p" and "voxel_size = of_nat k * p" and "mset qs = mset (map (quantised p) ps)"
  shows "voxels_of qs = voxels_of ps"
proof (rule voxels_of_perm)
  have "image_mset voxel_of (mset qs) = image_mset voxel_of (image_mset (quantised p) (mset ps))"
    using assms(3) by simp
  also have "\<dots> = image_mset voxel_of (mset ps)"
    by (simp add: voxel_of_quantised [OF assms(1,2)] multiset.map_comp comp_def)
  finally show "mset (map voxel_of qs) = mset (map voxel_of ps)"
    by simp
qed

text \<open>C16. Coding does not change what the edge makes of a cloud. The codec library is a parameter, with what
  test_gpcc.py says of it as the hypothesis: of points at or above the origin and inside the sequence
  box it gives back each one floored to the precision, in an order of its own. Then, where the
  precision divides the voxel size, a cloud the encoder took leaves the edge, once it is decoded, in
  the state its points themselves would have left it in: the same voxels, sent down and recorded.\<close>

theorem coding_keeps_voxels:
  assumes "encode e enc c t = (Inr bytes, t1)" and "en_precision enc = Some p" and "0 < p"
    and "voxel_size = of_nat k * p" and "\<forall>q \<in> set (ca_points c). in_seq_box p (en_origin enc) q"
    and "\<And>pts. (\<forall>q \<in> set pts. \<not> below_origin q (en_origin enc) \<and> in_seq_box p (en_origin enc) q) \<Longrightarrow>
      mset (codec pts) = mset (map (quantised p) pts)"
    and "te_points e' = codec (ca_points c)" and "decode e' rint Float32 d t' = (Inr out, d', t'')"
  shows "on_cloud_gpcc recv done send coded (Some out) m n
    = on_cloud_gpcc recv done send coded (Some (ca_points c)) m n"
proof -
  have "mset (te_points e') = mset (map (quantised p) (ca_points c))"
    unfolding assms(7) using encode_above_origin [OF assms(1)] assms(5) by (intro assms(6)) blast
  moreover have "out = te_points e'"
    using assms(8) by (auto simp: decode_def positions_def Let_def split: option.splits prod.splits sum.splits)
  ultimately have "voxels_of out = voxels_of (ca_points c)"
    using voxels_of_quantised [OF assms(3,4)] by simp
  then show ?thesis
    by (simp add: on_cloud_gpcc_def on_edge_cloud_def publish_result_cloud_def Let_def)
qed

section \<open>Witnesses\<close>

text \<open>A frame that does not decode, and one that does.\<close>

definition bad_frame_env :: tmc3_env where
  "bad_frame_env =
     \<lparr>te_create = 0, te_reopen = 0, te_encode = 0, te_bytes = [], te_push = - 1, te_end = 0, te_next = 0, te_info = 0,
      te_get = 0, te_points = []\<rparr>"

definition after_bad_frame :: codecs where
  "after_bad_frame =
     (case open_decoder 0 no_handles of
        (Inr h, t) \<Rightarrow> (case decode bad_frame_env (\<lambda>x. 0) Float32 (Some h) t of (res, d, t1) \<Rightarrow> (None, d, t1))
      | (Inl err, t) \<Rightarrow> (None, None, t))"

lemma after_bad_frame_reachable: "codec_reachable after_bad_frame"
proof -
  obtain h t where o: "open_decoder 0 no_handles = (Inr h, t)"
    by (simp add: open_decoder_def tm_check_def tm_new_def)
  obtain res d t1 where "decode bad_frame_env (\<lambda>x. 0) Float32 (Some h) t = (res, d, t1)"
    by (cases "decode bad_frame_env (\<lambda>x. 0) Float32 (Some h) t") auto
  then show ?thesis
    using cr_step [OF cr_step [OF cr_start cs_open_decoder [OF o]] cs_decode] by (simp add: after_bad_frame_def o)
qed

lemma after_bad_frame_state:
  "after_bad_frame = (None, Some 1, \<lparr>tm_next = 2, tm_live = [1], tm_fault = False\<rparr>)"
  by code_simp

theorem codec_handles_accounted_witness:
  "accounted \<lparr>tm_next = 2, tm_live = [1], tm_fault = False\<rparr> (held None (Some 1))"
  using codec_handles_accounted [of None "Some 1"] after_bad_frame_reachable after_bad_frame_state by simp

definition sent_cloud :: cloud_array where
  "sent_cloud = \<lparr>ca_shape = [2, 3], ca_dtype = Float32, ca_points = [(7 / 4, 1 / 3, 0), (- 1 / 3, 2, 0)]\<rparr>"

text \<open>A library that turns the cloud round.\<close>

definition turned :: "point list \<Rightarrow> point list" where
  "turned pts = rev (map (quantised (1 / 4)) pts)"

definition sending :: encoder where
  "sending = \<lparr>en_precision = Some (1 / 4), en_origin = (- 1000, - 1000, - 1000), en_handle = Some 0\<rparr>"

definition good_frame_env :: tmc3_env where
  "good_frame_env = bad_frame_env\<lparr>te_push := 0, te_points := turned (ca_points sent_cloud)\<rparr>"

definition one_live :: tmc3 where
  "one_live = \<lparr>tm_next = 1, tm_live = [0], tm_fault = False\<rparr>"

definition received :: "(codec_error + point list) \<times> decoder \<times> tmc3" where
  "received = decode good_frame_env (\<lambda>x. 0) Float32 (Some 0) one_live"

lemma sent_and_received:
  "fst (encode bad_frame_env sending sent_cloud one_live) = Inr []"
  "fst received = Inr [(- 1 / 2, 2, 0), (7 / 4, 1 / 4, 0)]"
  by code_simp+

theorem coding_keeps_voxels_witness:
  "\<forall>m n. on_cloud_gpcc 5 6 7 True (Some [(- 1 / 2, 2, 0), (7 / 4, 1 / 4, 0)]) m n
   = on_cloud_gpcc 5 6 7 True (Some [(7 / 4, 1 / 3, 0), (- 1 / 3, 2, 0)]) m n"
proof -
  have e: "encode bad_frame_env sending sent_cloud one_live
      = (Inr [], snd (encode bad_frame_env sending sent_cloud one_live))"
    "decode good_frame_env (\<lambda>x. 0) Float32 (Some 0) one_live
      = (Inr [(- 1 / 2, 2, 0), (7 / 4, 1 / 4, 0)], fst (snd received), snd (snd received))"
    using sent_and_received unfolding received_def by (metis prod.collapse)+
  show ?thesis
    using coding_keeps_voxels [OF e(1), of "1 / 4" 2 turned, OF _ _ _ _ _ _ e(2)]
    by (simp add: sending_def voxel_size_def good_frame_env_def sent_cloud_def turned_def in_seq_box_def seq_size_def)
qed

end
