(* ===== verification/Render_Sinks.thy ===== *)
theory Render_Sinks
  imports Edge_Node "HOL-Library.Word"
begin

text \<open>
  Where the renderer's clouds go (ros2/src/mec_cast_render/mec_cast_render/sinks.py): the Rerun viewer with
  its file and its cap, the ROS republisher and the null sink.

  Rerun is a parameter: \<open>rerun_api\<close> is which of its names exist and whether the page can be served.
  \<open>viewer\<close> is what the process keeps of it from run to run: the calls made, the sinks in force, the
  ports whose page is served (\<open>_PAGE_SERVED\<close>), and \<open>vw_dead\<close>, set when a server is put on a port another
  one of the set still holds, which, as the source measured, ends the stream without an exception.
\<close>

section \<open>Rerun\<close>

record rerun_api =
  ra_imports :: bool
  ra_set_sinks :: bool
  ra_names :: "string list"
  ra_set_time :: bool
  ra_page_ok :: bool

datatype dest = Grpc_Server int | Rrd_File string

datatype rr_call = Rr_Init string | Rr_Save string | Rr_Set_Sinks "dest list" | Rr_Serve_Page int string
  | Rr_Set_Time int | Rr_Set_Time_Sequence int | Rr_Cloud "point list" "(8 word \<times> 8 word \<times> 8 word) list"
  | Rr_Scalar string rat

record viewer =
  vw_calls :: "rr_call list"
  vw_sinks :: "dest list"
  vw_pages :: "int list"
  vw_dead :: bool

definition new_viewer :: viewer where
  "new_viewer = \<lparr>vw_calls = [], vw_sinks = [], vw_pages = [], vw_dead = False\<rparr>"

definition rr_log :: "rr_call list \<Rightarrow> viewer \<Rightarrow> viewer" where
  "rr_log cs v = v\<lparr>vw_calls := vw_calls v @ cs\<rparr>"

definition servers :: "dest list \<Rightarrow> int list" where
  "servers ds = concat (map (\<lambda>d. case d of Grpc_Server p \<Rightarrow> [p] | Rrd_File f \<Rightarrow> []) ds)"

text \<open>\<open>set_sinks\<close> replaces the set.\<close>

definition set_sinks :: "dest list \<Rightarrow> viewer \<Rightarrow> viewer" where
  "set_sinks ds v =
     (rr_log [Rr_Set_Sinks ds] v)
       \<lparr>vw_sinks := ds, vw_dead := vw_dead v \<or> set (servers ds) \<inter> set (servers (vw_sinks v)) \<noteq> {}\<rparr>"

section \<open>The Rerun sink\<close>

text \<open>No file is the empty path; \<open>rs_page\<close> is the stream's address and the page's, once served.\<close>

record rerun_sink =
  rs_host :: string
  rs_rrd :: string
  rs_serving :: bool
  rs_grpc :: int
  rs_max_bytes :: int
  rs_capped :: bool
  rs_frames :: nat
  rs_page :: "(string \<times> string) option"

definition missing_names :: "rerun_api \<Rightarrow> string list" where
  "missing_names api =
     filter (\<lambda>n. n \<notin> set (ra_names api)) [''GrpcServerSink'', ''FileSink'', ''serve_web_viewer'']"

definition grpc_address :: "string \<Rightarrow> int \<Rightarrow> string" where
  "grpc_address host port = ''rerun+http://'' @ host @ '':'' @ dec_int port @ ''/proxy''"

definition page_address :: "string \<Rightarrow> int \<Rightarrow> int \<Rightarrow> string" where
  "page_address host web grpc =
     ''http://'' @ host @ '':'' @ dec_int web @ ''/?url=rerun%2Bhttp://'' @ host @ '':'' @ dec_int grpc @ ''/proxy''"

definition serve_page ::
  "rerun_api \<Rightarrow> string \<Rightarrow> int \<Rightarrow> int \<Rightarrow> viewer \<Rightarrow> (string + string \<times> string) \<times> viewer" where
  "serve_page api host web grpc v =
     (let pair = (grpc_address host grpc, page_address host web grpc)
      in if web \<in> set (vw_pages v) then (Inr pair, v)
         else if \<not> ra_page_ok api then (Inl ''Failed to create server'', v)
         else (Inr pair, (rr_log [Rr_Serve_Page web (grpc_address host grpc)] v)\<lparr>vw_pages := web # vw_pages v\<rparr>))"

definition install_sinks ::
  "rerun_api \<Rightarrow> bool \<Rightarrow> string \<Rightarrow> int \<Rightarrow> int \<Rightarrow> string \<Rightarrow> viewer \<Rightarrow>
   (string + (string \<times> string) option) \<times> viewer" where
  "install_sinks api serve host web grpc rrd v =
     (if \<not> ra_set_sinks api then (Inr None, if rrd = [] then v else rr_log [Rr_Save rrd] v)
      else if serve \<and> missing_names api \<noteq> []
      then (Inl (''rerun lacks '' @ join '', '' (missing_names api)), v)
      else if rrd \<noteq> [] \<and> ''FileSink'' \<notin> set (ra_names api)
      then (Inl ''module rerun has no attribute FileSink'', v)
      else
        (let ds = (if serve then [Grpc_Server grpc] else []) @ (if rrd = [] then [] else [Rrd_File rrd]);
             v1 = (if ds = [] then v else set_sinks ds v)
         in if serve then map_prod (map_sum id Some) id (serve_page api host web grpc v1) else (Inr None, v1)))"

text \<open>\<open>max_mb\<close>: zero is no cap.\<close>

definition open_rerun ::
  "rerun_api \<Rightarrow> string \<Rightarrow> bool \<Rightarrow> int \<Rightarrow> int \<Rightarrow> string \<Rightarrow> string \<Rightarrow> rat \<Rightarrow> viewer \<Rightarrow> (string + rerun_sink) \<times> viewer" where
  "open_rerun api run serve web grpc host rrd max_mb v =
     (if \<not> ra_imports api then (Inl ''sink=rerun needs the rerun-sdk package'', v)
      else
        (case install_sinks api serve host web grpc rrd (rr_log [Rr_Init run] v) of
           (Inl e, v1) \<Rightarrow> (Inl e, v1)
         | (Inr page, v1) \<Rightarrow>
             (Inr \<lparr>rs_host = host, rs_rrd = rrd, rs_serving = serve, rs_grpc = grpc,
                   rs_max_bytes = trunc_rat (max_mb * 1000000), rs_capped = False, rs_frames = 0,
                   rs_page = page\<rparr>, v1)))"

text \<open>\<open>bytes\<close>: what the file system says of the file, \<open>None\<close> for an \<open>OSError\<close>.\<close>

definition over_cap :: "int option \<Rightarrow> rerun_sink \<Rightarrow> bool \<times> rerun_sink" where
  "over_cap bytes r =
     (if rs_max_bytes r = 0 \<or> rs_capped r \<or> rs_rrd r = [] then (rs_capped r, r)
      else if rs_frames r + 1 < 50 then (False, r\<lparr>rs_frames := rs_frames r + 1\<rparr>)
      else
        (let r1 = r\<lparr>rs_frames := 0\<rparr>
         in case bytes of
              None \<Rightarrow> (False, r1)
            | Some s \<Rightarrow> if s < rs_max_bytes r then (False, r1) else (True, r1\<lparr>rs_capped := True\<rparr>)))"

section \<open>Colours\<close>

definition heights :: "point list \<Rightarrow> rat list" where
  "heights pts = map (\<lambda>(x, y, z). z) pts"

text \<open>\<open>((z - z.min()) / range_z * 255).astype(np.uint8)\<close>, and the colours of a cloud.\<close>

definition shade :: "rat \<Rightarrow> rat \<Rightarrow> rat \<Rightarrow> 8 word" where
  "shade low range_z z = word_of_int (trunc_rat ((z - low) / range_z * 255))"

definition colours :: "point list \<Rightarrow> (8 word \<times> 8 word \<times> 8 word) list" where
  "colours pts =
     (let zs = heights pts; low = Min (set zs); d = Max (set zs) - low; range_z = (if d = 0 then 1 else d)
      in map (\<lambda>z. (shade low range_z z, 128, 255 - shade low range_z z)) zs)"

section \<open>Drawing\<close>

definition set_frame :: "rerun_api \<Rightarrow> int \<Rightarrow> rr_call" where
  "set_frame api seq = (if ra_set_time api then Rr_Set_Time seq else Rr_Set_Time_Sequence seq)"

definition cloud_calls :: "point list \<Rightarrow> (string \<Rightarrow> int option) \<Rightarrow> rr_call list" where
  "cloud_calls pts meta =
     (if pts = [] then [Rr_Cloud [] []]
      else Rr_Cloud pts (colours pts)
           # concat (map (\<lambda>key. case meta key of
               None \<Rightarrow> []
             | Some n \<Rightarrow> if n = 0 then [] else [Rr_Scalar (''metrics/'' @ key) (of_int n / 1000000)])
               [''e2e_ns'', ''network_ns'']))"

text \<open>\<open>False\<close>: the draw raised, on a Rerun that has no \<open>set_sinks\<close>.\<close>

definition draw_rerun ::
  "rerun_api \<Rightarrow> int option \<Rightarrow> int \<Rightarrow> point list \<Rightarrow> (string \<Rightarrow> int option) \<Rightarrow> rerun_sink \<Rightarrow> viewer \<Rightarrow>
   bool \<times> rerun_sink \<times> viewer" where
  "draw_rerun api bytes seq pts meta r v =
     (case over_cap bytes r of
        (over, r1) \<Rightarrow>
          (let shed = over \<and> rs_rrd r1 \<noteq> []; r2 = (if shed then r1\<lparr>rs_rrd := []\<rparr> else r1);
               out = set_frame api seq # cloud_calls pts meta
           in if shed \<and> \<not> rs_serving r1
              then (if ra_set_sinks api then (True, r2, rr_log out (set_sinks [] v)) else (False, r2, v))
              else (True, r2, rr_log out v)))"

definition close_rerun :: "rerun_api \<Rightarrow> rerun_sink \<Rightarrow> viewer \<Rightarrow> viewer" where
  "close_rerun api r v = (if rs_serving r \<and> ra_set_sinks api then set_sinks [] v else v)"

section \<open>The ROS sink\<close>

record cloud2 =
  c2_stamp :: int
  c2_frame :: string
  c2_height :: nat
  c2_width :: nat
  c2_fields :: "(string \<times> nat) list"
  c2_point_step :: nat
  c2_row_step :: nat
  c2_data :: "8 word list"

text \<open>\<open>f32\<close>: the four bytes of a float.\<close>

definition point_bytes :: "(rat \<Rightarrow> 8 word list) \<Rightarrow> point \<Rightarrow> 8 word list" where
  "point_bytes f32 p = (case p of (x, y, z) \<Rightarrow> f32 x @ f32 y @ f32 z)"

definition make_pointcloud2 :: "(rat \<Rightarrow> 8 word list) \<Rightarrow> point list \<Rightarrow> int \<Rightarrow> string \<Rightarrow> cloud2" where
  "make_pointcloud2 f32 pts stamp frame =
     \<lparr>c2_stamp = stamp, c2_frame = frame, c2_height = 1, c2_width = length pts,
      c2_fields = [(''x'', 0), (''y'', 4), (''z'', 8)], c2_point_step = 12, c2_row_step = 12 * length pts,
      c2_data = concat (map (point_bytes f32) pts)\<rparr>"

record ros_sink =
  ro_pub :: "string option"
  ro_sent :: "cloud2 list"

definition open_ros :: "string \<Rightarrow> ros_sink" where
  "open_ros topic = \<lparr>ro_pub = Some topic, ro_sent = []\<rparr>"

definition draw_ros :: "(rat \<Rightarrow> 8 word list) \<Rightarrow> int \<Rightarrow> point list \<Rightarrow> ros_sink \<Rightarrow> bool \<times> ros_sink" where
  "draw_ros f32 now pts s =
     (if ro_pub s = None then (False, s)
      else (True, s\<lparr>ro_sent := ro_sent s @ [make_pointcloud2 f32 pts now ''mec_cast_render'']\<rparr>))"

definition close_ros :: "ros_sink \<Rightarrow> ros_sink" where
  "close_ros s = s\<lparr>ro_pub := None\<rparr>"

section \<open>The sinks\<close>

datatype sink = Null_Sink | Rerun_Sink rerun_sink | Ros_Sink ros_sink

definition build_sink ::
  "rerun_api \<Rightarrow> string \<Rightarrow> string \<Rightarrow> bool \<Rightarrow> int \<Rightarrow> int \<Rightarrow> string \<Rightarrow> string \<Rightarrow> rat \<Rightarrow> viewer \<Rightarrow>
   (string + sink) \<times> viewer" where
  "build_sink api kind run serve web grpc host rrd max_mb v =
     (if kind = ''null'' then (Inr Null_Sink, v)
      else if kind = ''rerun''
      then map_prod (map_sum id Rerun_Sink) id (open_rerun api run serve web grpc host rrd max_mb v)
      else if kind = ''ros'' then (Inr (Ros_Sink (open_ros ''mec_cast/render/cloud'')), v)
      else (Inl (''unknown sink '' @ repr_str kind @ '', expected one of ('' @ join '', '' (map repr_str [''null'', ''rerun'', ''ros'']) @ '')''), v))"

definition draw_sink ::
  "rerun_api \<Rightarrow> (rat \<Rightarrow> 8 word list) \<Rightarrow> int option \<Rightarrow> int \<Rightarrow> int \<Rightarrow> point list \<Rightarrow> (string \<Rightarrow> int option) \<Rightarrow>
   sink \<Rightarrow> viewer \<Rightarrow> bool \<times> sink \<times> viewer" where
  "draw_sink api f32 bytes now seq pts meta k v =
     (case k of
        Null_Sink \<Rightarrow> (True, k, v)
      | Rerun_Sink r \<Rightarrow> map_prod id (map_prod Rerun_Sink id) (draw_rerun api bytes seq pts meta r v)
      | Ros_Sink s \<Rightarrow> (case draw_ros f32 now pts s of (ok, s1) \<Rightarrow> (ok, Ros_Sink s1, v)))"

definition close_sink :: "rerun_api \<Rightarrow> sink \<Rightarrow> viewer \<Rightarrow> sink \<times> viewer" where
  "close_sink api k v =
     (case k of
        Null_Sink \<Rightarrow> (k, v)
      | Rerun_Sink r \<Rightarrow> (k, close_rerun api r v)
      | Ros_Sink s \<Rightarrow> (Ros_Sink (close_ros s), v))"

end
