(* ===== verification/Sink_Props.thy ===== *)
theory Sink_Props
  imports Render_Sinks
begin

text \<open>
  What the renderer's sinks keep to (ros2/src/mec_cast_render/mec_cast_render/sinks.py): one page per
  port and process, a stream that stays alive from run to run, colours in height order, and the layout
  of the republished cloud.
\<close>

section \<open>The sinks of a process, one after the other\<close>

inductive sink_step :: "rerun_api \<Rightarrow> rerun_sink option \<times> viewer \<Rightarrow> rerun_sink option \<times> viewer \<Rightarrow> bool" for api where
  ss_open: "open_rerun api run serve web grpc host rrd max_mb v = (Inr r, v') \<Longrightarrow> sink_step api (None, v) (Some r, v')"
| ss_failed: "open_rerun api run serve web grpc host rrd max_mb v = (Inl err, v') \<Longrightarrow> sink_step api (None, v) (None, v')"
| ss_draw: "draw_rerun api bytes seq pts meta r v = (ok, r', v') \<Longrightarrow> sink_step api (Some r, v) (Some r', v')"
| ss_close: "sink_step api (Some r, v) (None, close_rerun api r v)"

inductive sink_reachable :: "rerun_api \<Rightarrow> rerun_sink option \<times> viewer \<Rightarrow> bool" for api where
  sr_start: "sink_reachable api (None, new_viewer)"
| sr_step: "sink_reachable api s \<Longrightarrow> sink_step api s s' \<Longrightarrow> sink_reachable api s'"

lemma rr_log_keeps [simp]:
  "vw_sinks (rr_log cs v) = vw_sinks v" "vw_pages (rr_log cs v) = vw_pages v" "vw_dead (rr_log cs v) = vw_dead v"
  "vw_calls (rr_log cs v) = vw_calls v @ cs"
  by (simp_all add: rr_log_def)

lemma set_sinks_effect [simp]:
  "vw_sinks (set_sinks ds v) = ds" "vw_pages (set_sinks ds v) = vw_pages v"
  "vw_calls (set_sinks ds v) = vw_calls v @ [Rr_Set_Sinks ds]"
  "vw_dead (set_sinks ds v) \<longleftrightarrow> vw_dead v \<or> set (servers ds) \<inter> set (servers (vw_sinks v)) \<noteq> {}"
  by (simp_all add: set_sinks_def)

lemma servers_simps [simp]:
  "servers [] = []" "servers (Grpc_Server p # ds) = p # servers ds" "servers (Rrd_File f # ds) = servers ds"
  "servers (ds @ es) = servers ds @ servers es"
  by (simp_all add: servers_def)

lemma over_cap_keeps:
  "rs_serving (snd (over_cap bytes r)) = rs_serving r" "rs_grpc (snd (over_cap bytes r)) = rs_grpc r"
  "rs_rrd (snd (over_cap bytes r)) = rs_rrd r"
  by (simp_all add: over_cap_def Let_def split: option.splits)

section \<open>The page\<close>

definition served_pages :: "rr_call list \<Rightarrow> int list" where
  "served_pages cs = concat (map (\<lambda>c. case c of Rr_Serve_Page w u \<Rightarrow> [w] | _ \<Rightarrow> []) cs)"

lemma served_pages_simps [simp]:
  "served_pages [] = []" "served_pages (xs @ ys) = served_pages xs @ served_pages ys"
  "served_pages (Rr_Serve_Page w u # cs) = w # served_pages cs" "served_pages (Rr_Init t # cs) = served_pages cs"
  "served_pages (Rr_Save t # cs) = served_pages cs" "served_pages (Rr_Set_Sinks ds # cs) = served_pages cs"
  by (simp_all add: served_pages_def)

lemma drawing_serves_nothing: "served_pages (set_frame api seq # cloud_calls pts meta) = []"
  by (auto simp: served_pages_def set_frame_def cloud_calls_def split: option.splits)

definition pages_once :: "viewer \<Rightarrow> bool" where
  "pages_once v \<longleftrightarrow> distinct (served_pages (vw_calls v)) \<and> set (served_pages (vw_calls v)) = set (vw_pages v)"

lemma pages_once_log: "served_pages cs = [] \<Longrightarrow> pages_once v \<Longrightarrow> pages_once (rr_log cs v)"
  by (simp add: pages_once_def)

lemma pages_once_set_sinks: "pages_once v \<Longrightarrow> pages_once (set_sinks ds v)"
  by (simp add: pages_once_def)

lemma pages_once_serve: "serve_page api host web grpc v = (res, v') \<Longrightarrow> pages_once v \<Longrightarrow> pages_once v'"
  by (auto simp: serve_page_def Let_def pages_once_def split: if_splits)

lemma pages_once_install:
  assumes "install_sinks api serve host web grpc rrd v = (res, v')" and "pages_once v"
  shows "pages_once v'"
proof -
  define ds where "ds = (if serve then [Grpc_Server grpc] else []) @ (if rrd = [] then [] else [Rrd_File rrd])"
  define v1 where "v1 = (if ds = [] then v else set_sinks ds v)"
  have v1: "pages_once v1"
    using assms(2) pages_once_set_sinks by (simp add: v1_def)
  obtain res' v2 where s: "serve_page api host web grpc v1 = (res', v2)"
    by (cases "serve_page api host web grpc v1")
  have "pages_once (rr_log [Rr_Save rrd] v)"
    using assms(2) by (simp add: pages_once_log)
  then show ?thesis
    using assms v1 pages_once_serve [OF s v1] s
    unfolding install_sinks_def Let_def ds_def [symmetric] v1_def [symmetric] by (auto split: if_splits)
qed

lemma pages_once_open:
  assumes "open_rerun api run serve web grpc host rrd max_mb v = (res, v')" and "pages_once v"
  shows "pages_once v'"
proof -
  have "pages_once (rr_log [Rr_Init run] v)"
    using assms(2) by (simp add: pages_once_log)
  then show ?thesis
    using assms pages_once_install by (auto simp: open_rerun_def split: if_splits prod.splits sum.splits)
qed

lemma pages_once_draw:
  assumes "draw_rerun api bytes seq pts meta r v = (ok, r', v')" and "pages_once v"
  shows "pages_once v'"
proof -
  have "pages_once (rr_log (set_frame api seq # cloud_calls pts meta) w)" if "pages_once w" for w
    using that drawing_serves_nothing by (rule pages_once_log [rotated])
  then show ?thesis
    using assms pages_once_set_sinks by (auto simp: draw_rerun_def Let_def split: prod.splits if_splits)
qed

text \<open>The page of a port is served once in the life of a process, however many runs draw through it: the
  second call would raise and end the run's start.\<close>

theorem page_served_once:
  assumes "sink_reachable api (cur, v)"
  shows "distinct (served_pages (vw_calls v))"
proof -
  have "sink_reachable api s \<Longrightarrow> pages_once (snd s)" for s
  proof (induction rule: sink_reachable.induct)
    case sr_start
    show ?case by (simp add: pages_once_def new_viewer_def)
  next
    case (sr_step s s')
    from sr_step.hyps(2) sr_step.IH show ?case
      by (cases rule: sink_step.cases)
         (auto simp: close_rerun_def pages_once_set_sinks intro: pages_once_open pages_once_draw)
  qed
  from this [OF assms] show ?thesis
    by (simp add: pages_once_def)
qed

section \<open>The stream\<close>

text \<open>The server in force is the open sink's, if it serves.\<close>

definition stream_of :: "rerun_sink option \<Rightarrow> int list" where
  "stream_of cur = (case cur of None \<Rightarrow> [] | Some r \<Rightarrow> if rs_serving r then [rs_grpc r] else [])"

lemma open_stream:
  assumes "open_rerun api run serve web grpc host rrd max_mb v = (res, v')"
    and "ra_set_sinks api" and "ra_page_ok api" and "\<not> vw_dead v" and "servers (vw_sinks v) = []"
  shows "\<not> vw_dead v' \<and> servers (vw_sinks v') = stream_of (case res of Inl e \<Rightarrow> None | Inr r \<Rightarrow> Some r)"
  using assms
  by (auto simp: open_rerun_def install_sinks_def serve_page_def stream_of_def Let_def
      split: if_splits prod.splits sum.splits)

lemma draw_stream:
  assumes "draw_rerun api bytes seq pts meta r v = (ok, r', v')" and "\<not> vw_dead v"
    and "servers (vw_sinks v) = stream_of (Some r)"
  shows "\<not> vw_dead v' \<and> servers (vw_sinks v') = stream_of (Some r')"
  using assms over_cap_keeps [of bytes r]
  by (auto simp: draw_rerun_def stream_of_def Let_def split: prod.splits if_splits)

text \<open>C10. A viewer's stream outlives the runs: on a Rerun that composes sinks and can serve its page, in any
  sequence of runs one after the other, no server is ever put on a port that is still held, and while
  a sink that serves is open, whatever it draws and whatever the cap of its file, its server is the
  one in force.\<close>

theorem stream_stays_alive:
  assumes "sink_reachable api (cur, v)" and "ra_set_sinks api" and "ra_page_ok api"
  shows "\<not> vw_dead v \<and> servers (vw_sinks v) = stream_of cur"
proof -
  have "sink_reachable api s \<Longrightarrow> \<not> vw_dead (snd s) \<and> servers (vw_sinks (snd s)) = stream_of (fst s)" for s
  proof (induction rule: sink_reachable.induct)
    case sr_start
    show ?case by (simp add: new_viewer_def stream_of_def)
  next
    case (sr_step s s')
    from sr_step.hyps(2) show ?case
    proof (cases rule: sink_step.cases)
      case (ss_open run serve web grpc host rrd max_mb v r v')
      then show ?thesis
        using open_stream [OF ss_open(3) assms(2,3)] sr_step.IH by (simp add: stream_of_def)
    next
      case (ss_failed run serve web grpc host rrd max_mb v err v')
      then show ?thesis
        using open_stream [OF ss_failed(3) assms(2,3)] sr_step.IH by (simp add: stream_of_def)
    next
      case (ss_draw bytes seq pts meta r v ok r' v')
      then show ?thesis
        using draw_stream [OF ss_draw(3)] sr_step.IH by simp
    next
      case (ss_close r v)
      then show ?thesis
        using sr_step.IH assms(2) by (auto simp: close_rerun_def stream_of_def split: if_splits)
    qed
  qed
  from this [OF assms(1)] show ?thesis by simp
qed

lemma no_missing:
  "missing_names (api\<lparr>ra_page_ok := b\<rparr>) = missing_names api"
  "missing_names api = [] \<Longrightarrow> ''FileSink'' \<in> set (ra_names api)"
  by (simp_all add: missing_names_def split: if_splits)

text \<open>A page that cannot be served costs the next run its stream: the server is up when the page fails,
  the sink that holds it is lost with the exception, and the next sink on its port is served by a
  server that could not start, without an error.\<close>

theorem failed_page_kills_next_stream:
  assumes "ra_imports api" and "ra_set_sinks api" and "missing_names api = []"
    and "web \<notin> set (vw_pages v)"
    and "open_rerun (api\<lparr>ra_page_ok := False\<rparr>) run True web grpc host rrd max_mb v = (res, v1)"
    and "open_rerun (api\<lparr>ra_page_ok := True\<rparr>) run2 True web grpc host rrd2 max_mb v1 = (res2, v2)"
  shows "(\<exists>err. res = Inl err) \<and> (\<exists>r. res2 = Inr r) \<and> vw_dead v2"
proof -
  have "(\<exists>err. res = Inl err) \<and> servers (vw_sinks v1) = [grpc] \<and> vw_pages v1 = vw_pages v"
    using assms(1-5) no_missing by (auto simp: open_rerun_def install_sinks_def serve_page_def Let_def)
  then show ?thesis
    using assms(1-4,6) no_missing
    by (auto simp: open_rerun_def install_sinks_def serve_page_def Let_def)
qed

section \<open>Colours\<close>

lemma trunc_rat_nonneg: "0 \<le> r \<Longrightarrow> trunc_rat r = \<lfloor>r\<rfloor>"
  by (simp add: trunc_rat_def)

lemma shade_value:
  assumes "low \<le> z" and "z - low \<le> w" and "0 < w"
  shows "uint (shade low w z) = \<lfloor>(z - low) / w * 255\<rfloor>"
proof -
  let ?q = "(z - low) / w * 255"
  have q: "0 \<le> ?q" "?q \<le> 255"
    using assms by (simp_all add: divide_le_eq)
  then have f: "0 \<le> \<lfloor>?q\<rfloor>" "\<lfloor>?q\<rfloor> < 256"
    using floor_mono [of ?q 255] by simp_all
  have "uint (shade low w z) = \<lfloor>?q\<rfloor> mod 256"
    unfolding shade_def trunc_rat_nonneg [OF q(1)] by (simp add: uint_word_of_int)
  then show ?thesis
    using f by simp
qed

lemma heights_nth: "i < length pts \<Longrightarrow> heights pts ! i = snd (snd (pts ! i))"
  by (simp add: heights_def case_prod_beta)

lemma inverted_shade: "a \<le> b \<Longrightarrow> 255 - b \<le> 255 - (a :: 8 word)"
proof -
  assume le: "a \<le> b"
  have u: "unat (255 - x) = 255 - unat x" for x :: "8 word"
  proof -
    have "x \<le> 255"
    proof -
      have "(255 :: 8 word) = - 1"
        by simp
      then show ?thesis
        by (metis word_n1_ge)
    qed
    then show ?thesis
      by (simp add: unat_sub)
  qed
  show ?thesis
    using le by (simp add: word_le_nat_alt u)
qed
text \<open>Colours follow height, and no byte wraps: a point not higher than another has no more red and no
  less blue than it, in the eight bits the colours are made of.\<close>

theorem colours_follow_height:
  assumes "i < length pts" and "j < length pts" and "snd (snd (pts ! i)) \<le> snd (snd (pts ! j))"
  shows "fst (colours pts ! i) \<le> fst (colours pts ! j) \<and> snd (snd (colours pts ! j)) \<le> snd (snd (colours pts ! i))"
proof -
  let ?zs = "heights pts"
  let ?low = "Min (set ?zs)" and ?d = "Max (set ?zs) - Min (set ?zs)"
  let ?w = "if ?d = 0 then 1 else ?d"
  have len: "length ?zs = length pts"
    by (simp add: heights_def)
  have z: "?low \<le> ?zs ! k \<and> ?zs ! k - ?low \<le> ?w \<and> 0 < ?w" if "k < length pts" for k
  proof -
    have "?low \<le> ?zs ! k" "?zs ! k \<le> Max (set ?zs)"
      using that len by simp_all
    then show ?thesis by auto
  qed
  have u: "uint (shade ?low ?w (?zs ! k)) = \<lfloor>(?zs ! k - ?low) / ?w * 255\<rfloor>" if "k < length pts" for k
    using shade_value z [OF that] by blast
  have "(?zs ! i - ?low) / ?w * 255 \<le> (?zs ! j - ?low) / ?w * 255"
    using assms z [OF assms(1)] by (intro mult_right_mono divide_right_mono) (auto simp: heights_nth)
  then have le: "shade ?low ?w (?zs ! i) \<le> shade ?low ?w (?zs ! j)"
    unfolding word_le_def u [OF assms(1)] u [OF assms(2)] by (rule floor_mono)
  have c: "colours pts ! k = (shade ?low ?w (?zs ! k), 128, 255 - shade ?low ?w (?zs ! k))" if "k < length pts" for k
    using that len by (simp add: colours_def Let_def)
  show ?thesis
    using le inverted_shade [OF le] c [OF assms(1)] c [OF assms(2)] by simp
qed

section \<open>The layout of a cloud\<close>

definition field_bytes :: "cloud2 \<Rightarrow> nat \<Rightarrow> string \<Rightarrow> 8 word list option" where
  "field_bytes c i name =
     map_option (\<lambda>off. take 4 (drop (i * c2_point_step c + off) (c2_data c))) (map_of (c2_fields c) name)"

lemma drop_concat:
  assumes "\<And>x. x \<in> set xs \<Longrightarrow> length (f x) = n" and "i < length xs"
  shows "drop (i * n) (concat (map f xs)) = f (xs ! i) @ concat (map f (drop (Suc i) xs))"
  using assms
proof (induction xs arbitrary: i)
  case (Cons x xs)
  then show ?case
    by (cases i) auto
qed simp

text \<open>A viewer that reads the republished cloud by its own description finds the points: at every point's
  step and every field's offset stand the four bytes of that coordinate.\<close>

theorem cloud_layout_reads_back:
  assumes "\<And>x. length (f32 x) = 4" and "i < length pts" and "pts ! i = (x, y, z)"
  shows "field_bytes (make_pointcloud2 f32 pts stamp frame) i ''x'' = Some (f32 x)
    \<and> field_bytes (make_pointcloud2 f32 pts stamp frame) i ''y'' = Some (f32 y)
    \<and> field_bytes (make_pointcloud2 f32 pts stamp frame) i ''z'' = Some (f32 z)
    \<and> length (c2_data (make_pointcloud2 f32 pts stamp frame)) = c2_height (make_pointcloud2 f32 pts stamp frame)
        * c2_row_step (make_pointcloud2 f32 pts stamp frame)"
proof -
  have n: "length (point_bytes f32 p) = 12" for p
    by (cases p) (simp add: point_bytes_def assms(1))
  have d: "drop (i * 12 + k) (concat (map (point_bytes f32) pts))
      = drop k (f32 x @ f32 y @ f32 z @ concat (map (point_bytes f32) (drop (Suc i) pts)))" for k
    using drop_concat [of pts "point_bytes f32" 12 i] n assms(2,3)
    by (simp add: point_bytes_def add.commute flip: drop_drop)
  have "length (concat (map (point_bytes f32) pts)) = 12 * length pts"
    by (induction pts) (simp_all add: n)
  then show ?thesis
    by (simp add: field_bytes_def make_pointcloud2_def d assms(1) d [of 0, simplified])
qed

section \<open>Witnesses\<close>

definition full_api :: rerun_api where
  "full_api =
     \<lparr>ra_imports = True, ra_set_sinks = True, ra_names = [''GrpcServerSink'', ''FileSink'', ''serve_web_viewer''],
      ra_set_time = True, ra_page_ok = True\<rparr>"

definition opened :: "viewer \<Rightarrow> (string + rerun_sink) \<times> viewer" where
  "opened v = open_rerun full_api ''r'' True 9 7 ''h'' ''f'' 0 v"

definition two_runs :: "(string + rerun_sink) \<times> viewer" where
  "two_runs =
     (case opened new_viewer of
        (Inl e, v) \<Rightarrow> (Inl e, v)
      | (Inr r, v) \<Rightarrow> opened (close_rerun full_api r v))"

lemma opened_Inr: "\<exists>r v'. opened v = (Inr r, v')"
  by (simp add: opened_def open_rerun_def install_sinks_def serve_page_def missing_names_def full_api_def Let_def)

lemma two_runs_reachable:
  "\<exists>r. fst two_runs = Inr r \<and> sink_reachable full_api (Some r, snd two_runs)"
proof -
  obtain r v where 1: "opened new_viewer = (Inr r, v)"
    using opened_Inr by blast
  obtain r2 v2 where 2: "opened (close_rerun full_api r v) = (Inr r2, v2)"
    using opened_Inr by blast
  have "sink_reachable full_api (Some r2, v2)"
    by (rule sr_step [OF sr_step [OF sr_step [OF sr_start ss_open [OF 1 [unfolded opened_def]]] ss_close]
          ss_open [OF 2 [unfolded opened_def]]])
  then show ?thesis
    by (simp add: two_runs_def 1 2)
qed

lemma two_runs_calls: "served_pages (vw_calls (snd two_runs)) = [9]"
  by (simp add: two_runs_def opened_def open_rerun_def install_sinks_def serve_page_def missing_names_def full_api_def
      close_rerun_def new_viewer_def Let_def)

theorem page_served_once_witness:
  "distinct (served_pages (vw_calls (snd two_runs))) \<and> served_pages (vw_calls (snd two_runs)) = [9]"
  using page_served_once two_runs_reachable two_runs_calls by blast

theorem stream_stays_alive_witness:
  "\<exists>r. fst two_runs = Inr r \<and> \<not> vw_dead (snd two_runs) \<and> servers (vw_sinks (snd two_runs)) = stream_of (Some r)"
proof -
  have "ra_set_sinks full_api" "ra_page_ok full_api"
    by (simp_all add: full_api_def)
  then show ?thesis
    using stream_stays_alive two_runs_reachable by blast
qed

theorem failed_page_kills_next_stream_witness:
  "\<exists>res v1 res2 v2.
     open_rerun (full_api\<lparr>ra_page_ok := False\<rparr>) ''r'' True 9 7 ''h'' [] 0 new_viewer = (res, v1)
     \<and> open_rerun (full_api\<lparr>ra_page_ok := True\<rparr>) ''s'' True 9 7 ''h'' [] 0 v1 = (res2, v2) \<and> vw_dead v2"
proof -
  obtain res v1 where 1: "open_rerun (full_api\<lparr>ra_page_ok := False\<rparr>) ''r'' True 9 7 ''h'' [] 0 new_viewer = (res, v1)"
    by fastforce
  obtain res2 v2 where 2: "open_rerun (full_api\<lparr>ra_page_ok := True\<rparr>) ''s'' True 9 7 ''h'' [] 0 v1 = (res2, v2)"
    by fastforce
  have "vw_dead v2"
    using failed_page_kills_next_stream [OF _ _ _ _ 1 2]
    by (simp add: full_api_def missing_names_def new_viewer_def)
  then show ?thesis
    using 1 2 by blast
qed

theorem colours_follow_height_witness:
  "fst (colours [(0, 0, 1), (0, 0, 3)] ! 0) \<le> fst (colours [(0, 0, 1), (0, 0, 3)] ! 1)"
  using colours_follow_height [of 0 "[(0, 0, 1), (0, 0, 3)]" 1] by simp

theorem cloud_layout_reads_back_witness:
  "field_bytes (make_pointcloud2 (\<lambda>v. [word_of_int \<lfloor>v\<rfloor>, 0, 0, 0]) [(5, 6, 7), (1, 2, 3)] 0 ''m'') 1 ''y''
   = Some [2, 0, 0, 0]"
  using cloud_layout_reads_back [of "\<lambda>v. [word_of_int \<lfloor>v\<rfloor>, 0, 0, 0]" 1 "[(5, 6, 7), (1, 2, 3)]" 1 2 3 0 "''m''"]
  by simp

end
