(* ===== verification/Mat_File.thy ===== *)
theory Mat_File
  imports Py_Prelude "HOL-Library.Word"
begin

text \<open>
  The reader of MATLAB v5 files of the dataset tool (tools/lidar_dataset.py): the data elements of a
  buffer, numeric arrays, matrices and structs, and a file's variables, with every exception.

  A text is the list of its code points. A float is its bit pattern: it is only narrowed to 32 bits
  and truncated to an integer. zlib is a parameter: \<open>None\<close> where it raises, else what it inflates and
  whether the stream's end was seen.
\<close>

section \<open>Bytes\<close>

type_synonym bytes = "8 word list"

fun le_nat :: "bytes \<Rightarrow> nat" where
  "le_nat [] = 0"
| "le_nat (b # bs) = unat b + 256 * le_nat bs"

definition le_int :: "nat \<Rightarrow> bytes \<Rightarrow> int" where
  "le_int w bs = (let n = le_nat bs in if 2 ^ (8 * w) \<le> 2 * n then int n - 2 ^ (8 * w) else int n)"

fun le_bytes :: "nat \<Rightarrow> nat \<Rightarrow> bytes" where
  "le_bytes 0 n = []"
| "le_bytes (Suc w) n = word_of_nat n # le_bytes w (n div 256)"

text \<open>\<open>b[i : i + n]\<close>: short where the buffer ends.\<close>

definition part_of :: "bytes \<Rightarrow> nat \<Rightarrow> nat \<Rightarrow> bytes" where
  "part_of b i n = take n (drop i b)"

section \<open>Data elements\<close>

function elements_from :: "bytes \<Rightarrow> nat \<Rightarrow> (nat \<times> bytes) list" where
  "elements_from buf i =
     (if length buf < i + 8 then []
      else
        (let t = le_nat (part_of buf i 4); n = le_nat (part_of buf (i + 4) 4)
         in if t div 65536 \<noteq> 0
            then (t mod 65536, part_of buf (i + 4) (t div 65536)) # elements_from buf (i + 8)
            else (t, part_of buf (i + 8) n) # elements_from buf (i + 8 + (n + 7) div 8 * 8)))"
  by pat_completeness auto

termination
  by (relation "measure (\<lambda>(buf, i). length buf - i)") auto

declare elements_from.simps [simp del]

definition elements :: "bytes \<Rightarrow> (nat \<times> bytes) list" where
  "elements buf = elements_from buf 0"

text \<open>The payload of an element is shorter than the buffer it stands in.\<close>

lemma elements_from_shorter: "el \<in> set (elements_from buf i) \<Longrightarrow> length (snd el) < length buf"
proof (induction buf i rule: elements_from.induct)
  case (1 buf i)
  then show ?case
    by (subst (asm) (3) elements_from.simps) (auto simp: Let_def part_of_def split: if_splits)
qed

lemma elements_shorter: "el \<in> set (elements buf) \<Longrightarrow> length (snd el) < length buf"
  by (simp add: elements_def elements_from_shorter)

section \<open>Numbers\<close>

datatype mat_error = Mat_Error string | Struct_Error | Index_Error | Bad_Value | Key_Error | Overflow_Error
  | Stop_Iteration | Zlib_Error

text \<open>An integer, and a float of 64 or 32 bits as its pattern.\<close>

datatype mat_num = Whole int | Double nat | Single nat

datatype num_code = Signed nat | Unsigned nat | F32 | F64

definition numeric_code :: "nat \<Rightarrow> num_code option" where
  "numeric_code = map_of
     [(1, Signed 1), (2, Unsigned 1), (3, Signed 2), (4, Unsigned 2), (5, Signed 4), (6, Unsigned 4), (7, F32),
      (9, F64), (12, Signed 8), (13, Unsigned 8)]"

fun item_width :: "num_code \<Rightarrow> nat" where
  "item_width (Signed w) = w"
| "item_width (Unsigned w) = w"
| "item_width F32 = 4"
| "item_width F64 = 8"

fun read_item :: "num_code \<Rightarrow> bytes \<Rightarrow> mat_num" where
  "read_item (Signed w) bs = Whole (le_int w bs)"
| "read_item (Unsigned w) bs = Whole (int (le_nat bs))"
| "read_item F32 bs = Single (le_nat bs)"
| "read_item F64 bs = Double (le_nat bs)"

definition items :: "nat \<Rightarrow> bytes \<Rightarrow> bytes list" where
  "items w bs = map (\<lambda>k. part_of bs (k * w) w) [0..<length bs div w]"

text \<open>\<open>array.frombytes\<close> raises where the bytes are no whole number of items.\<close>

definition numeric :: "nat \<Rightarrow> bytes \<Rightarrow> mat_error + mat_num list" where
  "numeric t payload =
     (case numeric_code t of
        None \<Rightarrow> Inl (Mat_Error ''unsupported numeric type'')
      | Some c \<Rightarrow>
          (if length payload mod item_width c \<noteq> 0 then Inl Bad_Value
           else Inr (map (read_item c) (items (item_width c) payload))))"

text \<open>The dimensions of a matrix: \<open>_numeric(MI_INT32, payload)\<close>.\<close>

definition dimensions :: "bytes \<Rightarrow> mat_error + int list" where
  "dimensions payload =
     (if length payload mod 4 \<noteq> 0 then Inl Bad_Value else Inr (map (le_int 4) (items 4 payload)))"

section \<open>Text\<close>

type_synonym mat_text = "nat list"

definition text_of :: "string \<Rightarrow> mat_text" where
  "text_of = map of_char"

text \<open>\<open>decode("ascii", "replace")\<close>.\<close>

definition ascii_text :: "bytes \<Rightarrow> mat_text" where
  "ascii_text = map (\<lambda>b. if unat b < 128 then unat b else 65533)"

text \<open>\<open>decode()\<close>: UTF-8, strict; no overlong forms, surrogates or values above the last code point.\<close>

definition tail_byte :: "nat \<Rightarrow> bool" where
  "tail_byte b \<longleftrightarrow> 128 \<le> b \<and> b < 192"

fun utf8 :: "nat list \<Rightarrow> mat_text option" where
  "utf8 [] = Some []"
| "utf8 (a # bs) =
     (if a < 128 then map_option (Cons a) (utf8 bs)
      else
        (case bs of
           b # cs \<Rightarrow>
             (if 194 \<le> a \<and> a < 224
              then (if tail_byte b then map_option (Cons ((a - 192) * 64 + (b - 128))) (utf8 cs) else None)
              else
                (case cs of
                   c # ds \<Rightarrow>
                     (if 224 \<le> a \<and> a < 240
                      then
                        (let p = (a - 224) * 4096 + (b - 128) * 64 + (c - 128)
                         in if tail_byte b \<and> tail_byte c \<and> 2048 \<le> p \<and> \<not> (55296 \<le> p \<and> p < 57344)
                            then map_option (Cons p) (utf8 ds) else None)
                      else
                        (case ds of
                           d # es \<Rightarrow>
                             (let p = (a - 240) * 262144 + (b - 128) * 4096 + (c - 128) * 64 + (d - 128)
                              in if 240 \<le> a \<and> a < 245 \<and> tail_byte b \<and> tail_byte c \<and> tail_byte d
                                    \<and> 65536 \<le> p \<and> p < 1114112
                                 then map_option (Cons p) (utf8 es) else None)
                         | [] \<Rightarrow> None))
                 | [] \<Rightarrow> None))
         | [] \<Rightarrow> None))"

section \<open>Matrices\<close>

datatype mat = Mat_None | Mat_Array "int list" "mat_num list" | Mat_Struct "(mat_text \<times> mat) list"

fun all_some :: "'a option list \<Rightarrow> 'a list option" where
  "all_some [] = Some []"
| "all_some (x # xs) =
     (case x of None \<Rightarrow> None | Some v \<Rightarrow> (case all_some xs of None \<Rightarrow> None | Some vs \<Rightarrow> Some (v # vs)))"

text \<open>One field name: up to the first null byte.\<close>

definition field_name :: "bytes \<Rightarrow> mat_text option" where
  "field_name bs = utf8 (map unat (takeWhile (\<lambda>b. b \<noteq> 0) bs))"

definition field_names :: "(nat \<times> bytes) list \<Rightarrow> mat_error + mat_text list" where
  "field_names els =
     (if length els < 4 then Inl Index_Error
      else if length (snd (els ! 3)) < 4 then Inl Struct_Error
      else if length els < 5 then Inl Index_Error
      else
        (let w = le_int 4 (take 4 (snd (els ! 3))); raw = snd (els ! 4)
         in if w = 0 then Inl Bad_Value
            else if w < 0 then Inr []
            else
              (case all_some (map (\<lambda>k. field_name (part_of raw (k * nat w) (nat w)))
                                [0..<(length raw + nat w - 1) div nat w]) of
                 None \<Rightarrow> Inl Bad_Value
               | Some fs \<Rightarrow> Inr fs)))"

definition put_fields :: "(mat_text \<times> mat) list \<Rightarrow> (mat_text \<times> mat) list" where
  "put_fields fvs = fold (\<lambda>(f, v) out. dput f v out) fvs []"

function matrix :: "bytes \<Rightarrow> mat_error + (mat_text \<times> mat)" where
  "matrix payload =
     (if elements payload = [] then Inl Index_Error
      else if length (snd (elements payload ! 0)) < 4 then Inl Struct_Error
      else if length (elements payload) < 2 then Inl Index_Error
      else
        (case dimensions (snd (elements payload ! 1)) of
           Inl e \<Rightarrow> Inl e
         | Inr dims \<Rightarrow>
             (if length (elements payload) < 3 then Inl Index_Error
              else if le_nat (take 4 (snd (elements payload ! 0))) mod 256 = 2
              then
                (case field_names (elements payload) of
                   Inl e \<Rightarrow> Inl e
                 | Inr fields \<Rightarrow>
                     (if dims \<noteq> [1, 1] then Inr (ascii_text (snd (elements payload ! 2)), Mat_None)
                      else Inr (ascii_text (snd (elements payload ! 2)), Mat_Struct (put_fields
                        (zip fields (map (\<lambda>el. case matrix (snd el) of Inl e \<Rightarrow> Mat_None | Inr (n, v) \<Rightarrow> v)
                                       (drop 5 (elements payload))))))))
              else if length (elements payload) < 4 then Inr (ascii_text (snd (elements payload ! 2)), Mat_None)
              else
                (case numeric (fst (elements payload ! 3)) (snd (elements payload ! 3)) of
                   Inl (Mat_Error t) \<Rightarrow> Inr (ascii_text (snd (elements payload ! 2)), Mat_None)
                 | Inl e \<Rightarrow> Inl e
                 | Inr vs \<Rightarrow> Inr (ascii_text (snd (elements payload ! 2)), Mat_Array dims vs)))))"
  by pat_completeness auto

termination
  by (relation "measure length") (auto dest!: in_set_dropD elements_shorter)

declare matrix.simps [simp del]

section \<open>A file\<close>

definition mat_magic :: bytes where
  "mat_magic = map of_char ''MATLAB 5.0 MAT-file''"

definition inflated ::
  "(bytes \<Rightarrow> (bytes \<times> bool) option) \<Rightarrow> nat \<times> bytes \<Rightarrow> bool \<Rightarrow> mat_error + (nat \<times> bytes) \<times> bool" where
  "inflated inflate el short =
     (if fst el = 15
      then
        (case inflate (snd el) of
           None \<Rightarrow> Inl Zlib_Error
         | Some (data, eof) \<Rightarrow>
             (case elements data of [] \<Rightarrow> Inl Stop_Iteration | first # _ \<Rightarrow> Inr (first, short \<or> \<not> eof)))
      else Inr (el, short))"

fun read_variables ::
  "(bytes \<Rightarrow> (bytes \<times> bool) option) \<Rightarrow> (nat \<times> bytes) list \<Rightarrow> (mat_text \<times> mat) list \<Rightarrow> bool \<Rightarrow>
   mat_error + (mat_text \<times> mat) list \<times> bool" where
  "read_variables inflate [] out short = Inr (out, short)"
| "read_variables inflate (el # els) out short =
     (case inflated inflate el short of
        Inl e \<Rightarrow> Inl e
      | Inr ((t, data), short1) \<Rightarrow>
          (if t = 14
           then
             (case matrix data of
                Inl e \<Rightarrow> Inl e
              | Inr (name, value) \<Rightarrow> read_variables inflate els (dput name value out) short1)
           else read_variables inflate els out short1))"

definition read_mat ::
  "(bytes \<Rightarrow> (bytes \<times> bool) option) \<Rightarrow> bytes \<Rightarrow> mat_error + (mat_text \<times> mat) list \<times> bool" where
  "read_mat inflate raw =
     (if take (length mat_magic) raw \<noteq> mat_magic then Inl (Mat_Error ''not a MAT v5 file'')
      else read_variables inflate (elements (drop 128 raw)) [] False)"

end
