(* ===== verification/Lidar_Dataset.thy ===== *)
theory Lidar_Dataset
  imports Mat_File Lidar_Replay
begin

text \<open>
  The dataset tool (tools/lidar_dataset.py): one recorded sweep from a MATLAB file, the order of the
  scans, and the conversion of a directory of them to the replay format of \<open>Lidar_Replay\<close>.

  A directory is its files, by name and content, in the order the file system lists them. The output
  directory is what stands in its three files. Progress lines and the option parser are not modelled.
\<close>

section \<open>Floats of a sweep\<close>

text \<open>\<open>n / 2 ^ k\<close> to the nearest, ties to even.\<close>

definition nearest_even :: "nat \<Rightarrow> nat \<Rightarrow> nat" where
  "nearest_even n k =
     (let d = n div 2 ^ k; r = n mod 2 ^ k
      in if 2 ^ k < 2 * r \<or> 2 * r = 2 ^ k \<and> odd d then d + 1 else d)"

text \<open>A pattern's exponent, never below one, and its significand with the hidden bit.\<close>

definition exponent_of :: "nat \<Rightarrow> nat" where
  "exponent_of e = max e 1"

definition significand_of :: "nat \<Rightarrow> nat \<Rightarrow> nat \<Rightarrow> nat" where
  "significand_of p e m = (if e = 0 then m else 2 ^ p + m)"

text \<open>The 32-bit pattern of a 64-bit one: a NaN becomes quiet, what is too large infinite.\<close>

definition narrow :: "nat \<Rightarrow> nat" where
  "narrow n =
     (let e = n div 2 ^ 52 mod 2 ^ 11; m = n mod 2 ^ 52; ex = exponent_of e; sig = significand_of 52 e m
      in n div 2 ^ 63 * 2 ^ 31
         + (if e = 2047 then (if m = 0 then 255 * 2 ^ 23 else 255 * 2 ^ 23 + 2 ^ 22 + m div 2 ^ 29 mod 2 ^ 22)
            else if 897 \<le> ex then min (255 * 2 ^ 23) ((ex - 897) * 2 ^ 23 + nearest_even sig 29)
            else nearest_even sig (29 + (897 - ex))))"

fun bit_count :: "nat \<Rightarrow> nat" where
  "bit_count n = (if n = 0 then 0 else Suc (bit_count (n div 2)))"

declare bit_count.simps [simp del]

definition double_of_int :: "int \<Rightarrow> nat" where
  "double_of_int v =
     (let a = nat \<bar>v\<bar>; l = bit_count a
      in if a = 0 then 0
         else (if v < 0 then 2 ^ 63 else 0) + (1021 + l) * 2 ^ 52
              + (if l \<le> 53 then a * 2 ^ (53 - l) else nearest_even a (l - 53)))"

definition quiet :: "nat \<Rightarrow> nat" where
  "quiet n =
     (if n div 2 ^ 23 mod 2 ^ 8 = 255 \<and> n mod 2 ^ 23 \<noteq> 0 \<and> even (n div 2 ^ 22) then n + 2 ^ 22 else n)"

text \<open>An item of \<open>array("f", xyz)\<close>.\<close>

fun to_f32 :: "mat_num \<Rightarrow> nat" where
  "to_f32 (Whole v) = narrow (double_of_int v)"
| "to_f32 (Double n) = narrow n"
| "to_f32 (Single n) = quiet n"

text \<open>\<open>int(v)\<close>, towards zero; \<open>p\<close> bits of significand and the exponent at which they are whole.\<close>

definition whole_float :: "nat \<Rightarrow> nat \<Rightarrow> nat \<Rightarrow> nat \<Rightarrow> nat \<Rightarrow> int" where
  "whole_float p unit s e m =
     (let ex = exponent_of e; sig = significand_of p e m;
          a = int (if unit \<le> ex then sig * 2 ^ (ex - unit) else sig div 2 ^ (unit - ex))
      in if s = 0 then a else - a)"

fun to_int :: "mat_num \<Rightarrow> mat_error + int" where
  "to_int (Whole v) = Inr v"
| "to_int (Double n) =
     (let e = n div 2 ^ 52 mod 2 ^ 11; m = n mod 2 ^ 52
      in if e = 2047 then Inl (if m = 0 then Overflow_Error else Bad_Value)
         else Inr (whole_float 52 1075 (n div 2 ^ 63) e m))"
| "to_int (Single n) =
     (let e = n div 2 ^ 23 mod 2 ^ 8; m = n mod 2 ^ 23
      in if e = 255 then Inl (if m = 0 then Overflow_Error else Bad_Value)
         else Inr (whole_float 23 150 (n div 2 ^ 31) e m))"

section \<open>One sweep\<close>

text \<open>The points as 32-bit patterns, interleaved, the time, and whether the file's data ended early.\<close>

type_synonym sweep = "nat list \<times> int \<times> bool"

definition no_xyz :: mat_error where
  "no_xyz = Mat_Error ''no SCAN.XYZ''"

text \<open>\<open>(rows, cols), xyz = scan["XYZ"]\<close> and its check; a struct unpacks to its field names.\<close>

definition xyz_of :: "(mat_text \<times> mat) list \<Rightarrow> mat_error + mat_num list" where
  "xyz_of scan =
     (case map_of scan (text_of ''XYZ'') of
        None \<Rightarrow> Inl no_xyz
      | Some Mat_None \<Rightarrow> Inl no_xyz
      | Some (Mat_Struct gs) \<Rightarrow>
          Inl (if length gs = 2 \<and> length (fst (hd gs)) = 2 then Mat_Error ''expected 3xN'' else Bad_Value)
      | Some (Mat_Array dims xyz) \<Rightarrow>
          (if length dims \<noteq> 2 then Inl Bad_Value
           else if dims ! 0 \<noteq> 3 \<or> int (length xyz) \<noteq> dims ! 0 * dims ! 1
           then Inl (Mat_Error ''expected 3xN'') else Inr xyz))"

definition time_of :: "(mat_text \<times> mat) list \<Rightarrow> mat_error + int" where
  "time_of scan =
     (case map_of scan (text_of ''timestamp_laser'') of
        None \<Rightarrow> Inr 0
      | Some Mat_None \<Rightarrow> Inr 0
      | Some (Mat_Struct gs) \<Rightarrow> if gs = [] then Inr 0 else Inl Key_Error
      | Some (Mat_Array dims ts) \<Rightarrow> if ts = [] then Inl Index_Error else to_int (hd ts))"

definition sweep_of :: "(mat_text \<times> mat) list \<times> bool \<Rightarrow> mat_error + sweep" where
  "sweep_of vc =
     (case map_of (fst vc) (text_of ''SCAN'') of
        Some (Mat_Struct scan) \<Rightarrow>
          (case xyz_of scan of
             Inl e \<Rightarrow> Inl e
           | Inr xyz \<Rightarrow>
               (if snd vc \<and> map_of scan (text_of ''timestamp_laser'') \<in> {None, Some Mat_None}
                then Inl (Mat_Error ''the data ends before SCAN.timestamp_laser'')
                else map_sum id (\<lambda>t. (map to_f32 xyz, t, snd vc)) (time_of scan)))
      | _ \<Rightarrow> Inl no_xyz)"

definition ford_scan :: "(bytes \<Rightarrow> (bytes \<times> bool) option) \<Rightarrow> bytes \<Rightarrow> mat_error + sweep" where
  "ford_scan inflate raw = sum_bind (read_mat inflate raw) sweep_of"

section \<open>The scans of a directory\<close>

definition stem :: "string \<Rightarrow> string" where
  "stem name =
     (case dropWhile (\<lambda>c. c \<noteq> CHR ''.'') (rev name) of
        [] \<Rightarrow> name
      | dot # cs \<Rightarrow> if cs = [] \<or> last name = CHR ''.'' then name else rev cs)"

definition scan_number :: "string \<Rightarrow> int" where
  "scan_number name =
     (case nat_text (takeWhile is_digit (dropWhile (\<lambda>c. \<not> is_digit c) (stem name))) of
        None \<Rightarrow> - 1
      | Some n \<Rightarrow> int n)"

text \<open>The pattern \<open>Scan*.mat\<close>.\<close>

definition is_scan :: "string \<Rightarrow> bool" where
  "is_scan name \<longleftrightarrow> 8 \<le> length name \<and> take 4 name = ''Scan'' \<and> drop (length name - 4) name = ''.mat''"

text \<open>\<open>xs[a:b]\<close>.\<close>

definition slice_end :: "nat \<Rightarrow> int \<Rightarrow> nat" where
  "slice_end n i = nat (if i < 0 then max 0 (i + int n) else min i (int n))"

definition py_slice :: "'a list \<Rightarrow> int \<Rightarrow> int option \<Rightarrow> 'a list" where
  "py_slice xs a b =
     (let lo = slice_end (length xs) a; hi = (case b of None \<Rightarrow> length xs | Some i \<Rightarrow> slice_end (length xs) i)
      in take (hi - lo) (drop lo xs))"

definition scan_files :: "(string \<times> bytes) list \<Rightarrow> (string \<times> bytes) list" where
  "scan_files dir = sort_key (\<lambda>f. scan_number (fst f)) (filter (\<lambda>f. is_scan (fst f)) dir)"

definition chosen_files :: "(string \<times> bytes) list \<Rightarrow> int \<Rightarrow> int option \<Rightarrow> (string \<times> bytes) list" where
  "chosen_files dir first count = py_slice (scan_files dir) first (map_option (\<lambda>n. first + n) count)"

section \<open>The conversion\<close>

definition points_bytes :: "nat list \<Rightarrow> bytes" where
  "points_bytes pts = concat (map (le_bytes 4) pts)"

record conversion =
  pg_written :: bytes
  pg_frames :: "(int \<times> nat \<times> nat \<times> int) list"
  pg_recovered :: "int list"
  pg_offset :: nat

definition no_conversion :: conversion where
  "no_conversion = \<lparr>pg_written = [], pg_frames = [], pg_recovered = [], pg_offset = 0\<rparr>"

definition add_sweep :: "string \<Rightarrow> sweep \<Rightarrow> conversion \<Rightarrow> conversion" where
  "add_sweep name sw g =
     (case sw of (pts, t, short) \<Rightarrow>
        let n = length pts div 3
        in \<lparr>pg_written = pg_written g @ points_bytes pts,
            pg_frames = pg_frames g @ [(scan_number name, pg_offset g, n, t)],
            pg_recovered = pg_recovered g @ (if short then [scan_number name] else []),
            pg_offset = pg_offset g + n\<rparr>)"

fun add_files ::
  "(bytes \<Rightarrow> mat_error + sweep) \<Rightarrow> (string \<times> bytes) list \<Rightarrow> conversion \<Rightarrow> mat_error option \<times> conversion" where
  "add_files rd [] g = (None, g)"
| "add_files rd ((name, raw) # files) g =
     (case rd raw of Inl e \<Rightarrow> (Some e, g) | Inr sw \<Rightarrow> add_files rd files (add_sweep name sw g))"

definition index_json :: "string \<Rightarrow> conversion \<Rightarrow> pdict" where
  "index_json src_path g =
     [(''format'', JStr ''mec-cast-lidar-replay''), (''version'', JInt 1),
      (''source'', JStr ''Ford Campus Vision and Lidar Dataset (IJRR 2011), Velodyne HDL-64E''),
      (''source_path'', JStr src_path), (''frame_id'', JStr ''vehicle''), (''units'', JStr ''m''),
      (''dtype'', JStr ''float32''), (''recovered'', JArr (map JInt (pg_recovered g))),
      (''frames'', JArr (map (\<lambda>(scan, offset, n, t). JArr [JInt scan, JInt (int offset), JInt (int n), JInt t])
                           (pg_frames g)))]"

record out_dir =
  od_part :: "bytes option"
  od_points :: "bytes option"
  od_index :: "pdict option"

datatype tool_error = No_Scans | Read_Failed mat_error | No_Frames

definition convert ::
  "(bytes \<Rightarrow> (bytes \<times> bool) option) \<Rightarrow> (string \<times> bytes) list \<Rightarrow> string \<Rightarrow> int \<Rightarrow> int option \<Rightarrow> out_dir \<Rightarrow>
   (tool_error + conversion) \<times> out_dir" where
  "convert inflate dir src_path first count d =
     (if scan_files dir = [] then (Inl No_Scans, d)
      else
        (case add_files (ford_scan inflate) (chosen_files dir first count) no_conversion of
           (Some e, g) \<Rightarrow> (Inl (Read_Failed e), d\<lparr>od_part := Some (pg_written g)\<rparr>)
         | (None, g) \<Rightarrow>
             (Inr g, \<lparr>od_part = None, od_points = Some (pg_written g), od_index = Some (index_json src_path g)\<rparr>)))"

section \<open>The summary\<close>

text \<open>Frames, first and last scan, seconds, rate, the fewest, most and median points, and how many
  sweeps were recovered; \<open>None\<close>: the \<open>IndexError\<close> of an empty list.\<close>

definition summary ::
  "conversion \<Rightarrow> (nat \<times> (int \<times> int) \<times> rat \<times> rat \<times> (nat \<times> nat \<times> nat) \<times> nat) option" where
  "summary g =
     (let frames = pg_frames g; counts = sort (map (\<lambda>(scan, offset, n, t). n) frames);
          times = map (\<lambda>(scan, offset, n, t). t) frames;
          secs = (if 1 < length frames then of_int (last times - hd times) / 1000000 else 0);
          rate = (if 0 < secs then of_nat (length frames - 1) / secs else 0)
      in if frames = [] then None
         else Some (length frames, (fst (hd frames), fst (last frames)), secs, rate,
                    (hd counts, last counts, counts ! (length counts div 2)), length (pg_recovered g)))"

text \<open>\<open>main\<close>: the index is on disk before the summary is made.\<close>

definition dataset_main ::
  "(bytes \<Rightarrow> (bytes \<times> bool) option) \<Rightarrow> (string \<times> bytes) list \<Rightarrow> string \<Rightarrow> int \<Rightarrow> int option \<Rightarrow> out_dir \<Rightarrow>
   (tool_error + nat) \<times> out_dir" where
  "dataset_main inflate dir src_path first count d =
     (case convert inflate dir src_path first count d of
        (Inl e, d1) \<Rightarrow> (Inl e, d1)
      | (Inr g, d1) \<Rightarrow> (if summary g = None then Inl No_Frames else Inr 0, d1))"

end
