(* ===== verification/Dataset_Props.thy ===== *)
theory Dataset_Props
  imports Lidar_Dataset "HOL-Library.Sublist"
begin

text \<open>
  What the dataset tool keeps to (tools/lidar_dataset.py): a sweep recovered from a file whose data ends
  early is the sweep of the whole file, and a converted dataset opens in the client's replay and gives
  back every point of every scan.
\<close>

section \<open>Buffers that end early\<close>

text \<open>The format's rule for small elements: at most four bytes.\<close>

function fits_from :: "bytes \<Rightarrow> nat \<Rightarrow> bool" where
  "fits_from buf i =
     (if length buf < i + 8 then True
      else
        (let t = le_nat (part_of buf i 4); n = le_nat (part_of buf (i + 4) 4)
         in if t div 65536 \<noteq> 0 then t div 65536 \<le> 4 \<and> fits_from buf (i + 8)
            else fits_from buf (i + 8 + (n + 7) div 8 * 8)))"
  by pat_completeness auto

termination
  by (relation "measure (\<lambda>(buf, i). length buf - i)") auto

declare fits_from.simps [simp del]

definition fits :: "bytes \<Rightarrow> bool" where
  "fits buf = fits_from buf 0"

text \<open>The first elements, the last of them perhaps short.\<close>

definition short_of :: "(nat \<times> bytes) list \<Rightarrow> (nat \<times> bytes) list \<Rightarrow> bool" where
  "short_of xs ys \<longleftrightarrow>
     xs = [] \<or> (\<exists>zs t p q us. xs = zs @ [(t, p)] \<and> ys = zs @ (t, q) # us \<and> prefix p q)"

lemma part_of_prefix:
  assumes "prefix b b2"
  shows "prefix (part_of b i n) (part_of b2 i n)" and "i + n \<le> length b \<Longrightarrow> part_of b i n = part_of b2 i n"
  using assms by (auto simp: part_of_def prefix_def)

lemma short_of_Cons: "short_of xs ys \<Longrightarrow> short_of (el # xs) (el # ys)"
proof -
  assume "short_of xs ys"
  then consider "xs = []" | zs t p q us where "xs = zs @ [(t, p)]" "ys = zs @ (t, q) # us" "prefix p q"
    unfolding short_of_def by blast
  then show ?thesis
  proof cases
    case 1
    then show ?thesis
      unfolding short_of_def by (cases el) auto
  next
    case 2
    then have "el # xs = (el # zs) @ [(t, p)]" "el # ys = (el # zs) @ (t, q) # us"
      by simp_all
    then show ?thesis
      unfolding short_of_def using 2(3) by blast
  qed
qed

lemma elements_from_short:
  assumes "prefix b b2" and "fits_from b2 i"
  shows "short_of (elements_from b i) (elements_from b2 i)"
  using assms
proof (induction b i rule: elements_from.induct)
  case (1 b i)
  show ?case
  proof (cases "length b < i + 8")
    case True
    then show ?thesis
      by (subst elements_from.simps) (simp add: short_of_def)
  next
    case long: False
    then have long2: "\<not> length b2 < i + 8"
      using prefix_length_le [OF "1.prems"(1)] by linarith
    define t where "t = le_nat (part_of b i 4)"
    define n where "n = le_nat (part_of b (i + 4) 4)"
    have same: "part_of b i 4 = part_of b2 i 4" "part_of b (i + 4) 4 = part_of b2 (i + 4) 4"
      using part_of_prefix(2) [OF "1.prems"(1)] long by auto
    have el: "elements_from b i
        = (if t div 65536 \<noteq> 0 then (t mod 65536, part_of b (i + 4) (t div 65536)) # elements_from b (i + 8)
           else (t, part_of b (i + 8) n) # elements_from b (i + 8 + (n + 7) div 8 * 8))"
      unfolding t_def n_def using long by (subst elements_from.simps) (simp add: Let_def)
    have el2: "elements_from b2 i
        = (if t div 65536 \<noteq> 0 then (t mod 65536, part_of b2 (i + 4) (t div 65536)) # elements_from b2 (i + 8)
           else (t, part_of b2 (i + 8) n) # elements_from b2 (i + 8 + (n + 7) div 8 * 8))"
      unfolding t_def n_def same using long2 by (subst elements_from.simps) (simp add: Let_def)
    have fit: "if t div 65536 \<noteq> 0 then t div 65536 \<le> 4 \<and> fits_from b2 (i + 8)
        else fits_from b2 (i + 8 + (n + 7) div 8 * 8)"
      using "1.prems"(2) long2 unfolding t_def n_def same
      by (subst (asm) fits_from.simps) (simp add: Let_def split: if_splits)
    show ?thesis
    proof (cases "t div 65536 \<noteq> 0")
      case True
      then have "part_of b (i + 4) (t div 65536) = part_of b2 (i + 4) (t div 65536)"
        using fit long by (intro part_of_prefix(2) [OF "1.prems"(1)]) auto
      moreover have "short_of (elements_from b (i + 8)) (elements_from b2 (i + 8))"
        using "1.IH"(1) [OF long refl refl _ "1.prems"(1)] True fit unfolding t_def by simp
      ultimately show ?thesis
        unfolding el el2 using True by (simp add: short_of_Cons)
    next
      case False
      show ?thesis
      proof (cases "i + 8 + n \<le> length b")
        case True
        then have "part_of b (i + 8) n = part_of b2 (i + 8) n"
          by (intro part_of_prefix(2) [OF "1.prems"(1)]) simp
        moreover have "short_of (elements_from b (i + 8 + (n + 7) div 8 * 8))
            (elements_from b2 (i + 8 + (n + 7) div 8 * 8))"
          using "1.IH"(2) [OF long refl refl _ "1.prems"(1)] False fit unfolding t_def n_def by simp
        ultimately show ?thesis
          unfolding el el2 using False by (simp add: short_of_Cons)
      next
        case short: False
        have "n \<le> (n + 7) div 8 * 8"
          by presburger
        then have "elements_from b (i + 8 + (n + 7) div 8 * 8) = []"
          using short by (subst elements_from.simps) simp
        then show ?thesis
          unfolding el el2 short_of_def using False part_of_prefix(1) [OF "1.prems"(1)] by auto
      qed
    qed
  qed
qed

lemma elements_short: "prefix b b2 \<Longrightarrow> fits b2 \<Longrightarrow> short_of (elements b) (elements b2)"
  unfolding elements_def fits_def by (rule elements_from_short)

lemma short_of_nth:
  assumes "short_of xs ys" and "i < length xs"
  shows "i < length ys" and "fst (xs ! i) = fst (ys ! i)" and "prefix (snd (xs ! i)) (snd (ys ! i))"
    and "i + 1 < length xs \<Longrightarrow> xs ! i = ys ! i"
proof -
  obtain zs t p q us where e: "xs = zs @ [(t, p)]" "ys = zs @ (t, q) # us" "prefix p q"
    using assms unfolding short_of_def by auto
  show "i < length ys" "fst (xs ! i) = fst (ys ! i)" "prefix (snd (xs ! i)) (snd (ys ! i))"
    "i + 1 < length xs \<Longrightarrow> xs ! i = ys ! i"
    using assms(2) e by (auto simp: nth_append less_Suc_eq)
qed

lemma short_of_length: "short_of xs ys \<Longrightarrow> length xs \<le> length ys"
  by (auto simp: short_of_def)

section \<open>Matrices that end early\<close>

lemma items_short:
  assumes "prefix b b2"
  shows "prefix (items w b) (items w b2)"
proof -
  have le: "length b div w \<le> length b2 div w"
    using prefix_length_le [OF assms] by (rule div_le_mono)
  have inside: "k * w + w \<le> length b" if "k < length b div w" for k
  proof -
    have "Suc k * w \<le> length b div w * w"
      using that by (intro mult_right_mono) auto
    also have "\<dots> \<le> length b"
      by simp
    finally show ?thesis
      by (simp add: add.commute)
  qed
  have "items w b = take (length b div w) (items w b2)"
    using le part_of_prefix(2) [OF assms inside] by (intro nth_equalityI) (simp_all add: items_def)
  then show ?thesis
    by (simp add: take_is_prefix)
qed

lemma numeric_short:
  assumes "prefix p q" and "numeric t p = Inr vs"
  shows "numeric t q = Inl Bad_Value \<or> (\<exists>ws. numeric t q = Inr ws \<and> prefix vs ws)"
  using assms(2) items_short [OF assms(1)]
  by (auto simp: numeric_def map_mono_prefix split: option.splits if_splits)

lemma numeric_error: "numeric t p = Inl (Mat_Error e) \<Longrightarrow> numeric_code t = None"
  by (auto simp: numeric_def split: option.splits if_splits)

text \<open>The shape of a matrix that was read.\<close>

definition struct_flag :: "(nat \<times> bytes) list \<Rightarrow> bool" where
  "struct_flag els \<longleftrightarrow> le_nat (take 4 (snd (els ! 0))) mod 256 = 2"

definition field_value :: "nat \<times> bytes \<Rightarrow> mat" where
  "field_value el = (case matrix (snd el) of Inl e \<Rightarrow> Mat_None | Inr (n, v) \<Rightarrow> v)"

lemma matrix_array:
  assumes "matrix p = Inr (name, Mat_Array dims vs)"
  shows "4 \<le> length (elements p)" and "\<not> struct_flag (elements p)"
    and "dimensions (snd (elements p ! 1)) = Inr dims"
    and "numeric (fst (elements p ! 3)) (snd (elements p ! 3)) = Inr vs" and "4 \<le> length (snd (elements p ! 0))"
  using assms
  by (subst (asm) matrix.simps,
      auto simp: struct_flag_def split: if_splits sum.splits mat_error.splits)+

lemma matrix_struct:
  assumes "matrix p = Inr (name, Mat_Struct fs)"
  shows "struct_flag (elements p)" and "4 \<le> length (snd (elements p ! 0))" and "3 \<le> length (elements p)"
    and "\<exists>names. field_names (elements p) = Inr names
           \<and> fs = put_fields (zip names (map field_value (drop 5 (elements p))))"
  using assms
  by (subst (asm) matrix.simps,
      auto simp: struct_flag_def field_value_def [abs_def] split: if_splits sum.splits mat_error.splits)+

lemma struct_flag_short:
  assumes "short_of els els2" and "els \<noteq> []" and "4 \<le> length (snd (els ! 0))"
  shows "struct_flag els2 = struct_flag els"
proof -
  have "prefix (snd (els ! 0)) (snd (els2 ! 0))"
    using short_of_nth(3) [OF assms(1), of 0] assms(2) by simp
  then have "take 4 (snd (els2 ! 0)) = take 4 (snd (els ! 0))"
    using assms(3) by (auto simp: prefix_def)
  then show ?thesis
    by (simp add: struct_flag_def)
qed

lemma struct_or_array:
  assumes "prefix p q" and "fits q" and "matrix p = Inr (m, Mat_Struct fs)"
  shows "matrix q \<noteq> Inr (n, Mat_Array dims vs)"
proof
  assume "matrix q = Inr (n, Mat_Array dims vs)"
  then have "\<not> struct_flag (elements q)"
    by (rule matrix_array)
  moreover have "struct_flag (elements q) = struct_flag (elements p)"
    using matrix_struct [OF assms(3)] by (intro struct_flag_short elements_short assms(1,2)) auto
  ultimately show False
    using matrix_struct(1) [OF assms(3)] by simp
qed

lemma array_short:
  assumes "prefix p q" and "fits q" and "matrix p = Inr (m, Mat_Array dims vs)"
    and "matrix q = Inr (n, v)" and "v \<noteq> Mat_None"
  shows "\<exists>ws. v = Mat_Array dims ws \<and> prefix vs ws"
proof -
  note a = matrix_array [OF assms(3)]
  let ?e = "elements p" and ?e2 = "elements q"
  have s: "short_of ?e ?e2"
    by (rule elements_short [OF assms(1,2)])
  have same: "?e ! 0 = ?e2 ! 0" "?e ! 1 = ?e2 ! 1" "?e ! 2 = ?e2 ! 2" "fst (?e ! 3) = fst (?e2 ! 3)"
    "prefix (snd (?e ! 3)) (snd (?e2 ! 3))" "4 \<le> length ?e2"
    using short_of_nth [OF s] short_of_length [OF s] a(1) by auto
  then have flag: "\<not> struct_flag ?e2"
    using a(2) by (simp add: struct_flag_def)
  have n: "numeric (fst (?e2 ! 3)) (snd (?e2 ! 3)) = Inl Bad_Value
      \<or> (\<exists>ws. numeric (fst (?e2 ! 3)) (snd (?e2 ! 3)) = Inr ws \<and> prefix vs ws)"
    using numeric_short [OF same(5) a(4)] same(4) by simp
  from assms(4) show ?thesis
    using flag n a(3) assms(5) unfolding same
    by (subst (asm) matrix.simps)
       (auto simp: struct_flag_def split: if_splits sum.splits mat_error.splits)
qed

lemma put_fields_distinct: "distinct (map fst fvs) \<Longrightarrow> put_fields fvs = fvs"
proof -
  have upd: "k \<notin> set (map fst d) \<Longrightarrow> dput k v d = d @ [(k, v)]" for k :: mat_text and v :: mat and d
    by (induction d) auto
  have "distinct (map fst (out @ fvs)) \<Longrightarrow> fold (\<lambda>(f, v) out. dput f v out) fvs out = out @ fvs" for out
  proof (induction fvs arbitrary: out)
    case (Cons fv fvs)
    then show ?case
      using upd [of "fst fv" out] by (cases fv) simp
  qed simp
  from this [of "[]"] show "distinct (map fst fvs) \<Longrightarrow> put_fields fvs = fvs"
    by (simp add: put_fields_def)
qed

lemma put_fields_zip:
  assumes "distinct names"
  shows "put_fields (zip names vs) = zip names vs"
    and "map_of (zip names vs) f = Some v \<longleftrightarrow> (\<exists>j < length names. j < length vs \<and> f = names ! j \<and> v = vs ! j)"
proof -
  have d: "distinct (map fst (zip names vs))"
    using assms by (simp add: map_fst_zip_take)
  then show "put_fields (zip names vs) = zip names vs"
    by (rule put_fields_distinct)
  show "map_of (zip names vs) f = Some v \<longleftrightarrow> (\<exists>j < length names. j < length vs \<and> f = names ! j \<and> v = vs ! j)"
    using d by (auto simp: set_zip)
qed

lemma field_names_same:
  assumes "els ! 3 = els2 ! 3" and "els ! 4 = els2 ! 4" and "5 \<le> length els" and "5 \<le> length els2"
  shows "field_names els = field_names els2"
  using assms by (simp add: field_names_def)

lemma struct_short:
  assumes "prefix p q" and "fits q" and "matrix p = Inr (m, Mat_Struct fs)" and "matrix q = Inr (n, Mat_Struct gs)"
    and "\<forall>names. field_names (elements q) = Inr names \<longrightarrow> distinct names" and "map_of fs f = Some v"
  shows "\<exists>el el2. v = field_value el \<and> map_of gs f = Some (field_value el2) \<and> prefix (snd el) (snd el2)
    \<and> el2 \<in> set (drop 5 (elements q))"
proof -
  let ?e = "elements p" and ?e2 = "elements q"
  have s: "short_of ?e ?e2"
    by (rule elements_short [OF assms(1,2)])
  obtain names where n: "field_names ?e = Inr names" "fs = put_fields (zip names (map field_value (drop 5 ?e)))"
    using matrix_struct(4) [OF assms(3)] by blast
  obtain names2 where n2: "field_names ?e2 = Inr names2" "gs = put_fields (zip names2 (map field_value (drop 5 ?e2)))"
    using matrix_struct(4) [OF assms(4)] by blast
  have "fs \<noteq> []"
    using assms(6) by auto
  then have "drop 5 ?e \<noteq> []"
    using n(2) by (auto simp: put_fields_def)
  then have six: "5 < length ?e"
    by simp
  then have "field_names ?e = field_names ?e2"
    using short_of_nth(4) [OF s] short_of_length [OF s] by (intro field_names_same) auto
  then have same: "names2 = names" "distinct names"
    using n n2 assms(5) by auto
  obtain j where j: "j < length names" "5 + j < length ?e" "f = names ! j" "v = field_value (?e ! (5 + j))"
    using assms(6) unfolding n(2) put_fields_zip(1) [OF same(2)] put_fields_zip(2) [OF same(2)] by auto
  have j2: "5 + j < length ?e2" "prefix (snd (?e ! (5 + j))) (snd (?e2 ! (5 + j)))"
    using short_of_nth(1,3) [OF s j(2)] by simp_all
  then have "map_of gs f = Some (field_value (?e2 ! (5 + j)))"
    unfolding n2(2) same(1) put_fields_zip(1) [OF same(2)] put_fields_zip(2) [OF same(2)]
    using j by (auto intro!: exI [of _ j])
  then show ?thesis
    using j j2 nth_mem [of j "drop 5 ?e2"]
    by (intro exI [of _ "?e ! (5 + j)"] exI [of _ "?e2 ! (5 + j)"]) simp
qed

section \<open>A sweep recovered\<close>

lemma map_sum_Inr: "map_sum id f x = Inr y \<longleftrightarrow> (\<exists>z. x = Inr z \<and> y = f z)"
  by (cases x) auto

lemma ford_scan_one:
  assumes "ford_scan inflate raw = Inr (pts, t, short)"
    and "elements (drop 128 raw) = [(15, z)]" and "inflate z = Some (data, eof)"
  shows "\<exists>scan xyz. elements data \<noteq> [] \<and> short = (\<not> eof)
    \<and> matrix (snd (hd (elements data))) = Inr (text_of ''SCAN'', Mat_Struct scan)
    \<and> xyz_of scan = Inr xyz \<and> pts = map to_f32 xyz \<and> time_of scan = Inr t
    \<and> (short \<longrightarrow> map_of scan (text_of ''timestamp_laser'') \<notin> {None, Some Mat_None})"
proof -
  obtain vs where r: "read_mat inflate raw = Inr vs" "sweep_of vs = Inr (pts, t, short)"
    using assms(1) unfolding ford_scan_def by (rule sum_bind_InrE)
  obtain first rest where f: "elements data = first # rest"
    using r(1) assms(2,3) by (cases "elements data") (auto simp: read_mat_def inflated_def split: if_splits)
  have "vs = ([], \<not> eof) \<or> (\<exists>name v. matrix (snd first) = Inr (name, v) \<and> vs = ([(name, v)], \<not> eof))"
    using r(1) assms(2,3) f
    by (cases first) (auto simp: read_mat_def inflated_def split: if_splits sum.splits)
  with r(2) obtain name v where m: "matrix (snd first) = Inr (name, v)" "vs = ([(name, v)], \<not> eof)"
    by (auto simp: sweep_of_def)
  with r(2) show ?thesis
    using f by (auto simp: sweep_of_def map_sum_Inr split: if_splits sum.splits mat.splits option.splits)
qed

lemma xyz_of_array:
  "xyz_of scan = Inr xyz \<longleftrightarrow>
     (\<exists>dims. map_of scan (text_of ''XYZ'') = Some (Mat_Array dims xyz) \<and> length dims = 2 \<and> dims ! 0 = 3
        \<and> int (length xyz) = dims ! 0 * dims ! 1)"
  by (auto simp: xyz_of_def split: option.splits mat.splits if_splits)

lemma field_valueE:
  assumes "field_value el = v" and "v \<noteq> Mat_None"
  obtains name where "matrix (snd el) = Inr (name, v)"
  using assms by (auto simp: field_value_def split: sum.splits)

text \<open>A field of a struct that ends early, and the same field of the whole struct.\<close>

lemma array_field_short:
  assumes "prefix (snd el) (snd el2)" and "fits (snd el2)" and "field_value el = Mat_Array dims xs"
    and "field_value el2 = v" and "v \<noteq> Mat_None"
  shows "\<exists>ys. v = Mat_Array dims ys \<and> prefix xs ys"
  using array_short [OF assms(1,2)] assms(3-5) by (metis field_valueE mat.distinct(1))

lemma time_short:
  assumes "prefix (snd el) (snd el2)" and "fits (snd el2)"
    and "map_of fs (text_of ''timestamp_laser'') = Some (field_value el)" and "field_value el \<noteq> Mat_None"
    and "map_of gs (text_of ''timestamp_laser'') = Some (field_value el2)"
    and "time_of fs = Inr t2" and "time_of gs = Inr t"
  shows "t = 0 \<or> t2 = t"
proof (cases "field_value el2")
  case Mat_None
  then show ?thesis
    using assms(5,7) by (simp add: time_of_def)
next
  case (Mat_Struct hs)
  then show ?thesis
    using assms(5,7) by (simp add: time_of_def split: if_splits)
next
  case (Mat_Array dims us)
  then obtain n where n: "matrix (snd el2) = Inr (n, Mat_Array dims us)"
    by (metis field_valueE mat.distinct(1))
  obtain m where m: "matrix (snd el) = Inr (m, field_value el)"
    using assms(4) by (metis field_valueE)
  have "\<exists>vs. field_value el = Mat_Array dims vs \<and> prefix vs us"
    using m n assms(4) struct_or_array [OF assms(1,2)] array_short [OF assms(1,2)]
    by (cases "field_value el") fastforce+
  then show ?thesis
    using assms(3,5-7) Mat_Array by (auto simp: time_of_def prefix_def split: if_splits)
qed

text \<open>C12. What the tool recovers from a file whose compressed data ends early is the sweep of the whole file:
  where both decode, the points are the same to the last bit, and so is the time, unless the whole file
  has none. The data are those of a MATLAB file: a small element holds at most four bytes, and the
  fields of the struct have different names.\<close>

theorem recovered_sweep_is_whole:
  assumes "ford_scan inflate raw = Inr (pts, t, False)" and "ford_scan inflate2 raw = Inr (pts2, t2, True)"
    and "elements (drop 128 raw) = [(15, z)]"
    and "inflate z = Some (data, True)" and "inflate2 z = Some (data2, False)" and "prefix data2 data"
    and "fits data" and "fits (snd (hd (elements data)))"
    and "\<forall>el \<in> set (drop 5 (elements (snd (hd (elements data))))). fits (snd el)"
    and "\<forall>names. field_names (elements (snd (hd (elements data)))) = Inr names \<longrightarrow> distinct names"
  shows "pts2 = pts \<and> (t = 0 \<or> t2 = t)"
proof -
  let ?p = "snd (hd (elements data2))" and ?q = "snd (hd (elements data))"
  obtain gs ys where w: "matrix ?q = Inr (text_of ''SCAN'', Mat_Struct gs)" "xyz_of gs = Inr ys"
      "pts = map to_f32 ys" "time_of gs = Inr t"
    using ford_scan_one [OF assms(1,3,4)] by blast
  obtain fs xs where s: "elements data2 \<noteq> []" "matrix ?p = Inr (text_of ''SCAN'', Mat_Struct fs)"
      "xyz_of fs = Inr xs" "pts2 = map to_f32 xs" "time_of fs = Inr t2"
      "map_of fs (text_of ''timestamp_laser'') \<notin> {None, Some Mat_None}"
    using ford_scan_one [OF assms(2,3,5)] by blast
  have "prefix ?p ?q"
    using short_of_nth(1,3) [OF elements_short [OF assms(6,7)], of 0] s(1) by (auto simp: hd_conv_nth)
  note field = struct_short [OF this assms(8) s(2) w(1) assms(10)]
  obtain dims where d: "map_of fs (text_of ''XYZ'') = Some (Mat_Array dims xs)" "int (length xs) = dims ! 0 * dims ! 1"
    using s(3) unfolding xyz_of_array by blast
  obtain dims2 where d2: "map_of gs (text_of ''XYZ'') = Some (Mat_Array dims2 ys)" "int (length ys) = dims2 ! 0 * dims2 ! 1"
    using w(2) unfolding xyz_of_array by blast
  obtain el el2 where e: "Mat_Array dims xs = field_value el"
      "map_of gs (text_of ''XYZ'') = Some (field_value el2)" "prefix (snd el) (snd el2)" "fits (snd el2)"
    using field [OF d(1)] assms(9) by blast
  have "dims2 = dims \<and> prefix xs ys"
    using array_field_short [OF e(3,4) e(1) [symmetric], of "Mat_Array dims2 ys"] e(2) d2(1) by simp
  then have "xs = ys"
    using d(2) d2(2) by (auto simp: prefix_def)
  moreover obtain v where v: "map_of fs (text_of ''timestamp_laser'') = Some v" "v \<noteq> Mat_None"
    using s(6) by auto
  then have "t = 0 \<or> t2 = t"
    using field [OF v(1)] assms(9) time_short [OF _ _ _ _ _ s(5) w(4)] by metis
  ultimately show ?thesis
    using s(4) w(3) by simp
qed

section \<open>Elements as a file has them\<close>

text \<open>An element written with its tag and padded to eight bytes, as the format has it.\<close>

definition element_bytes :: "nat \<Rightarrow> bytes \<Rightarrow> bytes" where
  "element_bytes t p = le_bytes 4 t @ le_bytes 4 (length p) @ p @ replicate ((length p + 7) div 8 * 8 - length p) 0"

lemma le_bytes_length [simp]: "length (le_bytes w n) = w"
  by (induction w arbitrary: n) simp_all

lemma le_nat_le_bytes: "le_nat (le_bytes w n) = n mod 256 ^ w"
proof (induction w arbitrary: n)
  case (Suc w)
  have "n mod 256 + 256 * (n div 256 mod 256 ^ w) = n mod (256 * 256 ^ w)"
    by (simp add: mod_mult2_eq)
  then show ?case
    using Suc.IH by (simp add: unat_of_nat)
qed simp

lemma part_of_drop: "part_of b (k + i) n = part_of (drop k b) i n"
  by (simp add: part_of_def add.commute)

lemma elements_from_drop: "elements_from b (k + i) = elements_from (drop k b) i"
proof (induction "drop k b" i rule: elements_from.induct)
  case (1 i)
  have l: "length b < k + i + 8 \<longleftrightarrow> length (drop k b) < i + 8"
    by auto
  show ?case
    using "1.hyps" unfolding elements_from.simps [of b "k + i"] elements_from.simps [of "drop k b" i] l
    by (simp add: Let_def part_of_drop [symmetric] add.assoc)
qed

lemma fits_from_drop: "fits_from b (k + i) = fits_from (drop k b) i"
proof (induction "drop k b" i rule: fits_from.induct)
  case (1 i)
  have l: "length b < k + i + 8 \<longleftrightarrow> length (drop k b) < i + 8"
    by auto
  show ?case
    using "1.hyps" unfolding fits_from.simps [of b "k + i"] fits_from.simps [of "drop k b" i] l
    by (simp add: Let_def part_of_drop [symmetric] add.assoc)
qed

lemma element_tag:
  assumes "t < 65536" and "length p < 2 ^ 32"
  shows "le_nat (part_of (element_bytes t p @ rest) 0 4) = t"
    and "le_nat (part_of (element_bytes t p @ rest) 4 4) = length p"
    and "part_of (element_bytes t p @ rest) 8 (length p) = p"
    and "drop (8 + (length p + 7) div 8 * 8) (element_bytes t p @ rest) = rest"
    and "\<not> length (element_bytes t p @ rest) < 8"
proof -
  have "length p \<le> (length p + 7) div 8 * 8"
    by presburger
  then show "drop (8 + (length p + 7) div 8 * 8) (element_bytes t p @ rest) = rest"
    by (simp add: element_bytes_def)
  show "le_nat (part_of (element_bytes t p @ rest) 0 4) = t"
    "le_nat (part_of (element_bytes t p @ rest) 4 4) = length p"
    "part_of (element_bytes t p @ rest) 8 (length p) = p" "\<not> length (element_bytes t p @ rest) < 8"
    using assms by (simp_all add: element_bytes_def part_of_def le_nat_le_bytes)
qed

lemma elements_written [simp]:
  assumes "t < 65536" and "length p < 2 ^ 32"
  shows "elements (element_bytes t p @ rest) = (t, p) # elements rest"
    and "fits (element_bytes t p @ rest) = fits rest"
  using element_tag [OF assms, of rest] assms
    elements_from_drop [of "element_bytes t p @ rest" "8 + (length p + 7) div 8 * 8" 0]
    fits_from_drop [of "element_bytes t p @ rest" "8 + (length p + 7) div 8 * 8" 0]
  unfolding elements_def fits_def
  by (subst elements_from.simps fits_from.simps, simp add: Let_def)+

lemma elements_short_buffer [simp]: "length b < 8 \<Longrightarrow> elements b = []" "length b < 8 \<Longrightarrow> fits b"
  unfolding elements_def fits_def by (subst elements_from.simps fits_from.simps, simp)+

lemma part_of_concat:
  assumes "\<And>x. x \<in> set xs \<Longrightarrow> length (f x) = w" and "k < length xs"
  shows "part_of (concat (map f xs)) (k * w) w = f (xs ! k)"
  using assms
proof (induction xs arbitrary: k)
  case (Cons x xs)
  then show ?case
    by (cases k) (auto simp: part_of_def)
qed simp

lemma length_concat_const: "(\<And>x. x \<in> set xs \<Longrightarrow> length (f x) = w) \<Longrightarrow> length (concat (map f xs)) = length xs * w"
  by (induction xs) auto

lemma items_concat:
  assumes "\<And>x. x \<in> set xs \<Longrightarrow> length (f x) = w" and "0 < w"
  shows "items w (concat (map f xs)) = map f xs"
  using assms by (intro nth_equalityI) (auto simp: items_def length_concat_const part_of_concat)

text \<open>A matrix of doubles, and its reading.\<close>

definition words_bytes :: "nat \<Rightarrow> nat list \<Rightarrow> bytes" where
  "words_bytes w ns = concat (map (le_bytes w) ns)"

lemma words_bytes_length [simp]: "length (words_bytes w ns) = length ns * w"
  unfolding words_bytes_def by (rule length_concat_const) simp

definition array_bytes :: "nat list \<Rightarrow> nat list \<Rightarrow> bytes" where
  "array_bytes dims vs =
     element_bytes 6 (words_bytes 4 [6, 0]) @ element_bytes 5 (words_bytes 4 dims) @ element_bytes 1 []
     @ element_bytes 9 (words_bytes 8 vs)"

lemma array_read:
  assumes "length dims < 2 ^ 28" and "length vs < 2 ^ 28" and "\<forall>d \<in> set dims. d < 2 ^ 31" and "\<forall>v \<in> set vs. v < 2 ^ 64"
  shows "matrix (array_bytes dims vs) = Inr ([], Mat_Array (map int dims) (map Double vs))"
proof -
  have "elements (element_bytes 9 (words_bytes 8 vs) @ []) = (9, words_bytes 8 vs) # elements []"
    using assms(2) by (intro elements_written) simp_all
  then have e: "elements (array_bytes dims vs)
      = [(6, words_bytes 4 [6, 0]), (5, words_bytes 4 dims), (1, []), (9, words_bytes 8 vs)]"
    using assms(1) by (simp add: array_bytes_def)
  have d: "dimensions (words_bytes 4 dims) = Inr (map int dims)"
    using assms(3)
    by (auto simp: dimensions_def words_bytes_def length_concat_const items_concat le_int_def le_nat_le_bytes Let_def)
  have v: "numeric 9 (words_bytes 8 vs) = Inr (map Double vs)"
    using assms(4)
    by (auto simp: numeric_def numeric_code_def words_bytes_def length_concat_const items_concat le_nat_le_bytes)
  have f: "le_nat (take 4 (words_bytes 4 [6, 0])) mod 256 = 6"
    by (simp add: words_bytes_def le_nat_le_bytes)
  show ?thesis
    by (subst matrix.simps) (simp add: e d v f ascii_text_def)
qed

lemma array_fits:
  assumes "length dims < 2 ^ 28" and "length vs < 2 ^ 28"
  shows "fits (array_bytes dims vs)"
proof -
  have "fits (element_bytes 9 (words_bytes 8 vs) @ []) = fits []"
    using assms(2) by (intro elements_written) simp_all
  then show ?thesis
    using assms(1) by (simp add: array_bytes_def)
qed

section \<open>A recovered sweep\<close>

definition padded_name :: "string \<Rightarrow> bytes" where
  "padded_name f = map of_char f @ replicate (16 - length f) 0"

definition names_bytes :: bytes where
  "names_bytes = padded_name ''XYZ'' @ padded_name ''timestamp_laser'' @ padded_name ''Cam''"

definition scan_head :: bytes where
  "scan_head =
     element_bytes 6 (words_bytes 4 [2, 0]) @ element_bytes 5 (words_bytes 4 [1, 1])
     @ element_bytes 1 (map of_char ''SCAN'') @ element_bytes 5 (words_bytes 4 [16]) @ element_bytes 1 names_bytes
     @ element_bytes 14 (array_bytes [3, 1] [0x3FF0000000000000, 0x4000000000000000, 0x4008000000000000])
     @ element_bytes 14 (array_bytes [1, 1] [0x412E848000000000])"

text \<open>The whole data, and the data that end inside the cameras' field.\<close>

definition whole_data :: bytes where
  "whole_data = element_bytes 14 (scan_head @ element_bytes 14 (replicate 8 0))"

definition short_data :: bytes where
  "short_data = take (length whole_data - 8) whole_data"

definition ford_file :: bytes where
  "ford_file = mat_magic @ replicate (128 - length mat_magic) 0 @ element_bytes 15 []"

lemma element_bytes_length [simp]: "length (element_bytes t p) = 8 + (length p + 7) div 8 * 8"
proof -
  have "length p \<le> (length p + 7) div 8 * 8"
    by presburger
  then show ?thesis
    by (simp add: element_bytes_def)
qed

lemma array_bytes_length [simp]:
  "length (array_bytes dims vs) = 40 + (length dims * 4 + 7) div 8 * 8 + length vs * 8"
  by (simp add: array_bytes_def)

lemma names_length [simp]: "length names_bytes = 48"
  by (simp add: names_bytes_def padded_name_def)

lemma scan_head_length [simp]: "length scan_head = 264"
  by (simp add: scan_head_def)

definition scan_els :: "(nat \<times> bytes) list" where
  "scan_els =
     [(6, words_bytes 4 [2, 0]), (5, words_bytes 4 [1, 1]), (1, map of_char ''SCAN''), (5, words_bytes 4 [16]),
      (1, names_bytes),
      (14, array_bytes [3, 1] [0x3FF0000000000000, 0x4000000000000000, 0x4008000000000000]),
      (14, array_bytes [1, 1] [0x412E848000000000])]"

lemma elements_scan_head:
  "elements (scan_head @ rest) = scan_els @ elements rest" "fits (scan_head @ rest) = fits rest"
  by (simp_all add: scan_head_def scan_els_def)

lemma elements_cut:
  assumes "t < 65536" and "n < 2 ^ 32" and "length q \<le> n"
  shows "elements (le_bytes 4 t @ le_bytes 4 n @ q) = [(t, q)]"
proof -
  have "n \<le> (n + 7) div 8 * 8"
    by presburger
  then have "elements_from (le_bytes 4 t @ le_bytes 4 n @ q) (8 + (n + 7) div 8 * 8) = []"
    using assms(3) by (subst elements_from.simps) simp
  then show ?thesis
    using assms unfolding elements_def
    by (subst elements_from.simps) (simp add: part_of_def le_nat_le_bytes Let_def)
qed

definition cut_payload :: bytes where
  "cut_payload = scan_head @ le_bytes 4 14 @ le_bytes 4 8"

lemma short_data_value: "short_data = le_bytes 4 14 @ le_bytes 4 280 @ cut_payload" and
  short_data_prefix: "prefix short_data whole_data"
  by (simp_all add: short_data_def take_is_prefix whole_data_def element_bytes_def cut_payload_def)

lemma whole_elements:
  "elements whole_data = [(14, scan_head @ element_bytes 14 (replicate 8 0))]" "fits whole_data"
  "elements (scan_head @ element_bytes 14 (replicate 8 0)) = scan_els @ [(14, replicate 8 0)]"
  "fits (scan_head @ element_bytes 14 (replicate 8 0))"
proof -
  have "elements (element_bytes t p @ []) = [(t, p)] \<and> fits (element_bytes t p @ [])"
    if "t < 65536" "length p < 2 ^ 32" for t p
    using that by (simp del: append_Nil2)
  then have one: "elements (element_bytes t p) = [(t, p)]" "fits (element_bytes t p)"
    if "t < 65536" "length p < 2 ^ 32" for t p
    using that by simp_all
  show "elements whole_data = [(14, scan_head @ element_bytes 14 (replicate 8 0))]" "fits whole_data"
    by (simp_all add: whole_data_def one)
  show "elements (scan_head @ element_bytes 14 (replicate 8 0)) = scan_els @ [(14, replicate 8 0)]"
    "fits (scan_head @ element_bytes 14 (replicate 8 0))"
    unfolding elements_scan_head by (simp_all add: one)
qed

lemma cut_elements: "elements short_data = [(14, cut_payload)]" "elements cut_payload = scan_els @ [(14, [])]"
proof -
  show "elements short_data = [(14, cut_payload)]"
    unfolding short_data_value by (intro elements_cut) (simp_all add: cut_payload_def)
  show "elements cut_payload = scan_els @ [(14, [])]"
    unfolding cut_payload_def elements_scan_head using elements_cut [of 14 8 "[]"] by simp
qed

definition scan_fields :: "(mat_text \<times> mat) list" where
  "scan_fields =
     [(text_of ''XYZ'', Mat_Array [3, 1] [Double 0x3FF0000000000000, Double 0x4000000000000000, Double 0x4008000000000000]),
      (text_of ''timestamp_laser'', Mat_Array [1, 1] [Double 0x412E848000000000]), (text_of ''Cam'', Mat_None)]"

lemma names_read: "field_names (scan_els @ [el]) = Inr (map text_of [''XYZ'', ''timestamp_laser'', ''Cam''])"
proof -
  have "length (scan_els @ [el]) = 8" "(scan_els @ [el]) ! 3 = (5, words_bytes 4 [16])"
    "(scan_els @ [el]) ! 4 = (1, names_bytes)"
    by (simp_all add: scan_els_def)
  moreover have "le_int 4 (take 4 (words_bytes 4 [16])) = 16"
    by (simp add: words_bytes_def le_int_def le_nat_le_bytes)
  moreover have "all_some (map (\<lambda>k. field_name (part_of names_bytes (k * 16) 16)) [0..<3])
      = Some (map text_of [''XYZ'', ''timestamp_laser'', ''Cam''])"
    by code_simp
  ultimately show ?thesis
    by (simp add: field_names_def)
qed

lemma struct_read:
  assumes "struct_flag (elements p)" and "4 \<le> length (snd (elements p ! 0))" and "3 \<le> length (elements p)"
    and "dimensions (snd (elements p ! 1)) = Inr [1, 1]" and "field_names (elements p) = Inr names"
  shows "matrix p = Inr (ascii_text (snd (elements p ! 2)),
           Mat_Struct (put_fields (zip names (map field_value (drop 5 (elements p))))))"
proof -
  have "elements p \<noteq> []"
    using assms(3) by auto
  then show ?thesis
    using assms unfolding field_value_def [abs_def] struct_flag_def
    by (subst matrix.simps) simp
qed

lemma scan_read:
  assumes "elements p = scan_els @ [el]" and "field_value el = Mat_None"
  shows "matrix p = Inr (text_of ''SCAN'', Mat_Struct scan_fields)"
proof -
  have x: "field_value (14, array_bytes [3, 1] [0x3FF0000000000000, 0x4000000000000000, 0x4008000000000000])
      = Mat_Array [3, 1] [Double 0x3FF0000000000000, Double 0x4000000000000000, Double 0x4008000000000000]"
    "field_value (14, array_bytes [1, 1] [0x412E848000000000]) = Mat_Array [1, 1] [Double 0x412E848000000000]"
    by (simp_all add: field_value_def array_read)
  have e: "elements p ! 0 = (6, words_bytes 4 [2, 0])" "elements p ! 1 = (5, words_bytes 4 [1, 1])"
    "elements p ! 2 = (1, map of_char ''SCAN'')" "length (elements p) = 8"
    "map field_value (drop 5 (elements p)) =
       [Mat_Array [3, 1] [Double 0x3FF0000000000000, Double 0x4000000000000000, Double 0x4008000000000000],
        Mat_Array [1, 1] [Double 0x412E848000000000], Mat_None]"
    unfolding assms(1) by (simp_all add: scan_els_def x assms(2) del: One_nat_def)
  have "dimensions (words_bytes 4 [1, 1]) = Inr [1, 1]"
    by (simp add: dimensions_def words_bytes_def items_def part_of_def le_int_def le_nat_le_bytes upt_rec)
  moreover have "struct_flag (elements p)"
    by (simp add: struct_flag_def e words_bytes_def le_nat_le_bytes)
  ultimately have "matrix p = Inr (ascii_text (snd (elements p ! 2)),
      Mat_Struct (put_fields (zip (map text_of [''XYZ'', ''timestamp_laser'', ''Cam'']) (map field_value (drop 5 (elements p))))))"
    using names_read [of el] assms(1) e by (intro struct_read) (simp_all del: One_nat_def)
  moreover have "ascii_text (map of_char ''SCAN'') = text_of ''SCAN''"
    by code_simp
  moreover have "put_fields (zip (map text_of [''XYZ'', ''timestamp_laser'', ''Cam''])
      (map field_value (drop 5 (elements p)))) = scan_fields"
    by (simp add: e(5) put_fields_def scan_fields_def text_of_def del: One_nat_def)
  ultimately show ?thesis
    by (simp add: e(3))
qed

lemma cameras_unread: "field_value (14, replicate 8 0) = Mat_None" "field_value (14, []) = Mat_None"
proof -
  have "le_bytes 4 0 @ le_bytes 4 0 @ [] = replicate 8 0"
    by code_simp
  then have e: "elements (replicate 8 0) = [(0, [])]"
    using elements_cut [of 0 0 "[]"] by simp
  have "matrix (replicate 8 0) = Inl Struct_Error"
    by (subst matrix.simps) (simp only: e, simp)
  moreover have "matrix [] = Inl Index_Error"
    by (subst matrix.simps) simp
  ultimately show "field_value (14, replicate 8 0) = Mat_None" "field_value (14, []) = Mat_None"
    by (simp_all only: field_value_def snd_conv sum.case)
qed

lemma narrowed:
  "narrow 0x3FF0000000000000 = 0x3F800000" "narrow 0x4000000000000000 = 0x40000000"
  "narrow 0x4008000000000000 = 0x40400000" "to_int (Double 0x412E848000000000) = Inr 1000000"
  by (simp_all add: narrow_def nearest_even_def whole_float_def exponent_of_def significand_of_def Let_def)

lemma file_elements: "elements (drop 128 ford_file) = [(15, [])]"
proof -
  have "elements (element_bytes 15 [] @ []) = [(15, [])]"
    by (simp del: append_Nil2)
  then show ?thesis
    by (simp add: ford_file_def mat_magic_def)
qed

lemma sweeps_read:
  "ford_scan (\<lambda>z. Some (whole_data, True)) ford_file
     = Inr ([0x3F800000, 0x40000000, 0x40400000], 1000000, False)"
  "ford_scan (\<lambda>z. Some (short_data, False)) ford_file
     = Inr ([0x3F800000, 0x40000000, 0x40400000], 1000000, True)"
proof -
  have m: "take (length mat_magic) ford_file = mat_magic"
    by (simp add: ford_file_def)
  have r: "matrix (scan_head @ element_bytes 14 (replicate 8 0)) = Inr (text_of ''SCAN'', Mat_Struct scan_fields)"
    "matrix cut_payload = Inr (text_of ''SCAN'', Mat_Struct scan_fields)"
    using scan_read whole_elements(3) cut_elements(2) cameras_unread by blast+
  have s: "sweep_of ([(text_of ''SCAN'', Mat_Struct scan_fields)], short)
      = Inr ([0x3F800000, 0x40000000, 0x40400000], 1000000, short)" for short
    by (simp add: sweep_of_def scan_fields_def xyz_of_def time_of_def text_of_def narrowed del: to_int.simps)
  show "ford_scan (\<lambda>z. Some (whole_data, True)) ford_file
      = Inr ([0x3F800000, 0x40000000, 0x40400000], 1000000, False)"
    "ford_scan (\<lambda>z. Some (short_data, False)) ford_file
      = Inr ([0x3F800000, 0x40000000, 0x40400000], 1000000, True)"
    by (simp_all add: ford_scan_def read_mat_def m file_elements inflated_def whole_elements cut_elements r s)
qed

theorem recovered_sweep_is_whole_witness:
  "\<exists>pts t pts2 t2. ford_scan (\<lambda>z. Some (whole_data, True)) ford_file = Inr (pts, t, False)
     \<and> ford_scan (\<lambda>z. Some (short_data, False)) ford_file = Inr (pts2, t2, True) \<and> pts2 = pts"
proof -
  have p: "snd (hd (elements whole_data)) = scan_head @ element_bytes 14 (replicate 8 0)"
    by (simp add: whole_elements)
  have "fits (element_bytes 0 [] @ [])"
    by (simp del: append_Nil2)
  moreover have "element_bytes 0 [] = replicate 8 0"
    by code_simp
  ultimately have "fits (replicate 8 0)"
    by simp
  then have f: "\<forall>el \<in> set (drop 5 (scan_els @ [(14, replicate 8 0)])). fits (snd el)"
    by (simp add: scan_els_def array_fits)
  have "distinct (map text_of [''XYZ'', ''timestamp_laser'', ''Cam''])"
    by code_simp
  then have n: "\<forall>names. field_names (scan_els @ [(14, replicate 8 0)]) = Inr names \<longrightarrow> distinct names"
    unfolding names_read by simp
  show ?thesis
    using recovered_sweep_is_whole [OF sweeps_read file_elements refl refl short_data_prefix whole_elements(2),
        unfolded p whole_elements(3), OF whole_elements(4) f n] sweeps_read by blast
qed

end
