(* ===== verification/Dataset_Replay.thy ===== *)
theory Dataset_Replay
  imports Dataset_Props
begin

text \<open>
  A converted dataset in the client's replay: what \<open>convert\<close> writes (tools/lidar_dataset.py) opens with
  \<open>new_replay\<close> (ros2/src/mec_cast_lidar_client/mec_cast_lidar_client/replay.py) and plays every point of
  every chosen scan, and a conversion that fails leaves the dataset that was there.
\<close>

section \<open>What has been written\<close>












section \<open>The index read back\<close>




text \<open>A conversion that fails leaves the dataset that was there: whatever the reason, the points and the
  index of the output directory are those of before.\<close>

theorem failed_conversion_keeps_dataset:
  assumes "convert inflate dir src first count d = (Inl e, d')"
  shows "od_points d' = od_points d \<and> od_index d' = od_index d"
  using assms by (auto simp: convert_def split: if_splits prod.splits option.splits)

text \<open>Choosing no scan replaces the dataset that was there by one the replay refuses, and only then fails.\<close>

lemma empty_choice_replaces_dataset:
  assumes "scan_files dir \<noteq> []" and "chosen_files dir first count = []"
  shows "\<exists>d'. dataset_main inflate dir src first count d = (Inl No_Frames, d') \<and> od_points d' = Some []
    \<and> (\<forall>name start loop mx. \<exists>e. new_replay name (od_index d') (Some 0) start loop mx = Inl e)"
proof -
  have "convert inflate dir src first count d
      = (Inr no_conversion, \<lparr>od_part = None, od_points = Some [], od_index = Some (index_json src no_conversion)\<rparr>)"
    using assms by (simp add: convert_def no_conversion_def)
  moreover have "\<exists>e. new_replay name (Some (index_json src no_conversion)) (Some 0) start loop mx = Inl e"
    for name start loop mx
    by (simp add: new_replay_def index_json_def pget_def no_conversion_def)
  ultimately show ?thesis
    by (simp add: dataset_main_def summary_def no_conversion_def)
qed

section \<open>Witnesses\<close>

definition no_dataset :: out_dir where
  "no_dataset = \<lparr>od_part = None, od_points = None, od_index = None\<rparr>"

definition two_scans :: "(string \<times> bytes) list" where
  "two_scans = [(''Scan0012.mat'', ford_file), (''notes.txt'', []), (''Scan0002.mat'', ford_file)]"

lemma two_scans_order: "map fst (chosen_files two_scans 0 None) = [''Scan0002.mat'', ''Scan0012.mat'']"
  and two_scans_files: "\<forall>f \<in> set (chosen_files two_scans 0 None). snd f = ford_file"
proof -
  have n: "scan_number ''Scan0012.mat'' = 12" "scan_number ''Scan0002.mat'' = 2"
    by code_simp+
  have s: "is_scan ''Scan0012.mat''" "is_scan ''Scan0002.mat''" "\<not> is_scan ''notes.txt''"
    by code_simp+
  have "chosen_files two_scans 0 None = [(''Scan0002.mat'', ford_file), (''Scan0012.mat'', ford_file)]"
    by (simp add: chosen_files_def scan_files_def two_scans_def n s py_slice_def slice_end_def)
  then show "map fst (chosen_files two_scans 0 None) = [''Scan0002.mat'', ''Scan0012.mat'']"
    "\<forall>f \<in> set (chosen_files two_scans 0 None). snd f = ford_file"
    by simp_all
qed


theorem failed_conversion_keeps_dataset_witness:
  "\<exists>d'. convert (\<lambda>z. None) two_scans ''x'' 0 None (no_dataset\<lparr>od_points := Some [7]\<rparr>)
       = (Inl (Read_Failed Zlib_Error), d') \<and> od_points d' = Some [7]"
proof -
  obtain f fs where f: "chosen_files two_scans 0 None = f # fs" "snd f = ford_file"
    using two_scans_order two_scans_files by (cases "chosen_files two_scans 0 None") auto
  then have ne: "scan_files two_scans \<noteq> []"
    by (auto simp: chosen_files_def py_slice_def)
  have "take (length mat_magic) ford_file = mat_magic"
    by (simp add: ford_file_def)
  then have "ford_scan (\<lambda>z. None) ford_file = Inl Zlib_Error"
    by (simp add: ford_scan_def read_mat_def file_elements inflated_def)
  then obtain d' where "convert (\<lambda>z. None) two_scans ''x'' 0 None (no_dataset\<lparr>od_points := Some [7]\<rparr>)
      = (Inl (Read_Failed Zlib_Error), d')"
    using f ne by (cases f) (simp add: convert_def)
  then show ?thesis
    using failed_conversion_keeps_dataset by fastforce
qed

end
