(* ===== verification/Lidar_Patterns.thy ===== *)
theory Lidar_Patterns
  imports Py_Prelude
begin

text \<open>
  The generated clouds of the lidar client
  (ros2/src/mec_cast_lidar_client/mec_cast_lidar_client/publisher_node.py, the branches of
  \<open>generate_points\<close> that compute points): ten shapes, each a function of the frame's number, the number
  of points asked for and the frame's draws.

  Coordinates are exact reals: the rounding to 32 bits is not modelled. numpy's generator is a
  parameter: \<open>rnd\<close> and \<open>gauss\<close> are the frame's draws in order, \<open>base\<close> those of the swarm's own
  generator. A point is \<open>None\<close> where numpy makes a NaN or an infinity of it.
\<close>

section \<open>Arithmetic of arrays\<close>

type_synonym rpoint = "real \<times> real \<times> real"

definition extent :: real where
  "extent = 10"

definition centre :: real where
  "centre = 5"

text \<open>\<open>np.linspace(a, b, n)[i]\<close>, with and without its end.\<close>

definition linspace :: "real \<Rightarrow> real \<Rightarrow> nat \<Rightarrow> nat \<Rightarrow> real" where
  "linspace a b n i = (if n = 1 then a else a + (b - a) * real i / real (n - 1))"

definition linspace_open :: "real \<Rightarrow> real \<Rightarrow> nat \<Rightarrow> nat \<Rightarrow> real" where
  "linspace_open a b n i = a + (b - a) * real i / real n"

definition int_sqrt :: "nat \<Rightarrow> nat" where
  "int_sqrt n = nat \<lfloor>sqrt (real n)\<rfloor>"

text \<open>One revolution every 360 frames.\<close>

definition phase :: "nat \<Rightarrow> real" where
  "phase seq = real (seq mod 360) * (pi / 180)"

text \<open>The rows of a mesh of two axes, the second running slowest.\<close>

definition grid :: "nat \<Rightarrow> nat \<Rightarrow> (nat \<Rightarrow> nat \<Rightarrow> 'a) \<Rightarrow> 'a list" where
  "grid rows cols f = concat (map (\<lambda>i. map (f i) [0..<cols]) [0..<rows])"

text \<open>The triple of draws of row \<open>i\<close>.\<close>

definition row_of :: "(nat \<Rightarrow> real) \<Rightarrow> nat \<Rightarrow> rpoint" where
  "row_of d i = (d (3 * i), d (3 * i + 1), d (3 * i + 2))"

section \<open>The shapes\<close>

definition uniform_cube :: "(nat \<Rightarrow> real) \<Rightarrow> nat \<Rightarrow> rpoint list" where
  "uniform_cube rnd n = map (\<lambda>i. case row_of rnd i of (x, y, z) \<Rightarrow> (x * 10, y * 10, z * 10)) [0..<n]"

definition norm_of :: "rpoint \<Rightarrow> real" where
  "norm_of p = (case p of (x, y, z) \<Rightarrow> sqrt (x\<^sup>2 + y\<^sup>2 + z\<^sup>2))"

definition on_sphere :: "rpoint \<Rightarrow> rpoint option" where
  "on_sphere p =
     (case p of (x, y, z) \<Rightarrow>
        if norm_of p = 0 then None
        else Some (x / norm_of p * 4 + 5, y / norm_of p * 4 + 5, z / norm_of p * 4 + 5))"

definition sphere :: "(nat \<Rightarrow> real) \<Rightarrow> nat \<Rightarrow> rpoint option list" where
  "sphere gauss n = map (\<lambda>i. on_sphere (row_of gauss i)) [0..<n]"

definition rotated :: "real \<Rightarrow> rpoint \<Rightarrow> rpoint" where
  "rotated a p =
     (case p of (x, y, z) \<Rightarrow>
        (cos a * x + sin a * z + centre, y + centre, - (sin a * x) + cos a * z + centre))"

definition rotating_plane :: "nat \<Rightarrow> nat \<Rightarrow> rpoint list" where
  "rotating_plane seq n =
     (let side = int_sqrt n; g = linspace (- 5) 5 side
      in grid side side (\<lambda>i j. rotated (phase seq) (g j, g i, 0)))"

definition torus :: "(nat \<Rightarrow> real) \<Rightarrow> nat \<Rightarrow> nat \<Rightarrow> rpoint list" where
  "torus rnd seq n =
     map (\<lambda>i.
       let u = rnd i * (2 * pi); v = rnd (n + i) * (2 * pi); a = phase seq;
           x = (3 + 1 * cos v) * cos u; y = (3 + 1 * cos v) * sin u; z = 1 * sin v
       in (x + centre, y * cos a - z * sin a + centre, y * sin a + z * cos a + centre)) [0..<n]"

definition helix :: "nat \<Rightarrow> nat \<Rightarrow> rpoint list" where
  "helix seq num =
     (let n = max (num div 2) 1; t = (\<lambda>i. linspace 0 (6 * pi) n i + phase seq);
          z = linspace (1 / 2) (extent - 1 / 2) n
      in concat (map (\<lambda>offset. map (\<lambda>i.
           (centre + 3 * cos (t i + offset), centre + 3 * sin (t i + offset), z i)) [0..<n]) [0, pi]))"

definition wave :: "nat \<Rightarrow> nat \<Rightarrow> rpoint list" where
  "wave seq num =
     (let side = max (int_sqrt num) 2; g = linspace 0 extent side; a = phase seq
      in grid side side (\<lambda>i j.
           (g j, g i, centre + 3 / 2 * sin (g j * (4 / 5) + a) * cos (g i * (4 / 5) + a))))"

definition cylinder :: "(nat \<Rightarrow> real) \<Rightarrow> nat \<Rightarrow> nat \<Rightarrow> rpoint list" where
  "cylinder rnd seq n =
     map (\<lambda>i.
       let x = rnd i * extent; th = rnd (n + i) * (2 * pi); r = 3 + 2 / 5 * sin (3 * th + phase seq)
       in (x, centre + r * cos th, centre + r * sin th)) [0..<n]"

text \<open>An edge runs along one axis; the other two coordinates are corners, in the order of the axes.\<close>

definition edge_point :: "nat \<Rightarrow> real \<Rightarrow> real \<Rightarrow> real \<Rightarrow> rpoint" where
  "edge_point axis c d v = (if axis = 0 then (v, c, d) else if axis = 1 then (c, v, d) else (c, d, v))"

definition cube_edges :: "nat \<Rightarrow> rpoint list" where
  "cube_edges n =
     (let lo = 1 / 2; hi = extent - 1 / 2; corner = (\<lambda>i :: nat. if i = 0 then lo else hi);
          per = max (n div 12) 1; t = linspace 0 1 per
      in concat (map (\<lambda>axis. concat (map (\<lambda>i. concat (map (\<lambda>j.
           map (\<lambda>k. edge_point axis (corner i) (corner j) (lo + (hi - lo) * t k)) [0..<per])
           [0, 1])) [0, 1])) [0, 1, 2]))"

definition clip :: "real \<Rightarrow> real \<Rightarrow> real \<Rightarrow> real" where
  "clip lo hi v = max lo (min hi v)"

definition swarm :: "(nat \<Rightarrow> real) \<Rightarrow> (nat \<Rightarrow> real) \<Rightarrow> nat \<Rightarrow> nat \<Rightarrow> rpoint list" where
  "swarm gauss base seq n =
     (let a = phase seq; per = max (n div 8) 1;
          blob = (\<lambda>i. case row_of base i of (x, y, z) \<Rightarrow>
            (x * (extent - 3) + 3 / 2 + 4 / 5 * sin (a + real i),
             y * (extent - 3) + 3 / 2 + 4 / 5 * cos (a + real i),
             z * (extent - 3) + 3 / 2 + 4 / 5 * sin (2 * a + real i)))
      in grid 8 per (\<lambda>i j. case (blob i, row_of gauss (i * per + j)) of ((x, y, z), (dx, dy, dz)) \<Rightarrow>
           (clip 0 extent (x + dx * (9 / 20)), clip 0 extent (y + dy * (9 / 20)),
            clip 0 extent (z + dz * (9 / 20)))))"

section \<open>The scan of a room\<close>

text \<open>When a ray meets the two planes of an axis; \<open>None\<close> is infinity.\<close>

definition slab_time :: "real \<Rightarrow> real option" where
  "slab_time d = (if \<bar>d\<bar> < 1 / 1000000 then None else Some (((if 0 < d then 10 else 0) - 5) / d))"

definition ray_hit :: "rpoint \<Rightarrow> rpoint option" where
  "ray_hit p =
     (case p of (x, y, z) \<Rightarrow>
        (case concat (map (\<lambda>d. case slab_time d of None \<Rightarrow> [] | Some t \<Rightarrow> [t]) [x, y, z]) of
           [] \<Rightarrow> None
         | t # ts \<Rightarrow> (let m = fold min ts t in Some (5 + x * m, 5 + y * m, 5 + z * m))))"

definition ray :: "real \<Rightarrow> real \<Rightarrow> rpoint" where
  "ray el az = (cos el * cos az, cos el * sin az, sin el)"

definition lidar_scan :: "nat \<Rightarrow> nat \<Rightarrow> rpoint option list" where
  "lidar_scan seq n =
     (let per_beam = max 1 (n div 16)
      in grid 16 per_beam (\<lambda>i j.
           ray_hit (ray (linspace (- 15) 15 16 i * (pi / 180)) (linspace_open 0 (2 * pi) per_beam j + phase seq))))"

section \<open>A frame's cloud\<close>

definition generated ::
  "string \<Rightarrow> (nat \<Rightarrow> real) \<Rightarrow> (nat \<Rightarrow> real) \<Rightarrow> (nat \<Rightarrow> real) \<Rightarrow> nat \<Rightarrow> nat \<Rightarrow> rpoint option list" where
  "generated pattern rnd gauss base seq n =
     (if pattern = ''uniform_cube'' then map Some (uniform_cube rnd n)
      else if pattern = ''sphere'' then sphere gauss n
      else if pattern = ''lidar_scan'' then lidar_scan seq n
      else if pattern = ''torus'' then map Some (torus rnd seq n)
      else if pattern = ''helix'' then map Some (helix seq n)
      else if pattern = ''wave'' then map Some (wave seq n)
      else if pattern = ''cylinder'' then map Some (cylinder rnd seq n)
      else if pattern = ''cube_edges'' then map Some (cube_edges n)
      else if pattern = ''swarm'' then map Some (swarm gauss base seq n)
      else map Some (rotating_plane seq n))"

section \<open>Inside the box\<close>

definition in_box :: "rpoint \<Rightarrow> bool" where
  "in_box p = (case p of (x, y, z) \<Rightarrow> 0 \<le> x \<and> x \<le> extent \<and> 0 \<le> y \<and> y \<le> extent \<and> 0 \<le> z \<and> z \<le> extent)"

lemma set_grid: "p \<in> set (grid rows cols f) \<longleftrightarrow> (\<exists>i < rows. \<exists>j < cols. p = f i j)"
  by (fastforce simp: grid_def)

lemma set_concat_map: "p \<in> set (concat (map f xs)) \<longleftrightarrow> (\<exists>x \<in> set xs. p \<in> set (f x))"
  and set_upt_map: "q \<in> set (map g [0..<n]) \<longleftrightarrow> (\<exists>i < n. q = g i)"
  by auto

lemma linspace_between:
  assumes "a \<le> b" and "i < n"
  shows "a \<le> linspace a b n i" and "linspace a b n i \<le> b"
proof -
  have "n \<noteq> 1 \<Longrightarrow> real i / real (n - 1) \<le> 1"
    using assms(2) by (simp add: divide_le_eq)
  then have "n \<noteq> 1 \<Longrightarrow> (b - a) * (real i / real (n - 1)) \<le> (b - a) * 1"
    using assms(1) by (intro mult_left_mono) auto
  then show "linspace a b n i \<le> b" "a \<le> linspace a b n i"
    using assms(1) by (auto simp: linspace_def)
qed

text \<open>A product with a sine or cosine stays within the factor.\<close>

lemma times_unit: "\<bar>u\<bar> \<le> 1 \<Longrightarrow> \<bar>c * u\<bar> \<le> \<bar>c\<bar>" for c u :: real
  by (simp add: abs_mult mult_left_le)

lemma square_bound: "x\<^sup>2 \<le> c\<^sup>2 \<Longrightarrow> 0 \<le> c \<Longrightarrow> \<bar>x\<bar> \<le> c" for x c :: real
  using abs_le_square_iff [of x c] by simp

lemma cube_in_box:
  assumes "\<forall>i. 0 \<le> rnd i \<and> rnd i < 1" and "p \<in> set (uniform_cube rnd n)"
  shows "in_box p"
proof -
  obtain i where p: "p = (rnd (3 * i) * 10, rnd (3 * i + 1) * 10, rnd (3 * i + 2) * 10)"
    using assms(2) by (auto simp: uniform_cube_def row_of_def)
  have "0 \<le> rnd k * 10 \<and> rnd k * 10 \<le> 10" for k
    using assms(1) [rule_format, of k] by simp
  then show ?thesis
    unfolding p by (simp add: in_box_def extent_def)
qed

lemma on_sphere_in_box:
  assumes "norm_of p \<noteq> 0"
  shows "\<exists>q. on_sphere p = Some q \<and> in_box q"
proof -
  obtain x y z where p: "p = (x, y, z)"
    by (cases p)
  have pos: "0 < norm_of p"
    using assms by (auto simp: norm_of_def p less_le sum_power2_ge_zero)
  have sq: "(norm_of p)\<^sup>2 = x\<^sup>2 + y\<^sup>2 + z\<^sup>2"
    by (simp add: norm_of_def p)
  have one: "\<bar>v / norm_of p\<bar> \<le> 1" if "v\<^sup>2 \<le> (norm_of p)\<^sup>2" for v
    using square_bound [OF that] pos by (simp add: divide_le_eq)
  have "x\<^sup>2 \<le> (norm_of p)\<^sup>2" "y\<^sup>2 \<le> (norm_of p)\<^sup>2" "z\<^sup>2 \<le> (norm_of p)\<^sup>2"
    unfolding sq by simp_all
  then have "\<bar>x / norm_of p\<bar> \<le> 1" "\<bar>y / norm_of p\<bar> \<le> 1" "\<bar>z / norm_of p\<bar> \<le> 1"
    using one by blast+
  moreover have "0 \<le> u * 4 + 5 \<and> u * 4 + 5 \<le> 10" if "\<bar>u\<bar> \<le> 1" for u :: real
    using that by linarith
  moreover have "on_sphere p = Some (x / norm_of p * 4 + 5, y / norm_of p * 4 + 5, z / norm_of p * 4 + 5)"
    using assms unfolding on_sphere_def by (simp add: p)
  ultimately show ?thesis
    unfolding in_box_def extent_def by blast
qed

lemma plane_in_box:
  assumes "p \<in> set (rotating_plane seq n)"
  shows "in_box p"
proof -
  let ?g = "linspace (- 5) 5 (int_sqrt n)"
  obtain i j where ij: "i < int_sqrt n" "j < int_sqrt n" "p = rotated (phase seq) (?g j, ?g i, 0)"
    using assms unfolding rotating_plane_def Let_def set_grid by blast
  have g: "\<bar>?g k\<bar> \<le> 5" if "k < int_sqrt n" for k
    using linspace_between [of "- 5" 5 k "int_sqrt n"] that by (simp add: abs_le_iff)
  have "\<bar>?g j * u\<bar> \<le> 5" if "\<bar>u\<bar> \<le> 1" for u
    using times_unit [OF that, of "?g j"] g [OF ij(2)] by linarith
  from this [of "cos (phase seq)"] this [of "sin (phase seq)"] show ?thesis
    using g [OF ij(1)] unfolding ij(3)
    by (simp add: rotated_def in_box_def centre_def extent_def abs_le_iff mult.commute)
qed

lemma rotation_keeps_norm: "(y * cos a - z * sin a)\<^sup>2 + (y * sin a + z * cos a)\<^sup>2 = y\<^sup>2 + z\<^sup>2" for y z a :: real
proof -
  have "(y * cos a - z * sin a)\<^sup>2 + (y * sin a + z * cos a)\<^sup>2 = (y\<^sup>2 + z\<^sup>2) * ((sin a)\<^sup>2 + (cos a)\<^sup>2)"
    by (simp add: power2_eq_square algebra_simps del: sin_cos_squared_add sin_cos_squared_add2 sin_cos_squared_add3)
  then show ?thesis
    by simp
qed

lemma torus_in_box:
  assumes "p \<in> set (torus rnd seq n)"
  shows "in_box p"
proof -
  obtain u v a where p: "p = ((3 + cos v) * cos u + centre,
      (3 + cos v) * sin u * cos a - sin v * sin a + centre, (3 + cos v) * sin u * sin a + sin v * cos a + centre)"
    using assms by (auto simp: torus_def Let_def)
  let ?R = "3 + cos v"
  have R: "\<bar>?R\<bar> \<le> 4"
    using cos_le_one [of v] cos_ge_minus_one [of v] by linarith
  have x: "\<bar>?R * cos u\<bar> \<le> 4"
    using times_unit [of "cos u" ?R] R abs_cos_le_one [of u] by linarith
  have "(?R * sin u)\<^sup>2 \<le> ?R\<^sup>2"
    by (simp add: power_mult_distrib mult_left_le abs_square_le_1)
  moreover have "?R\<^sup>2 + (sin v)\<^sup>2 = 10 + 6 * cos v"
    using sin_cos_squared_add [of v] by (simp add: power2_sum)
  ultimately have "(?R * sin u)\<^sup>2 + (sin v)\<^sup>2 \<le> 16"
    using cos_le_one [of v] by linarith
  moreover note rotation_keeps_norm [of "?R * sin u" a "sin v"]
  ultimately have "(?R * sin u * cos a - sin v * sin a)\<^sup>2 + (?R * sin u * sin a + sin v * cos a)\<^sup>2 \<le> 4\<^sup>2"
    by simp
  then have "(?R * sin u * cos a - sin v * sin a)\<^sup>2 \<le> 4\<^sup>2" "(?R * sin u * sin a + sin v * cos a)\<^sup>2 \<le> 4\<^sup>2"
    by (smt (verit) zero_le_power2)+
  then have "\<bar>?R * sin u * cos a - sin v * sin a\<bar> \<le> 4" "\<bar>?R * sin u * sin a + sin v * cos a\<bar> \<le> 4"
    by (intro square_bound; simp)+
  then show ?thesis
    using x unfolding p by (simp add: in_box_def centre_def extent_def abs_le_iff)
qed

lemma near_centre: "\<bar>v\<bar> \<le> 17 / 5 \<Longrightarrow> 0 \<le> centre + v \<and> centre + v \<le> extent"
  unfolding centre_def extent_def by linarith

lemma sine_within: "\<bar>c * sin a\<bar> \<le> \<bar>c\<bar>" "\<bar>c * cos a\<bar> \<le> \<bar>c\<bar>" for c a :: real
  by (intro times_unit abs_sin_le_one abs_cos_le_one)+

lemma helix_in_box:
  assumes "p \<in> set (helix seq num)"
  shows "in_box p"
proof -
  obtain i a where p: "i < max (num div 2) 1"
      "p = (centre + 3 * cos a, centre + 3 * sin a, linspace (1 / 2) (extent - 1 / 2) (max (num div 2) 1) i)"
    using assms unfolding helix_def Let_def set_concat_map set_upt_map by blast
  have "1 / 2 \<le> linspace (1 / 2) (extent - 1 / 2) (max (num div 2) 1) i"
    "linspace (1 / 2) (extent - 1 / 2) (max (num div 2) 1) i \<le> extent - 1 / 2"
    using p(1) by (intro linspace_between; simp add: extent_def)+
  moreover have "\<bar>3 * cos a\<bar> \<le> 17 / 5" "\<bar>3 * sin a\<bar> \<le> 17 / 5"
    using sine_within [of 3 a] by linarith+
  ultimately show ?thesis
    using near_centre [of "3 * cos a"] near_centre [of "3 * sin a"] unfolding p(2) in_box_def by (simp add: extent_def)
qed

lemma wave_in_box:
  assumes "p \<in> set (wave seq num)"
  shows "in_box p"
proof -
  let ?side = "max (int_sqrt num) 2"
  let ?g = "linspace 0 extent ?side"
  obtain i j a b where ij: "i < ?side" "j < ?side" "p = (?g j, ?g i, centre + 3 / 2 * sin a * cos b)"
    using assms unfolding wave_def Let_def set_grid by blast
  have g: "0 \<le> ?g k \<and> ?g k \<le> extent" if "k < ?side" for k
    using linspace_between [of 0 extent k ?side] that by (simp add: extent_def)
  have "\<bar>3 / 2 * sin a * cos b\<bar> \<le> 3 / 2"
    using sine_within(2) [of "3 / 2 * sin a" b] sine_within(1) [of "3 / 2" a] by linarith
  then show ?thesis
    using g [OF ij(1)] g [OF ij(2)] unfolding ij(3) by (simp add: in_box_def centre_def extent_def abs_le_iff)
qed

lemma cylinder_in_box:
  assumes "\<forall>i. 0 \<le> rnd i \<and> rnd i < 1" and "p \<in> set (cylinder rnd seq n)"
  shows "in_box p"
proof -
  obtain i th b where p: "p = (rnd i * extent, centre + (3 + 2 / 5 * sin b) * cos th, centre + (3 + 2 / 5 * sin b) * sin th)"
    using assms(2) by (auto simp: cylinder_def Let_def)
  let ?r = "3 + 2 / 5 * sin b"
  have "\<bar>?r\<bar> \<le> 17 / 5"
    using sine_within(1) [of "2 / 5" b] by linarith
  then have "\<bar>?r * cos th\<bar> \<le> 17 / 5" "\<bar>?r * sin th\<bar> \<le> 17 / 5"
    using sine_within [of ?r th] by linarith+
  moreover have "0 \<le> rnd i * extent \<and> rnd i * extent \<le> extent"
    using assms(1) [rule_format, of i] by (simp add: extent_def)
  ultimately show ?thesis
    using near_centre [of "?r * cos th"] near_centre [of "?r * sin th"] unfolding p in_box_def by simp
qed

lemma edges_in_box:
  assumes "p \<in> set (cube_edges n)"
  shows "in_box p"
proof -
  let ?per = "max (n div 12) 1"
  obtain axis :: nat and i j :: nat and k where k: "k < ?per" and
    p: "p = edge_point axis (if i = 0 then 1 / 2 else extent - 1 / 2) (if j = 0 then 1 / 2 else extent - 1 / 2)
          (1 / 2 + (extent - 1 / 2 - 1 / 2) * linspace 0 1 ?per k)"
    using assms unfolding cube_edges_def Let_def set_concat_map set_upt_map by blast
  have "0 \<le> linspace 0 1 ?per k" "linspace 0 1 ?per k \<le> 1"
    using k by (intro linspace_between; simp)+
  then show ?thesis
    unfolding p by (simp add: edge_point_def in_box_def extent_def)
qed

lemma swarm_in_box:
  assumes "p \<in> set (swarm gauss base seq n)"
  shows "in_box p"
proof -
  have "0 \<le> clip 0 extent v \<and> clip 0 extent v \<le> extent" for v
    by (simp add: clip_def extent_def)
  then show ?thesis
    using assms unfolding swarm_def Let_def set_grid case_prod_beta by (auto simp: in_box_def)
qed

section \<open>The walls of the room\<close>

definition on_wall :: "rpoint \<Rightarrow> bool" where
  "on_wall p = (case p of (x, y, z) \<Rightarrow> x \<in> {0, extent} \<or> y \<in> {0, extent} \<or> z \<in> {0, extent})"

lemma slab_time_Some:
  assumes "slab_time d = Some t"
  shows "\<bar>d\<bar> * t = 5" and "1 / 1000000 \<le> \<bar>d\<bar>" and "0 < t"
proof -
  show d: "\<bar>d\<bar> * t = 5" "1 / 1000000 \<le> \<bar>d\<bar>"
    using assms by (auto simp: slab_time_def field_simps split: if_splits)
  have "0 < \<bar>d\<bar> * t" "0 < \<bar>d\<bar>"
    using d by linarith+
  then show "0 < t"
    by (rule zero_less_mult_pos)
qed

lemma fold_min: "fold min ts t \<in> insert t (set ts) \<and> (\<forall>s \<in> insert t (set ts). fold min ts t \<le> s)" for t :: real
proof (induction ts arbitrary: t)
  case (Cons s ts)
  have "fold min (s # ts) t = fold min ts (min s t)"
    by simp
  then show ?case
    using Cons.IH [of "min s t"] by (auto simp: min_def split: if_splits)
qed simp

lemma ray_unit: "ray el az = (x, y, z) \<Longrightarrow> x\<^sup>2 + y\<^sup>2 + z\<^sup>2 = 1"
proof -
  assume "ray el az = (x, y, z)"
  then have "x\<^sup>2 + y\<^sup>2 + z\<^sup>2 = (cos el)\<^sup>2 * ((sin az)\<^sup>2 + (cos az)\<^sup>2) + (sin el)\<^sup>2"
    unfolding distrib_left by (auto simp: ray_def power_mult_distrib)
  then show ?thesis
    by simp
qed

definition finite_times :: "real list \<Rightarrow> real list" where
  "finite_times ds = concat (map (\<lambda>d. case slab_time d of None \<Rightarrow> [] | Some t \<Rightarrow> [t]) ds)"

lemma finite_times_mem: "t \<in> set (finite_times ds) \<longleftrightarrow> (\<exists>d \<in> set ds. slab_time d = Some t)"
  by (force simp: finite_times_def split: option.splits)

text \<open>Some axis of a unit vector is not parallel to its planes.\<close>

lemma some_axis:
  fixes x y z :: real
  assumes "x\<^sup>2 + y\<^sup>2 + z\<^sup>2 = 1"
  shows "\<exists>d \<in> {x, y, z}. 1 / 2 \<le> \<bar>d\<bar>"
proof (rule ccontr)
  assume "\<not> ?thesis"
  then have "\<bar>x\<bar> \<le> \<bar>1 / 2\<bar>" "\<bar>y\<bar> \<le> \<bar>1 / 2\<bar>" "\<bar>z\<bar> \<le> \<bar>1 / 2\<bar>"
    by auto
  then have "x\<^sup>2 \<le> (1 / 2)\<^sup>2" "y\<^sup>2 \<le> (1 / 2)\<^sup>2" "z\<^sup>2 \<le> (1 / 2)\<^sup>2"
    by (simp_all only: abs_le_square_iff)
  then show False
    using assms by (simp add: power2_eq_square)
qed

lemma ray_hit_walls:
  assumes "x\<^sup>2 + y\<^sup>2 + z\<^sup>2 = 1"
  shows "\<exists>p. ray_hit (x, y, z) = Some p \<and> in_box p \<and> on_wall p"
proof -
  obtain d0 where d0: "d0 \<in> {x, y, z}" "1 / 2 \<le> \<bar>d0\<bar>"
    using some_axis [OF assms] by blast
  then obtain t0 where t0: "slab_time d0 = Some t0"
    by (auto simp: slab_time_def)
  then have "t0 \<in> set (finite_times [x, y, z])"
    using d0(1) unfolding finite_times_mem by auto
  then obtain t ts where ts: "finite_times [x, y, z] = t # ts"
    by (cases "finite_times [x, y, z]") auto
  define m where "m = fold min ts t"
  have hit: "ray_hit (x, y, z) = Some (5 + x * m, 5 + y * m, 5 + z * m)"
    using ts unfolding ray_hit_def finite_times_def m_def by (simp add: Let_def)
  have m: "m \<in> set (finite_times [x, y, z])" "\<forall>s \<in> set (finite_times [x, y, z]). m \<le> s"
    using fold_min [of ts t] unfolding ts m_def by simp_all
  obtain d where d: "d \<in> {x, y, z}" "slab_time d = Some m"
    using m(1) unfolding finite_times_mem by auto
  have pos: "0 < m"
    using slab_time_Some(3) [OF d(2)] .
  have "t0 \<in> set (finite_times [x, y, z])"
    using t0 d0(1) unfolding finite_times_mem by auto
  then have "m \<le> t0"
    using m(2) by blast
  have "\<bar>d0\<bar> * t0 = 5"
    using slab_time_Some(1) [OF t0] .
  moreover note \<open>m \<le> t0\<close>
  moreover have "1 / 2 * t0 \<le> \<bar>d0\<bar> * t0"
    using d0(2) slab_time_Some(3) [OF t0] by (intro mult_right_mono) auto
  ultimately have ten: "m \<le> 10"
    by linarith
  have within: "\<bar>e * m\<bar> \<le> 5" if e: "e \<in> {x, y, z}" for e
  proof (cases "slab_time e")
    case None
    then have "\<bar>e\<bar> * m \<le> 1 / 1000000 * 10"
      using pos ten by (intro mult_mono) (auto simp: slab_time_def split: if_splits)
    then show ?thesis
      using pos by (simp add: abs_mult)
  next
    case (Some s)
    then have "s \<in> set (finite_times [x, y, z])"
      using e unfolding finite_times_mem by auto
    then have "m \<le> s"
      using m(2) by blast
    then have "\<bar>e\<bar> * m \<le> \<bar>e\<bar> * s"
      by (intro mult_left_mono) auto
    then show ?thesis
      using slab_time_Some(1) [OF Some] pos by (simp add: abs_mult)
  qed
  have "\<bar>d * m\<bar> = 5"
    using slab_time_Some(1) [OF d(2)] pos by (simp add: abs_mult)
  then have "d * m = 5 \<or> d * m = - 5"
    by linarith
  then have "5 + d * m \<in> {0, extent}"
    by (auto simp: extent_def)
  then have "on_wall (5 + x * m, 5 + y * m, 5 + z * m)"
    using d(1) by (auto simp: on_wall_def)
  moreover have "in_box (5 + x * m, 5 + y * m, 5 + z * m)"
    using within [of x] within [of y] within [of z] by (auto simp: in_box_def extent_def abs_le_iff)
  ultimately show ?thesis
    using hit by blast
qed

text \<open>C29. The simulated scan is one of surfaces: every ray of every frame meets the room, and its point lies
  on one of the six walls, inside the box, never in free space.\<close>

theorem scan_hits_walls:
  assumes "q \<in> set (lidar_scan seq n)"
  shows "\<exists>p. q = Some p \<and> in_box p \<and> on_wall p"
proof -
  obtain el az where q: "q = ray_hit (ray el az)"
    using assms unfolding lidar_scan_def Let_def set_grid by blast
  obtain x y z where "ray el az = (x, y, z)"
    by (cases "ray el az")
  then show ?thesis
    using ray_hit_walls [OF ray_unit] unfolding q by metis
qed

text \<open>Every generated cloud stays in the box all patterns share, in every frame and at every number of
  points, whatever the draws: uniform ones lie in the unit interval, and no triple the sphere
  normalises is zero.\<close>

theorem generated_in_box:
  assumes "\<forall>i. 0 \<le> rnd i \<and> rnd i < 1" and "\<forall>i. norm_of (row_of gauss i) \<noteq> 0"
    and "q \<in> set (generated pattern rnd gauss base seq n)"
  shows "\<exists>p. q = Some p \<and> in_box p"
proof -
  have "\<exists>p. q = Some p \<and> in_box p" if "q \<in> set (sphere gauss n)"
    using that assms(2) on_sphere_in_box unfolding sphere_def set_upt_map by metis
  moreover have "\<exists>p. q = Some p \<and> in_box p" if "q \<in> set (lidar_scan seq n)"
    using scan_hits_walls [OF that] by blast
  moreover have "\<exists>p. q = Some p \<and> in_box p" if "q \<in> Some ` set ps" "\<And>p. p \<in> set ps \<Longrightarrow> in_box p" for ps
    using that by blast
  ultimately show ?thesis
    using assms(3) cube_in_box [OF assms(1)] cylinder_in_box [OF assms(1)]
    unfolding generated_def set_map
    by (auto split: if_splits intro: torus_in_box helix_in_box wave_in_box edges_in_box swarm_in_box plane_in_box)
qed

section \<open>Sizes\<close>

lemma length_grid [simp]: "length (grid rows cols f) = rows * cols"
  by (simp add: grid_def length_concat comp_def sum_list_triv)

text \<open>How many points a pattern makes of the number asked for.\<close>

lemma generated_size:
  "length (generated pattern rnd gauss base seq n) =
     (if pattern \<in> {''uniform_cube'', ''sphere'', ''torus'', ''cylinder''} then n
      else if pattern = ''lidar_scan'' then 16 * max 1 (n div 16)
      else if pattern = ''helix'' then 2 * max (n div 2) 1
      else if pattern = ''wave'' then max (int_sqrt n) 2 * max (int_sqrt n) 2
      else if pattern = ''cube_edges'' then 12 * max (n div 12) 1
      else if pattern = ''swarm'' then 8 * max (n div 8) 1
      else int_sqrt n * int_sqrt n)"
  by (simp add: generated_def uniform_cube_def sphere_def torus_def cylinder_def lidar_scan_def helix_def wave_def
      cube_edges_def swarm_def rotating_plane_def Let_def)

section \<open>Witnesses\<close>

theorem scan_hits_walls_witness:
  "\<exists>p. hd (lidar_scan 7 16) = Some p \<and> in_box p \<and> on_wall p"
proof -
  have "length (lidar_scan 7 16) = 16"
    by (simp add: lidar_scan_def Let_def)
  then have "lidar_scan 7 16 \<noteq> []"
    by auto
  then show ?thesis
    using scan_hits_walls [OF hd_in_set] by blast
qed

theorem generated_in_box_witness:
  "\<exists>p. hd (generated ''uniform_cube'' (\<lambda>i. 1 / 4) (\<lambda>i. 1) (\<lambda>i. 0) 3 2) = Some p \<and> in_box p"
proof -
  have "norm_of (row_of (\<lambda>i. 1) i) \<noteq> 0" for i
    by (simp add: norm_of_def row_of_def)
  moreover have "hd (generated ''uniform_cube'' (\<lambda>i. 1 / 4) (\<lambda>i. 1) (\<lambda>i. 0) 3 2)
      \<in> set (generated ''uniform_cube'' (\<lambda>i. 1 / 4) (\<lambda>i. 1) (\<lambda>i. 0) 3 2)"
    by (simp add: generated_def uniform_cube_def numeral_2_eq_2)
  ultimately show ?thesis
    using generated_in_box [of "\<lambda>i. 1 / 4" "\<lambda>i. 1"] by simp
qed

end
