(* ===== verification/Ue_Agent.thy ===== *)
theory Ue_Agent
  imports Node_Props
begin

text \<open>
  The UE agent (ros2/src/mec_cast_ue/mec_cast_ue/ue_agent.py): the lidar clients and renderers of one
  robot in one process, their identities and ports, and the shutdown that drains them.

  A node is what \<open>Lidar_Client\<close> and \<open>Render_Node\<close> build of it. That a constructor, a \<open>finish\<close> or a
  \<open>destroy_node\<close> raises is a parameter, by the place of the node; so is how the executor's spin ends.
\<close>

section \<open>Parameters\<close>

text \<open>A parameter's value: the node's override, else the process's argument, else the default.\<close>

definition param_value :: "(string \<times> int) list \<Rightarrow> (string \<times> int) list \<Rightarrow> string \<Rightarrow> int \<Rightarrow> int" where
  "param_value overrides args key fallback =
     (case map_of overrides key of
        Some v \<Rightarrow> v
      | None \<Rightarrow> (case map_of args key of Some v \<Rightarrow> v | None \<Rightarrow> fallback))"

text \<open>The environment's defaults of the agent's own parameters.\<close>

record ue_env =
  ue_lidars :: int
  ue_renders :: int
  ue_web :: int
  ue_grpc :: int

definition no_ue_env :: ue_env where
  "no_ue_env = \<lparr>ue_lidars = 1, ue_renders = 0, ue_web = 9876, ue_grpc = 9877\<rparr>"

definition lidar_count :: "(string \<times> int) list \<Rightarrow> ue_env \<Rightarrow> nat" where
  "lidar_count args v = nat (max 0 (param_value [] args ''lidar_count'' (ue_lidars v)))"

definition render_count :: "(string \<times> int) list \<Rightarrow> ue_env \<Rightarrow> nat" where
  "render_count args v = nat (max 0 (param_value [] args ''render_count'' (ue_renders v)))"

definition base_web_port :: "(string \<times> int) list \<Rightarrow> ue_env \<Rightarrow> int" where
  "base_web_port args v = param_value [] args ''web_port'' (ue_web v)"

definition base_grpc_port :: "(string \<times> int) list \<Rightarrow> ue_env \<Rightarrow> int" where
  "base_grpc_port args v = param_value [] args ''grpc_port'' (ue_grpc v)"

section \<open>The instances\<close>

datatype ue_kind = Ue_Lidar | Ue_Render

record ue_spec =
  us_kind :: ue_kind
  us_name :: string
  us_overrides :: "(string \<times> int) list"

definition lidar_spec :: "nat \<Rightarrow> ue_spec" where
  "lidar_spec i =
     \<lparr>us_kind = Ue_Lidar, us_name = ''mec_cast_lidar_client_'' @ dec_nat i,
      us_overrides = [(''admin_instance'', int i)]\<rparr>"

definition render_spec :: "int \<Rightarrow> int \<Rightarrow> nat \<Rightarrow> ue_spec" where
  "render_spec web grpc j =
     \<lparr>us_kind = Ue_Render, us_name = ''mec_cast_render_'' @ dec_nat j,
      us_overrides = [(''admin_instance'', int j), (''web_port'', web + 2 * int j),
                      (''grpc_port'', grpc + 2 * int j)]\<rparr>"

definition ue_specs :: "(string \<times> int) list \<Rightarrow> ue_env \<Rightarrow> ue_spec list" where
  "ue_specs args v =
     map lidar_spec [0..<lidar_count args v]
     @ map (render_spec (base_web_port args v) (base_grpc_port args v)) [0..<render_count args v]"

text \<open>What an instance is from its parameters: its instance number, its id at the admin, the directory
  of its recorder in a run, and the ports of a renderer.\<close>

definition spec_instance :: "(string \<times> int) list \<Rightarrow> ue_spec \<Rightarrow> int" where
  "spec_instance args s = param_value (us_overrides s) args ''admin_instance'' 0"

definition kind_type :: "ue_kind \<Rightarrow> string" where
  "kind_type k = (case k of Ue_Lidar \<Rightarrow> nk_type lidar_class | Ue_Render \<Rightarrow> nk_type render_class)"

definition kind_leaf :: "ue_kind \<Rightarrow> string" where
  "kind_leaf k = (case k of Ue_Lidar \<Rightarrow> nk_leaf lidar_class | Ue_Render \<Rightarrow> nk_leaf render_class)"

definition spec_node_id :: "(string \<times> int) list \<Rightarrow> string \<Rightarrow> ue_spec \<Rightarrow> string" where
  "spec_node_id args host s = node_id_of (kind_type (us_kind s)) host (spec_instance args s)"

definition spec_leaf :: "(string \<times> int) list \<Rightarrow> ue_spec \<Rightarrow> string" where
  "spec_leaf args s = kind_leaf (us_kind s) @ ''-'' @ dec_int (spec_instance args s)"

definition spec_ports :: "(string \<times> int) list \<Rightarrow> ue_spec \<Rightarrow> int list" where
  "spec_ports args s =
     (case us_kind s of
        Ue_Lidar \<Rightarrow> []
      | Ue_Render \<Rightarrow> [param_value (us_overrides s) args ''web_port'' 9876,
                      param_value (us_overrides s) args ''grpc_port'' 9877])"

section \<open>The process\<close>

datatype ue_node = Lidar_Node lidar | Render_Node render

definition ue_finish :: "nenv \<Rightarrow> ue_node \<Rightarrow> ue_node" where
  "ue_finish e n =
     (case n of
        Lidar_Node l \<Rightarrow> Lidar_Node (finish lidar_class e l)
      | Render_Node r \<Rightarrow> Render_Node (finish render_class e r))"

text \<open>The nodes made before a constructor raises, and whether one did.\<close>

fun make_nodes :: "(ue_spec \<Rightarrow> ue_node option) \<Rightarrow> ue_spec list \<Rightarrow> ue_node list \<times> bool" where
  "make_nodes build [] = ([], True)"
| "make_nodes build (s # ss) =
     (case build s of
        None \<Rightarrow> ([], False)
      | Some n \<Rightarrow> (case make_nodes build ss of (ns, ok) \<Rightarrow> (n # ns, ok)))"

text \<open>What became of a node in the shutdown, from its place on; a \<open>destroy_node\<close> that raises ends it.\<close>

datatype ue_end = Drained ue_node | Finish_Failed ue_node | Left_Running ue_node

fun shut_down ::
  "nenv \<Rightarrow> (nat \<Rightarrow> bool) \<Rightarrow> (nat \<Rightarrow> bool) \<Rightarrow> nat \<Rightarrow> ue_node list \<Rightarrow> ue_end list \<times> bool" where
  "shut_down e finish_raises destroy_raises i [] = ([], True)"
| "shut_down e finish_raises destroy_raises i (n # ns) =
     (let this = (if finish_raises i then Finish_Failed n else Drained (ue_finish e n))
      in if destroy_raises i then (this # map Left_Running ns, False)
         else (case shut_down e finish_raises destroy_raises (i + 1) ns of (rest, ok) \<Rightarrow> (this # rest, ok)))"

text \<open>How \<open>main\<close> ends: the ends of the nodes, and whether an exception left it. \<open>spin\<close> is what the nodes
  did while the executor ran, and whether it ended by a shutdown.\<close>

definition ue_main ::
  "(string \<times> int) list \<Rightarrow> ue_env \<Rightarrow> (ue_spec \<Rightarrow> ue_node option) \<Rightarrow> (ue_node list \<Rightarrow> ue_node list \<times> bool) \<Rightarrow>
   nenv \<Rightarrow> (nat \<Rightarrow> bool) \<Rightarrow> (nat \<Rightarrow> bool) \<Rightarrow> ue_end list \<times> bool" where
  "ue_main args v build spin e finish_raises destroy_raises =
     (case make_nodes build (ue_specs args v) of
        (ns, made) \<Rightarrow>
          (case (if made \<and> ns \<noteq> [] then spin ns else (ns, made)) of
             (ns1, ok) \<Rightarrow>
               (case shut_down e finish_raises destroy_raises 0 ns1 of
                  (ends, down) \<Rightarrow> (ends, ok \<and> down))))"

section \<open>Identities\<close>

lemma dec_int_nat: "dec_int (int i) = dec_nat i"
  by (simp add: dec_int_def)

lemma dec_int_of_nat: "dec_int (int i) = dec_int (int j) \<longleftrightarrow> i = j"
  unfolding dec_int_nat using dec_nat_inject by blast

lemma spec_simps [simp]:
  "spec_instance args (lidar_spec i) = int i" "spec_instance args (render_spec web grpc i) = int i"
  "us_kind (lidar_spec i) = Ue_Lidar" "us_kind (render_spec web grpc i) = Ue_Render"
  "spec_ports args (lidar_spec i) = []"
  "spec_ports args (render_spec web grpc i) = [web + 2 * int i, grpc + 2 * int i]"
  by (simp_all add: spec_instance_def spec_ports_def lidar_spec_def render_spec_def param_value_def)

lemma kind_simps [simp]:
  "kind_type Ue_Lidar = ''client''" "kind_type Ue_Render = ''render''"
  "kind_leaf Ue_Lidar = ''pub''" "kind_leaf Ue_Render = ''render''"
  by (simp_all add: kind_type_def kind_leaf_def lidar_class_def render_class_def)

text \<open>Instances of one kind differ by their number, those of two kinds by the first letter.\<close>

lemma distinct_instances:
  assumes "\<And>i. f (lidar_spec i) = (l # ls) @ dec_int (int i)"
    and "\<And>i. f (render_spec web grpc i) = (r # rs) @ dec_int (int i)" and "l \<noteq> (r :: char)"
  shows "distinct (map f (map lidar_spec [0..<m] @ map (render_spec web grpc) [0..<n]))"
  using assms by (auto simp: distinct_map inj_on_def dec_int_of_nat)

lemma concat_nothing: "concat (map (\<lambda>x. []) xs) = []"
  by (induction xs) simp_all

lemma staggered_ports:
  assumes "odd (grpc - web)"
  shows "distinct (concat (map (\<lambda>j. [web + 2 * int j, grpc + 2 * int j]) [0..<n]))"
proof (induction n)
  case (Suc n)
  have "web + 2 * int i \<noteq> grpc + 2 * int j" for i j
    using assms by presburger
  moreover from this have "grpc + 2 * int i \<noteq> web + 2 * int j" for i j
    by metis
  ultimately show ?case
    using Suc.IH by auto
qed simp

text \<open>The instances of one robot share nothing that names them: whatever the process's arguments, their
  ids at the admin differ, so do the directories of their recorders in a run, and so do all the ports
  of the viewers, as long as the two base ports differ by an odd number, as the defaults do.\<close>

theorem instances_share_nothing:
  assumes "odd (base_grpc_port args v - base_web_port args v)"
  shows "distinct (map (spec_node_id args host) (ue_specs args v)) \<and> distinct (map (spec_leaf args) (ue_specs args v))
    \<and> distinct (concat (map (spec_ports args) (ue_specs args v)))"
proof -
  have "distinct (map (spec_node_id args host) (ue_specs args v))"
    unfolding ue_specs_def
    by (rule distinct_instances [where l = "CHR ''c''" and r = "CHR ''r''" and ls = "''lient-'' @ host @ ''-''"
          and rs = "''ender-'' @ host @ ''-''"])
       (simp_all add: spec_node_id_def node_id_of_def)
  moreover have "distinct (map (spec_leaf args) (ue_specs args v))"
    unfolding ue_specs_def
    by (rule distinct_instances [where l = "CHR ''p''" and r = "CHR ''r''" and ls = "''ub-''" and rs = "''ender-''"])
       (simp_all add: spec_leaf_def)
  moreover have "distinct (concat (map (spec_ports args) (ue_specs args v)))"
    using staggered_ports [OF assms, of "render_count args v"] by (simp add: ue_specs_def comp_def concat_nothing)
  ultimately show ?thesis
    by blast
qed

text \<open>Base ports an even number apart collide: the page of one viewer stands on the stream of another.\<close>

lemma even_ports_collide:
  assumes "base_grpc_port args v = base_web_port args v + 2 * int k" and "k < render_count args v"
  shows "\<exists>s \<in> set (ue_specs args v). \<exists>s' \<in> set (ue_specs args v). hd (spec_ports args s) = last (spec_ports args s')"
  using assms
  by (intro bexI [of _ "render_spec (base_web_port args v) (base_grpc_port args v) k"]
      bexI [of _ "render_spec (base_web_port args v) (base_grpc_port args v) 0"]) (auto simp: ue_specs_def)

section \<open>The shutdown\<close>

definition end_node :: "ue_end \<Rightarrow> ue_node" where
  "end_node d = (case d of Drained n \<Rightarrow> n | Finish_Failed n \<Rightarrow> n | Left_Running n \<Rightarrow> n)"

text \<open>Nothing is recorded any more, and a client that was connected has a goodbye to send.\<close>

definition node_recorder :: "ue_node \<Rightarrow> tel_recorder option" where
  "node_recorder n = (case n of Lidar_Node l \<Rightarrow> nd_recorder l | Render_Node r \<Rightarrow> nd_recorder r)"

lemma render_finish_idle [simp]: "nd_recorder (snd (render_stop e n)) = None"
  by (auto simp: render_stop_def close_telemetry_def node_running_def split: option.splits)

lemma ue_finish_idle: "node_recorder (ue_finish e n) = None"
  by (auto simp: ue_finish_def node_recorder_def finish_def render_class_def split: ue_node.splits prod.splits)
     (metis lidar_stop_idle render_finish_idle snd_conv)+

lemma shut_down_ends:
  assumes "\<forall>k. \<not> destroy_raises k" and "shut_down e finish_raises destroy_raises i ns = (ends, ok)"
  shows "ok \<and> length ends = length ns \<and> (\<forall>k < length ns.
      ends ! k = (if finish_raises (i + k) then Finish_Failed (ns ! k) else Drained (ue_finish e (ns ! k))))"
  using assms(2)
proof (induction ns arbitrary: i ends ok)
  case (Cons n ns)
  obtain rest down where r: "shut_down e finish_raises destroy_raises (i + 1) ns = (rest, down)"
    by fastforce
  then have "ok = down \<and> ends = (if finish_raises i then Finish_Failed n else Drained (ue_finish e n)) # rest"
    using Cons.prems assms(1) [rule_format, of i] by (simp add: Let_def)
  then show ?case
    using Cons.IH [OF r] by (auto simp: nth_Cons split: nat.splits)
qed simp

text \<open>C34. A robot's process ends drained: however it ends, by a shutdown, by an exception of a callback or of
  a constructor, every node that was made is finished, and none records any more except those whose
  own finish raised; the failure of one never keeps another from it, as long as no \<open>destroy_node\<close>
  raises.\<close>

theorem shutdown_drains_every_instance:
  assumes "\<forall>k. \<not> destroy_raises k" and "ue_main args v build spin e finish_raises destroy_raises = (ends, ok)"
    and "\<And>ns. length (fst (spin ns)) = length ns"
  shows "length ends = length (fst (make_nodes build (ue_specs args v)))
    \<and> (\<forall>k < length ends. (if finish_raises k then \<exists>n. ends ! k = Finish_Failed n
         else \<exists>n. ends ! k = Drained n \<and> node_recorder n = None))"
proof -
  obtain ns made where m: "make_nodes build (ue_specs args v) = (ns, made)"
    by fastforce
  obtain ns1 ok1 where s: "(if made \<and> ns \<noteq> [] then spin ns else (ns, made)) = (ns1, ok1)"
    by fastforce
  then have len: "length ns1 = length ns"
    using assms(3) [of ns] by (auto split: if_splits)
  obtain down where d: "shut_down e finish_raises destroy_raises 0 ns1 = (ends, down)"
    using assms(2) m s by (auto simp: ue_main_def split: prod.splits)
  from shut_down_ends [OF assms(1) d] show ?thesis
    using m len by (auto simp: ue_finish_idle)
qed

text \<open>A \<open>destroy_node\<close> that raises leaves the nodes after it as they are.\<close>

lemma failed_destroy_leaves_rest:
  assumes "destroy_raises i"
  shows "shut_down e finish_raises destroy_raises i (n # ns)
      = ((if finish_raises i then Finish_Failed n else Drained (ue_finish e n)) # map Left_Running ns, False)"
  using assms by simp

section \<open>Witnesses\<close>

theorem instances_share_nothing_witness:
  "distinct (concat (map (spec_ports [(''render_count'', 3)]) (ue_specs [(''render_count'', 3)] no_ue_env)))
   \<and> render_count [(''render_count'', 3)] no_ue_env = 3"
proof -
  let ?args = "[(''render_count'', 3)]"
  have "odd (base_grpc_port ?args no_ue_env - base_web_port ?args no_ue_env)"
    by (simp add: base_grpc_port_def base_web_port_def param_value_def no_ue_env_def)
  then have "distinct (concat (map (spec_ports ?args) (ue_specs ?args no_ue_env)))"
    using instances_share_nothing by blast
  then show ?thesis
    by (simp add: render_count_def param_value_def no_ue_env_def)
qed

definition example_build :: "ue_spec \<Rightarrow> ue_node option" where
  "example_build s =
     (case us_kind s of Ue_Lidar \<Rightarrow> Some (Lidar_Node example_lidar) | Ue_Render \<Rightarrow> Some (Render_Node example_render))"

theorem shutdown_drains_every_instance_witness:
  "\<exists>ends ok. ue_main [(''render_count'', 1)] no_ue_env example_build (\<lambda>ns. (ns, False)) example_nenv
       (\<lambda>k. k = 0) (\<lambda>k. False) = (ends, ok)
     \<and> length ends = 2 \<and> (\<exists>n. ends ! 0 = Finish_Failed n) \<and> (\<exists>n. ends ! 1 = Drained n \<and> node_recorder n = None)"
proof -
  obtain ends ok where m: "ue_main [(''render_count'', 1)] no_ue_env example_build (\<lambda>ns. (ns, False)) example_nenv
      (\<lambda>k. k = 0) (\<lambda>k. False) = (ends, ok)"
    by fastforce
  have "length (fst (make_nodes example_build (ue_specs [(''render_count'', 1)] no_ue_env))) = 2"
    by (simp add: ue_specs_def lidar_count_def render_count_def param_value_def no_ue_env_def example_build_def
        numeral_2_eq_2)
  then show ?thesis
    using shutdown_drains_every_instance [OF _ m] m by fastforce
qed

end
