(* ===== verification/Test_Node.thy ===== *)
theory Test_Node
  imports Workflow
begin

text \<open>
  The stub node for developing the operator page (services/admin/tools/fake_node.py): what it says of
  itself, how it acts on the admin's frames, its report loop and its goodbye, and the diagnostics its
  misbehaviours are there to exercise.

  pydantic's validation of a frame is the parameter of \<open>parse\<close>, as for the admin. A session is the
  frames it receives and the turns of its report loop, in their order; a text that is no JSON ends it
  with an exception. The waits between two sessions and the printed lines are not modelled.
\<close>

section \<open>The node\<close>

text \<open>\<open>tn_misbehave\<close>: empty for none.\<close>

record test_node =
  tn_type :: node_type
  tn_id :: string
  tn_host :: string
  tn_autostart :: bool
  tn_misbehave :: string
  tn_state :: node_state
  tn_run_id :: "string option"
  tn_counters :: "(string \<times> int) list"
  tn_stopping :: bool

definition new_test_node :: "node_type \<Rightarrow> string \<Rightarrow> int \<Rightarrow> bool \<Rightarrow> string \<Rightarrow> test_node" where
  "new_test_node t host inst autostart misbehave =
     \<lparr>tn_type = t, tn_id = node_id_of (node_type_str t) host inst, tn_host = host, tn_autostart = autostart,
      tn_misbehave = misbehave, tn_state = Idle, tn_run_id = None, tn_counters = [], tn_stopping = False\<rparr>"

definition tn_params :: "test_node \<Rightarrow> pdict" where
  "tn_params n =
     (if tn_type n = Client
      then [(''num_points'', JInt 5000), (''rate_hz'', JFloat 10 ''10.0''), (''seed'', JInt 42),
            (''pattern'', JStr ''uniform_cube''),
            (''reliability'', JStr (if tn_misbehave n = ''qos'' then ''best_effort'' else ''reliable'')),
            (''qos_depth'', JInt 10)]
      else if tn_type n = Edge then [(''reliability'', JStr ''reliable''), (''qos_depth'', JInt 10)]
      else [(''bind'', JStr ''0.0.0.0:55555'')])"

definition tn_peer :: "string \<Rightarrow> json \<Rightarrow> pdict \<Rightarrow> pdict" where
  "tn_peer peer seen detail =
     [(''peer_id'', JStr peer), (''first_seen_ns'', JNull), (''last_seen_ns'', seen), (''detail'', JObj detail)]"

definition tn_peers :: "int \<Rightarrow> test_node \<Rightarrow> pdict list" where
  "tn_peers now_ns n =
     (if tn_state n \<noteq> Node_Running then []
      else if tn_type n = Edge
      then (if tn_misbehave n = ''nopeer'' then [] else [tn_peer ''/mec_cast_lidar_client'' (JInt now_ns) []])
      else if tn_type n = Gnb then [tn_peer ''rnti=17921'' JNull [(''pci'', JInt 1), (''cqi'', JInt 15)]]
      else [])"

definition counter_of :: "(string \<times> int) list \<Rightarrow> string \<Rightarrow> int" where
  "counter_of cs key = (case map_of cs key of None \<Rightarrow> 0 | Some v \<Rightarrow> v)"

definition tick_counters :: "test_node \<Rightarrow> test_node" where
  "tick_counters n =
     (let cs = tn_counters n
      in if tn_state n \<noteq> Node_Running then n
         else if tn_type n = Client
         then (let cs1 = dput ''frames_published'' (counter_of cs ''frames_published'' + 10) cs
               in n\<lparr>tn_counters := dput ''samples_dropped'' (counter_of cs1 ''samples_dropped'') cs1\<rparr>)
         else if tn_type n = Edge
         then (let grow = (if tn_misbehave n = ''noframes'' then 0 else 10)
               in n\<lparr>tn_counters := dput ''frames'' (counter_of cs ''frames'' + grow) cs\<rparr>)
         else (let grow = (if tn_misbehave n = ''silent'' then 0 else 5)
               in n\<lparr>tn_counters := dput ''malformed'' 0 (dput ''datagrams'' (counter_of cs ''datagrams'' + grow) cs)\<rparr>))"

definition tn_status :: "int \<Rightarrow> test_node \<Rightarrow> status_payload" where
  "tn_status now_ns n =
     \<lparr>sp_node_type = tn_type n, sp_state = tn_state n, sp_run_id = tn_run_id n,
      sp_streaming = (tn_type n = Client \<and> tn_state n = Node_Running),
      sp_subscribed = (tn_type n = Edge \<and> tn_state n = Node_Running), sp_peers = tn_peers now_ns n,
      sp_params = tn_params n, sp_counters = tn_counters n, sp_autostart = tn_autostart n,
      sp_last_error = None, sp_report = []\<rparr>"

definition tn_hello :: "int \<Rightarrow> string \<Rightarrow> test_node \<Rightarrow> hello_payload" where
  "tn_hello pid sha n =
     \<lparr>hp_node_type = tn_type n, hp_node_id = tn_id n, hp_host = tn_host n, hp_zone = [], hp_pid = pid,
      hp_version_sha = sha, hp_version_tag = ''fake'', hp_state = tn_state n, hp_run_id = tn_run_id n,
      hp_autostart = tn_autostart n, hp_params = tn_params n\<rparr>"

section \<open>Acting on frames\<close>

datatype tn_frame = Tn_Hello hello_payload | Tn_Pong | Tn_Status status_payload | Tn_Ack ack_payload
  | Tn_Goodbye goodbye_payload

definition tn_start :: "string option \<Rightarrow> test_node \<Rightarrow> test_node" where
  "tn_start rid n = n\<lparr>tn_run_id := rid, tn_state := Node_Running, tn_counters := []\<rparr>"

definition tn_stop :: "test_node \<Rightarrow> test_node" where
  "tn_stop n = n\<lparr>tn_state := Idle\<rparr>"

definition tn_command :: "int \<Rightarrow> string \<Rightarrow> command_payload \<Rightarrow> test_node \<Rightarrow> tn_frame list \<times> test_node" where
  "tn_command now_ns msg_id c n =
     (let n1 = (if cp_command c \<in> {Run_Start, Stream_Start} then tn_start (cp_run_id c) n
                else if cp_command c \<in> {Run_Stop, Stream_Stop} then tn_stop n else n)
      in ([Tn_Ack \<lparr>ap_in_reply_to = msg_id, ap_ok = True, ap_error = None\<rparr>, Tn_Status (tn_status now_ns n1)], n1))"

text \<open>A frame parsed: an error is printed, and a payload has the model of its type.\<close>

definition tn_on_frame ::
  "int \<Rightarrow> protocol_error + envelope \<times> payload option \<Rightarrow> test_node \<Rightarrow> tn_frame list \<times> test_node" where
  "tn_on_frame now_ns parsed n =
     (case parsed of
        Inl e \<Rightarrow> ([], n)
      | Inr (env, p) \<Rightarrow>
          (if ev_type env = Ping then ([Tn_Pong], n)
           else
             (case p of
                Some (P_Welcome w) \<Rightarrow>
                  (case wp_active_run w of
                     None \<Rightarrow> ([], n)
                   | Some a \<Rightarrow>
                       (if ev_type env = Welcome \<and> tn_autostart n
                        then (let n1 = tn_start (Some (ar_run_id a)) n in ([Tn_Status (tn_status now_ns n1)], n1))
                        else ([], n)))
              | Some (P_Command c) \<Rightarrow> if ev_type env = Command then tn_command now_ns (ev_msg_id env) c n else ([], n)
              | _ \<Rightarrow> ([], n))))"

text \<open>One turn of the report loop.\<close>

definition tn_report :: "int \<Rightarrow> test_node \<Rightarrow> tn_frame list \<times> test_node" where
  "tn_report now_ns n =
     (let n1 = tick_counters n
      in (if tn_counters n1 \<noteq> tn_counters n \<or> tn_state n1 \<noteq> Node_Running then [Tn_Status (tn_status now_ns n1)] else [],
          n1))"

datatype tn_event = Tn_Text "json option" | Tn_Report

text \<open>The loop of a session: what it sent, the node, and whether it ended by an exception.\<close>

fun tn_loop ::
  "(json \<Rightarrow> string + envelope) \<Rightarrow> (message_type \<Rightarrow> pdict \<Rightarrow> string + payload) \<Rightarrow> int \<Rightarrow> tn_event list \<Rightarrow>
   test_node \<Rightarrow> tn_frame list \<times> test_node \<times> bool" where
  "tn_loop ve vp now_ns [] n = ([], n, False)"
| "tn_loop ve vp now_ns (Tn_Text None # evs) n = ([], n, True)"
| "tn_loop ve vp now_ns (Tn_Text (Some raw) # evs) n =
     (case tn_on_frame now_ns (parse ve vp raw) n of
        (sent, n1) \<Rightarrow> (case tn_loop ve vp now_ns evs n1 of (rest, n2, bad) \<Rightarrow> (sent @ rest, n2, bad)))"
| "tn_loop ve vp now_ns (Tn_Report # evs) n =
     (case tn_report now_ns n of
        (sent, n1) \<Rightarrow> (case tn_loop ve vp now_ns evs n1 of (rest, n2, bad) \<Rightarrow> (sent @ rest, n2, bad)))"

definition tn_session ::
  "(json \<Rightarrow> string + envelope) \<Rightarrow> (message_type \<Rightarrow> pdict \<Rightarrow> string + payload) \<Rightarrow> int \<Rightarrow> int \<Rightarrow> string \<Rightarrow>
   tn_event list \<Rightarrow> test_node \<Rightarrow> tn_frame list \<times> test_node \<times> bool" where
  "tn_session ve vp now_ns pid sha evs n =
     (case tn_loop ve vp now_ns evs n of (sent, n1, bad) \<Rightarrow> (Tn_Hello (tn_hello pid sha n) # sent, n1, bad))"

text \<open>\<open>run\<close>: one session after the other until it is told to stop; \<open>None\<close> is a session that could not
  connect.\<close>

fun tn_run ::
  "(json \<Rightarrow> string + envelope) \<Rightarrow> (message_type \<Rightarrow> pdict \<Rightarrow> string + payload) \<Rightarrow> int \<Rightarrow> int \<Rightarrow> string \<Rightarrow>
   tn_event list option list \<Rightarrow> test_node \<Rightarrow> tn_frame list list \<times> test_node" where
  "tn_run ve vp now_ns pid sha [] n = ([], n)"
| "tn_run ve vp now_ns pid sha (s # ss) n =
     (if tn_stopping n then ([], n)
      else
        (case s of
           None \<Rightarrow> tn_run ve vp now_ns pid sha ss n
         | Some evs \<Rightarrow>
             (case tn_session ve vp now_ns pid sha evs n of
                (sent, n1, bad) \<Rightarrow>
                  (case tn_run ve vp now_ns pid sha ss n1 of (rest, n2) \<Rightarrow> (sent # rest, n2)))))"

definition tn_goodbye :: "bool \<Rightarrow> test_node \<Rightarrow> tn_frame list \<times> test_node" where
  "tn_goodbye connects n =
     (let cs = tn_counters n;
          written = (if counter_of cs ''frames_published'' \<noteq> 0 then counter_of cs ''frames_published''
                     else if counter_of cs ''frames'' \<noteq> 0 then counter_of cs ''frames''
                     else counter_of cs ''datagrams'')
      in (if connects
          then [Tn_Goodbye \<lparr>gp_reason = ''sigterm'', gp_run_id = tn_run_id n,
                  gp_final_report = [(''samples_written'', JInt written), (''samples_dropped'', JInt 0)]\<rparr>]
          else [],
          n\<lparr>tn_stopping := True\<rparr>))"

section \<open>Acknowledgements\<close>

text \<open>The commands among the frames of a session, up to the one that ends it.\<close>

fun commands_in ::
  "(json \<Rightarrow> string + envelope) \<Rightarrow> (message_type \<Rightarrow> pdict \<Rightarrow> string + payload) \<Rightarrow> tn_event list \<Rightarrow>
   (string \<times> command_payload) list" where
  "commands_in ve vp [] = []"
| "commands_in ve vp (Tn_Text None # evs) = []"
| "commands_in ve vp (Tn_Text (Some raw) # evs) =
     (case parse ve vp raw of
        Inr (env, Some (P_Command c)) \<Rightarrow> (if ev_type env = Command then [(ev_msg_id env, c)] else [])
      | _ \<Rightarrow> []) @ commands_in ve vp evs"
| "commands_in ve vp (Tn_Report # evs) = commands_in ve vp evs"

fun acked :: "tn_frame \<Rightarrow> string list" where
  "acked (Tn_Ack a) = [ap_in_reply_to a]"
| "acked _ = []"

fun acked_by :: "tn_frame list \<Rightarrow> string list" where
  "acked_by [] = []"
| "acked_by (f # fs) = acked f @ acked_by fs"

lemma acked_by_append [simp]: "acked_by (fs @ gs) = acked_by fs @ acked_by gs"
  by (induction fs) simp_all

lemma tn_report_acks [simp]: "acked_by (fst (tn_report now_ns n)) = []"
  by (simp add: tn_report_def Let_def)

lemma tn_on_frame_acks:
  assumes "parsed = parse ve vp raw"
  shows "acked_by (fst (tn_on_frame now_ns parsed n)) = map fst
      (case parsed of
         Inr (env, Some (P_Command c)) \<Rightarrow> (if ev_type env = Command then [(ev_msg_id env, c)] else [])
       | _ \<Rightarrow> [])"
proof -
  have no_ping: "p = None" if "parsed = Inr (env, p)" "ev_type env = Ping" for env p
    using that unfolding assms
    by (auto simp: parse_def split: json.splits sum.splits if_splits)
  show ?thesis
    by (auto simp: tn_on_frame_def tn_command_def Let_def dest!: no_ping
        split: sum.splits prod.splits option.splits payload.splits)
qed

text \<open>The stub answers the admin as a node does: in every session, whatever it receives and however its
  reports fall between, it acknowledges each command it was sent once, in their order, and nothing
  else.\<close>

theorem commands_acknowledged:
  "acked_by (fst (tn_session ve vp now_ns pid sha evs n)) = map fst (commands_in ve vp evs)"
proof -
  have "acked_by (fst (tn_loop ve vp now_ns evs n)) = map fst (commands_in ve vp evs)"
  proof (induction ve vp now_ns evs n rule: tn_loop.induct)
    case (3 ve vp now_ns raw evs n)
    obtain sent n1 where f: "tn_on_frame now_ns (parse ve vp raw) n = (sent, n1)"
      by fastforce
    then have "acked_by sent = map fst (case parse ve vp raw of
        Inr (env, Some (P_Command c)) \<Rightarrow> (if ev_type env = Command then [(ev_msg_id env, c)] else []) | _ \<Rightarrow> [])"
      using tn_on_frame_acks [of "parse ve vp raw" ve vp raw now_ns n] by simp
    then show ?case
      using "3.IH" [OF f [symmetric]] f by (auto split: prod.splits)
  next
    case (4 ve vp now_ns evs n)
    obtain sent n1 where f: "tn_report now_ns n = (sent, n1)"
      by fastforce
    then show ?case
      using "4.IH" [OF f [symmetric]] tn_report_acks [of now_ns n] by (auto split: prod.splits)
  qed simp_all
  then show ?thesis
    by (auto simp: tn_session_def split: prod.splits)
qed

section \<open>What its misbehaviours raise\<close>

text \<open>A record whose last status came from the node after a turn of its report loop, and whose counters of
  the last pass are those of before it.\<close>

definition reported :: "rat \<Rightarrow> int \<Rightarrow> test_node \<Rightarrow> node_record \<Rightarrow> node_record" where
  "reported now now_ns n r = status_update now (tn_status now_ns (tick_counters n)) (r\<lparr>nr_previous_counters := tn_counters n\<rparr>)"

lemma tick_keeps [simp]:
  "tn_type (tick_counters n) = tn_type n" "tn_state (tick_counters n) = tn_state n"
  "tn_misbehave (tick_counters n) = tn_misbehave n"
  by (simp_all add: tick_counters_def Let_def)

lemma tn_params_tick [simp]: "tn_params (tick_counters n) = tn_params n"
  by (simp add: tn_params_def)

lemma tn_peers_tick [simp]: "tn_peers now_ns (tick_counters n) = tn_peers now_ns n"
  by (simp add: tn_peers_def)

lemma reported_client:
  assumes "tn_type c = Client" and "tn_state c = Node_Running"
  shows "nr_streaming (reported now now_ns c r)" and "zone_of (reported now now_ns c r) = zone_of r"
    and "pget (nr_params (reported now now_ns c r)) ''reliability''
      = JStr (if tn_misbehave c = ''qos'' then ''best_effort'' else ''reliable'')"
    and "nr_id (reported now now_ns c r) = nr_id r" and "nr_type (reported now now_ns c r) = nr_type r"
    and "map_of (tn_counters c) ''frames_published'' \<noteq> None \<Longrightarrow> rising (reported now now_ns c r) ''frames_published'' = Some True"
  using assms
  by (auto simp: reported_def status_update_def tn_status_def tn_params_def pget_def zone_of_def rising_def
      tick_counters_def counter_of_def Let_def split: option.splits)

lemma reported_edge:
  assumes "tn_type c = Edge" and "tn_state c = Node_Running"
  shows "nr_subscribed (reported now now_ns c r)" and "zone_of (reported now now_ns c r) = zone_of r"
    and "pget (nr_params (reported now now_ns c r)) ''reliability'' = JStr ''reliable''"
    and "nr_peers (reported now now_ns c r) = [] \<longleftrightarrow> tn_misbehave c = ''nopeer''"
    and "nr_id (reported now now_ns c r) = nr_id r" and "nr_type (reported now now_ns c r) = nr_type r"
    and "map_of (tn_counters c) ''frames'' \<noteq> None \<Longrightarrow>
      rising (reported now now_ns c r) ''frames'' = Some (tn_misbehave c \<noteq> ''noframes'')"
  using assms
  by (auto simp: reported_def status_update_def tn_status_def tn_params_def tn_peers_def pget_def zone_of_def
      rising_def tick_counters_def counter_of_def Let_def split: option.splits)

lemma reported_gnb:
  assumes "tn_type g = Gnb" and "tn_state g = Node_Running" and "map_of (tn_counters g) ''datagrams'' \<noteq> None"
  shows "rising (reported now now_ns g r) ''datagrams'' = Some (tn_misbehave g \<noteq> ''silent'')"
  using assms
  by (auto simp: reported_def status_update_def tn_status_def rising_def tick_counters_def counter_of_def Let_def
      split: option.splits)

text \<open>The admin's record of a node whose last status told what the node still is; and the same record at
  the next pass, one turn of the report loop later: the pass before kept the counters, and the turn
  has sent a status or, nothing having changed, none.\<close>

definition up_to_date :: "test_node \<Rightarrow> node_record \<Rightarrow> bool" where
  "up_to_date n r \<longleftrightarrow> nr_type r = tn_type n \<and> (\<exists>t ns r0. r = status_update t (tn_status ns n) r0)"

definition heard_frame :: "rat \<Rightarrow> tn_frame \<Rightarrow> node_record \<Rightarrow> node_record" where
  "heard_frame now f r = (case f of Tn_Status s \<Rightarrow> status_update now s r | _ \<Rightarrow> r)"

definition next_record :: "rat \<Rightarrow> int \<Rightarrow> test_node \<Rightarrow> node_record \<Rightarrow> node_record" where
  "next_record now now_ns n r =
     fold (heard_frame now) (fst (tn_report now_ns n)) (r\<lparr>nr_previous_counters := nr_counters r\<rparr>)"

lemma next_record_reported:
  assumes "up_to_date n r" and "tn_state n = Node_Running"
  obtains t ns r0 where "next_record now now_ns n r = reported t ns n r0" and "nr_type r0 = tn_type n"
    and "zone_of r0 = zone_of r" and "nr_id r0 = nr_id r"
proof -
  obtain t ns r0 where r: "r = status_update t (tn_status ns n) r0" and type: "nr_type r = tn_type n"
    using assms(1) by (auto simp: up_to_date_def)
  have same: "nr_counters r = tn_counters n" "nr_type r0 = nr_type r" "zone_of r0 = zone_of r" "nr_id r0 = nr_id r"
    by (simp_all add: r status_update_def tn_status_def zone_of_def)
  show thesis
  proof (cases "tn_counters (tick_counters n) = tn_counters n")
    case True
    then have "tick_counters n = n"
      by (auto simp: tick_counters_def Let_def split: if_splits)
    then have "next_record now now_ns n r = reported t ns n r0"
      using assms(2) by (simp add: next_record_def tn_report_def reported_def r status_update_def tn_status_def)
    then show ?thesis
      using that type same by simp
  next
    case False
    then have "next_record now now_ns n r = reported now now_ns n r"
      using assms(2) same(1) by (simp add: next_record_def tn_report_def heard_frame_def reported_def Let_def)
    then show ?thesis
      using that type same by simp
  qed
qed

lemma silent_only_from_gnb:
  "f \<in> set (diagnose p) \<Longrightarrow> f_code f = ''WF_GNB_SILENT'' \<Longrightarrow> f \<in> set (check_gnb p)"
  unfolding mem_diagnose
  by (elim disjE) (auto simp: rate_codes_def dest: check_absent_codes dest!: check_codes)

text \<open>C21. Each misbehaviour of the stub raises the finding it is there to exercise: for a stub client, a
  stub edge of the same zone and a stub gNB, running and past their first report, that the admin's
  records tell of as they are, one turn of their report loops later (an edge whose counter does not
  grow sends no status then). Of the findings about the link of the pair exactly the one of the first
  misbehaviour in the order of the checks is raised, or none where neither misbehaves, the client
  having streamed for the grace period; and the gNB is found silent exactly when it is told to be.\<close>

theorem misbehaviour_is_diagnosed:
  assumes "tn_type c = Client" and "tn_state c = Node_Running" and "map_of (tn_counters c) ''frames_published'' \<noteq> None"
    and "tn_type e = Edge" and "tn_state e = Node_Running" and "map_of (tn_counters e) ''frames'' \<noteq> None"
    and "tn_type g = Gnb" and "tn_state g = Node_Running" and "map_of (tn_counters g) ''datagrams'' \<noteq> None"
    and "up_to_date c r1" and "up_to_date e r2" and "up_to_date g r3" and "zone_of r1 = zone_of r2"
    and "client = next_record t1 ns1 c r1" and "edge = next_record t2 ns2 e r2" and "gnb = next_record t3 ns3 g r3"
    and "{client, edge, gnb} \<subseteq> set (pa_online p)" and "distinct (map nr_id (pa_online p))"
    and "streaming_for (pa_now p) peer_grace client"
  shows "map f_code (link_findings p client edge) =
           (if tn_misbehave c = ''qos'' then [''WF_QOS_MISMATCH'']
            else if tn_misbehave e = ''nopeer'' then [''WF_NO_PEER'']
            else if tn_misbehave e = ''noframes'' then [''WF_NO_FRAMES''] else [])
         \<and> set (link_findings p client edge) \<subseteq> set (diagnose p)
         \<and> ((\<exists>f \<in> set (diagnose p). f_code f = ''WF_GNB_SILENT'' \<and> f_subject f = nr_id gnb)
             \<longleftrightarrow> tn_misbehave g = ''silent'')"
proof -
  obtain u1 m1 q1 where c: "client = reported u1 m1 c q1" "nr_type q1 = Client" "zone_of q1 = zone_of r1"
    using next_record_reported [OF assms(10,2)] assms(1,14) by metis
  obtain u2 m2 q2 where e: "edge = reported u2 m2 e q2" "nr_type q2 = Edge" "zone_of q2 = zone_of r2"
    using next_record_reported [OF assms(11,5)] assms(4,15) by metis
  obtain u3 m3 q3 where g: "gnb = reported u3 m3 g q3" "nr_type q3 = Gnb"
    using next_record_reported [OF assms(12,8)] assms(7,16) by metis
  note cf = reported_client [OF assms(1,2), of u1 m1 q1, folded c(1)]
  note ef = reported_edge [OF assms(4,5), of u2 m2 q2, folded e(1)]
  have "map f_code (link_findings p client edge) =
      (if tn_misbehave c = ''qos'' then [''WF_QOS_MISMATCH'']
       else if tn_misbehave e = ''nopeer'' then [''WF_NO_PEER'']
       else if tn_misbehave e = ''noframes'' then [''WF_NO_FRAMES''] else [])"
    using cf(1-3) ef(1-4) c(3) e(3) assms(13,19) cf(6) [OF assms(3)] ef(7) [OF assms(6)]
    by (simp add: link_findings_def mk_finding_def Let_def)
  moreover have "set (link_findings p client edge) \<subseteq> set (diagnose p)"
    using assms(17) c(2) e(2) cf(1,5) ef(6) unfolding mem_diagnose check_links_def
    by (force simp: of_type_online mem_diagnose check_links_def)
  moreover have "(\<exists>f \<in> set (diagnose p). f_code f = ''WF_GNB_SILENT'' \<and> f_subject f = nr_id gnb)
      \<longleftrightarrow> tn_misbehave g = ''silent''"
  proof
    assume "\<exists>f \<in> set (diagnose p). f_code f = ''WF_GNB_SILENT'' \<and> f_subject f = nr_id gnb"
    then obtain g' where "g' \<in> set (pa_online p)" "nr_id g' = nr_id gnb" "rising g' ''datagrams'' = Some False"
      by (auto simp: check_gnb_def of_type_online mk_finding_def dest!: silent_only_from_gnb)
    then have "rising gnb ''datagrams'' = Some False"
      using assms(17,18) by (auto simp: distinct_map inj_on_def)
    then show "tn_misbehave g = ''silent''"
      using reported_gnb [OF assms(7-9), of u3 m3 q3] g(1) by simp
  next
    assume "tn_misbehave g = ''silent''"
    then have "rising gnb ''datagrams'' = Some False"
      using reported_gnb [OF assms(7-9), of u3 m3 q3] g(1) by simp
    moreover have "nr_type gnb = Gnb"
      using g by (simp add: reported_def status_update_def)
    ultimately have "mk_finding ''WF_GNB_SILENT'' ''warn'' (nr_id gnb) [] \<in> set (check_gnb p)"
      using assms(17) by (auto simp: check_gnb_def of_type_online)
    then show "\<exists>f \<in> set (diagnose p). f_code f = ''WF_GNB_SILENT'' \<and> f_subject f = nr_id gnb"
      by (auto simp: mem_diagnose mk_finding_def intro!: bexI)
  qed
  ultimately show ?thesis
    by blast
qed

section \<open>Witnesses\<close>

definition example_stub :: "node_type \<Rightarrow> string \<Rightarrow> (string \<times> int) list \<Rightarrow> test_node" where
  "example_stub t misbehave cs =
     (new_test_node t ''h'' 0 False misbehave)\<lparr>tn_state := Node_Running, tn_counters := cs\<rparr>"

text \<open>Their last statuses, and a pass one turn later: a gNB that is silent, an edge that counts nothing.\<close>

definition stub_record :: "test_node \<Rightarrow> node_record" where
  "stub_record n = status_update 90 (tn_status 4 n) (fresh_record 0 (tn_id n) (tn_type n))"

definition stub_client :: test_node where
  "stub_client = example_stub Client [] [(''frames_published'', 10)]"

definition stub_edge :: test_node where
  "stub_edge = example_stub Edge ''noframes'' [(''frames'', 0)]"

definition stub_gnb :: test_node where
  "stub_gnb = example_stub Gnb ''silent'' [(''datagrams'', 0), (''malformed'', 0)]"

definition stub_pass :: pass where
  "stub_pass = (example_pass None (map (\<lambda>n. next_record 100 5 n (stub_record n)) [stub_client, stub_edge, stub_gnb]))
     \<lparr>pa_now := 100\<rparr>"

lemma stub_facts:
  "up_to_date n (stub_record n)" "zone_of (stub_record n) = ''default''"
proof -
  have "nr_type (stub_record n) = tn_type n"
    by (simp add: stub_record_def status_update_def fresh_record_def)
  then show "up_to_date n (stub_record n)"
    unfolding up_to_date_def stub_record_def by blast
  show "zone_of (stub_record n) = ''default''"
    by (simp add: stub_record_def status_update_def fresh_record_def zone_of_def str_or_def default_zone_def)
qed

lemma stub_pass_facts:
  "distinct (map nr_id (pa_online stub_pass))"
  "streaming_for (pa_now stub_pass) peer_grace (next_record 100 5 stub_client (stub_record stub_client))"
  by code_simp+

theorem misbehaviour_is_diagnosed_witness:
  "map f_code (link_findings stub_pass (next_record 100 5 stub_client (stub_record stub_client))
       (next_record 100 5 stub_edge (stub_record stub_edge))) = [''WF_NO_FRAMES'']
   \<and> (\<exists>f \<in> set (diagnose stub_pass). f_code f = ''WF_GNB_SILENT'')"
proof -
  have "tn_type stub_client = Client" "tn_type stub_edge = Edge" "tn_type stub_gnb = Gnb"
      "tn_state stub_client = Node_Running" "tn_state stub_edge = Node_Running" "tn_state stub_gnb = Node_Running"
      "map_of (tn_counters stub_client) ''frames_published'' \<noteq> None" "map_of (tn_counters stub_edge) ''frames'' \<noteq> None"
      "map_of (tn_counters stub_gnb) ''datagrams'' \<noteq> None" "tn_misbehave stub_client = []"
      "tn_misbehave stub_edge = ''noframes''" "tn_misbehave stub_gnb = ''silent''"
    by (simp_all add: stub_client_def stub_edge_def stub_gnb_def example_stub_def new_test_node_def)
  then show ?thesis
    using misbehaviour_is_diagnosed [of stub_client stub_edge stub_gnb "stub_record stub_client" "stub_record stub_edge"
        "stub_record stub_gnb" "next_record 100 5 stub_client (stub_record stub_client)" 100 5
        "next_record 100 5 stub_edge (stub_record stub_edge)" 100 5
        "next_record 100 5 stub_gnb (stub_record stub_gnb)" 100 5 stub_pass] stub_facts stub_pass_facts
    by (auto simp: stub_pass_def example_pass_def)
qed

end
