(* ===== verification/Admin_Page.thy ===== *)
theory Admin_Page
  imports Admin_Api
begin

text \<open>
  What the admin service shows of a run while it works: the lifecycle events it posts to the
  logging service (services/admin/src/mec_cast_admin/events.py) and the operator's page
  (orchestrator.py: \<open>snapshot\<close>, \<open>mark_dirty\<close>, \<open>_broadcast_loop\<close>; api.py: \<open>ui_socket\<close>).

  \<open>office\<close> is the orchestrator's state with these two outputs. Each operation of \<open>Orchestrator\<close> that
  emits or marks is given again with its output, and \<open>*_admin\<close> lemmas show that its effect on the
  orchestrator is the one modelled there. A page is known by its socket; \<open>of_pages\<close> is the set of
  sockets, each with the last snapshot it was sent. \<open>of_turn\<close> is a round of the broadcast loop under
  way: the snapshot it serialised and the sockets it has still to reach.
\<close>

section \<open>Lifecycle events\<close>

record admin_event =
  le_level :: string
  le_message :: string
  le_trace :: "string option"
  le_context :: pdict

text \<open>\<open>el_emitted\<close> is every entry a thread was started for, \<open>el_flight\<close> those whose thread has not
  ended. A thread ends posted, with an exception \<open>_post\<close> catches, or with any other.\<close>

record event_log =
  el_url :: string
  el_posted :: nat
  el_failures :: nat
  el_emitted :: "admin_event list"
  el_flight :: "admin_event list"

datatype post_end = Post_Accepted | Post_Failed | Post_Escaped

definition new_event_log :: "string \<Rightarrow> event_log" where
  "new_event_log url =
     \<lparr>el_url = rev (dropWhile (\<lambda>ch. ch = CHR ''/'') (rev url)), el_posted = 0, el_failures = 0,
      el_emitted = [], el_flight = []\<rparr>"

definition log_enabled :: "event_log \<Rightarrow> bool" where
  "log_enabled l \<longleftrightarrow> el_url l \<noteq> []"

definition event_of :: "string \<Rightarrow> string option \<Rightarrow> string \<Rightarrow> pdict \<Rightarrow> admin_event" where
  "event_of message rid level context =
     \<lparr>le_level = level, le_message = message, le_trace = rid,
      le_context = dmerge [(''run_id'', case rid of None \<Rightarrow> JNull | Some i \<Rightarrow> JStr i)] context\<rparr>"

definition emit :: "string \<Rightarrow> string option \<Rightarrow> string \<Rightarrow> pdict \<Rightarrow> event_log \<Rightarrow> event_log" where
  "emit message rid level context l =
     (if \<not> log_enabled l then l
      else l\<lparr>el_emitted := el_emitted l @ [event_of message rid level context],
             el_flight := el_flight l @ [event_of message rid level context]\<rparr>)"

definition post_ends :: "nat \<Rightarrow> post_end \<Rightarrow> event_log \<Rightarrow> event_log" where
  "post_ends i r l =
     (if length (el_flight l) \<le> i then l
      else
        (let l' = l\<lparr>el_flight := take i (el_flight l) @ List.drop (Suc i) (el_flight l)\<rparr>
         in case r of
              Post_Accepted \<Rightarrow> l'\<lparr>el_posted := el_posted l' + 1\<rparr>
            | Post_Failed \<Rightarrow> l'\<lparr>el_failures := el_failures l' + 1\<rparr>
            | Post_Escaped \<Rightarrow> l'))"

section \<open>The snapshot\<close>

text \<open>What it reads of the process: the version, the address the operator's browser finds the logging
  service at, and \<open>round(x, 1)\<close> as a value.\<close>

record page_env =
  pe_version :: string
  pe_logging_url :: string
  pe_round :: "rat \<Rightarrow> json"

definition opt_json :: "('a \<Rightarrow> json) \<Rightarrow> 'a option \<Rightarrow> json" where
  "opt_json f v = (case v of None \<Rightarrow> JNull | Some x \<Rightarrow> f x)"

text \<open>The string value of each state a node reports.\<close>

fun node_state_str :: "node_state \<Rightarrow> string" where
  "node_state_str Idle = ''idle''"
| "node_state_str Node_Running = ''running''"
| "node_state_str Node_Error = ''error''"

definition node_to_dict :: "page_env \<Rightarrow> rat \<Rightarrow> rat \<Rightarrow> node_record \<Rightarrow> pdict" where
  "node_to_dict pe timeout now n =
     [(''node_id'', JStr (nr_id n)), (''node_type'', JStr (node_type_str (nr_type n))),
      (''host'', JStr (nr_host n)), (''zone'', JStr (nr_zone n)),
      (''version'', JObj [(''sha'', JStr (nr_version_sha n)), (''tag'', JStr (nr_version_tag n))]),
      (''state'', JStr (node_state_str (nr_state n))), (''run_id'', opt_json JStr (nr_run_id n)),
      (''streaming'', JBool (nr_streaming n)), (''subscribed'', JBool (nr_subscribed n)),
      (''peers'', JArr (map JObj (nr_peers n))), (''params'', JObj (nr_params n)),
      (''counters'', JObj (map (\<lambda>(k, v). (k, JInt v)) (nr_counters n))),
      (''autostart'', JBool (nr_autostart n)), (''last_error'', opt_json JStr (nr_last_error n)),
      (''online'', JBool (is_online timeout now n)), (''departed'', JBool (nr_departed n)),
      (''age_s'', pe_round pe (now - nr_first_seen n)),
      (''silent_for_s'', pe_round pe (now - nr_last_seen n)),
      (''clock_offset_ns'', opt_json JInt (nr_clock_offset_ns n)), (''address'', JStr (nr_address n))]"

definition registry_to_dict :: "page_env \<Rightarrow> rat \<Rightarrow> registry \<Rightarrow> json" where
  "registry_to_dict pe now R =
     JArr (map (\<lambda>n. JObj (node_to_dict pe (rg_offline_timeout R) now n)) (all_nodes R))"

definition role_to_dict :: "role_spec \<Rightarrow> pdict" where
  "role_to_dict s =
     [(''role'', JStr (node_type_str (rs_role s))), (''profile'', opt_json JStr (node_profile (rs_role s))),
      (''required'', JBool (rs_required s)), (''absence'', opt_json JStr (rs_absence s)),
      (''min_per_zone'', JInt (rs_min_per_zone s)), (''max_per_zone'', rs_max_per_zone s)]"

definition node_spec_to_dict :: "node_spec \<Rightarrow> pdict" where
  "node_spec_to_dict n =
     [(''node_id'', JStr (ns_node_id n)), (''role'', JStr (node_type_str (ns_role n))),
      (''host'', JStr (ns_host n)), (''zone'', JStr (ns_zone n)), (''instance'', JInt (ns_instance n))]
     @ (case ns_ue n of
          None \<Rightarrow> []
        | Some ue \<Rightarrow> if ue = [] then [] else [(''ue'', JObj (map (\<lambda>(k, v). (k, JInt v)) ue))])"

definition topology_to_dict :: "topology_spec \<Rightarrow> pdict" where
  "topology_to_dict t =
     [(''source'', JStr (ts_source t)), (''declared'', JBool (declared t)),
      (''roles'', JArr (map (JObj \<circ> role_to_dict) (ts_roles t))),
      (''nodes'', JArr (map (JObj \<circ> node_spec_to_dict) (ts_nodes t))),
      (''zones'', JArr (map JStr (topo_zones t)))]"

text \<open>The rows of the run table, with the buttons of each.\<close>

definition run_row :: "run \<Rightarrow> json" where
  "run_row r = JObj (run_body r (allowed_actions (r_state r)))"

definition snapshot_of :: "page_env \<Rightarrow> config \<Rightarrow> env \<Rightarrow> admin \<Rightarrow> pdict" where
  "snapshot_of pe c e s =
     [(''server_version'', JStr (pe_version pe)), (''protocol'', JInt protocol_version),
      (''active_run_id'', opt_json (JStr \<circ> r_id) (active_run s)),
      (''active_runs'', JObj (dmerge [] (map (\<lambda>r. (r_zone r, JStr (r_id r))) (active_runs s)))),
      (''runs'', JArr (map run_row (all_runs s))),
      (''nodes'', registry_to_dict pe (en_mono e) (ad_registry s)),
      (''topology'', JObj (dmerge (topology_to_dict (cf_topology c))
                             [(''mermaid'', JStr (to_mermaid (cf_topology c)))])),
      (''middleware'', JObj (map (\<lambda>(z, k). (z, JStr k)) (zone_middleware e s))),
      (''findings'', JArr (map (JObj \<circ> finding_to_dict) (ad_findings s))),
      (''logging_url'', JStr (pe_logging_url pe))]"

section \<open>The orchestrator with its outputs\<close>

record office =
  of_admin :: admin
  of_log :: event_log
  of_dirty :: bool
  of_pages :: "(nat \<times> pdict) list"
  of_turn :: "(pdict \<times> nat list) option"

definition open_office :: "string \<Rightarrow> admin \<Rightarrow> office" where
  "open_office url s =
     \<lparr>of_admin = s, of_log = new_event_log url, of_dirty = False, of_pages = [], of_turn = None\<rparr>"

definition mark_dirty :: "office \<Rightarrow> office" where
  "mark_dirty w = w\<lparr>of_dirty := True\<rparr>"

definition announce :: "string \<Rightarrow> string \<Rightarrow> string \<Rightarrow> pdict \<Rightarrow> office \<Rightarrow> office" where
  "announce message rid level context w = w\<lparr>of_log := emit message (Some rid) level context (of_log w)\<rparr>"

definition create_run_out ::
  "config \<Rightarrow> env \<Rightarrow> string \<Rightarrow> pdict \<Rightarrow> string \<Rightarrow> office \<Rightarrow> (orch_error + run) \<times> office" where
  "create_run_out c e label params zone w =
     (case create_run c e label params zone (of_admin w) of
        (Inl err, s) \<Rightarrow> (Inl err, w\<lparr>of_admin := s\<rparr>)
      | (Inr r, s) \<Rightarrow>
          (Inr r, mark_dirty (announce ''run created'' (r_id r) ''INFO''
             [(''label'', JStr (r_label r)), (''params'', JObj (r_params r)), (''seq'', JInt (r_seq r)),
              (''zone'', JStr (r_zone r))] (w\<lparr>of_admin := s\<rparr>))))"

definition act_out ::
  "config \<Rightarrow> env \<Rightarrow> string \<Rightarrow> run_action \<Rightarrow> office \<Rightarrow> (orch_error + run) \<times> office" where
  "act_out c e rid a w =
     (case act c e rid a (of_admin w) of
        (Inl err, s) \<Rightarrow> (Inl err, w\<lparr>of_admin := s\<rparr>)
      | (Inr r, s) \<Rightarrow>
          (Inr r, mark_dirty (announce
             (''run '' @ run_action_str a @ '' -> '' @ run_state_str (r_state r)) (r_id r) ''INFO''
             [(''action'', JStr (run_action_str a)), (''state'', JStr (run_state_str (r_state r))),
              (''label'', JStr (r_label r))] (w\<lparr>of_admin := s\<rparr>))))"

definition policy_out ::
  "config \<Rightarrow> env \<Rightarrow> string \<Rightarrow> pdict \<Rightarrow> office \<Rightarrow> (orch_error + nat) \<times> office" where
  "policy_out c e rid policy w =
     (case set_ran_policy c e rid policy (of_admin w) of
        (Inl err, s) \<Rightarrow> (Inl err, w\<lparr>of_admin := s\<rparr>)
      | (Inr n, s) \<Rightarrow> (Inr n, mark_dirty (w\<lparr>of_admin := s\<rparr>)))"

definition detach_out :: "string \<Rightarrow> nat \<Rightarrow> office \<Rightarrow> office" where
  "detach_out nid sock w = mark_dirty (w\<lparr>of_admin := detach_node nid sock (of_admin w)\<rparr>)"

definition hello_out ::
  "config \<Rightarrow> env \<Rightarrow> hello_payload \<Rightarrow> nat \<Rightarrow> string option \<Rightarrow> office \<Rightarrow> welcome_payload \<times> office" where
  "hello_out c e h sock peer w =
     (case on_hello c e h sock peer (of_admin w) of
        (welcome, s) \<Rightarrow> (welcome, mark_dirty (w\<lparr>of_admin := s\<rparr>)))"

text \<open>A frame of a node the registry does not know returns before the mark; a status whose codec
  precision is no number raises before it.\<close>

definition status_out ::
  "config \<Rightarrow> env \<Rightarrow> string \<Rightarrow> status_payload \<Rightarrow> office \<Rightarrow> (orch_error + unit) \<times> office" where
  "status_out c e nid st w =
     (case on_status c e nid st (of_admin w) of
        (Inl err, s) \<Rightarrow> (Inl err, w\<lparr>of_admin := s\<rparr>)
      | (Inr u, s) \<Rightarrow>
          (Inr u, if get_node (ad_registry s) nid = None then w\<lparr>of_admin := s\<rparr>
                  else mark_dirty (w\<lparr>of_admin := s\<rparr>)))"

definition goodbye_out :: "config \<Rightarrow> env \<Rightarrow> string \<Rightarrow> goodbye_payload \<Rightarrow> office \<Rightarrow> office" where
  "goodbye_out c e nid g w =
     (let w' = w\<lparr>of_admin := on_goodbye c e nid g (of_admin w)\<rparr>
      in if get_node (ad_registry (of_admin w')) nid = None then w' else mark_dirty w')"

subsection \<open>The supervise pass\<close>

definition auto_stop_out :: "config \<Rightarrow> env \<Rightarrow> run \<Rightarrow> string \<Rightarrow> office \<Rightarrow> office" where
  "auto_stop_out c e r why w =
     snd (act_out c e (r_id r) Act_Stop
       (w\<lparr>of_admin := journal e (r_id r) ''auto-stop'' [(''reason'', JStr why)] (of_admin w)\<rparr>))"

definition settle_out :: "config \<Rightarrow> env \<Rightarrow> run_state \<Rightarrow> run \<Rightarrow> office \<Rightarrow> office" where
  "settle_out c e before r w =
     mark_dirty (announce
       (''run '' @ run_state_str before @ '' -> '' @ run_state_str (r_state r)) (r_id r)
       (if r_state r \<in> {Degraded, Failed} then ''WARNING'' else ''INFO'')
       [(''from'', JStr (run_state_str before)), (''to'', JStr (run_state_str (r_state r))),
        (''findings'', JArr (map (JStr \<circ> f_code) (ad_findings (of_admin w))))]
       (w\<lparr>of_admin := settle_change c e before r (of_admin w)\<rparr>))"

definition supervise_run_out ::
  "config \<Rightarrow> env \<Rightarrow> run \<Rightarrow> office \<Rightarrow> (orch_error + unit) \<times> office" where
  "supervise_run_out c e r w =
     (let s = of_admin w
      in case watchdog c e r of
           Some why \<Rightarrow> (Inr (), auto_stop_out c e r why w)
         | None \<Rightarrow>
             (case judge r (pass_participants r s) (pass_online c e r s \<noteq> []) (pass_event c e r s) of
                Inl te \<Rightarrow> (Inl (Escaped_Transition te), w\<lparr>of_admin := pass_bookkeeping c e r s\<rparr>)
              | Inr st \<Rightarrow>
                  (let s1 = pass_left st r (pass_bookkeeping c e r s); r1 = r\<lparr>r_state := st\<rparr>
                   in (Inr (), if st = r_state r then w\<lparr>of_admin := s1\<rparr>
                               else settle_out c e (r_state r) r1 (w\<lparr>of_admin := put_run r1 s1\<rparr>)))))"

fun supervise_ids_out :: "config \<Rightarrow> env \<Rightarrow> string list \<Rightarrow> office \<Rightarrow> (orch_error + unit) \<times> office" where
  "supervise_ids_out c e [] w = (Inr (), w)"
| "supervise_ids_out c e (i # is) w =
     (case get_run_any (of_admin w) i of
        None \<Rightarrow> supervise_ids_out c e is w
      | Some r \<Rightarrow>
          (case supervise_run_out c e r w of
             (Inl err, w') \<Rightarrow> (Inl err, w')
           | (Inr _, w') \<Rightarrow> supervise_ids_out c e is w'))"

text \<open>\<open>texts\<close>: the wording of a finding changed, which the comparison of \<open>_refresh_findings\<close> sees and
  this model does not.\<close>

definition refresh_out :: "config \<Rightarrow> env \<Rightarrow> bool \<Rightarrow> office \<Rightarrow> office" where
  "refresh_out c e texts w =
     (let w' = w\<lparr>of_admin := refresh_findings c e (of_admin w)\<rparr>
      in if ad_findings (of_admin w') \<noteq> ad_findings (of_admin w) \<or> texts then mark_dirty w' else w')"

definition supervise_round_out :: "config \<Rightarrow> env \<Rightarrow> bool \<Rightarrow> office \<Rightarrow> office" where
  "supervise_round_out c e texts w =
     (let w' = (case supervise_ids_out c e (map r_id (active_runs (of_admin w))) w of
                  (Inl _, w1) \<Rightarrow> w1 | (Inr _, w1) \<Rightarrow> refresh_out c e texts w1)
      in w'\<lparr>of_admin := (of_admin w')\<lparr>ad_registry := snapshot_counters (ad_registry (of_admin w'))\<rparr>\<rparr>)"

section \<open>The page's sockets\<close>

text \<open>\<open>ui_socket\<close>: the socket joins the set and is sent a snapshot at once; where that send raises, and
  when the browser goes, the \<open>finally\<close> takes it out.\<close>

definition page_opens :: "page_env \<Rightarrow> config \<Rightarrow> env \<Rightarrow> nat \<Rightarrow> office \<Rightarrow> office" where
  "page_opens pe c e k w =
     (if en_socket_ok e k then w\<lparr>of_pages := dput k (snapshot_of pe c e (of_admin w)) (of_pages w)\<rparr> else w)"

definition page_closes :: "nat \<Rightarrow> office \<Rightarrow> office" where
  "page_closes k w = w\<lparr>of_pages := dpop k (of_pages w)\<rparr>"

text \<open>\<open>_broadcast_loop\<close>: woken by the mark, it clears it, serialises the snapshot and copies the set;
  other handlers run between its sends.\<close>

definition turn_begins :: "page_env \<Rightarrow> config \<Rightarrow> env \<Rightarrow> office \<Rightarrow> office" where
  "turn_begins pe c e w =
     (if of_dirty w \<and> of_turn w = None
      then w\<lparr>of_dirty := False,
             of_turn := Some (snapshot_of pe c e (of_admin w), keys (of_pages w))\<rparr>
      else w)"

definition turn_sends :: "env \<Rightarrow> office \<Rightarrow> office" where
  "turn_sends e w =
     (case of_turn w of
        None \<Rightarrow> w
      | Some (snap, []) \<Rightarrow> w\<lparr>of_turn := None\<rparr>
      | Some (snap, k # ks) \<Rightarrow>
          (let w' = w\<lparr>of_turn := Some (snap, ks)\<rparr>
           in if \<not> en_socket_ok e k then page_closes k w'
              else if k \<in> set (keys (of_pages w')) then w'\<lparr>of_pages := dput k snap (of_pages w')\<rparr>
              else w'))"

end
