(* ===== verification/Page_Props.thy ===== *)
theory Page_Props
  imports Admin_Page Orchestrator_Props
begin

text \<open>
  The operator's page and the event log keep up with the run table. The locale \<open>office_op\<close> is what
  an operation of the orchestrator owes its two outputs: it marks the page whenever it changed what
  the page shows, and the events it emits, read over the states before it, give the states after it.
  Every operation of \<open>Admin_Page\<close> is an interpretation, and the two properties follow once, for all
  interleavings with the broadcast loop, the page's sockets and the posting threads.
\<close>

section \<open>The outputs do not change the operations\<close>

lemma office_fields [simp]:
  "of_admin (mark_dirty w) = of_admin w" "of_log (mark_dirty w) = of_log w" "of_dirty (mark_dirty w)"
  "of_pages (mark_dirty w) = of_pages w" "of_turn (mark_dirty w) = of_turn w"
  "of_admin (announce m i l x w) = of_admin w" "of_dirty (announce m i l x w) = of_dirty w"
  "of_pages (announce m i l x w) = of_pages w" "of_turn (announce m i l x w) = of_turn w"
  by (simp_all add: mark_dirty_def announce_def)

lemma create_run_out_admin:
  "of_admin (snd (create_run_out c e label params zone w)) = snd (create_run c e label params zone (of_admin w))"
  by (simp add: create_run_out_def split: prod.splits sum.splits)

lemma act_out_admin: "of_admin (snd (act_out c e rid a w)) = snd (act c e rid a (of_admin w))"
  by (simp add: act_out_def split: prod.splits sum.splits)

lemma policy_out_admin:
  "of_admin (snd (policy_out c e rid p w)) = snd (set_ran_policy c e rid p (of_admin w))"
  by (simp add: policy_out_def split: prod.splits sum.splits)

lemma hello_out_admin:
  "of_admin (snd (hello_out c e h k peer w)) = snd (on_hello c e h k peer (of_admin w))"
  by (simp add: hello_out_def split: prod.splits)

lemma status_out_admin: "of_admin (snd (status_out c e nid st w)) = snd (on_status c e nid st (of_admin w))"
  by (simp add: status_out_def split: prod.splits sum.splits)

lemma goodbye_out_admin: "of_admin (goodbye_out c e nid g w) = on_goodbye c e nid g (of_admin w)"
  by (simp add: goodbye_out_def Let_def)

lemma supervise_run_out_admin:
  "of_admin (snd (supervise_run_out c e r w)) = snd (supervise_run c e r (of_admin w))"
  "fst (supervise_run_out c e r w) = fst (supervise_run c e r (of_admin w))"
  by (simp_all add: supervise_run_out_def supervise_run_def auto_stop_out_def auto_stop_def act_out_admin
      settle_out_def Let_def split: option.splits sum.splits)

lemma supervise_ids_out_admin:
  "of_admin (snd (supervise_ids_out c e is w)) = snd (supervise_ids c e is (of_admin w))
   \<and> fst (supervise_ids_out c e is w) = fst (supervise_ids c e is (of_admin w))"
proof (induction "is" arbitrary: w)
  case Nil
  then show ?case by simp
next
  case (Cons i js)
  show ?case
  proof (cases "get_run_any (of_admin w) i")
    case None
    then show ?thesis
      using Cons.IH by simp
  next
    case (Some r)
    note run = supervise_run_out_admin [of c e r w]
    obtain res w' where w': "supervise_run_out c e r w = (res, w')"
      by (cases "supervise_run_out c e r w")
    then have "supervise_run c e r (of_admin w) = (res, of_admin w')"
      using run by (metis fst_conv prod.collapse snd_conv)
    then show ?thesis
      using Cons.IH [of w'] w' Some by (cases res) simp_all
  qed
qed

lemma refresh_out_admin: "of_admin (refresh_out c e b w) = refresh_findings c e (of_admin w)"
  by (simp add: refresh_out_def Let_def)

lemma supervise_round_out_admin:
  "of_admin (supervise_round_out c e b w) = supervise_round c e (of_admin w)"
proof -
  let ?ids = "map r_id (active_runs (of_admin w))"
  obtain res w' where w': "supervise_ids_out c e ?ids w = (res, w')"
    by (cases "supervise_ids_out c e ?ids w")
  then have "supervise_once c e (of_admin w) = (res, of_admin w')"
    using supervise_ids_out_admin [of c e ?ids w] unfolding supervise_once_def
    by (metis fst_conv prod.collapse snd_conv)
  then show ?thesis
    using w' by (cases res) (simp_all add: supervise_round_out_def supervise_round_def refresh_out_admin Let_def)
qed

section \<open>What a run's events say\<close>

definition state_text :: "admin \<Rightarrow> string \<Rightarrow> string option" where
  "state_text s k = map_option (\<lambda>r. run_state_str (r_state r)) (map_of (ad_runs s) k)"

text \<open>The state an event reports, and the state of a run after some events, given the one before.\<close>

definition event_state :: "admin_event \<Rightarrow> string" where
  "event_state ev =
     (case (pget (le_context ev) ''state'', pget (le_context ev) ''to'') of
        (JStr t, _) \<Rightarrow> t | (_, JStr t) \<Rightarrow> t | _ \<Rightarrow> ''draft'')"

definition told_next :: "string \<Rightarrow> admin_event \<Rightarrow> string option \<Rightarrow> string option" where
  "told_next k ev before = (if le_trace ev = Some k then Some (event_state ev) else before)"

definition told :: "string \<Rightarrow> admin_event list \<Rightarrow> string option \<Rightarrow> string option" where
  "told k = fold (told_next k)"

definition tells :: "office \<Rightarrow> office \<Rightarrow> bool" where
  "tells w w' \<longleftrightarrow>
     log_enabled (of_log w) = log_enabled (of_log w')
     \<and> (log_enabled (of_log w) \<longrightarrow>
         (\<exists>es. el_emitted (of_log w') = el_emitted (of_log w) @ es
            \<and> (\<forall>k. state_text (of_admin w') k = told k es (state_text (of_admin w) k))))"

lemma tells_trans: "tells w w' \<Longrightarrow> tells w' w'' \<Longrightarrow> tells w w''"
  by (fastforce simp: tells_def told_def)

lemma tells_quiet:
  "of_log w' = of_log w \<Longrightarrow> state_text (of_admin w') = state_text (of_admin w) \<Longrightarrow> tells w w'"
  by (simp add: tells_def told_def)

lemma tells_refl [simp]: "tells w w"
  by (simp add: tells_quiet)

lemma tells_announced:
  assumes log: "of_log w' = of_log (announce m rid l x w)"
    and state: "\<And>k. state_text (of_admin w') k =
      (if k = rid then Some (event_state (event_of m (Some rid) l x)) else state_text (of_admin w) k)"
  shows "tells w w'"
proof -
  have "le_trace (event_of m (Some rid) l x) = Some rid"
    by (simp add: event_of_def)
  then show ?thesis
    by (auto simp: tells_def told_def told_next_def announce_def emit_def state log log_enabled_def)
qed

section \<open>The contract\<close>

text \<open>What the page shows of the orchestrator, apart from the nodes and the clocks.\<close>

definition page_view :: "admin \<Rightarrow> (string \<times> run) list \<times> finding list" where
  "page_view s = (ad_runs s, ad_findings s)"

text \<open>A snapshot that says of the runs and findings what the orchestrator holds, and the page's invariant:
  unmarked, every open page was sent such a snapshot, or is still to be sent one in this turn.\<close>

definition says_view :: "pdict \<Rightarrow> admin \<Rightarrow> bool" where
  "says_view snap s \<longleftrightarrow>
     pget snap ''runs'' = JArr (map run_row (all_runs s))
     \<and> pget snap ''active_run_id'' = opt_json (JStr \<circ> r_id) (active_run s)
     \<and> pget snap ''findings'' = JArr (map (JObj \<circ> finding_to_dict) (ad_findings s))"

lemma snapshot_says: "says_view (snapshot_of pe c e s) s"
  by (simp add: says_view_def snapshot_of_def pget_def)

lemma says_view_cong: "page_view s' = page_view s \<Longrightarrow> says_view snap s' = says_view snap s"
  by (simp add: page_view_def says_view_def all_runs_def active_run_def active_runs_def)

definition in_turn :: "office \<Rightarrow> nat \<Rightarrow> bool" where
  "in_turn w k \<longleftrightarrow> (case of_turn w of None \<Rightarrow> False | Some (snap, ks) \<Rightarrow> k \<in> set ks)"

definition page_current :: "office \<Rightarrow> bool" where
  "page_current w \<longleftrightarrow>
     of_dirty w
     \<or> ((\<forall>snap ks. of_turn w = Some (snap, ks) \<longrightarrow> says_view snap (of_admin w))
        \<and> (\<forall>k shown. map_of (of_pages w) k = Some shown \<longrightarrow> in_turn w k \<or> says_view shown (of_admin w)))"

locale office_op =
  fixes guard :: "office \<Rightarrow> bool" and op :: "office \<Rightarrow> office"
  assumes telling: "orch_wf (of_admin w) \<Longrightarrow> guard w \<Longrightarrow> tells w (op w)"
    and sound: "orch_wf (of_admin w) \<Longrightarrow> guard w \<Longrightarrow> orch_wf (of_admin (op w))"
    and sockets: "of_pages (op w) = of_pages w" "of_turn (op w) = of_turn w"
    and marking: "orch_wf (of_admin w) \<Longrightarrow> guard w \<Longrightarrow> \<not> of_dirty (op w) \<Longrightarrow>
      \<not> of_dirty w \<and> page_view (of_admin (op w)) = page_view (of_admin w)"
begin

lemma current:
  assumes "orch_wf (of_admin w)" and "guard w" and "page_current w"
  shows "page_current (op w)"
proof (cases "of_dirty (op w)")
  case False
  with marking [OF assms(1,2)] have "\<not> of_dirty w" "says_view snap (of_admin (op w)) = says_view snap (of_admin w)" for snap
    using says_view_cong by blast+
  with assms(3) show ?thesis
    by (simp add: page_current_def in_turn_def sockets)
qed (simp add: page_current_def)

lemma keeps:
  assumes "orch_wf (of_admin w)" and "guard w"
  shows "tells w (op w) \<and> orch_wf (of_admin (op w)) \<and> (page_current w \<longrightarrow> page_current (op w))"
  using telling sound current assms by blast

end

section \<open>What each operation does to the states\<close>

lemma state_text_dput:
  "state_text (s\<lparr>ad_runs := dput k r t\<rparr>) j =
     (if j = k then Some (run_state_str (r_state r)) else state_text (s\<lparr>ad_runs := t\<rparr>) j)"
  by (simp add: state_text_def)

text \<open>Operations that write back a run as they found it, states apart.\<close>

definition same_states :: "(string \<times> run) list \<Rightarrow> (string \<times> run) list \<Rightarrow> bool" where
  "same_states t t' \<longleftrightarrow> (\<forall>k. map_option r_state (map_of t' k) = map_option r_state (map_of t k))"

lemma same_states_refl [simp]: "same_states t t"
  by (simp add: same_states_def)

lemma same_states_trans: "same_states t u \<Longrightarrow> same_states u v \<Longrightarrow> same_states t v"
  by (simp add: same_states_def)

lemma same_states_touch:
  "map_of t (r_id r) = Some r \<Longrightarrow> same_run_kind r r' \<Longrightarrow> same_states t (dput (r_id r') r' t)"
  by (simp add: same_states_def same_run_kind_def)

lemma same_states_text: "same_states (ad_runs s) (ad_runs s') \<Longrightarrow> state_text s' = state_text s"
  by (rule ext) (simp add: same_states_def state_text_def flip: option.map_comp [unfolded comp_def])

lemma same_states_fields:
  assumes "map_of t (r_id r) = Some r"
  shows "same_states t (dput (r_id r) (r\<lparr>r_params := p\<rparr>) t)"
    and "same_states t (dput (r_id r) (r\<lparr>r_participants := q\<rparr>) t)"
    and "same_states t (dput (r_id r) (r\<lparr>r_reports := d\<rparr>) t)"
  using assms by (simp_all add: same_states_def)

lemma policy_states:
  assumes "table_wf (ad_runs s)"
  shows "same_states (ad_runs s) (ad_runs (snd (set_ran_policy c e rid p s)))"
proof (cases "get_run rid s")
  case (Inr r)
  then have "map_of (ad_runs s) (r_id r) = Some r"
    using table_wf_id [OF assms] by (auto simp: get_run_Inr)
  then show ?thesis
    using Inr broadcast_effect(1) [of e Ran_Policy]
    by (auto simp: set_ran_policy_def Let_def case_prod_beta same_states_fields split: sum.splits)
qed (simp add: set_ran_policy_def)

lemma hello_states:
  assumes "table_wf (ad_runs s)"
  shows "same_states (ad_runs s) (ad_runs (snd (on_hello c e h sock peer s)))"
proof -
  let ?s1 = "attach_node (hp_node_id h) sock (s\<lparr>ad_registry := update_node (hp_node_id h)
               (address_update peer) (reg_on_hello (en_mono e) h (ad_registry s))\<rparr>)"
  have "map_of (ad_runs s) (r_id r) = Some r" if "active_run_in ?s1 z = Some r" for z r
    using active_run_in_Some(1) [of ?s1, OF _ that] assms by simp
  then show ?thesis
    by (auto simp: on_hello_def Let_def same_states_fields split: option.splits)
qed

lemma report_states:
  assumes "table_wf (ad_runs s)"
  shows "same_states (ad_runs s) (ad_runs (file_report c nid st s))"
proof -
  have "map_of (ad_runs s) (r_id r) = Some r" if "get_run_any s k = Some r" for k r
    using that table_wf_id [OF assms, of k r] by (simp add: get_run_any_def)
  moreover have "map_of (ad_runs s) (r_id r) = Some r" if "active_run s = Some r" for r
    using that active_runs_mem(1) [OF assms active_run_Some] by simp
  ultimately show ?thesis
    by (auto simp: file_report_def Let_def same_states_fields split: option.splits)
qed

lemma goodbye_states:
  assumes "table_wf (ad_runs s)"
  shows "same_states (ad_runs s) (ad_runs (on_goodbye c e nid g s))"
  using table_wf_id [OF assms]
  by (auto simp: on_goodbye_def get_run_any_def Let_def same_states_def split: option.splits)

lemma status_states:
  assumes "table_wf (ad_runs s)"
  shows "same_states (ad_runs s) (ad_runs (snd (on_status c e nid st s)))"
proof -
  let ?s0 = "s\<lparr>ad_registry := reg_on_status (en_mono e) nid st (ad_registry s)\<rparr>"
  let ?s1 = "file_report c nid st ?s0"
  have 1: "same_states (ad_runs s) (ad_runs ?s1)"
    using report_states [of ?s0] assms by simp
  have wf: "table_wf (ad_runs ?s1)"
    using file_report_table [of ?s0] assms table_steps_wf by fastforce
  have "same_states (ad_runs s) (dput (r_id q) q (ad_runs ?s1))"
    if "get_run_any ?s1 k = Some r \<or> active_run_in ?s1 z = Some r" and "q = snd (note_participant c nid n r)"
    for k z n r q
    using that active_run_in_Some(1) [OF wf, of z r] table_wf_id [OF wf, of k r]
      same_states_trans [OF 1 same_states_touch [OF _ note_participant_kind]]
    by (auto simp: get_run_any_def)
  then show ?thesis
    using 1 by (fastforce simp: on_status_def Let_def case_prod_beta split: option.splits)
qed

text \<open>An operator's action moves the run it names, to the state of the run it returns; one that is
  refused moves nothing, the refused start for want of disk apart.\<close>

lemma act_states:
  assumes wf: "table_wf (ad_runs s)" and ok: "act c e rid a s = (Inr r, s')"
  shows "r_id r = rid"
    and "state_text s' k = (if k = rid then Some (run_state_str (r_state r)) else state_text s k)"
    and "ad_findings s' = ad_findings s"
proof -
  have id: "r_id r0 = rid" if "get_run rid s = Inr r0" for r0
    using that table_wf_id [OF wf] by (simp add: get_run_Inr)
  show "r_id r = rid" "ad_findings s' = ad_findings s"
    "state_text s' k = (if k = rid then Some (run_state_str (r_state r)) else state_text s k)"
    using ok id
    by (auto simp: act_def act_start_def act_stop_def act_remove_def Let_def state_text_def persist_def
        journal_def save_run_def put_run_def split: sum.splits run_action.splits if_splits prod.splits)
qed

lemma act_refused:
  assumes "act c e rid a s = (Inl err, s')" and "err \<noteq> Low_Disk"
  shows "s' = s"
  using assms
  by (auto simp: act_def act_start_def act_stop_def act_remove_def Let_def
      split: sum.splits run_action.splits if_splits prod.splits)

section \<open>Every operation satisfies the contract\<close>

lemma tells_admin:
  "of_log w' = of_log w \<Longrightarrow> same_states (ad_runs (of_admin w)) (ad_runs (of_admin w')) \<Longrightarrow> tells w w'"
  by (rule tells_quiet) (simp_all add: same_states_text)

lemma wf_table: "orch_wf s \<Longrightarrow> table_wf (ad_runs s)"
  by (simp add: orch_wf_def)

lemma act_event_state:
  "event_state (event_of m i l [(''action'', a), (''state'', JStr t), (''label'', b)]) = t"
  "event_state (event_of m i l [(''from'', a), (''to'', JStr t), (''findings'', b)]) = t"
  "event_state (event_of m i l [(''label'', a), (''params'', b), (''seq'', d), (''zone'', JStr z)]) = ''draft''"
  by (simp_all add: event_state_def event_of_def pget_def)

lemma act_out_tells:
  assumes wf: "orch_wf (of_admin w)" and disk: "fst (act c e rid a (of_admin w)) \<noteq> Inl Low_Disk"
  shows "tells w (snd (act_out c e rid a w))"
proof (cases "act c e rid a (of_admin w)")
  case (Pair res s')
  show ?thesis
  proof (cases res)
    case (Inl err)
    then have "s' = of_admin w"
      using act_refused [of c e rid a "of_admin w" err s'] Pair disk by simp
    then show ?thesis
      using Pair Inl by (simp add: act_out_def)
  next
    case (Inr r)
    note st = act_states [OF wf_table [OF wf] Pair [unfolded Inr]]
    have log: "of_log (snd (act_out c e rid a w)) = of_log (announce
        (''run '' @ run_action_str a @ '' -> '' @ run_state_str (r_state r)) rid ''INFO''
        [(''action'', JStr (run_action_str a)), (''state'', JStr (run_state_str (r_state r))),
         (''label'', JStr (r_label r))] w)"
      using Pair Inr st(1) by (simp add: act_out_def announce_def)
    show ?thesis
      by (rule tells_announced [OF log])
        (use Pair st(2) in \<open>simp only: act_out_admin snd_conv act_event_state\<close>)
  qed
qed

lemma act_out_marks:
  assumes "fst (act c e rid a (of_admin w)) \<noteq> Inl Low_Disk" and "\<not> of_dirty (snd (act_out c e rid a w))"
  shows "\<not> of_dirty w \<and> of_admin (snd (act_out c e rid a w)) = of_admin w"
  using assms act_refused [of c e rid a "of_admin w"]
  by (auto simp: act_out_def split: prod.splits sum.splits)

lemma act_out_sockets:
  "of_pages (snd (act_out c e rid a w)) = of_pages w" "of_turn (snd (act_out c e rid a w)) = of_turn w"
  by (simp_all add: act_out_def split: prod.splits sum.splits)

interpretation out_act: office_op "\<lambda>w. fst (act c e rid a (of_admin w)) \<noteq> Inl Low_Disk"
  "\<lambda>w. snd (act_out c e rid a w)" for c e rid a
  by unfold_locales
     (use act_out_marks in \<open>auto simp: act_out_tells act_out_admin acting.wf act_out_sockets\<close>)

lemma create_states:
  assumes "create_run c e label params zone s = (Inr r, s')"
  shows "state_text s' k = (if k = r_id r then Some ''draft'' else state_text s k)"
  using assms
  by (auto simp: create_run_def Let_def state_text_def put_run_def split: sum.splits option.splits prod.splits if_splits)

lemma create_refused:
  assumes "create_run c e label params zone s = (Inl err, s')"
  shows "ad_runs s' = ad_runs s \<and> ad_findings s' = ad_findings s"
  using assms by (auto simp: create_run_def Let_def split: sum.splits option.splits prod.splits if_splits)

lemma create_out_tells: "tells w (snd (create_run_out c e label params zone w))"
proof (cases "create_run c e label params zone (of_admin w)")
  case (Pair res s')
  show ?thesis
  proof (cases res)
    case (Inl err)
    with Pair create_refused show ?thesis
      by (intro tells_admin) (fastforce simp: create_run_out_def)+
  next
    case (Inr r)
    have log: "of_log (snd (create_run_out c e label params zone w)) = of_log (announce ''run created'' (r_id r) ''INFO''
        [(''label'', JStr (r_label r)), (''params'', JObj (r_params r)), (''seq'', JInt (r_seq r)),
         (''zone'', JStr (r_zone r))] w)"
      using Pair Inr by (simp add: create_run_out_def announce_def)
    show ?thesis
      by (rule tells_announced [OF log])
        (use Pair create_states [of c e label params zone "of_admin w" r s'] Inr in
          \<open>simp only: create_run_out_admin snd_conv act_event_state\<close>)
  qed
qed

interpretation out_create: office_op "\<lambda>w. fresh_id e (of_admin w)"
  "\<lambda>w. snd (create_run_out c e label params zone w)" for c e label params zone
proof
  fix w :: office
  assume wf: "orch_wf (of_admin w)" and fresh: "fresh_id e (of_admin w)"
  show "orch_wf (of_admin (snd (create_run_out c e label params zone w)))"
    using wf fresh by (simp add: create_run_out_admin creating.wf)
  show "tells w (snd (create_run_out c e label params zone w))"
    by (rule create_out_tells)
  show "\<not> of_dirty w \<and> page_view (of_admin (snd (create_run_out c e label params zone w))) = page_view (of_admin w)"
    if "\<not> of_dirty (snd (create_run_out c e label params zone w))"
    using that by (auto simp: create_run_out_def create_run_def Let_def page_view_def
        split: sum.splits option.splits prod.splits if_splits)
qed (auto simp: create_run_out_def split: prod.splits sum.splits)

interpretation out_policy: office_op "\<lambda>w. True" "\<lambda>w. snd (policy_out c e rid p w)" for c e rid p
proof
  fix w :: office
  assume wf: "orch_wf (of_admin w)"
  show "tells w (snd (policy_out c e rid p w))"
    using policy_states [OF wf_table [OF wf], of c e rid p]
    by (intro tells_admin) (auto simp: policy_out_def split: prod.splits sum.splits)
  show "orch_wf (of_admin (snd (policy_out c e rid p w)))"
    using wf by (simp add: policy_out_admin policy.wf)
  show "\<not> of_dirty w \<and> page_view (of_admin (snd (policy_out c e rid p w))) = page_view (of_admin w)"
    if "\<not> of_dirty (snd (policy_out c e rid p w))"
    using that
    by (auto simp: policy_out_def page_view_def set_ran_policy_def Let_def case_prod_beta
        split: sum.splits if_splits prod.splits)
qed (simp_all add: policy_out_def split: prod.splits sum.splits)

interpretation out_detach: office_op "\<lambda>w. True" "detach_out nid sock" for nid sock
  by unfold_locales (simp_all add: detach_out_def tells_admin detaching.wf)

interpretation out_hello: office_op "\<lambda>w. True" "\<lambda>w. snd (hello_out c e h sock peer w)" for c e h sock peer
proof
  fix w :: office
  assume wf: "orch_wf (of_admin w)"
  show "tells w (snd (hello_out c e h sock peer w))"
    using hello_states [OF wf_table [OF wf], of c e h sock peer]
    by (intro tells_admin) (auto simp: hello_out_def split: prod.splits)
  show "orch_wf (of_admin (snd (hello_out c e h sock peer w)))"
    using wf by (simp add: hello_out_admin greeting.wf)
qed (simp_all add: hello_out_def split: prod.splits)

lemma status_unknown:
  assumes "get_node (ad_registry (snd (on_status c e nid st s))) nid = None"
  shows "page_view (snd (on_status c e nid st s)) = page_view s"
  using assms
  by (auto simp: on_status_def Let_def page_view_def case_prod_beta split: option.splits if_splits)

interpretation out_status: office_op "\<lambda>w. fst (on_status c e nid st (of_admin w)) = Inr ()"
  "\<lambda>w. snd (status_out c e nid st w)" for c e nid st
proof
  fix w :: office
  assume wf: "orch_wf (of_admin w)" and ok: "fst (on_status c e nid st (of_admin w)) = Inr ()"
  have out: "snd (status_out c e nid st w) =
      (let w' = w\<lparr>of_admin := snd (on_status c e nid st (of_admin w))\<rparr>
       in if get_node (ad_registry (of_admin w')) nid = None then w' else mark_dirty w')"
    using ok by (auto simp: status_out_def Let_def split: prod.splits sum.splits)
  show "tells w (snd (status_out c e nid st w))"
    using status_states [OF wf_table [OF wf], of c e nid st] by (intro tells_admin) (simp_all add: out Let_def)
  show "orch_wf (of_admin (snd (status_out c e nid st w)))"
    using wf by (simp add: status_out_admin reporting.wf)
  show "\<not> of_dirty w \<and> page_view (of_admin (snd (status_out c e nid st w))) = page_view (of_admin w)"
    if "\<not> of_dirty (snd (status_out c e nid st w))"
    using that status_unknown [of c e nid st "of_admin w"] by (simp add: out Let_def split: if_splits)
qed (simp_all add: status_out_def split: prod.splits sum.splits)

lemma goodbye_unknown:
  assumes "get_node (ad_registry (on_goodbye c e nid g s)) nid = None"
  shows "page_view (on_goodbye c e nid g s) = page_view s"
  using assms by (auto simp: on_goodbye_def Let_def page_view_def split: option.splits if_splits)

interpretation out_goodbye: office_op "\<lambda>w. True" "goodbye_out c e nid g" for c e nid g
proof
  fix w :: office
  assume wf: "orch_wf (of_admin w)"
  show "tells w (goodbye_out c e nid g w)"
    using goodbye_states [OF wf_table [OF wf], of c e nid g]
    by (intro tells_admin) (simp_all add: goodbye_out_def Let_def)
  show "orch_wf (of_admin (goodbye_out c e nid g w))"
    using wf by (simp add: goodbye_out_admin leaving.wf)
  show "\<not> of_dirty w \<and> page_view (of_admin (goodbye_out c e nid g w)) = page_view (of_admin w)"
    if "\<not> of_dirty (goodbye_out c e nid g w)"
    using that goodbye_unknown [of c e nid g "of_admin w"] by (simp add: goodbye_out_def Let_def split: if_splits)
qed (simp_all add: goodbye_out_def Let_def)

section \<open>The supervise pass\<close>

text \<open>Marks and sockets of a step whose table may have changed.\<close>

definition owes_nothing :: "office \<Rightarrow> office \<Rightarrow> bool" where
  "owes_nothing w w' \<longleftrightarrow>
     of_pages w' = of_pages w \<and> of_turn w' = of_turn w
     \<and> (\<not> of_dirty w' \<longrightarrow> \<not> of_dirty w \<and> page_view (of_admin w') = page_view (of_admin w))"

lemma owes_nothing_trans: "owes_nothing w w' \<Longrightarrow> owes_nothing w' w'' \<Longrightarrow> owes_nothing w w''"
  by (auto simp: owes_nothing_def)

lemma supervise_run_owes:
  assumes wf: "orch_wf (of_admin w)" and r: "map_of (ad_runs (of_admin w)) (r_id r) = Some r"
  shows "tells w (snd (supervise_run_out c e r w)) \<and> owes_nothing w (snd (supervise_run_out c e r w))"
proof (cases "watchdog c e r")
  case (Some why)
  let ?w = "w\<lparr>of_admin := journal e (r_id r) ''auto-stop'' [(''reason'', JStr why)] (of_admin w)\<rparr>"
  have disk: "fst (act c e (r_id r) Act_Stop s) \<noteq> Inl Low_Disk" for s
    by (auto simp: act_def act_stop_def Let_def get_run_def split: sum.splits option.splits if_splits)
  have wf': "orch_wf (of_admin ?w)" and quiet: "tells w ?w"
    using wf by (simp_all add: orch_wf_def tells_admin)
  have "ad_findings (of_admin ?w) = ad_findings (of_admin w)"
    by (simp add: journal_def)
  then show ?thesis
    using out_act.telling [of ?w c e "r_id r" Act_Stop] out_act.marking [of ?w c e "r_id r" Act_Stop] wf' disk
      tells_trans [OF quiet] out_act.sockets [of c e "r_id r" Act_Stop ?w]
    by (auto simp: supervise_run_out_def auto_stop_out_def Some owes_nothing_def page_view_def)
next
  case None
  let ?s = "of_admin w"
  obtain st where st: "judge r (pass_participants r ?s) (pass_online c e r ?s \<noteq> []) (pass_event c e r ?s) = Inr st"
    using judge_legal [OF pass_event_def] by blast
  let ?r1 = "r\<lparr>r_state := st\<rparr>"
  let ?s1 = "pass_left st r (pass_bookkeeping c e r ?s)"
  have f: "ad_findings ?s1 = ad_findings ?s"
    by (simp add: pass_left_def pass_bookkeeping_def pass_clocks_def journal_def)
  show ?thesis
  proof (cases "st = r_state r")
    case True
    then show ?thesis
      using None st f by (simp add: supervise_run_out_def Let_def tells_admin owes_nothing_def page_view_def)
  next
    case False
    let ?w = "w\<lparr>of_admin := put_run ?r1 ?s1\<rparr>"
    let ?out = "settle_out c e (r_state r) ?r1 ?w"
    have out: "snd (supervise_run_out c e r w) = ?out"
      using None st False by (simp add: supervise_run_out_def Let_def)
    have log: "of_log ?out = of_log (announce
        (''run '' @ run_state_str (r_state r) @ '' -> '' @ run_state_str st) (r_id r)
        (if st \<in> {Degraded, Failed} then ''WARNING'' else ''INFO'')
        [(''from'', JStr (run_state_str (r_state r))), (''to'', JStr (run_state_str st)),
         (''findings'', JArr (map (JStr \<circ> f_code) (ad_findings (of_admin ?w))))] w)"
      by (simp add: settle_out_def announce_def)
    have "state_text (of_admin ?out) k =
        (if k = r_id r then Some (run_state_str st) else state_text (of_admin w) k)" for k
      by (simp add: settle_out_def state_text_def settle_change_runs)
    then have "tells w ?out"
      by (intro tells_announced [OF log]) (simp only: act_event_state)
    then show ?thesis
      unfolding out by (simp add: owes_nothing_def settle_out_def)
  qed
qed

lemma supervise_ids_owes:
  "orch_wf (of_admin w) \<Longrightarrow>
     tells w (snd (supervise_ids_out c e is w)) \<and> owes_nothing w (snd (supervise_ids_out c e is w))"
proof (induction "is" arbitrary: w)
  case Nil
  then show ?case by (simp add: owes_nothing_def)
next
  case (Cons i js)
  show ?case
  proof (cases "get_run_any (of_admin w) i")
    case None
    then show ?thesis
      using Cons by simp
  next
    case (Some r)
    then have r: "map_of (ad_runs (of_admin w)) (r_id r) = Some r"
      using table_wf_id [OF wf_table [OF Cons.prems]] by (auto simp: get_run_any_def)
    obtain w' where w': "supervise_run_out c e r w = (Inr (), w')"
      using supervise_run_table [OF wf_table [OF Cons.prems] r, of c e] supervise_run_out_admin(2) [of c e r w]
      by (metis old.unit.exhaust prod.collapse)
    have "orch_wf (of_admin w')"
      using supervise_run_table [OF wf_table [OF Cons.prems] r, of c e] supervise_run_out_admin(1) [of c e r w]
        Cons.prems table_steps_wf by (auto simp: orch_wf_def w')
    then show ?thesis
      using Cons.IH [of w'] supervise_run_owes [OF Cons.prems r, of c e] tells_trans owes_nothing_trans
      by (fastforce simp: Some w')
  qed
qed

lemma supervise_run_out_sockets:
  "of_pages (snd (supervise_run_out c e r w)) = of_pages w" "of_turn (snd (supervise_run_out c e r w)) = of_turn w"
  by (simp_all add: supervise_run_out_def auto_stop_out_def settle_out_def act_out_sockets Let_def
      split: option.splits sum.splits)

lemma supervise_ids_out_sockets:
  "of_pages (snd (supervise_ids_out c e is w)) = of_pages w
   \<and> of_turn (snd (supervise_ids_out c e is w)) = of_turn w"
proof (induction "is" arbitrary: w)
  case (Cons i js)
  show ?case
  proof (cases "get_run_any (of_admin w) i")
    case None
    then show ?thesis using Cons by simp
  next
    case (Some r)
    obtain res w' where w': "supervise_run_out c e r w = (res, w')"
      by (cases "supervise_run_out c e r w")
    then show ?thesis
      using Some Cons.IH [of w'] supervise_run_out_sockets [of c e r w] by (cases res) simp_all
  qed
qed simp

lemma refresh_owes: "tells w (refresh_out c e b w) \<and> owes_nothing w (refresh_out c e b w)"
  by (auto simp: refresh_out_def Let_def refresh_findings_def owes_nothing_def page_view_def intro: tells_admin)

interpretation out_supervise: office_op "\<lambda>w. True" "supervise_round_out c e b" for c e b
proof
  fix w :: office
  let ?ids = "map r_id (active_runs (of_admin w))"
  let ?w1 = "snd (supervise_ids_out c e ?ids w)"
  let ?w2 = "case supervise_ids_out c e ?ids w of (Inl _, w1) \<Rightarrow> w1 | (Inr _, w1) \<Rightarrow> refresh_out c e b w1"
  have out: "supervise_round_out c e b w =
      ?w2\<lparr>of_admin := (of_admin ?w2)\<lparr>ad_registry := snapshot_counters (ad_registry (of_admin ?w2))\<rparr>\<rparr>"
    by (simp add: supervise_round_out_def Let_def)
  have last: "tells ?w2 (supervise_round_out c e b w) \<and> owes_nothing ?w2 (supervise_round_out c e b w)"
    unfolding out by (simp add: owes_nothing_def page_view_def tells_admin)
  have mid: "tells ?w1 ?w2 \<and> owes_nothing ?w1 ?w2"
    using refresh_owes [of "snd (supervise_ids_out c e ?ids w)" c e b]
    by (cases "supervise_ids_out c e ?ids w"; cases "fst (supervise_ids_out c e ?ids w)") (simp_all add: owes_nothing_def)
  have all: "tells w (supervise_round_out c e b w) \<and> owes_nothing w (supervise_round_out c e b w)"
    if "orch_wf (of_admin w)"
    using supervise_ids_owes [OF that] mid last tells_trans owes_nothing_trans by blast
  show "tells w (supervise_round_out c e b w)" if "orch_wf (of_admin w)"
    using all that by blast
  show "orch_wf (of_admin (supervise_round_out c e b w))" if "orch_wf (of_admin w)"
    using that by (simp add: supervise_round_out_admin supervising.wf)
  show "\<not> of_dirty w \<and> page_view (of_admin (supervise_round_out c e b w)) = page_view (of_admin w)"
    if "orch_wf (of_admin w)" "\<not> of_dirty (supervise_round_out c e b w)"
    using all that by (simp add: owes_nothing_def)
  show "of_pages (supervise_round_out c e b w) = of_pages w" "of_turn (supervise_round_out c e b w) = of_turn w"
    using mid last supervise_ids_out_sockets [of c e ?ids w] by (simp_all only: owes_nothing_def)
qed

section \<open>Operations without an output\<close>

text \<open>Frames that only note a time, and the keepalive pings.\<close>

definition silently :: "(admin \<Rightarrow> admin) \<Rightarrow> office \<Rightarrow> office" where
  "silently f w = w\<lparr>of_admin := f (of_admin w)\<rparr>"

lemma keepalive_view: "page_view (keepalive_round e s) = page_view s"
  by (simp add: keepalive_round_def page_view_def)

interpretation out_keepalive: office_op "\<lambda>w. True" "silently (keepalive_round e)" for e
  using keepalive_view by unfold_locales (simp_all add: silently_def tells_admin pinging.wf page_view_def)

lemma noted_view:
  "page_view (note_frame now nid ts adm s) = page_view s" "page_view (note_hello nid ts adm s) = page_view s"
  by (simp_all add: note_frame_def note_hello_def page_view_def)

lemma silent_tells: "page_view (f (of_admin w)) = page_view (of_admin w) \<Longrightarrow> tells w (silently f w)"
  by (rule tells_admin) (simp_all add: silently_def page_view_def)

interpretation out_note: office_op "\<lambda>w. True" "silently (note_frame now nid ts adm)" for now nid ts adm
proof
  show "tells w (silently (note_frame now nid ts adm) w)" for w
    by (simp add: silent_tells noted_view)
  show "orch_wf (of_admin (silently (note_frame now nid ts adm) w))" if "orch_wf (of_admin w)" for w
    using noting.wf [OF that TrueI] by (simp add: silently_def)
qed (simp_all add: silently_def noted_view)

interpretation out_clock: office_op "\<lambda>w. True" "silently (note_hello nid ts adm)" for nid ts adm
proof
  show "tells w (silently (note_hello nid ts adm) w)" for w
    by (simp add: silent_tells noted_view)
  show "orch_wf (of_admin (silently (note_hello nid ts adm) w))" if "orch_wf (of_admin w)" for w
    using hello_noting.wf [OF that TrueI] by (simp add: silently_def)
qed (simp_all add: silently_def noted_view)

section \<open>All interleavings\<close>

text \<open>The orchestrator's operations, the threads that post, the page's sockets and the broadcast loop,
  in any order. Two operations raise after they changed the table, and so without the event or the mark
  that was to come: a start refused for want of disk, which leaves its run \<open>starting\<close>
  (\<open>refused_start_unseen\<close>), and a status whose codec precision is no number. They are the steps of
  \<open>office_raise\<close>, labelled with the runs they moved.\<close>

inductive office_step :: "page_env \<Rightarrow> config \<Rightarrow> office \<Rightarrow> office \<Rightarrow> bool" for pe c where
  fs_create: "fresh_id e (of_admin w) \<Longrightarrow> office_step pe c w (snd (create_run_out c e label params zone w))"
| fs_act: "fst (act c e rid a (of_admin w)) \<noteq> Inl Low_Disk \<Longrightarrow> office_step pe c w (snd (act_out c e rid a w))"
| fs_policy: "office_step pe c w (snd (policy_out c e rid p w))"
| fs_hello: "office_step pe c w (snd (hello_out c e h sock peer w))"
| fs_status: "fst (on_status c e nid st (of_admin w)) = Inr () \<Longrightarrow>
    office_step pe c w (snd (status_out c e nid st w))"
| fs_goodbye: "office_step pe c w (goodbye_out c e nid g w)"
| fs_detach: "office_step pe c w (detach_out nid sock w)"
| fs_note: "office_step pe c w (silently (note_frame now nid ts adm) w)"
| fs_clock: "office_step pe c w (silently (note_hello nid ts adm) w)"
| fs_keepalive: "office_step pe c w (silently (keepalive_round e) w)"
| fs_supervise: "office_step pe c w (supervise_round_out c e texts w)"
| fs_posted: "office_step pe c w (w\<lparr>of_log := post_ends i r (of_log w)\<rparr>)"
| fs_page: "office_step pe c w (page_opens pe c e k w)"
| fs_gone: "office_step pe c w (page_closes k w)"
| fs_turn: "office_step pe c w (turn_begins pe c e w)"
| fs_send: "office_step pe c w (turn_sends e w)"

inductive office_raise :: "config \<Rightarrow> string set \<Rightarrow> office \<Rightarrow> office \<Rightarrow> bool" for c where
  ra_act: "fst (act c e rid a (of_admin w)) = Inl Low_Disk \<Longrightarrow> office_raise c {rid} w (snd (act_out c e rid a w))"
| ra_status: "fst (on_status c e nid st (of_admin w)) \<noteq> Inr () \<Longrightarrow>
    office_raise c {} w (snd (status_out c e nid st w))"

text \<open>The runs that an event was emitted about between two states.\<close>

definition heard_of :: "office \<Rightarrow> office \<Rightarrow> string set" where
  "heard_of w w' =
     {k. \<exists>ev \<in> set (drop (length (el_emitted (of_log w))) (el_emitted (of_log w'))). le_trace ev = Some k}"

text \<open>What can be reached, with the runs a refused start moved and no event named since, and whether an
  operation raised since the page was last marked.\<close>

inductive office_reachable ::
  "page_env \<Rightarrow> config \<Rightarrow> string \<Rightarrow> admin \<Rightarrow> string set \<Rightarrow> bool \<Rightarrow> office \<Rightarrow> bool" for pe c url s0 where
  fr_start: "office_reachable pe c url s0 {} False (open_office url s0)"
| fr_step: "office_reachable pe c url s0 unheard raised w \<Longrightarrow> office_step pe c w w' \<Longrightarrow>
    office_reachable pe c url s0 (unheard - heard_of w w') (raised \<and> \<not> of_dirty w') w'"
| fr_raise: "office_reachable pe c url s0 unheard raised w \<Longrightarrow> office_raise c ks w w' \<Longrightarrow>
    office_reachable pe c url s0 (unheard \<union> ks) (\<not> of_dirty w') w'"

lemma posting_effect:
  "el_emitted (post_ends i r l) = el_emitted l" "log_enabled (post_ends i r l) = log_enabled l"
  by (simp_all add: post_ends_def Let_def log_enabled_def split: post_end.splits)

lemma page_steps:
  "page_current w \<Longrightarrow> page_current (page_opens pe c e k w)"
  "page_current w \<Longrightarrow> page_current (page_closes k w)"
  "page_current w \<Longrightarrow> page_current (turn_begins pe c e w)"
  "page_current w \<Longrightarrow> page_current (turn_sends e w)"
proof -
  assume cur: "page_current w"
  show "page_current (page_opens pe c e k w)"
    using cur by (auto simp: page_opens_def page_current_def in_turn_def snapshot_says)
  show "page_current (page_closes k w)"
    using cur by (auto simp: page_closes_def page_current_def in_turn_def)
  show "page_current (turn_begins pe c e w)"
    using cur map_of_keys_Some [of "of_pages w"]
    by (auto simp: turn_begins_def page_current_def in_turn_def snapshot_says)
  show "page_current (turn_sends e w)"
  proof (cases "of_turn w")
    case None
    with cur show ?thesis by (simp add: turn_sends_def)
  next
    case (Some turn)
    then obtain snap ks where turn: "of_turn w = Some (snap, ks)"
      by (cases turn) simp
    show ?thesis
    proof (cases ks)
      case Nil
      with cur turn show ?thesis
        by (auto simp: turn_sends_def page_current_def in_turn_def)
    next
      case (Cons k js)
      have "map_of (of_pages w) k = None" if "k \<notin> set (keys (of_pages w))"
        using that by (simp add: map_of_keys_None)
      with cur turn Cons show ?thesis
        by (cases "k \<in> set (keys (of_pages w))")
          (auto simp: turn_sends_def page_closes_def page_current_def in_turn_def Let_def, metis not_None_eq)
    qed
  qed
qed

lemma page_steps_quiet:
  "tells w (page_opens pe c e k w) \<and> of_admin (page_opens pe c e k w) = of_admin w"
  "tells w (page_closes k w) \<and> of_admin (page_closes k w) = of_admin w"
  "tells w (turn_begins pe c e w) \<and> of_admin (turn_begins pe c e w) = of_admin w"
  "tells w (turn_sends e w) \<and> of_admin (turn_sends e w) = of_admin w"
  by (auto simp: page_opens_def page_closes_def turn_begins_def turn_sends_def Let_def intro!: tells_quiet
      split: option.splits list.splits prod.splits)

lemma office_step_keeps:
  assumes "office_step pe c w w'" and "orch_wf (of_admin w)"
  shows "tells w w' \<and> orch_wf (of_admin w') \<and> (page_current w \<longrightarrow> page_current w')"
  using assms
proof (induction rule: office_step.induct)
  case fs_create
  then show ?case by (intro out_create.keeps) simp_all
next
  case fs_act
  then show ?case by (intro out_act.keeps) simp_all
next
  case fs_policy
  then show ?case by (intro out_policy.keeps) simp_all
next
  case fs_hello
  then show ?case by (intro out_hello.keeps) simp_all
next
  case fs_status
  then show ?case by (intro out_status.keeps) simp_all
next
  case fs_goodbye
  then show ?case by (intro out_goodbye.keeps) simp_all
next
  case fs_detach
  then show ?case by (intro out_detach.keeps) simp_all
next
  case fs_note
  then show ?case by (intro out_note.keeps) simp_all
next
  case fs_clock
  then show ?case by (intro out_clock.keeps) simp_all
next
  case fs_keepalive
  then show ?case by (intro out_keepalive.keeps) simp_all
next
  case fs_supervise
  then show ?case by (intro out_supervise.keeps) simp_all
next
  case (fs_posted w i r)
  then show ?case
    by (simp add: tells_def told_def posting_effect page_current_def in_turn_def)
next
  case fs_page
  then show ?case by (simp add: page_steps(1) page_steps_quiet(1))
next
  case fs_gone
  then show ?case by (simp add: page_steps(2) page_steps_quiet(2))
next
  case fs_turn
  then show ?case by (simp add: page_steps(3) page_steps_quiet(3))
next
  case fs_send
  then show ?case by (simp add: page_steps(4) page_steps_quiet(4))
qed

text \<open>An event about a run settles its state whatever was known before; without one nothing changes.\<close>

lemma told_heard:
  "(\<exists>ev \<in> set es. le_trace ev = Some k) \<Longrightarrow> told k es x = told k es y"
  "\<not> (\<exists>ev \<in> set es. le_trace ev = Some k) \<Longrightarrow> told k es x = x"
  by (induction es arbitrary: x y) (auto simp: told_def told_next_def)

definition replayed :: "admin \<Rightarrow> string set \<Rightarrow> office \<Rightarrow> bool" where
  "replayed s0 unheard w \<longleftrightarrow>
     (log_enabled (of_log w) \<longrightarrow>
        (\<forall>k. state_text (of_admin w) k =
           (if k \<in> unheard then Some ''starting'' else told k (el_emitted (of_log w)) (state_text s0 k))))"

lemma replayed_step:
  assumes "tells w w'" and "replayed s0 u w"
  shows "replayed s0 (u - heard_of w w') w'"
proof (cases "log_enabled (of_log w)")
  case True
  then obtain es where es: "el_emitted (of_log w') = el_emitted (of_log w) @ es"
      "\<And>k. state_text (of_admin w') k = told k es (state_text (of_admin w) k)"
    using assms(1) by (auto simp: tells_def)
  have heard: "k \<in> heard_of w w' \<longleftrightarrow> (\<exists>ev \<in> set es. le_trace ev = Some k)" for k
    by (simp add: heard_of_def es(1))
  have "told k (el_emitted (of_log w) @ es) x = told k es (told k (el_emitted (of_log w)) x)" for k x
    by (simp add: told_def)
  then show ?thesis
    using assms(2) True told_heard heard unfolding replayed_def es by (smt (verit, del_insts) Diff_iff)
next
  case False
  then show ?thesis
    using assms(1) by (simp add: tells_def replayed_def)
qed

lemma low_disk_moves:
  assumes wf: "table_wf (ad_runs s)" and "fst (act c e rid a s) = Inl Low_Disk"
  shows "state_text (snd (act c e rid a s)) k = (if k = rid then Some ''starting'' else state_text s k)"
proof -
  have id: "r_id r0 = rid" if "get_run rid s = Inr r0" for r0
    using that table_wf_id [OF wf] by (simp add: get_run_Inr)
  have known: "get_run rid s \<noteq> Inl Low_Disk"
    by (simp add: get_run_def split: option.splits)
  have start: "run_state_str st = ''starting''" if "advance st0 Ev_Start = Inr st" for st0 st
    using that by (cases st0) auto
  show ?thesis
    using assms(2) id known
    by (auto simp: act_def act_start_def act_stop_def act_remove_def Let_def state_text_def put_run_def
        split: sum.splits run_action.splits if_splits prod.splits simp del: advance_Inr dest: start)
qed

lemma office_raise_keeps:
  assumes "office_raise c ks w w'" and "orch_wf (of_admin w)" and "replayed s0 u w"
  shows "orch_wf (of_admin w') \<and> replayed s0 (u \<union> ks) w'"
  using assms
proof cases
  case (ra_act e rid a)
  then have "of_log w' = of_log w"
    by (auto simp: act_out_def split: prod.splits sum.splits)
  then show ?thesis
    using ra_act assms(2,3) low_disk_moves [OF wf_table [OF assms(2)] ra_act(3)]
    by (simp add: act_out_admin acting.wf replayed_def)
next
  case (ra_status e nid st)
  then have "of_log w' = of_log w"
    by (auto simp: status_out_def split: prod.splits sum.splits)
  then show ?thesis
    using ra_status assms(2,3) same_states_text [OF status_states [OF wf_table [OF assms(2)]]]
    by (simp add: status_out_admin reporting.wf replayed_def)
qed

lemma office_reachable_keeps:
  assumes "office_reachable pe c url s0 u b w" and "orch_wf s0"
  shows "orch_wf (of_admin w) \<and> log_enabled (of_log w) = log_enabled (new_event_log url) \<and> replayed s0 u w
    \<and> (b \<or> page_current w)"
  using assms
proof (induction rule: office_reachable.induct)
  case fr_start
  then show ?case
    by (simp add: open_office_def page_current_def in_turn_def replayed_def told_def new_event_log_def)
next
  case (fr_step u b w w')
  then have "tells w w' \<and> orch_wf (of_admin w') \<and> (page_current w \<longrightarrow> page_current w')"
    by (intro office_step_keeps) simp_all
  moreover have "of_dirty w' \<Longrightarrow> page_current w'"
    by (simp add: page_current_def)
  ultimately show ?case
    using fr_step replayed_step [of w w' s0 u] by (auto simp: tells_def)
next
  case (fr_raise u b w ks w')
  have "log_enabled (of_log w') = log_enabled (of_log w)"
    using fr_raise(2) by cases (auto simp: act_out_def status_out_def split: prod.splits sum.splits)
  then show ?case
    using fr_raise office_raise_keeps [of c ks w w' s0 u] by (auto simp: page_current_def)
qed

text \<open>A round of the broadcast loop that nothing interrupts ends with every page it reached current, and
  with the pages that took no frame gone.\<close>

lemma turn_finishes:
  assumes "of_turn w = Some (snap, ks)"
  shows "of_turn ((turn_sends e ^^ Suc (length ks)) w) = None
    \<and> of_dirty ((turn_sends e ^^ Suc (length ks)) w) = of_dirty w
    \<and> of_admin ((turn_sends e ^^ Suc (length ks)) w) = of_admin w"
  using assms
proof (induction ks arbitrary: w)
  case Nil
  then show ?case by (simp add: turn_sends_def)
next
  case (Cons k ks)
  have after: "of_turn (turn_sends e w) = Some (snap, ks)" "of_dirty (turn_sends e w) = of_dirty w"
    "of_admin (turn_sends e w) = of_admin w"
    using Cons.prems by (simp_all add: turn_sends_def page_closes_def Let_def)
  show ?case
    using Cons.IH [OF after(1)] after by (simp add: funpow_swap1)
qed

lemma turn_refreshes:
  assumes "of_dirty w" and "of_turn w = None"
    and "w' = (turn_sends e ^^ Suc (length (of_pages w))) (turn_begins pe c e w)"
  shows "\<not> of_dirty w' \<and> of_turn w' = None \<and> of_admin w' = of_admin w \<and> page_current w'"
proof -
  have turn: "of_turn (turn_begins pe c e w) = Some (snapshot_of pe c e (of_admin w), keys (of_pages w))"
    using assms(1,2) by (simp add: turn_begins_def)
  have len: "length (keys (of_pages w)) = length (of_pages w)"
    by (simp add: keys_def)
  have "page_current ((turn_sends e ^^ n) (turn_begins pe c e w))" for n
    using assms(1) by (induction n) (simp_all add: page_steps(4) page_steps(3) page_current_def [of w])
  then have "page_current w'"
    unfolding assms(3) .
  moreover have "of_turn w' = None \<and> of_dirty w' = of_dirty (turn_begins pe c e w)
      \<and> of_admin w' = of_admin (turn_begins pe c e w)"
    using turn_finishes [OF turn, of e] unfolding assms(3) len .
  ultimately show ?thesis
    using assms(1,2) by (simp add: turn_begins_def)
qed

text \<open>A start refused for want of disk moves the run to \<open>starting\<close> and tells nobody: no event, no mark.\<close>

lemma refused_start_unseen:
  assumes "get_run rid (of_admin w) = Inr r" and "r_id r = rid" and "r_state r = Draft"
    and "slot_free rid r (of_admin w)" and "\<not> headroom_ok c e"
  shows "\<exists>w'. act_out c e rid Act_Start w = (Inl Low_Disk, w') \<and> of_log w' = of_log w
    \<and> of_dirty w' = of_dirty w \<and> state_text (of_admin w') rid = Some ''starting''"
  using assms by (simp add: act_out_def act_def act_start_def Let_def advance_def state_text_def)

text \<open>A post that ends is counted once at most, and leaves the threads that still run.\<close>

lemma posts_accounted:
  assumes "el_posted l + el_failures l + length (el_flight l) \<le> length (el_emitted l)"
  shows "el_posted (emit m i lv x l) + el_failures (emit m i lv x l) + length (el_flight (emit m i lv x l))
           \<le> length (el_emitted (emit m i lv x l))"
    and "el_posted (post_ends n r l) + el_failures (post_ends n r l) + length (el_flight (post_ends n r l))
           \<le> length (el_emitted (post_ends n r l))"
  using assms by (auto simp: emit_def post_ends_def Let_def split: post_end.splits)

section \<open>The properties\<close>

text \<open>C28. An idle page is a true page: after the operations of the service in any order, interleaved with
  pages that open, close or stop taking frames and with broadcasts in progress, whenever no repaint is
  due and no round is under way, every open page shows the run table, the active run and the findings
  as the orchestrator holds them. The one exception is the operation that raises after it changed the
  table (a start refused for want of disk, a status whose codec precision is no number): it marks
  nothing, and the property speaks of the pages again from the next operation that marks them.\<close>

theorem page_is_current:
  assumes "orch_reachable c s0" and "office_reachable pe c url s0 unheard False w"
    and "\<not> of_dirty w" and "of_turn w = None" and "map_of (of_pages w) k = Some shown"
  shows "pget shown ''runs'' = JArr (map run_row (all_runs (of_admin w)))
    \<and> pget shown ''active_run_id'' = opt_json (JStr \<circ> r_id) (active_run (of_admin w))
    \<and> pget shown ''findings'' = JArr (map (JObj \<circ> finding_to_dict) (ad_findings (of_admin w)))"
  using office_reachable_keeps [OF assms(2) orch_reachable_wf [OF assms(1)]] assms(3-5)
  by (simp add: page_current_def in_turn_def says_view_def)

text \<open>C33. The events tell the moves of the runs: with posting enabled, the states the emitted events
  report, read in order over the states at startup, give the present state of each run, whatever
  operations and passes of the supervisor came between, but for the runs whose start was refused for
  want of disk and that no event has named since. Those are starting, and the log does not say so.\<close>

theorem events_replay_states:
  assumes "orch_reachable c s0" and "office_reachable pe c url s0 unheard raised w"
    and "log_enabled (new_event_log url)"
  shows "state_text (of_admin w) k =
    (if k \<in> unheard then Some ''starting'' else told k (el_emitted (of_log w)) (state_text s0 k))"
  using office_reachable_keeps [OF assms(2) orch_reachable_wf [OF assms(1)]] assms(3)
  by (simp add: replayed_def)

section \<open>Witnesses\<close>

text \<open>A service with one page open, whose operator removes a run that a crash had interrupted, and the
  same service once the page was repainted.\<close>

definition example_page :: page_env where
  "example_page = \<lparr>pe_version = ''0.1.0'', pe_logging_url = [], pe_round = (\<lambda>_. JNull)\<rparr>"

definition removing_office :: office where
  "removing_office = snd (act_out example_config (example_env 2 100) ''r1'' Act_Remove
     (page_opens example_page example_config (example_env 1 100) 5 (open_office ''http://l:8000/'' failed_admin)))"

definition painted_office :: office where
  "painted_office = turn_sends (example_env 3 100) (turn_sends (example_env 3 100)
     (turn_begins example_page example_config (example_env 3 100) removing_office))"

lemma removal:
  obtains r s where "act example_config (example_env 2 100) ''r1'' Act_Remove failed_admin = (Inr r, s)"
    and "r_state r = Removed" and "map_of (ad_runs s) ''r1'' = Some r"
proof -
  have "\<exists>q. map_of (ad_runs failed_admin) ''r1'' = Some q \<and> r_state q = Failed \<and> r_id q = ''r1'' \<and> \<not> r_removed q"
    by (simp add: failed_admin_def orch_start_def new_admin_def interrupted_load vals_def fail_interrupted_def
        Let_def restored_def example_run_def state_sets)
  then obtain q where q: "map_of (ad_runs failed_admin) ''r1'' = Some q" "r_state q = Failed" "r_id q = ''r1''"
    "\<not> r_removed q"
    by blast
  then have "get_run ''r1'' failed_admin = Inr q"
    by (simp add: get_run_Inr)
  then show ?thesis
    using q by (intro that [of "q\<lparr>r_state := Removed, r_removed := True\<rparr>"
          "snd (act example_config (example_env 2 100) ''r1'' Act_Remove failed_admin)"])
      (simp_all add: act_def act_remove_def Let_def advance_def)
qed

lemma removing_run: "state_text (of_admin removing_office) ''r1'' = Some ''removed''"
proof -
  obtain r s where "act example_config (example_env 2 100) ''r1'' Act_Remove failed_admin = (Inr r, s)"
    "r_state r = Removed" "map_of (ad_runs s) ''r1'' = Some r"
    by (rule removal)
  then show ?thesis
    by (simp add: removing_office_def act_out_admin page_opens_def open_office_def state_text_def)
qed

lemma removing_outputs:
  "of_dirty removing_office" "of_turn removing_office = None" "keys (of_pages removing_office) = [5]"
proof -
  obtain r s where "act example_config (example_env 2 100) ''r1'' Act_Remove failed_admin = (Inr r, s)"
    by (rule removal)
  then show "of_dirty removing_office" "of_turn removing_office = None" "keys (of_pages removing_office) = [5]"
    by (simp_all add: removing_office_def act_out_def page_opens_def open_office_def example_env_def keys_def)
qed

lemma removing_reachable:
  "office_reachable example_page example_config ''http://l:8000/'' failed_admin {} False removing_office"
proof -
  let ?w = "page_opens example_page example_config (example_env 1 100) 5 (open_office ''http://l:8000/'' failed_admin)"
  obtain r s where "act example_config (example_env 2 100) ''r1'' Act_Remove failed_admin = (Inr r, s)"
    by (rule removal)
  then have "fst (act example_config (example_env 2 100) ''r1'' Act_Remove (of_admin ?w)) \<noteq> Inl Low_Disk"
    by (simp add: page_opens_def open_office_def)
  then show ?thesis
    using fr_step [OF fr_step [OF fr_start fs_page] fs_act] unfolding removing_office_def by fastforce
qed

lemma painted_reachable:
  "office_reachable example_page example_config ''http://l:8000/'' failed_admin {} False painted_office"
  using fr_step [OF fr_step [OF fr_step [OF removing_reachable fs_turn] fs_send] fs_send]
  unfolding painted_office_def by fastforce

lemma painted_outputs:
  "\<not> of_dirty painted_office" "of_turn painted_office = None" "map_of (of_pages painted_office) 5 \<noteq> None"
  "of_admin painted_office = of_admin removing_office"
  using removing_outputs
  by (simp_all add: painted_office_def turn_begins_def turn_sends_def Let_def example_env_def keys_dput)

theorem page_is_current_witness:
  "\<exists>shown. map_of (of_pages painted_office) 5 = Some shown
     \<and> pget shown ''runs'' = JArr (map run_row (all_runs (of_admin painted_office)))
     \<and> state_text (of_admin painted_office) ''r1'' = Some ''removed''"
  using page_is_current [OF failed_admin_reachable painted_reachable painted_outputs(1,2)] painted_outputs(3,4)
    removing_run by fastforce

theorem events_replay_states_witness:
  "told ''r1'' (el_emitted (of_log removing_office)) (state_text failed_admin ''r1'') = Some ''removed''"
proof -
  have log: "log_enabled (new_event_log ''http://l:8000/'')"
    by (simp add: log_enabled_def new_event_log_def)
  show ?thesis
    using events_replay_states [OF failed_admin_reachable removing_reachable log, of "''r1''"] removing_run by simp
qed

end
