(* ===== verification/Spec2Isabelle.thy ===== *)
theory Spec2Isabelle
  imports Topology_Spec Run_Store Workflow Ran_Policy Admin_Api_Props Xapp_Props Recording
    Node_Faults Feed_Props Gnb_Feed Osc_Port Ran_Join Media_Join Gpcc_Codec
    Sink_Props Dataset_Replay Lidar_Patterns Ue_Agent Test_Node Page_Props
begin

text \<open>
  A verification development of mec-cast: an admin service that coordinates measurement runs over a
  fleet of nodes, the nodes it commands, and the E2 xApp that steers the RAN for a run.

  \<^bold>\<open>The program.\<close> Nodes (LiDAR clients, edges, renderers, gNB collectors, xApps, media senders, relays
  and receivers) keep a WebSocket to the admin service and send \<open>hello\<close>, \<open>status\<close> and \<open>goodbye\<close>
  frames. An operator creates, starts, stops and removes runs; the service sends commands to the nodes
  of the run's zone, supervises the run by a periodic pass and persists it. In a run the LiDAR client
  publishes clouds, the edge voxelises them and sends the result down, the renderer draws it, and each
  records what it handled. The xApp applies the \<open>ran_policy\<close> of a run to the RIC, subscribes to its
  measurements, and must leave nothing behind when the run ends.

  \<^bold>\<open>Theories and the code they model\<close> (paths under src/).

  The admin service, services/admin/src/mec_cast_admin:

  \<^item> \<open>Py_Prelude\<close>: Python values, dictionaries, exceptions, \<open>int()\<close>, \<open>repr\<close>.
  \<^item> \<open>Run_State\<close>: state.py, the run state machine.
  \<^item> \<open>Wire_Protocol\<close>: protocol.py, frames and \<open>parse\<close>.
  \<^item> \<open>Node_Registry\<close>: registry.py; the locale \<open>node_update\<close> is the contract of an operation on one
    record.
  \<^item> \<open>Topology_Spec\<close>: topology.py, the expected fleet.
  \<^item> \<open>Run_Store\<close>: store.py, run ids, manifests, the journal; the locale \<open>run_store\<close> is the contract
    between a store and its client.
  \<^item> \<open>Workflow\<close>: workflow.py, \<open>diagnose\<close> and its checks.
  \<^item> \<open>Ran_Policy\<close>: ranpolicy.py, and \<open>parse_policy\<close> of the xApp: the two checks of a policy.
  \<^item> \<open>Orchestrator\<close>: orchestrator.py, every handler. \<open>Orchestrator_Inv\<close>: the abstract table of runs
    \<open>table_step\<close>, the locale \<open>orch_op\<close> (an operation refines it and keeps the registry well formed),
    one interpretation per handler, and the reachable states. \<open>Start_Clock\<close>: the clock of a starting
    run, which every operation leaves as it is. \<open>Orchestrator_Props\<close>: the properties.
  \<^item> \<open>Admin_Api\<close>: api.py and schemas.py, the routes that change a run, the check of its parameters, and
    the node socket, as a fold over the events of its loop; \<open>serve_nodes\<close> is any number of them, their
    events in any order. \<open>Admin_Api_Props\<close>: their properties.
  \<^item> \<open>Admin_Page\<close>: events.py, and of orchestrator.py and api.py the snapshot, the page's sockets, the
    broadcast loop, and every operation with the events it emits and the repaint it asks for.
    \<open>Page_Props\<close>: the locale \<open>office_op\<close>, what an operation owes the page and the log, interpreted by
    all of them where they do not raise; an idle page is current and the events replay to the table.
    The two operations that raise after they changed the table are the steps of \<open>office_raise\<close>, and
    \<open>office_reachable\<close> carries what they left unsaid until a later event or mark says it.
  \<^item> \<open>Test_Node\<close>: services/admin/tools/fake_node.py, the stub node, and the findings of \<open>Workflow\<close> its
    misbehaviours raise.

  The xApp, ran/xapp/src/mec_cast_xapp, and ran/py/src/mec_cast_ran:

  \<^item> \<open>Xapp_Core\<close>: core.py; the locale \<open>capability\<close> is the contract between the process and a
    capability: its hooks keep the capability's invariant, and after \<open>on_stop\<close> it is quiet.
  \<^item> \<open>Rc_Control\<close>, \<open>Kpm_Monitor\<close>: the two capabilities, each an interpretation of it.
  \<^item> \<open>Recording\<close>: recording.py; its batcher interprets the locale \<open>counting_queue\<close> of \<open>Bounded_Queue\<close>,
    as the outbound queue of the nodes' client does.
  \<^item> \<open>Xapp\<close>, \<open>Xapp_Props\<close>: app.py, runs, policies, the turn of the loop and its exit.
  \<^item> \<open>Json_Feed\<close>: adapters/jsonfeed.py, the E2 port over the JSON feed, and the transports sim.py and
    flexric.py; the locale \<open>feed_transport\<close> is what the port asks of a transport, interpreted by both.
    \<open>Feed_Props\<close>: its properties over every order of operations, messages and losses.
  \<^item> \<open>Osc_Port\<close>: adapters/osc.py, the port on the OSC RIC, where an acknowledgement names no request;
    \<open>ledger\<close> is the specification of what each control is told.
  \<^item> \<open>Ran_Normalise\<close>: normalise.py and model.py, every layout of a gNB report to samples.

  The simulator, ran/sim:

  \<^item> \<open>Gnb_Sim\<close>: gnb_sim.py; \<open>walk_ues\<close> is the change of a report in place, \<open>e2_handle\<close> one message of
    the E2 feed, \<open>conn_emit\<close> one turn of a thread, \<open>sim_round\<close> one turn of \<open>main\<close>. \<open>Gnb_Props\<close>: caps,
    ranges, and the agreement of the report and its KPM view after both normalisers.
  \<^item> \<open>Gnb_Feed\<close>: the xApp's port and RC capability against the simulator, whose messages, thread turns
    and reports interleave in \<open>e2_run\<close>; its handler refines the specification \<open>far_subs\<close> of a far end.

  The measuring nodes, ros2/src:

  \<^item> \<open>Admin_Client\<close>: protocol.py and client.py of mec_cast_admin_client, the two queues and the session
    of the socket's thread.
  \<^item> \<open>Node_Base\<close>: node_base.py; the locale \<open>run_lifecycle\<close> is what the skeleton asks of \<open>start_run\<close> and
    \<open>stop_run\<close>. The recorder's ring, telemetry/src/recorder.rs, is \<open>try_record\<close> and \<open>writer_takes\<close>: a
    full ring drops a sample and counts it.
  \<^item> \<open>Edge_Node\<close>, \<open>Render_Node\<close>, \<open>Lidar_Client\<close>: edge_node.py, render_node.py and publisher_node.py,
    each an interpretation of it. A cloud the edge cannot reshape raises out of \<open>on_cloud\<close>.
    \<open>Lidar_Replay\<close>: replay.py. \<open>Lidar_Patterns\<close>: the generated clouds, over exact reals, and that they
    stay in the box.
  \<^item> \<open>Node_Props\<close>, \<open>Node_Faults\<close>: what the nodes record and announce, how client and edge fit together,
    and the starts that fail half way.
  \<^item> \<open>Gpcc_Codec\<close>: gpcc.py, the codec's binding with the handles it creates and frees, and that coding
    leaves the edge's voxels as they are, for a library that reorders the points.
  \<^item> \<open>Render_Sinks\<close>, \<open>Sink_Props\<close>: sinks.py, the Rerun viewer from run to run, the republished cloud,
    and what they keep to.
  \<^item> \<open>Ue_Agent\<close>: ue_agent.py, the instances of one robot in a process and their shutdown.

  The tools, src/tools:

  \<^item> \<open>As_Of\<close>: the search, the rows of a CSV file and the period of a series, shared by \<open>Ran_Join\<close>
    (ran_join.py) and \<open>Media_Join\<close> (media_join.py), each up to the table it writes.
  \<^item> \<open>Mat_File\<close>, \<open>Lidar_Dataset\<close>: lidar_dataset.py, the reader of MATLAB files and the conversion of
    recorded sweeps. \<open>Dataset_Props\<close>: files whose data end early; \<open>Dataset_Replay\<close>: what is converted,
    in the client's replay.

  \<^bold>\<open>Bounds.\<close> No definition takes fuel: loops are structural recursion over the list the code walks;
  the \<open>while\<close> of the schedule has the steps left in it as its measure, the bisection the width of its
  interval, the expiry of controls the length of their queue. The polling loop of a node, which only
  an empty queue ends, is a \<open>partial_function\<close>, proved to return once what was queued and what comes
  meanwhile has been taken, and not to return while something comes before every get. Clocks and
  coordinates are exact rationals, those of generated clouds reals; run ids are bytes as \<open>8 word\<close>.

  \<^bold>\<open>Assumptions.\<close> Each handler is atomic and reads one clock value: the code runs on one event loop or
  under one lock, and the interleavings at its \<open>await\<close>s are not modelled, those of the page's
  broadcast loop apart; the threads of a node's client interleave at whole operations, a poll at its
  gets. The key of a run in the table is its id. The capabilities of an xApp have distinct names.
  Properties that need more say so in their text: one unchanged E2 node and a RIC that accepts,
  distinct node ids, a codec library that floors points in some order. Parameters of the model,
  because they are not code of the repository: pydantic's conversions, the YAML and JSON readers,
  \<open>float(text)\<close>, \<open>fromisoformat\<close>, UUID parsing, zlib, the RIC, the middleware, the codec library,
  Rerun, oran-sc-ric's SDK, and the random generators.

  \<^bold>\<open>Not modelled.\<close> The texts of findings; the read-only routes; the class of settings, whose values
  are the fields of \<open>config\<close>; the set-up of the processes from their environment; log lines; the bytes
  of a message beyond their number; the files, snapshots and uploads of the telemetry recorder; the
  rounding of generated points to 32 bits.
\<close>

end
